(* ===== verification/Prelude.thy ===== *)
theory Prelude
  imports Main "HOL-Library.Word" "HOL-Library.Sublist"
begin

text \<open>
  The shared vocabulary of the development: machine integers at the widths of the ESP32 targets
  (\<open>size_t\<close> has 32 bits there), the error codes of ESP-IDF the sources return, C strings as byte
  lists, and the generic lemmas on words and lists that every component uses.

  All C memory is made of bytes (\<open>byte\<close>, an 8-bit word). A pointer argument that may be \<open>NULL\<close> is
  an \<open>option\<close>; a \<open>char\<close> array of a struct is a byte list of the array's length, its terminator and
  padding included; the string it holds is the part before its first zero byte (\<open>cstr\<close>).
\<close>

unbundle bit_operations_syntax

named_theorems c_defs \<open>definitions of C library functions and constants\<close>
named_theorems heap_simps \<open>frame facts of heap operations\<close>

section \<open>Types\<close>

type_synonym byte = "8 word"
type_synonym u16 = "16 word"
type_synonym u32 = "32 word"
type_synonym u64 = "64 word"
type_synonym size_t = "32 word"

text \<open>
  \<open>esp_err_t\<close> of ESP-IDF: the codes the sources name, and every other code a driver may return.
\<close>

datatype esp_err =
    ESP_OK
  | ESP_FAIL
  | ESP_ERR_NO_MEM
  | ESP_ERR_INVALID_ARG
  | ESP_ERR_INVALID_STATE
  | ESP_ERR_INVALID_SIZE
  | ESP_ERR_INVALID_RESPONSE
  | ESP_ERR_TIMEOUT
  | ESP_ERR_NOT_SUPPORTED
  | ESP_ERR_NVS_NO_FREE_PAGES
  | ESP_ERR_NVS_NEW_VERSION_FOUND
  | ESP_ERR_OTHER nat

section \<open>C strings\<close>

text \<open>The bytes of a string literal, without the terminator.\<close>

definition str :: "string \<Rightarrow> byte list" where
  "str s = map (\<lambda>c. word_of_nat (of_char c)) s"

text \<open>The C string that starts at a pointer: the bytes before the first zero.\<close>

definition cstr :: "byte list \<Rightarrow> byte list" where
  "cstr s = takeWhile (\<lambda>b. b \<noteq> 0) s"

definition strlen :: "byte list \<Rightarrow> nat" where
  [c_defs]: "strlen s = length (cstr s)"

text \<open>\<open>strnlen\<close> looks at no more than \<open>n\<close> bytes.\<close>

definition strnlen :: "byte list \<Rightarrow> nat \<Rightarrow> nat" where
  [c_defs]: "strnlen s n = length (cstr (take n s))"

text \<open>\<open>strncpy\<close> writes exactly \<open>n\<close> bytes: at most \<open>n\<close> of the string, then zeros.\<close>

definition strncpy :: "byte list \<Rightarrow> byte list \<Rightarrow> nat \<Rightarrow> byte list" where
  "strncpy target source n =
     (let c = take n (cstr source) in c @ replicate (n - length c) 0 @ drop n target)"

lemma str_simps [simp]:
  "str [] = []" "str (c # cs) = word_of_nat (of_char c) # str cs"
  by (simp_all add: str_def)

lemma length_str [simp]: "length (str s) = length s"
  by (simp add: str_def)

lemma cstr_simps [simp]:
  "cstr [] = []" "cstr (b # bs) = (if b = 0 then [] else b # cstr bs)"
  by (simp_all add: cstr_def)

lemma cstr_no_zero [simp]: "0 \<notin> set (cstr s)"
  by (auto simp: cstr_def dest: set_takeWhileD)

lemma cstr_idem: "0 \<notin> set s \<Longrightarrow> cstr s = s"
  by (auto simp: cstr_def takeWhile_eq_all_conv)

lemma cstr_cstr [simp]: "cstr (cstr s) = cstr s"
  by (simp add: cstr_idem)

lemma cstr_append_zero: "0 \<notin> set s \<Longrightarrow> cstr (s @ 0 # t) = s"
  by (induction s) auto

lemma cstr_append_zeros: "0 \<notin> set s \<Longrightarrow> cstr (s @ replicate n 0) = s"
  by (cases n) (simp_all add: cstr_append_zero cstr_idem)

lemma length_cstr_le: "length (cstr s) \<le> length s"
  by (simp add: cstr_def length_takeWhile_le)

lemma cstr_take: "cstr (take n s) = take n (cstr s)"
  by (induction s arbitrary: n) (auto simp: take_Cons split: nat.splits)

lemma strnlen_less: "strnlen s n < n \<longleftrightarrow> strlen s < n"
  by (auto simp: c_defs cstr_take)

lemma length_strncpy: "n \<le> length t \<Longrightarrow> length (strncpy t s n) = length t"
  by (auto simp: strncpy_def Let_def)

section \<open>Words\<close>

lemma unat_lt_pow: "unat (w :: 'a::len word) < 2 ^ LENGTH('a)"
  by (rule unsigned_less)

lemma unat_u32_lt [simp]: "unat (w :: u32) < 4294967296"
  using unat_lt_pow [of w] by simp

lemma unat_of_nat_small32: "n < 4294967296 \<Longrightarrow> unat (of_nat n :: u32) = n"
  by (simp add: unat_of_nat)

lemma unat_add_small32:
  "unat (a :: u32) + unat b < 4294967296 \<Longrightarrow> unat (a + b) = unat a + unat b"
  by (simp add: unat_word_ariths)

lemma u32_add_no_wrap:
  "unat (a :: u32) + unat b < 4294967296 \<Longrightarrow> \<not> a + b < a"
  by (simp add: word_less_nat_alt unat_add_small32)

section \<open>Lists\<close>

lemma list_update_same_length: "length (xs[i := x]) = length xs"
  by simp

lemma find_SomeD: "find P xs = Some x \<Longrightarrow> x \<in> set xs \<and> P x"
  by (induction xs) (auto split: if_splits)

end
