(* ===== verification/PbStream.thy ===== *)
theory PbStream
  imports Prelude
begin

text \<open>
  The output stream of nanopb (\<open>pb_encode.c\<close>, lines 53-105, and \<open>pb_encode.h\<close>) and the contract its
  clients rely on. A stream whose callback is \<open>NULL\<close> only counts bytes; a buffer stream copies them
  to memory. The contract is the locale \<open>byte_writer\<close>: a writer stands for a fixed byte sequence,
  adds exactly its length to a counting stream, appends exactly these bytes to a buffer that has room,
  and on a buffer without room fails after writing a prefix that stays inside the buffer.
\<close>

section \<open>Streams\<close>

text \<open>
  \<open>pb_ostream_t\<close>: \<open>os_sink\<close> is \<open>None\<close> when the callback pointer is \<open>NULL\<close>, and otherwise holds the
  bytes that \<open>buf_write\<close> has copied to the buffer so far (the \<open>state\<close> pointer is the buffer's
  address plus their number).
\<close>

record pb_ostream =
  os_sink :: "byte list option"
  os_max_size :: size_t
  os_bytes_written :: size_t
  os_errmsg :: "string option"

type_synonym writer = "pb_ostream \<Rightarrow> bool \<times> pb_ostream"

definition PB_OSTREAM_SIZING :: pb_ostream where
  "PB_OSTREAM_SIZING =
     \<lparr>os_sink = None, os_max_size = 0, os_bytes_written = 0, os_errmsg = None\<rparr>"

text \<open>\<open>PB_SET_ERROR\<close> keeps the first message; \<open>PB_RETURN_ERROR\<close> then returns false.\<close>

definition PB_SET_ERROR :: "pb_ostream \<Rightarrow> string \<Rightarrow> pb_ostream" where
  "PB_SET_ERROR stream msg =
     stream\<lparr>os_errmsg := (case os_errmsg stream of None \<Rightarrow> Some msg | Some m \<Rightarrow> Some m)\<rparr>"

definition PB_GET_ERROR :: "pb_ostream \<Rightarrow> string" where
  "PB_GET_ERROR stream = (case os_errmsg stream of None \<Rightarrow> ''(none)'' | Some m \<Rightarrow> m)"

definition PB_RETURN_ERROR :: "pb_ostream \<Rightarrow> string \<Rightarrow> bool \<times> pb_ostream" where
  "PB_RETURN_ERROR stream msg = (False, PB_SET_ERROR stream msg)"

definition buf_write :: "pb_ostream \<Rightarrow> byte list \<Rightarrow> size_t \<Rightarrow> bool \<times> pb_ostream" where
  "buf_write stream buf count =
     (True, stream\<lparr>os_sink :=
        (case os_sink stream of None \<Rightarrow> None
         | Some dest \<Rightarrow> Some (dest @ take (unat count) buf))\<rparr>)"

definition pb_ostream_from_buffer :: "size_t \<Rightarrow> pb_ostream" where
  "pb_ostream_from_buffer bufsize =
     \<lparr>os_sink = Some [], os_max_size = bufsize, os_bytes_written = 0, os_errmsg = None\<rparr>"

definition pb_write :: "pb_ostream \<Rightarrow> byte list \<Rightarrow> size_t \<Rightarrow> bool \<times> pb_ostream" where
  "pb_write stream buf count =
     (if count > 0 \<and> os_sink stream \<noteq> None then
        if os_bytes_written stream + count < os_bytes_written stream \<or>
           os_bytes_written stream + count > os_max_size stream
        then PB_RETURN_ERROR stream ''stream full''
        else
          (case buf_write stream buf count of
             (ok, s1) \<Rightarrow>
               if \<not> ok then PB_RETURN_ERROR s1 ''io error''
               else (True, s1\<lparr>os_bytes_written := os_bytes_written s1 + count\<rparr>))
      else (True, stream\<lparr>os_bytes_written := os_bytes_written stream + count\<rparr>))"

text \<open>The C idiom \<open>if (!f(stream)) return false; return g(stream);\<close>.\<close>

definition seqw :: "writer \<Rightarrow> writer \<Rightarrow> writer" where
  "seqw f g stream = (case f stream of (ok, s1) \<Rightarrow> if ok then g s1 else (False, s1))"

section \<open>The contract of a writer\<close>

locale byte_writer =
  fixes w :: writer and bs :: "byte list" and ok :: bool
  assumes sizing:
    "os_sink s = None \<Longrightarrow>
       \<exists>e. w s = (ok, s\<lparr>os_bytes_written := os_bytes_written s + of_nat (length bs),
                        os_errmsg := e\<rparr>)"
  and writes:
    "os_sink s = Some out \<Longrightarrow> unat (os_bytes_written s) + length bs \<le> unat (os_max_size s) \<Longrightarrow>
       \<exists>e. w s = (ok, s\<lparr>os_sink := Some (out @ bs),
                        os_bytes_written := os_bytes_written s + of_nat (length bs),
                        os_errmsg := e\<rparr>)"
  and full:
    "os_sink s = Some out \<Longrightarrow> unat (os_bytes_written s) \<le> unat (os_max_size s) \<Longrightarrow>
     unat (os_max_size s) < unat (os_bytes_written s) + length bs \<Longrightarrow>
     unat (os_bytes_written s) + length bs < 4294967296 \<Longrightarrow>
       \<exists>p e. w s = (False, s\<lparr>os_sink := Some (out @ p),
                        os_bytes_written := os_bytes_written s + of_nat (length p),
                        os_errmsg := e\<rparr>) \<and>
             prefix p bs \<and> unat (os_bytes_written s) + length p \<le> unat (os_max_size s)"
begin

text \<open>What a client sees of a writer run on a fresh buffer of \<open>n\<close> bytes.\<close>

lemma fresh_buffer_ok:
  assumes "length bs \<le> unat n"
  shows "fst (w (pb_ostream_from_buffer n)) = ok"
    and "os_sink (snd (w (pb_ostream_from_buffer n))) = Some bs"
    and "os_bytes_written (snd (w (pb_ostream_from_buffer n))) = of_nat (length bs)"
  using writes [of "pb_ostream_from_buffer n" "[]"] assms
  by (auto simp: pb_ostream_from_buffer_def)

lemma fresh_buffer_full:
  assumes "unat n < length bs" "length bs < 4294967296"
  shows "\<not> fst (w (pb_ostream_from_buffer n))"
    and "\<exists>p. os_sink (snd (w (pb_ostream_from_buffer n))) = Some p \<and> prefix p bs \<and> length p \<le> unat n"
  using full [of "pb_ostream_from_buffer n" "[]"] assms
  by (auto simp: pb_ostream_from_buffer_def)

lemma fresh_sizing:
  "fst (w PB_OSTREAM_SIZING) = ok"
  "os_bytes_written (snd (w PB_OSTREAM_SIZING)) = of_nat (length bs)"
  using sizing [of PB_OSTREAM_SIZING] by (auto simp: PB_OSTREAM_SIZING_def)

end

section \<open>Sequencing\<close>

lemma unat_add_of_nat32:
  assumes "unat (b :: u32) + n \<le> unat (m :: u32)"
  shows "unat (b + of_nat n) = unat b + n"
proof -
  have "unat m < 4294967296" by simp
  with assms have "n < 4294967296" and "unat b + n < 4294967296" by linarith+
  then show ?thesis by (simp add: unat_add_small32 unat_of_nat_small32)
qed

lemma byte_writer_seqw:
  assumes f: "byte_writer f b1 True" and g: "byte_writer g b2 ok"
  shows "byte_writer (seqw f g) (b1 @ b2) ok"
proof
  fix s :: pb_ostream assume s: "os_sink s = None"
  obtain e1 where e1: "f s = (True, s\<lparr>os_bytes_written := os_bytes_written s + of_nat (length b1),
    os_errmsg := e1\<rparr>)" using byte_writer.sizing [OF f s] by blast
  show "\<exists>e. seqw f g s = (ok, s\<lparr>os_bytes_written := os_bytes_written s + of_nat (length (b1 @ b2)),
    os_errmsg := e\<rparr>)"
    using byte_writer.sizing [OF g, of "snd (f s)"] s by (auto simp: seqw_def e1 add.assoc)
next
  fix s :: pb_ostream and out assume s: "os_sink s = Some out"
    and r: "unat (os_bytes_written s) + length (b1 @ b2) \<le> unat (os_max_size s)"
  then have r1: "unat (os_bytes_written s) + length b1 \<le> unat (os_max_size s)" by simp
  obtain e1 where e1: "f s = (True, s\<lparr>os_sink := Some (out @ b1),
      os_bytes_written := os_bytes_written s + of_nat (length b1), os_errmsg := e1\<rparr>)"
    using byte_writer.writes [OF f s r1] by blast
  show "\<exists>e. seqw f g s = (ok, s\<lparr>os_sink := Some (out @ (b1 @ b2)),
      os_bytes_written := os_bytes_written s + of_nat (length (b1 @ b2)), os_errmsg := e\<rparr>)"
    using byte_writer.writes [OF g, of "snd (f s)" "out @ b1"] r
    by (auto simp: seqw_def e1 add.assoc unat_add_of_nat32 [OF r1])
next
  fix s :: pb_ostream and out assume s: "os_sink s = Some out"
    and m: "unat (os_bytes_written s) \<le> unat (os_max_size s)"
    and r: "unat (os_max_size s) < unat (os_bytes_written s) + length (b1 @ b2)"
    and b: "unat (os_bytes_written s) + length (b1 @ b2) < 4294967296"
  show "\<exists>p e. seqw f g s = (False, s\<lparr>os_sink := Some (out @ p),
      os_bytes_written := os_bytes_written s + of_nat (length p), os_errmsg := e\<rparr>) \<and>
      prefix p (b1 @ b2) \<and> unat (os_bytes_written s) + length p \<le> unat (os_max_size s)"
  proof (cases "unat (os_bytes_written s) + length b1 \<le> unat (os_max_size s)")
    case r1: True
    obtain e1 where e1: "f s = (True, s\<lparr>os_sink := Some (out @ b1),
        os_bytes_written := os_bytes_written s + of_nat (length b1), os_errmsg := e1\<rparr>)"
      using byte_writer.writes [OF f s r1] by blast
    have u: "unat (os_bytes_written s + of_nat (length b1)) = unat (os_bytes_written s) + length b1"
      by (rule unat_add_of_nat32 [OF r1])
    obtain p e where p: "g (snd (f s)) = (False, (snd (f s))\<lparr>os_sink := Some ((out @ b1) @ p),
        os_bytes_written := os_bytes_written (snd (f s)) + of_nat (length p), os_errmsg := e\<rparr>)"
      "prefix p b2"
      "unat (os_bytes_written (snd (f s))) + length p \<le> unat (os_max_size (snd (f s)))"
      using byte_writer.full [OF g, of "snd (f s)" "out @ b1"] r r1 b by (auto simp: e1 u)
    show ?thesis
      by (rule exI [of _ "b1 @ p"], rule exI [of _ e])
        (use p in \<open>auto simp: seqw_def e1 u add.assoc\<close>)
  next
    case False
    then obtain p e where "f s = (False, s\<lparr>os_sink := Some (out @ p),
        os_bytes_written := os_bytes_written s + of_nat (length p), os_errmsg := e\<rparr>)"
      "prefix p b1" "unat (os_bytes_written s) + length p \<le> unat (os_max_size s)"
      using byte_writer.full [OF f s m] b by auto
    then show ?thesis by (auto simp: seqw_def intro: prefix_prefix)
  qed
qed

lemma byte_writer_seqw_fail:
  assumes f: "byte_writer f b1 False"
  shows "byte_writer (seqw f g) b1 False"
proof
  fix s :: pb_ostream assume "os_sink s = None"
  then show "\<exists>e. seqw f g s = (False, s\<lparr>os_bytes_written := os_bytes_written s + of_nat (length b1),
    os_errmsg := e\<rparr>)" by (auto simp: seqw_def dest!: byte_writer.sizing [OF f])
next
  fix s :: pb_ostream and out assume "os_sink s = Some out"
    "unat (os_bytes_written s) + length b1 \<le> unat (os_max_size s)"
  then show "\<exists>e. seqw f g s = (False, s\<lparr>os_sink := Some (out @ b1),
      os_bytes_written := os_bytes_written s + of_nat (length b1), os_errmsg := e\<rparr>)"
    by (auto simp: seqw_def dest!: byte_writer.writes [OF f])
next
  fix s :: pb_ostream and out assume "os_sink s = Some out" "unat (os_bytes_written s) \<le> unat (os_max_size s)"
    "unat (os_max_size s) < unat (os_bytes_written s) + length b1"
    "unat (os_bytes_written s) + length b1 < 4294967296"
  then obtain p e where "f s = (False, s\<lparr>os_sink := Some (out @ p),
      os_bytes_written := os_bytes_written s + of_nat (length p), os_errmsg := e\<rparr>)"
      "prefix p b1" "unat (os_bytes_written s) + length p \<le> unat (os_max_size s)"
    using byte_writer.full [OF f] by blast
  then show "\<exists>p e. seqw f g s = (False, s\<lparr>os_sink := Some (out @ p),
      os_bytes_written := os_bytes_written s + of_nat (length p), os_errmsg := e\<rparr>) \<and>
      prefix p b1 \<and> unat (os_bytes_written s) + length p \<le> unat (os_max_size s)"
    by (intro exI [of _ p] exI [of _ e]) (simp add: seqw_def)
qed

text \<open>A writer that returns at once, with or without an error message.\<close>

lemma byte_writer_return: "byte_writer (\<lambda>s. (True, s)) [] True"
proof
  fix s :: pb_ostream
  show "\<exists>e. (True, s) = (True, s\<lparr>os_bytes_written := os_bytes_written s + of_nat (length []),
      os_errmsg := e\<rparr>)"
    by (rule exI [of _ "os_errmsg s"]) simp
next
  fix s :: pb_ostream and out assume "os_sink s = Some out"
  then show "\<exists>e. (True, s) = (True, s\<lparr>os_sink := Some (out @ []),
      os_bytes_written := os_bytes_written s + of_nat (length []), os_errmsg := e\<rparr>)"
    by (intro exI [of _ "os_errmsg s"]) (cases s, simp)
qed simp_all

lemma byte_writer_error: "byte_writer (\<lambda>s. PB_RETURN_ERROR s m) [] False"
proof
  fix s :: pb_ostream
  show "\<exists>e. PB_RETURN_ERROR s m = (False, s\<lparr>os_bytes_written :=
      os_bytes_written s + of_nat (length []), os_errmsg := e\<rparr>)"
    by (simp add: PB_RETURN_ERROR_def PB_SET_ERROR_def) blast
next
  fix s :: pb_ostream and out assume "os_sink s = Some out"
  then show "\<exists>e. PB_RETURN_ERROR s m = (False, s\<lparr>os_sink := Some (out @ []),
      os_bytes_written := os_bytes_written s + of_nat (length []), os_errmsg := e\<rparr>)"
    by (cases s) (simp add: PB_RETURN_ERROR_def PB_SET_ERROR_def)
qed simp_all

lemma byte_writer_false: "byte_writer (\<lambda>s. (False, s)) [] False"
proof
  fix s :: pb_ostream
  show "\<exists>e. (False, s) = (False, s\<lparr>os_bytes_written := os_bytes_written s + of_nat (length []),
      os_errmsg := e\<rparr>)"
    by (rule exI [of _ "os_errmsg s"]) simp
next
  fix s :: pb_ostream and out assume "os_sink s = Some out"
  then show "\<exists>e. (False, s) = (False, s\<lparr>os_sink := Some (out @ []),
      os_bytes_written := os_bytes_written s + of_nat (length []), os_errmsg := e\<rparr>)"
    by (intro exI [of _ "os_errmsg s"]) (cases s, simp)
qed simp_all

section \<open>\<open>pb_write\<close> meets the contract\<close>

lemma byte_writer_pb_write:
  assumes n: "length bs = unat n"
  shows "byte_writer (\<lambda>s. pb_write s bs n) bs True"
proof
  have wn: "of_nat (length bs) = n" by (simp add: n)
  fix s :: pb_ostream assume "os_sink s = None"
  then show "\<exists>e. pb_write s bs n =
      (True, s\<lparr>os_bytes_written := os_bytes_written s + of_nat (length bs), os_errmsg := e\<rparr>)"
    by (intro exI [of _ "os_errmsg s"]) (simp add: pb_write_def wn)
next
  have wn: "of_nat (length bs) = n" by (simp add: n)
  fix s :: pb_ostream and out assume s: "os_sink s = Some out"
    and r: "unat (os_bytes_written s) + length bs \<le> unat (os_max_size s)"
  have lt: "unat (os_bytes_written s) + unat n < 4294967296"
    using r n unat_u32_lt [of "os_max_size s"] by linarith
  have "\<not> os_bytes_written s + n < os_bytes_written s" by (rule u32_add_no_wrap [OF lt])
  moreover have "\<not> os_bytes_written s + n > os_max_size s"
    using r n by (simp add: word_less_nat_alt unat_add_small32 [OF lt])
  ultimately show "\<exists>e. pb_write s bs n = (True, s\<lparr>os_sink := Some (out @ bs),
      os_bytes_written := os_bytes_written s + of_nat (length bs), os_errmsg := e\<rparr>)"
    using s n by (intro exI [of _ "os_errmsg s"], cases s)
      (auto simp: pb_write_def buf_write_def wn word_gt_0)
next
  fix s :: pb_ostream and out assume s: "os_sink s = Some out"
    and m: "unat (os_bytes_written s) \<le> unat (os_max_size s)"
    and r: "unat (os_max_size s) < unat (os_bytes_written s) + length bs"
    and b: "unat (os_bytes_written s) + length bs < 4294967296"
  from m r n have "n > 0" by (simp add: word_neq_0_conv [symmetric] unat_eq_0 [symmetric])
  moreover from b n have "unat (os_bytes_written s + n) = unat (os_bytes_written s) + unat n"
    by (simp add: unat_add_small32)
  ultimately have "pb_write s bs n = PB_RETURN_ERROR s ''stream full''"
    using s r n by (simp add: pb_write_def word_less_nat_alt)
  then show "\<exists>p e. pb_write s bs n = (False, s\<lparr>os_sink := Some (out @ p),
      os_bytes_written := os_bytes_written s + of_nat (length p), os_errmsg := e\<rparr>) \<and>
      prefix p bs \<and> unat (os_bytes_written s) + length p \<le> unat (os_max_size s)"
    using s m by (intro exI [of _ "[]"], cases s) (simp add: PB_RETURN_ERROR_def PB_SET_ERROR_def)
qed

interpretation one_byte: byte_writer "\<lambda>s. pb_write s [b] 1" "[b]" True for b
  by (rule byte_writer_pb_write) simp

end
