(* ===== verification/PbVarint.thy ===== *)
theory PbVarint
  imports PbStream
begin

text \<open>
  The scalar encoders of nanopb (\<open>pb_encode.c\<close>, lines 572-722): base-128 varints computed on two
  32-bit halves, zigzag, little-endian fixed-width values, field tags and length-prefixed strings.
  Each is shown to be a writer (\<open>byte_writer\<close>) of the bytes that a reference definition on natural
  numbers gives, and the reference encodings are inverted by the decoders of the wire format.
\<close>

section \<open>Varints\<close>

text \<open>
  \<open>pb_encode_varint_32\<close> works on the low and the high half of the value. \<open>buffer\<close> holds the bytes
  stored so far, so its length is the source's \<open>i\<close>.
\<close>

function varint32_low_loop :: "byte list \<Rightarrow> byte \<Rightarrow> u32 \<Rightarrow> u32 \<Rightarrow> byte list \<times> byte" where
  "varint32_low_loop buffer byte low high =
     (if length buffer < 4 \<and> (low \<noteq> 0 \<or> high \<noteq> 0) then
        varint32_low_loop (buffer @ [byte OR 0x80]) (ucast (low AND 0x7F)) (drop_bit 7 low) high
      else (buffer, byte))"
  by pat_completeness auto
termination
  by (relation "measure (\<lambda>(buffer, byte, low, high). 4 - length buffer)") auto

lemma unat_drop_bit_lt:
  fixes w :: "'a::len word"
  assumes "w \<noteq> 0" "0 < n" shows "unat (drop_bit n w) < unat w"
proof -
  have "unat w \<noteq> 0" using assms(1) by (simp add: unat_eq_0)
  moreover have "(1::nat) < 2 ^ n" using assms(2) by (rule one_less_power [rotated]) simp
  ultimately have "unat w div 2 ^ n < unat w" by (simp add: div_less_dividend)
  then show ?thesis by (simp add: unat_drop_bit_eq drop_bit_nat_def)
qed

function varint32_high_loop :: "byte list \<Rightarrow> byte \<Rightarrow> u32 \<Rightarrow> byte list \<times> byte" where
  "varint32_high_loop buffer byte high =
     (if high \<noteq> 0 then
        varint32_high_loop (buffer @ [byte OR 0x80]) (ucast (high AND 0x7F)) (drop_bit 7 high)
      else (buffer, byte))"
  by pat_completeness auto
termination
  by (relation "measure (\<lambda>(buffer, byte, high). unat high)") (auto intro: unat_drop_bit_lt)

declare varint32_low_loop.simps [simp del] varint32_high_loop.simps [simp del]

definition varint32_bytes :: "u32 \<Rightarrow> u32 \<Rightarrow> byte list" where
  "varint32_bytes low high =
     (let (buffer, byte) =
        varint32_low_loop [] (ucast (low AND 0x7F)) (drop_bit 7 low) high in
      if high \<noteq> 0 then
        let (buffer, byte) =
          varint32_high_loop buffer (byte OR ucast (push_bit 4 (high AND 0x07))) (drop_bit 3 high)
        in buffer @ [byte]
      else buffer @ [byte])"

definition pb_encode_varint_32 :: "pb_ostream \<Rightarrow> u32 \<Rightarrow> u32 \<Rightarrow> bool \<times> pb_ostream" where
  "pb_encode_varint_32 stream low high =
     (let buffer = varint32_bytes low high in pb_write stream buffer (of_nat (length buffer)))"

definition pb_encode_varint :: "pb_ostream \<Rightarrow> u64 \<Rightarrow> bool \<times> pb_ostream" where
  "pb_encode_varint stream value =
     (if value \<le> 0x7F then pb_write stream [ucast value] 1
      else pb_encode_varint_32 stream (ucast value) (ucast (drop_bit 32 value)))"

text \<open>The reference: little-endian base 128, every byte but the last with its top bit set.\<close>

fun varint_ref :: "nat \<Rightarrow> byte list" where
  "varint_ref n =
     (if n < 128 then [of_nat n] else of_nat (n mod 128 + 128) # varint_ref (n div 128))"

declare varint_ref.simps [simp del]

lemma varint_ref_small: "n < 128 \<Longrightarrow> varint_ref n = [of_nat n]"
  by (subst varint_ref.simps) simp

lemma varint_ref_step:
  "0 < m \<Longrightarrow> k < 128 \<Longrightarrow> varint_ref (k + 128 * m) = of_nat (k + 128) # varint_ref m"
  by (subst varint_ref.simps) simp

lemma take_push_disjoint: "take_bit n a AND push_bit n b = (0 :: 'a::len word)"
  by (rule bit_eqI) (auto simp: bit_simps)

lemma push_bit_numeral_one_7: "push_bit 7 (1 :: byte) = 0x80"
  by (simp add: push_bit_eq_mult)

lemma byte_or_80: "unat (b :: byte) < 128 \<Longrightarrow> b OR 0x80 = of_nat (unat b + 128)"
proof -
  assume "unat b < 128"
  then have "b = take_bit 7 b" by (simp add: word_unat_eq_iff take_bit_eq_mod unat_mod)
  then have "b AND 0x80 = 0"
    using take_push_disjoint [of 7 b 1] by (metis push_bit_numeral_one_7)
  then have "b OR 0x80 = b + 0x80"
    using word_plus_and_or [of b "0x80"] by simp
  then show ?thesis by simp
qed

lemma unat_and_7F: "unat (ucast ((w :: u32) AND 0x7F) :: byte) = unat w mod 128"
proof -
  have "w AND 0x7F = take_bit 7 w" by (simp add: take_bit_eq_mask mask_eq_exp_minus_1)
  then show ?thesis
    by (simp add: unsigned_ucast_eq take_bit_eq_mod unat_mod)
qed

lemma unat_drop_bit: "unat (drop_bit n (w :: 'a::len word)) = unat w div 2 ^ n"
  by (simp add: unat_drop_bit_eq drop_bit_nat_def)

lemma varint32_high_loop_ref:
  assumes "unat byte < 128"
  shows "(case varint32_high_loop buffer byte high of (bf, b) \<Rightarrow> bf @ [b])
         = buffer @ varint_ref (unat byte + 128 * unat high)"
  using assms
proof (induction buffer byte high rule: varint32_high_loop.induct)
  case (1 buffer byte high)
  show ?case
  proof (cases "high = 0")
    case True
    with "1.prems" show ?thesis
      by (subst varint32_high_loop.simps) (simp add: varint_ref_small)
  next
    case False
    then have "0 < unat high" by (simp add: unat_gt_0)
    moreover have "unat high mod 128 + 128 * (unat high div 128) = unat high" by simp
    ultimately show ?thesis
      using "1.IH" [OF False] False "1.prems"
      by (subst varint32_high_loop.simps)
        (simp add: unat_and_7F unat_drop_bit byte_or_80 varint_ref_step)
  qed
qed

lemma varint32_low_loop_ref:
  assumes "unat byte < 128" "unat low < 2 ^ (7 * (4 - length buffer))" "length buffer \<le> 4"
  shows "(case varint32_low_loop buffer byte low 0 of (bf, b) \<Rightarrow> bf @ [b])
         = buffer @ varint_ref (unat byte + 128 * unat low)"
  using assms
proof (induction buffer byte low "0 :: u32" rule: varint32_low_loop.induct)
  case (1 buffer byte low)
  show ?case
  proof (cases "low = 0")
    case True
    with "1.prems" show ?thesis
      by (subst varint32_low_loop.simps) (simp add: varint_ref_small)
  next
    case False
    then have pos: "0 < unat low" by (simp add: unat_gt_0)
    have len: "length buffer < 4"
    proof (rule ccontr)
      assume "\<not> length buffer < 4"
      with "1.prems"(2) pos show False by simp
    qed
    then have "7 * (4 - length buffer) = 7 + 7 * (3 - length buffer)" by linarith
    then have pw: "(2::nat) ^ (7 * (4 - length buffer)) = 128 * 2 ^ (7 * (3 - length buffer))"
      by (simp add: power_add)
    have lt: "unat low div 128 < 2 ^ (7 * (3 - length buffer))"
      using "1.prems"(2) unfolding pw by (simp add: less_mult_imp_div_less mult.commute)
    have "unat low mod 128 + 128 * (unat low div 128) = unat low" by simp
    with "1.hyps" lt len False pos "1.prems" show ?thesis
      by (subst varint32_low_loop.simps)
        (simp add: unat_and_7F unat_drop_bit byte_or_80 varint_ref_step)
  qed
qed

lemma ucast_push_bit: "ucast (push_bit n (w :: u32)) = push_bit n (ucast w :: byte)"
  by (rule bit_word_eqI) (auto simp: bit_simps)

lemma unat_or_high_bits:
  assumes "unat (b :: byte) < 16"
  shows "unat (b OR ucast (push_bit 4 ((high :: u32) AND 0x07))) = unat b + 16 * (unat high mod 8)"
proof -
  have h: "high AND 0x07 = take_bit 3 high" by (simp add: take_bit_eq_mask mask_eq_exp_minus_1)
  have uh: "unat (take_bit 3 high) = unat high mod 8"
    by (simp add: take_bit_eq_mod unat_mod)
  have e: "ucast (push_bit 4 (high AND 0x07)) = push_bit 4 (ucast (high AND 0x07) :: byte)"
    by (rule ucast_push_bit)
  have u7: "unat (ucast (high AND 0x07) :: byte) = unat high mod 8"
    by (simp add: h unsigned_ucast_eq take_bit_eq_mod unat_mod)
  have "b = take_bit 4 b"
    using assms by (simp add: word_unat_eq_iff take_bit_eq_mod unat_mod)
  then have "b AND push_bit 4 (ucast (high AND 0x07)) = 0" by (metis take_push_disjoint)
  then have or: "b OR push_bit 4 (ucast (high AND 0x07)) = b + push_bit 4 (ucast (high AND 0x07))"
    using word_plus_and_or by (metis add_0)
  have ux: "unat (push_bit 4 (ucast (high AND 0x07) :: byte)) = 16 * (unat high mod 8)"
  proof -
    have "unat high mod 8 < 8" by simp
    then show ?thesis unfolding push_bit_eq_mult by (simp add: unat_word_ariths u7)
  qed
  have "unat b + 16 * (unat high mod 8) < 256"
    using assms mod_less_divisor [of 8 "unat high"] by linarith
  then show ?thesis unfolding e or unat_word_ariths ux by simp
qed

lemma varint32_low_loop_high:
  assumes "high \<noteq> 0"
  shows "varint32_low_loop [] b0 low high =
    ([b0 OR 0x80, ucast (low AND 0x7F) OR 0x80, ucast (drop_bit 7 low AND 0x7F) OR 0x80,
      ucast (drop_bit 14 low AND 0x7F) OR 0x80], ucast (drop_bit 21 low AND 0x7F))"
  using assms
  by (simp add: varint32_low_loop.simps [of "[]"] varint32_low_loop.simps [of "[_]"]
      varint32_low_loop.simps [of "[_, _]"] varint32_low_loop.simps [of "[_, _, _]"]
      varint32_low_loop.simps [of "[_, _, _, _]"])

lemma varint_ref_five:
  assumes "l < 4294967296" "0 < h"
  shows "varint_ref (l + 4294967296 * h) =
    [of_nat (l mod 128 + 128), of_nat (l div 128 mod 128 + 128), of_nat (l div 16384 mod 128 + 128),
     of_nat (l div 2097152 mod 128 + 128)] @ varint_ref (l div 268435456 + 16 * h)"
proof -
  have step: "varint_ref (a + 128 * m) = of_nat (a mod 128 + 128) # varint_ref (a div 128 + m)"
    if "0 < m" for a m :: nat
    using that varint_ref_step [of "a div 128 + m" "a mod 128"] by (simp add: distrib_left)
  have m: "33554432 * h = 128 * (262144 * h)" "262144 * h = 128 * (2048 * h)"
    "2048 * h = 128 * (16 * h)" by simp_all
  have s1: "varint_ref (l + 128 * (33554432 * h)) =
      of_nat (l mod 128 + 128) # varint_ref (l div 128 + 128 * (262144 * h))"
    using assms(2) by (subst step) simp_all
  have s2: "varint_ref (l div 128 + 128 * (262144 * h)) =
      of_nat (l div 128 mod 128 + 128) # varint_ref (l div 128 div 128 + 128 * (2048 * h))"
    using assms(2) by (subst step) simp_all
  have s3: "varint_ref (l div 128 div 128 + 128 * (2048 * h)) =
      of_nat (l div 128 div 128 mod 128 + 128) # varint_ref (l div 128 div 128 div 128 + 128 * (16 * h))"
    using assms(2) by (subst step) simp_all
  have s4: "varint_ref (l div 128 div 128 div 128 + 128 * (16 * h)) =
      of_nat (l div 128 div 128 div 128 mod 128 + 128) #
      varint_ref (l div 128 div 128 div 128 div 128 + 16 * h)"
    using assms(2) by (subst step) simp_all
  have n: "l div 128 div 128 = l div 16384" "l div 16384 div 128 = l div 2097152"
    "l div 2097152 div 128 = l div 268435456"
    by (simp_all add: div_mult2_eq [symmetric])
  have "varint_ref (l + 4294967296 * h) = varint_ref (l + 128 * (33554432 * h))" by simp
  also have "\<dots> = [of_nat (l mod 128 + 128), of_nat (l div 128 mod 128 + 128),
      of_nat (l div 16384 mod 128 + 128), of_nat (l div 2097152 mod 128 + 128)] @
      varint_ref (l div 268435456 + 16 * h)"
    by (simp only: s1 s2 s3 s4 append.simps) (simp only: n)
  finally show ?thesis .
qed

lemma varint32_bytes_ref: "varint32_bytes low high = varint_ref (unat low + 4294967296 * unat high)"
proof (cases "high = 0")
  case True
  have "unat (drop_bit 7 low) < 2 ^ 28"
    using less_trans [OF unat_u32_lt [of low], of 34359738368]
    by (simp add: unat_drop_bit div_less_iff_less_mult)
  then have "(case varint32_low_loop [] (ucast (low AND 0x7F)) (drop_bit 7 low) 0 of (bf, b) \<Rightarrow> bf @ [b])
      = varint_ref (unat low mod 128 + 128 * (unat low div 128))"
    by (subst varint32_low_loop_ref) (simp_all add: unat_and_7F unat_drop_bit)
  then show ?thesis using True by (simp add: varint32_bytes_def case_prod_beta)
next
  case False
  have lt: "unat low div 268435456 < 16"
    using unat_u32_lt [of low] by (simp add: less_mult_imp_div_less)
  define byte where "byte = (ucast (drop_bit 28 low AND 0x7F) :: byte)"
  have b: "unat byte = unat low div 268435456"
    using lt by (simp add: byte_def unat_and_7F unat_drop_bit)
  define top where "top = byte OR ucast (push_bit 4 (high AND 0x07))"
  have t: "unat top = unat low div 268435456 + 16 * (unat high mod 8)"
    unfolding top_def by (subst unat_or_high_bits) (simp_all add: b lt)
  have t128: "unat top < 128"
    using lt mod_less_divisor [of 8 "unat high"] unfolding t by linarith
  have e: "unat top + 128 * (unat high div 8) = unat low div 268435456 + 16 * unat high"
    using mult_div_mod_eq [of 8 "unat high"] unfolding t by linarith
  have or80: "(ucast (w AND 0x7F) OR 0x80 :: byte) = of_nat (unat w mod 128 + 128)" for w :: u32
    by (simp add: byte_or_80 unat_and_7F)
  have drops: "drop_bit 7 (drop_bit 7 low) = drop_bit 14 low"
    "drop_bit 14 (drop_bit 7 low) = drop_bit 21 low" "drop_bit 21 (drop_bit 7 low) = drop_bit 28 low"
    by simp_all
  have us: "unat (drop_bit 7 low) = unat low div 128" "unat (drop_bit 14 low) = unat low div 16384"
    "unat (drop_bit 21 low) = unat low div 2097152"
    by (simp_all add: unat_drop_bit)
  have "varint32_bytes low high =
      (case varint32_high_loop [of_nat (unat low mod 128 + 128), of_nat (unat low div 128 mod 128 + 128),
        of_nat (unat low div 16384 mod 128 + 128), of_nat (unat low div 2097152 mod 128 + 128)]
        top (drop_bit 3 high) of (bf, b) \<Rightarrow> bf @ [b])"
    unfolding varint32_bytes_def drops varint32_low_loop_high [OF False] or80 Let_def prod.case
      top_def byte_def us using False by (simp only: if_True not_False_eq_True)
  also have "\<dots> = [of_nat (unat low mod 128 + 128), of_nat (unat low div 128 mod 128 + 128),
        of_nat (unat low div 16384 mod 128 + 128), of_nat (unat low div 2097152 mod 128 + 128)]
        @ varint_ref (unat low div 268435456 + 16 * unat high)"
    by (subst varint32_high_loop_ref [OF t128]) (simp add: unat_drop_bit e)
  also have "\<dots> = varint_ref (unat low + 4294967296 * unat high)"
    using False by (subst varint_ref_five) (simp_all add: unat_gt_0)
  finally show ?thesis .
qed

lemma length_varint_ref: "0 < k \<Longrightarrow> n < 128 ^ k \<Longrightarrow> length (varint_ref n) \<le> k"
proof (induction k arbitrary: n)
  case 0
  then show ?case by simp
next
  case (Suc k)
  show ?case
  proof (cases "n < 128")
    case True
    then show ?thesis by (simp add: varint_ref_small)
  next
    case False
    with Suc.prems have "0 < k" by (cases k) auto
    moreover have "n div 128 < 128 ^ k"
      using Suc.prems by (simp add: div_less_iff_less_mult mult.commute)
    ultimately have "length (varint_ref (n div 128)) \<le> k" by (rule Suc.IH)
    with False show ?thesis by (subst varint_ref.simps) simp
  qed
qed

text \<open>The ten bytes of \<open>buffer\<close> in \<open>pb_encode_varint_32\<close> are always enough.\<close>

lemma length_varint32_bytes: "length (varint32_bytes low high) \<le> 10"
proof -
  have "unat low + 4294967296 * unat high < 18446744073709551616"
    using unat_u32_lt [of low] unat_u32_lt [of high] by linarith
  also have "18446744073709551616 \<le> (128::nat) ^ 10" by simp
  finally show ?thesis unfolding varint32_bytes_ref by (intro length_varint_ref) simp_all
qed

lemma unat_split_64: "unat (ucast (v :: u64) :: u32) + 4294967296 * unat (ucast (drop_bit 32 v) :: u32)
    = unat v"
proof -
  have "unat v < 18446744073709551616" using unat_lt_pow [of v] by simp
  then have "unat v div 4294967296 < 4294967296" by (simp add: div_less_iff_less_mult)
  then show ?thesis
    by (simp add: unsigned_ucast_eq take_bit_eq_mod unat_drop_bit)
qed

lemma byte_writer_varint: "byte_writer (\<lambda>s. pb_encode_varint s v) (varint_ref (unat v)) True"
proof (cases "v \<le> 0x7F")
  case True
  then have "unat v < 128" by (simp add: word_le_nat_alt)
  then have "varint_ref (unat v) = [ucast v]"
    by (simp add: varint_ref_small word_unat_eq_iff unsigned_ucast_eq unsigned_of_nat)
  with True show ?thesis
    using one_byte.byte_writer_axioms by (simp add: pb_encode_varint_def)
next
  case False
  have "byte_writer (\<lambda>s. pb_encode_varint_32 s (ucast v) (ucast (drop_bit 32 v)))
      (varint32_bytes (ucast v) (ucast (drop_bit 32 v))) True"
    unfolding pb_encode_varint_32_def Let_def
    using length_varint32_bytes [of "ucast v" "ucast (drop_bit 32 v)"]
    by (intro byte_writer_pb_write) (simp add: unat_of_nat_small32)
  with False show ?thesis
    by (simp add: pb_encode_varint_def varint32_bytes_ref unat_split_64)
qed

interpretation varint: byte_writer "\<lambda>s. pb_encode_varint s v" "varint_ref (unat v)" True for v
  by (rule byte_writer_varint)

text \<open>The wire format's varint reader, and that it inverts the encoder.\<close>

fun get_varint :: "byte list \<Rightarrow> (nat \<times> byte list) option" where
  "get_varint [] = None"
| "get_varint (b # bs) =
     (if unat b < 128 then Some (unat b, bs)
      else case get_varint bs of None \<Rightarrow> None | Some (v, r) \<Rightarrow> Some (unat b - 128 + 128 * v, r))"

lemma get_varint_ref: "get_varint (varint_ref n @ rest) = Some (n, rest)"
proof (induction n rule: varint_ref.induct)
  case (1 n)
  show ?case
  proof (cases "n < 128")
    case True
    then show ?thesis by (simp add: varint_ref_small unsigned_of_nat take_bit_eq_mod)
  next
    case False
    have "n mod 128 + 128 < 256" using mod_less_divisor [of 128 n] by linarith
    then have "unat (of_nat (n mod 128 + 128) :: byte) = n mod 128 + 128"
      by (simp add: unsigned_of_nat take_bit_eq_mod del: of_nat_add)
    with False 1 show ?thesis
      by (subst varint_ref.simps) (simp del: of_nat_add)
  qed
qed

section \<open>Signed varints\<close>

definition zigzag :: "u64 \<Rightarrow> u64" where
  "zigzag value =
     (let mask = drop_bit 1 (- 1 :: u64) in
      if value <s 0 then NOT (push_bit 1 (value AND mask)) else push_bit 1 value)"

definition pb_encode_svarint :: "pb_ostream \<Rightarrow> u64 \<Rightarrow> bool \<times> pb_ostream" where
  "pb_encode_svarint stream value = pb_encode_varint stream (zigzag value)"

text \<open>The zigzag code of the protobuf specification, on unbounded integers, and its inverse.\<close>

definition zigzag_ref :: "int \<Rightarrow> int" where
  "zigzag_ref i = (if i < 0 then - 2 * i - 1 else 2 * i)"

definition unzigzag_ref :: "int \<Rightarrow> int" where
  "unzigzag_ref z = (if even z then z div 2 else - (z div 2) - 1)"

lemma unzigzag_zigzag_ref: "unzigzag_ref (zigzag_ref i) = i"
  by (auto simp: zigzag_ref_def unzigzag_ref_def)

lemma uint_u64_of_sint: "uint (v :: u64) = (if sint v < 0 then sint v + 18446744073709551616 else sint v)"
proof -
  have b: "- 9223372036854775808 \<le> sint v" "sint v < 9223372036854775808"
    using sint_ge [of v] sint_lt [of v] by simp_all
  have "uint v = sint v mod 18446744073709551616"
    using uint_sint [of v] by (simp add: take_bit_eq_mod)
  moreover have "sint v mod 18446744073709551616 = (sint v + 18446744073709551616) mod 18446744073709551616"
    by simp
  ultimately show ?thesis
    using b by (cases "sint v < 0") (simp_all add: mod_pos_pos_trivial del: mod_add_self2)
qed

lemma uint_not64: "uint (NOT (x :: u64)) = 18446744073709551615 - uint x"
proof -
  have x: "0 \<le> uint x" "uint x < 18446744073709551616"
    using uint_lt2p [of x] by simp_all
  have "uint (NOT x) = (- uint x - 1) mod 18446744073709551616"
    by (simp add: not_eq_complement uint_word_ariths mod_simps)
  also have "\<dots> = (18446744073709551615 - uint x) mod 18446744073709551616"
    using mod_add_self2 [of "- uint x - 1" 18446744073709551616] by (simp del: mod_add_self2)
  finally show ?thesis using x by (simp add: mod_pos_pos_trivial)
qed

lemma zigzag_correct: "uint (zigzag v) = zigzag_ref (sint v)"
proof -
  have b: "- 9223372036854775808 \<le> sint v" "sint v < 9223372036854775808"
    using sint_ge [of v] sint_lt [of v] by simp_all
  have sl: "v <s 0 \<longleftrightarrow> sint v < 0" by (simp add: word_sless_alt)
  show ?thesis
  proof (cases "sint v < 0")
    case False
    then have "uint (push_bit 1 v) = 2 * sint v"
      using b uint_u64_of_sint [of v]
      by (simp add: push_bit_eq_mult uint_word_ariths mod_pos_pos_trivial)
    with False show ?thesis by (simp add: zigzag_def sl zigzag_ref_def)
  next
    case True
    have m: "v AND drop_bit 1 (- 1) = take_bit 63 v"
      by (rule bit_word_eqI) (auto simp: bit_simps)
    have u: "uint (take_bit 63 v) = sint v + 9223372036854775808"
    proof -
      have "uint (take_bit 63 v) = uint v mod 9223372036854775808"
        by (simp add: take_bit_eq_mod uint_mod)
      also have "\<dots> = (sint v + 9223372036854775808) mod 9223372036854775808"
        using True mod_mult_self1 [of "sint v" 2 9223372036854775808] by (simp add: uint_u64_of_sint)
      finally show ?thesis using b True by (simp add: mod_pos_pos_trivial del: mod_add_self2)
    qed
    have "uint (push_bit 1 (take_bit 63 v)) = 2 * sint v + 18446744073709551616"
    proof -
      have "uint (push_bit 1 (take_bit 63 v)) = (2 * sint v + 18446744073709551616) mod 18446744073709551616"
        by (simp add: push_bit_eq_mult uint_word_ariths u mult.commute)
      then show ?thesis using b True by (simp add: mod_pos_pos_trivial del: mod_add_self2)
    qed
    then have "uint (NOT (push_bit 1 (take_bit 63 v))) = - 2 * sint v - 1"
      using b True by (simp add: uint_not64)
    then show ?thesis
      unfolding zigzag_def Let_def m zigzag_ref_def sl using True by (simp only: if_True)
  qed
qed

lemma byte_writer_svarint:
  "byte_writer (\<lambda>s. pb_encode_svarint s v) (varint_ref (nat (zigzag_ref (sint v)))) True"
proof -
  have "varint_ref (nat (zigzag_ref (sint v))) = varint_ref (unat (zigzag v))"
    by (simp add: unat_eq_nat_uint zigzag_correct)
  then show ?thesis using byte_writer_varint by (simp add: pb_encode_svarint_def)
qed

section \<open>Little-endian memory and fixed-width values\<close>

text \<open>
  The memory image of an unsigned value of \<open>n\<close> bytes on a little-endian target, and the value of
  a memory image.
\<close>

fun le_bytes :: "nat \<Rightarrow> nat \<Rightarrow> byte list" where
  "le_bytes 0 v = []"
| "le_bytes (Suc n) v = of_nat (v mod 256) # le_bytes n (v div 256)"

fun of_le :: "byte list \<Rightarrow> nat" where
  "of_le [] = 0"
| "of_le (b # bs) = unat b + 256 * of_le bs"

lemma length_le_bytes [simp]: "length (le_bytes n v) = n"
  by (induction n arbitrary: v) auto

lemma of_le_le_bytes: "of_le (le_bytes n v) = v mod 256 ^ n"
proof (induction n arbitrary: v)
  case (Suc n)
  have "unat (of_nat (v mod 256) :: byte) = v mod 256" by (simp add: unsigned_of_nat take_bit_eq_mod)
  then show ?case by (simp add: Suc.IH mod_mult2_eq)
qed simp

lemma of_le_less: "of_le bs < 256 ^ length bs"
proof (induction bs)
  case (Cons b bs)
  have "unat b < 256" using unat_lt_pow [of b] by simp
  with Cons show ?case by simp
qed simp

lemma le_bytes_zero: "le_bytes n 0 = replicate n 0"
  by (induction n) (auto simp: replicate_Suc)

lemma le_bytes_all_zero: "v < 256 ^ n \<Longrightarrow> (\<forall>b \<in> set (le_bytes n v). b = 0) \<longleftrightarrow> v = 0"
proof
  assume v: "v < 256 ^ n" and z: "\<forall>b \<in> set (le_bytes n v). b = 0"
  then have "le_bytes n v = replicate n 0" by (simp add: replicate_eqI)
  then have "of_le (le_bytes n v) = of_le (le_bytes n 0)" by (simp add: le_bytes_zero)
  with v show "v = 0" by (simp add: of_le_le_bytes)
qed (simp add: le_bytes_zero)

text \<open>
  \<open>pb_encode_fixed32\<close> and \<open>pb_encode_fixed64\<close> take a pointer to the value. On a little-endian target
  (\<open>PB_LITTLE_ENDIAN_8BIT\<close>, which holds on the ESP32) they write the memory as it is; elsewhere they
  extract the bytes by shifts.
\<close>

definition pb_encode_fixed32 :: "pb_ostream \<Rightarrow> byte list \<Rightarrow> bool \<times> pb_ostream" where
  "pb_encode_fixed32 stream value = pb_write stream value 4"

definition pb_encode_fixed64 :: "pb_ostream \<Rightarrow> byte list \<Rightarrow> bool \<times> pb_ostream" where
  "pb_encode_fixed64 stream value = pb_write stream value 8"

definition pb_encode_fixed32_portable :: "pb_ostream \<Rightarrow> u32 \<Rightarrow> bool \<times> pb_ostream" where
  "pb_encode_fixed32_portable stream val =
     pb_write stream
       [ucast (val AND 0xFF), ucast (drop_bit 8 val AND 0xFF), ucast (drop_bit 16 val AND 0xFF),
        ucast (drop_bit 24 val AND 0xFF)] 4"

definition pb_encode_fixed64_portable :: "pb_ostream \<Rightarrow> u64 \<Rightarrow> bool \<times> pb_ostream" where
  "pb_encode_fixed64_portable stream val =
     pb_write stream
       [ucast (val AND 0xFF), ucast (drop_bit 8 val AND 0xFF), ucast (drop_bit 16 val AND 0xFF),
        ucast (drop_bit 24 val AND 0xFF), ucast (drop_bit 32 val AND 0xFF),
        ucast (drop_bit 40 val AND 0xFF), ucast (drop_bit 48 val AND 0xFF),
        ucast (drop_bit 56 val AND 0xFF)] 8"

lemma ucast_and_FF: "(ucast ((w :: 'a::len word) AND 0xFF) :: byte) = of_nat (unat w)"
proof -
  have "(0xFF :: 'a word) = mask 8" by (simp add: mask_eq_exp_minus_1)
  then have "(ucast (w AND 0xFF) :: byte) = ucast (take_bit 8 w)" by (simp add: take_bit_eq_mask)
  also have "\<dots> = ucast w" by (rule bit_word_eqI) (auto simp: bit_simps)
  finally show ?thesis by simp
qed

lemma byte_of_nat_mod: "(of_nat (n mod 256) :: byte) = of_nat n"
  by (simp add: word_unat_eq_iff unsigned_of_nat take_bit_eq_mod)

lemma le_bytes_4:
  "le_bytes 4 v = [of_nat v, of_nat (v div 256), of_nat (v div 65536), of_nat (v div 16777216)]"
proof -
  have four: "(4::nat) = Suc (Suc (Suc (Suc 0)))" by simp
  show ?thesis unfolding four le_bytes.simps byte_of_nat_mod by (simp add: div_mult2_eq [symmetric])
qed

lemma le_bytes_8:
  "le_bytes 8 v = [of_nat v, of_nat (v div 256), of_nat (v div 65536), of_nat (v div 16777216),
     of_nat (v div 4294967296), of_nat (v div 1099511627776), of_nat (v div 281474976710656),
     of_nat (v div 72057594037927936)]"
proof -
  have eight: "(8::nat) = Suc (Suc (Suc (Suc 4)))" by simp
  show ?thesis unfolding eight le_bytes.simps byte_of_nat_mod le_bytes_4
    by (simp add: div_mult2_eq [symmetric])
qed

lemma fixed_portable_eq:
  "pb_encode_fixed32_portable s v = pb_encode_fixed32 s (le_bytes 4 (unat v))"
  "pb_encode_fixed64_portable s w = pb_encode_fixed64 s (le_bytes 8 (unat w))"
  unfolding pb_encode_fixed32_portable_def pb_encode_fixed32_def ucast_and_FF
      pb_encode_fixed64_portable_def pb_encode_fixed64_def le_bytes_4 le_bytes_8 unat_drop_bit
  by simp_all

lemma byte_writer_fixed:
  "length m = 4 \<Longrightarrow> byte_writer (\<lambda>s. pb_encode_fixed32 s m) m True"
  "length m = 8 \<Longrightarrow> byte_writer (\<lambda>s. pb_encode_fixed64 s m) m True"
  unfolding pb_encode_fixed32_def pb_encode_fixed64_def
  by (rule byte_writer_pb_write, simp)+

section \<open>Tags and strings\<close>

text \<open>\<open>pb_wire_type_t\<close>.\<close>

datatype pb_wire_type = PB_WT_VARINT | PB_WT_64BIT | PB_WT_STRING | PB_WT_32BIT

fun wire_code :: "pb_wire_type \<Rightarrow> nat" where
  "wire_code PB_WT_VARINT = 0"
| "wire_code PB_WT_64BIT = 1"
| "wire_code PB_WT_STRING = 2"
| "wire_code PB_WT_32BIT = 5"

definition pb_encode_tag :: "pb_ostream \<Rightarrow> pb_wire_type \<Rightarrow> u32 \<Rightarrow> bool \<times> pb_ostream" where
  "pb_encode_tag stream wiretype field_number =
     (let tag = push_bit 3 (ucast field_number :: u64) OR of_nat (wire_code wiretype)
      in pb_encode_varint stream tag)"

definition pb_encode_string :: "pb_ostream \<Rightarrow> byte list \<Rightarrow> size_t \<Rightarrow> bool \<times> pb_ostream" where
  "pb_encode_string stream buffer sz =
     seqw (\<lambda>s. pb_encode_varint s (ucast sz)) (\<lambda>s. pb_write s buffer sz) stream"

lemma unat_ucast_u64: "unat (ucast (n :: u32) :: u64) = unat n"
proof -
  have "unat n < 18446744073709551616" using unat_u32_lt [of n] by linarith
  then show ?thesis by (simp add: unsigned_ucast_eq take_bit_eq_mod)
qed

lemma unat_tag: "unat (push_bit 3 (ucast (n :: u32) :: u64) OR of_nat (wire_code wt))
    = 8 * unat n + wire_code wt"
proof -
  have wt: "wire_code wt < 8" by (cases wt) simp_all
  have t: "(of_nat (wire_code wt) :: u64) = take_bit 3 (of_nat (wire_code wt))"
    by (cases wt) simp_all
  have "of_nat (wire_code wt) AND push_bit 3 (ucast n :: u64) = 0"
    using take_push_disjoint t by metis
  then have or: "push_bit 3 (ucast n :: u64) OR of_nat (wire_code wt)
      = of_nat (wire_code wt) + push_bit 3 (ucast n :: u64)"
    using word_plus_and_or by (metis add_0 or.commute)
  have n: "8 * unat n + wire_code wt < 18446744073709551616"
    using unat_u32_lt [of n] wt by linarith
  then have un: "unat (push_bit 3 (ucast n :: u64)) = 8 * unat n"
    by (simp add: push_bit_eq_mult unat_word_ariths unat_ucast_u64 mult.commute)
  have uw: "unat (of_nat (wire_code wt) :: u64) = wire_code wt" by (cases wt) simp_all
  show ?thesis unfolding or unat_word_ariths un uw using n by simp
qed

lemma byte_writer_tag:
  "byte_writer (\<lambda>s. pb_encode_tag s wt n) (varint_ref (8 * unat n + wire_code wt)) True"
  using byte_writer_varint [of "push_bit 3 (ucast n) OR of_nat (wire_code wt)"]
  by (simp add: pb_encode_tag_def Let_def unat_tag)

lemma byte_writer_string:
  assumes "length bs = unat sz"
  shows "byte_writer (\<lambda>s. pb_encode_string s bs sz) (varint_ref (length bs) @ bs) True"
proof -
  have "byte_writer (seqw (\<lambda>s. pb_encode_varint s (ucast sz)) (\<lambda>s. pb_write s bs sz))
      (varint_ref (unat (ucast sz :: u64)) @ bs) True"
    by (rule byte_writer_seqw [OF byte_writer_varint byte_writer_pb_write [OF assms]])
  then show ?thesis using assms by (simp add: pb_encode_string_def [abs_def] unat_ucast_u64)
qed


end
