(* ===== verification/PbEncode.thy ===== *)
theory PbEncode
  imports PbVarint
begin

text \<open>
  The message encoder of nanopb (\<open>pb_encode.c\<close>, lines 111-566 and 724-952, with the type codes of
  \<open>pb.h\<close>). A message is the list of field iterators that \<open>pb_field_iter_begin\<close> and
  \<open>pb_field_iter_next\<close> visit (the theories \<open>PbDesc\<close> and \<open>PbIter\<close> model how these are read from the descriptor
  words); a field iterator carries the descriptor's values and what its pointers point at.
\<close>

section \<open>Field types\<close>

definition PB_LTYPE_BOOL :: byte where "PB_LTYPE_BOOL = 0x00"
definition PB_LTYPE_VARINT :: byte where "PB_LTYPE_VARINT = 0x01"
definition PB_LTYPE_UVARINT :: byte where "PB_LTYPE_UVARINT = 0x02"
definition PB_LTYPE_SVARINT :: byte where "PB_LTYPE_SVARINT = 0x03"
definition PB_LTYPE_FIXED32 :: byte where "PB_LTYPE_FIXED32 = 0x04"
definition PB_LTYPE_FIXED64 :: byte where "PB_LTYPE_FIXED64 = 0x05"
definition PB_LTYPE_LAST_PACKABLE :: byte where "PB_LTYPE_LAST_PACKABLE = 0x05"
definition PB_LTYPE_BYTES :: byte where "PB_LTYPE_BYTES = 0x06"
definition PB_LTYPE_STRING :: byte where "PB_LTYPE_STRING = 0x07"
definition PB_LTYPE_SUBMESSAGE :: byte where "PB_LTYPE_SUBMESSAGE = 0x08"
definition PB_LTYPE_SUBMSG_W_CB :: byte where "PB_LTYPE_SUBMSG_W_CB = 0x09"
definition PB_LTYPE_EXTENSION :: byte where "PB_LTYPE_EXTENSION = 0x0A"
definition PB_LTYPE_FIXED_LENGTH_BYTES :: byte where "PB_LTYPE_FIXED_LENGTH_BYTES = 0x0B"
definition PB_LTYPE_MASK :: byte where "PB_LTYPE_MASK = 0x0F"

definition PB_HTYPE_REQUIRED :: byte where "PB_HTYPE_REQUIRED = 0x00"
definition PB_HTYPE_OPTIONAL :: byte where "PB_HTYPE_OPTIONAL = 0x10"
definition PB_HTYPE_REPEATED :: byte where "PB_HTYPE_REPEATED = 0x20"
definition PB_HTYPE_ONEOF :: byte where "PB_HTYPE_ONEOF = 0x30"
definition PB_HTYPE_MASK :: byte where "PB_HTYPE_MASK = 0x30"

definition PB_ATYPE_STATIC :: byte where "PB_ATYPE_STATIC = 0x00"
definition PB_ATYPE_POINTER :: byte where "PB_ATYPE_POINTER = 0x80"
definition PB_ATYPE_CALLBACK :: byte where "PB_ATYPE_CALLBACK = 0x40"
definition PB_ATYPE_MASK :: byte where "PB_ATYPE_MASK = 0xC0"

definition PB_ATYPE :: "byte \<Rightarrow> byte" where "PB_ATYPE x = x AND PB_ATYPE_MASK"
definition PB_HTYPE :: "byte \<Rightarrow> byte" where "PB_HTYPE x = x AND PB_HTYPE_MASK"
definition PB_LTYPE :: "byte \<Rightarrow> byte" where "PB_LTYPE x = x AND PB_LTYPE_MASK"

definition PB_LTYPE_IS_SUBMSG :: "byte \<Rightarrow> bool" where
  "PB_LTYPE_IS_SUBMSG x \<longleftrightarrow>
     PB_LTYPE x = PB_LTYPE_SUBMESSAGE \<or> PB_LTYPE x = PB_LTYPE_SUBMSG_W_CB"

lemmas pb_type_defs =
  PB_LTYPE_BOOL_def PB_LTYPE_VARINT_def PB_LTYPE_UVARINT_def PB_LTYPE_SVARINT_def
  PB_LTYPE_FIXED32_def PB_LTYPE_FIXED64_def PB_LTYPE_LAST_PACKABLE_def PB_LTYPE_BYTES_def
  PB_LTYPE_STRING_def PB_LTYPE_SUBMESSAGE_def PB_LTYPE_SUBMSG_W_CB_def PB_LTYPE_EXTENSION_def
  PB_LTYPE_FIXED_LENGTH_BYTES_def PB_LTYPE_MASK_def PB_HTYPE_REQUIRED_def PB_HTYPE_OPTIONAL_def
  PB_HTYPE_REPEATED_def PB_HTYPE_ONEOF_def PB_HTYPE_MASK_def PB_ATYPE_STATIC_def
  PB_ATYPE_POINTER_def PB_ATYPE_CALLBACK_def PB_ATYPE_MASK_def

section \<open>Field iterators and message memory\<close>

text \<open>
  The part of \<open>pb_field_iter_t\<close> that encoding reads: \<open>h_field_callback\<close> says whether
  \<open>descriptor->field_callback\<close> is \<open>pb_default_field_callback\<close> (or else \<open>NULL\<close>; the generated
  descriptors use no other function), \<open>h_default_value\<close> whether \<open>descriptor->default_value\<close> is set.
\<close>

record pb_hdr =
  h_tag :: u16
  h_type :: byte
  h_data_size :: u16
  h_array_size :: u16
  h_field_callback :: bool
  h_default_value :: bool

text \<open>\<open>pSize\<close>: \<open>NULL\<close>, a count or oneof selector (\<open>pb_size_t\<close>), or the bytes of a has-flag.\<close>

datatype pb_psize = SNull | SCount u16 | SHas byte

type_synonym pb_cb = "pb_hdr \<Rightarrow> writer"

text \<open>
  \<open>pData\<close>: \<open>NULL\<close>, plain memory, a \<open>pb_bytes_array_t\<close>, a submessage struct (with the callback of a
  \<open>SUBMSG_W_CB\<close> field), the entries of an array, a \<open>pb_callback_t\<close> (its \<open>encode\<close> function with the
  argument bound, or \<open>NULL\<close>), or the list of registered extensions, each with its own encoder or
  with the iterator that \<open>pb_field_iter_begin_extension_const\<close> gives (\<open>None\<close> when it fails).
\<close>

datatype pb_data =
    PNull
  | PRaw "byte list"
  | PBytes u16 "byte list"
  | PSub "pb_cb option" "pb_field list"
  | PArr "pb_data list"
  | PCallback "pb_cb option"
  | PExtension "pb_ext list"
and pb_field = PbField (fld_hdr: pb_hdr) (fld_size: pb_psize) (fld_data: pb_data)
and pb_ext = PbExt "writer option" "pb_field option"

text \<open>\<open>safe_read_bool\<close> on the single byte of a \<open>bool\<close>.\<close>

definition safe_read_bool :: "byte list \<Rightarrow> bool" where
  "safe_read_bool p = (\<exists>b \<in> set (take 1 p). b \<noteq> 0)"

fun psize_count :: "pb_psize \<Rightarrow> u16" where
  "psize_count (SCount n) = n"
| "psize_count (SHas b) = ucast b"
| "psize_count SNull = 0"

fun psize_has :: "pb_psize \<Rightarrow> bool" where
  "psize_has (SHas b) = safe_read_bool [b]"
| "psize_has (SCount n) = safe_read_bool [ucast n]"
| "psize_has SNull = False"

section \<open>Scalar field encoders\<close>

fun pb_enc_bool :: "pb_hdr \<Rightarrow> pb_data \<Rightarrow> writer" where
  "pb_enc_bool h (PRaw m) = (\<lambda>s. pb_encode_varint s (if safe_read_bool m then 1 else 0))"
| "pb_enc_bool h _ = (\<lambda>s. PB_RETURN_ERROR s ''invalid data'')"

text \<open>The unsigned and the sign-extended value of an integer in memory.\<close>

definition mem_unsigned :: "byte list \<Rightarrow> u64" where
  "mem_unsigned m = of_nat (of_le m)"

definition mem_signed :: "byte list \<Rightarrow> u64" where
  "mem_signed m =
     (if of_le m < 2 ^ (8 * length m - 1) then of_nat (of_le m)
      else of_int (int (of_le m) - 2 ^ (8 * length m)))"

fun pb_enc_varint :: "pb_hdr \<Rightarrow> pb_data \<Rightarrow> writer" where
  "pb_enc_varint h (PRaw m) =
     (if h_data_size h \<notin> {1, 2, 4, 8} then (\<lambda>s. PB_RETURN_ERROR s ''invalid data_size'')
      else if PB_LTYPE (h_type h) = PB_LTYPE_UVARINT then
        (\<lambda>s. pb_encode_varint s (mem_unsigned m))
      else if PB_LTYPE (h_type h) = PB_LTYPE_SVARINT then
        (\<lambda>s. pb_encode_svarint s (mem_signed m))
      else (\<lambda>s. pb_encode_varint s (mem_signed m)))"
| "pb_enc_varint h _ = (\<lambda>s. PB_RETURN_ERROR s ''invalid data'')"

fun pb_enc_fixed :: "pb_hdr \<Rightarrow> pb_data \<Rightarrow> writer" where
  "pb_enc_fixed h (PRaw m) =
     (if h_data_size h = 4 then (\<lambda>s. pb_encode_fixed32 s m)
      else if h_data_size h = 8 then (\<lambda>s. pb_encode_fixed64 s m)
      else (\<lambda>s. PB_RETURN_ERROR s ''invalid data_size''))"
| "pb_enc_fixed h _ = (\<lambda>s. PB_RETURN_ERROR s ''invalid data'')"

text \<open>
  \<open>offsetof(pb_bytes_array_t, bytes)\<close> is 2: the 16-bit \<open>size\<close> comes first. The subtraction is one of
  \<open>size_t\<close>, so it wraps for a \<open>data_size\<close> below 2.
\<close>

fun pb_enc_bytes :: "pb_hdr \<Rightarrow> pb_data \<Rightarrow> writer" where
  "pb_enc_bytes h (PBytes n m) =
     (if PB_ATYPE (h_type h) = PB_ATYPE_STATIC \<and> ucast n > (ucast (h_data_size h) - 2 :: size_t)
      then (\<lambda>s. PB_RETURN_ERROR s ''bytes size exceeded'')
      else (\<lambda>s. pb_encode_string s m (ucast n)))"
| "pb_enc_bytes h _ = (\<lambda>s. pb_encode_string s [] 0)"

fun pb_enc_string :: "pb_hdr \<Rightarrow> pb_data \<Rightarrow> writer" where
  "pb_enc_string h (PRaw m) =
     (if PB_ATYPE (h_type h) \<noteq> PB_ATYPE_POINTER \<and> h_data_size h = 0
      then (\<lambda>s. PB_RETURN_ERROR s ''zero-length string'')
      else
        let max_size = (if PB_ATYPE (h_type h) = PB_ATYPE_POINTER then 4294967295
                        else unat (h_data_size h) - 1);
            n = strnlen m max_size
        in if n < length m \<and> m ! n \<noteq> 0
           then (\<lambda>s. PB_RETURN_ERROR s ''unterminated string'')
           else (\<lambda>s. pb_encode_string s m (of_nat n)))"
| "pb_enc_string h _ = (\<lambda>s. pb_encode_string s [] 0)"

fun pb_enc_fixed_length_bytes :: "pb_hdr \<Rightarrow> pb_data \<Rightarrow> writer" where
  "pb_enc_fixed_length_bytes h (PRaw m) = (\<lambda>s. pb_encode_string s m (ucast (h_data_size h)))"
| "pb_enc_fixed_length_bytes h _ = (\<lambda>s. PB_RETURN_ERROR s ''invalid data'')"

section \<open>Tags of fields\<close>

definition field_wire_type :: "byte \<Rightarrow> pb_wire_type option" where
  "field_wire_type t =
     (let l = PB_LTYPE t in
      if l \<in> {PB_LTYPE_BOOL, PB_LTYPE_VARINT, PB_LTYPE_UVARINT, PB_LTYPE_SVARINT}
      then Some PB_WT_VARINT
      else if l = PB_LTYPE_FIXED32 then Some PB_WT_32BIT
      else if l = PB_LTYPE_FIXED64 then Some PB_WT_64BIT
      else if l \<in> {PB_LTYPE_BYTES, PB_LTYPE_STRING, PB_LTYPE_SUBMESSAGE, PB_LTYPE_SUBMSG_W_CB,
                   PB_LTYPE_FIXED_LENGTH_BYTES} then Some PB_WT_STRING
      else None)"

definition pb_encode_tag_for_field :: "pb_hdr \<Rightarrow> writer" where
  "pb_encode_tag_for_field h =
     (case field_wire_type (h_type h) of
        None \<Rightarrow> (\<lambda>s. PB_RETURN_ERROR s ''invalid field type'')
      | Some wt \<Rightarrow> (\<lambda>s. pb_encode_tag s wt (ucast (h_tag h))))"

section \<open>Submessages and callbacks\<close>

text \<open>
  \<open>pb_encode_submessage(stream, fields, src_struct)\<close> hands its last two arguments to \<open>pb_encode\<close> only:
  \<open>encode\<close> is that call. It runs it twice, first on a counting stream.
\<close>

definition pb_encode_submessage :: "writer \<Rightarrow> writer" where
  "pb_encode_submessage encode stream =
     (let (ok, substream) = encode PB_OSTREAM_SIZING in
      if \<not> ok then (False, stream\<lparr>os_errmsg := os_errmsg substream\<rparr>)
      else
        let sz = os_bytes_written substream;
            (ok, stream) = pb_encode_varint stream (ucast sz)
        in if \<not> ok then (False, stream)
           else if os_sink stream = None then pb_write stream [] sz
           else if os_bytes_written stream + sz > os_max_size stream
           then PB_RETURN_ERROR stream ''stream full''
           else
             let (status, substream) =
                   encode \<lparr>os_sink = os_sink stream, os_max_size = sz, os_bytes_written = 0,
                           os_errmsg = None\<rparr>;
                 stream = stream\<lparr>os_sink := os_sink substream,
                            os_bytes_written := os_bytes_written stream + os_bytes_written substream,
                            os_errmsg := os_errmsg substream\<rparr>
             in if os_bytes_written substream \<noteq> sz
                then PB_RETURN_ERROR stream ''submsg size changed''
                else (status, stream))"

definition pb_enc_submessage :: "pb_hdr \<Rightarrow> pb_psize \<Rightarrow> pb_cb option \<Rightarrow> writer \<Rightarrow> writer" where
  "pb_enc_submessage h ps cb encode =
     (case cb of
        Some f \<Rightarrow>
          if PB_LTYPE (h_type h) = PB_LTYPE_SUBMSG_W_CB \<and> ps \<noteq> SNull
          then seqw (f h) (pb_encode_submessage encode) else pb_encode_submessage encode
      | None \<Rightarrow> pb_encode_submessage encode)"

text \<open>\<open>sizeof(pb_callback_t)\<close>: a function pointer and an argument pointer of four bytes each.\<close>

definition pb_default_field_callback :: "pb_hdr \<Rightarrow> pb_data \<Rightarrow> writer" where
  "pb_default_field_callback h d =
     (if h_data_size h = 8 then
        (case d of PCallback (Some f) \<Rightarrow> f h | _ \<Rightarrow> (\<lambda>s. (True, s)))
      else (\<lambda>s. (True, s)))"

definition encode_callback_field :: "pb_hdr \<Rightarrow> pb_data \<Rightarrow> writer" where
  "encode_callback_field h d =
     (if h_field_callback h then
        (\<lambda>s. case pb_default_field_callback h d s of
               (ok, s1) \<Rightarrow> if ok then (True, s1) else PB_RETURN_ERROR s1 ''callback error'')
      else (\<lambda>s. (True, s)))"

section \<open>Arrays\<close>

text \<open>
  \<open>for (i = 0; i < count; i++) { f(stream, field); field->pData += field->data_size; }\<close>: one call
  per entry. A count that runs past the entries of the C array is an error here; \<open>array_size\<close> bounds
  it for the static arrays.
\<close>

fun enc_loop :: "(pb_data \<Rightarrow> writer) \<Rightarrow> nat \<Rightarrow> pb_data list \<Rightarrow> writer" where
  "enc_loop f 0 ds = (\<lambda>s. (True, s))"
| "enc_loop f (Suc n) [] = (\<lambda>s. PB_RETURN_ERROR s ''out of bounds'')"
| "enc_loop f (Suc n) (d # ds) = seqw (f d) (enc_loop f n ds)"

definition packed_entry :: "pb_hdr \<Rightarrow> pb_data \<Rightarrow> writer" where
  "packed_entry h d =
     (if PB_LTYPE (h_type h) = PB_LTYPE_FIXED32 \<or> PB_LTYPE (h_type h) = PB_LTYPE_FIXED64
      then pb_enc_fixed h d else pb_enc_varint h d)"

text \<open>The size of the packed data, or the error message of the counting loop.\<close>

definition packed_size :: "pb_hdr \<Rightarrow> nat \<Rightarrow> pb_data list \<Rightarrow> string + size_t" where
  "packed_size h count ds =
     (if PB_LTYPE (h_type h) = PB_LTYPE_FIXED32 then Inr (4 * of_nat count)
      else if PB_LTYPE (h_type h) = PB_LTYPE_FIXED64 then Inr (8 * of_nat count)
      else (case enc_loop (pb_enc_varint h) count ds PB_OSTREAM_SIZING of
              (ok, sizestream) \<Rightarrow>
                if ok then Inr (os_bytes_written sizestream) else Inl (PB_GET_ERROR sizestream)))"

definition encode_packed_array :: "pb_hdr \<Rightarrow> nat \<Rightarrow> pb_data list \<Rightarrow> writer" where
  "encode_packed_array h count ds =
     seqw (\<lambda>s. pb_encode_tag s PB_WT_STRING (ucast (h_tag h)))
       (case packed_size h count ds of
          Inl msg \<Rightarrow> (\<lambda>s. PB_RETURN_ERROR s msg)
        | Inr sz \<Rightarrow>
            seqw (\<lambda>s. pb_encode_varint s (ucast sz))
              (\<lambda>s. if os_sink s = None then pb_write s [] sz
                   else enc_loop (packed_entry h) count ds s))"

section \<open>Default values of proto3 fields\<close>

fun null_data :: "pb_data \<Rightarrow> bool" where
  "null_data PNull = True"
| "null_data _ = False"

text \<open>The checks on \<open>pData\<close> that need no recursion; a submessage is checked field by field.\<close>

fun pb_check_proto3_default_value :: "pb_field \<Rightarrow> bool"
  and check_all_default :: "pb_field list \<Rightarrow> bool"
where
  "pb_check_proto3_default_value (PbField h ps d) =
     (let t = h_type h in
      if PB_ATYPE t = PB_ATYPE_STATIC then
        if PB_HTYPE t = PB_HTYPE_REQUIRED then False
        else if PB_HTYPE t = PB_HTYPE_REPEATED then psize_count ps = 0
        else if PB_HTYPE t = PB_HTYPE_ONEOF then psize_count ps = 0
        else if PB_HTYPE t = PB_HTYPE_OPTIONAL \<and> ps \<noteq> SNull then \<not> psize_has ps
        else if h_default_value h then False
        else
          (case d of
             PRaw m \<Rightarrow>
               if PB_LTYPE t \<le> PB_LTYPE_LAST_PACKABLE
               then (\<forall>b \<in> set (take (unat (h_data_size h)) m). b = 0)
               else if PB_LTYPE t = PB_LTYPE_STRING then (\<forall>b \<in> set (take 1 m). b = 0)
               else PB_LTYPE t = PB_LTYPE_FIXED_LENGTH_BYTES \<and> h_data_size h = 0
           | PBytes n m \<Rightarrow> PB_LTYPE t = PB_LTYPE_BYTES \<and> n = 0
           | PSub cb fs \<Rightarrow> PB_LTYPE_IS_SUBMSG t \<and> check_all_default fs
           | _ \<Rightarrow> False)
      else if PB_ATYPE t = PB_ATYPE_POINTER then null_data d
      else if PB_ATYPE t = PB_ATYPE_CALLBACK then
        if PB_LTYPE t = PB_LTYPE_EXTENSION then (case d of PExtension [] \<Rightarrow> True | _ \<Rightarrow> False)
        else if h_field_callback h then (case d of PCallback (Some f) \<Rightarrow> False | _ \<Rightarrow> True)
        else True
      else False)"
| "check_all_default [] = True"
| "check_all_default (f # fs) = (pb_check_proto3_default_value f \<and> check_all_default fs)"

section \<open>Fields and messages\<close>

text \<open>
  The call \<open>pb_enc_X(stream, field)\<close> of \<open>encode_basic_field\<close>'s switch for the types that hold no
  submessage.
\<close>

definition encode_scalar :: "pb_hdr \<Rightarrow> pb_data \<Rightarrow> writer" where
  "encode_scalar h d =
     (let l = PB_LTYPE (h_type h) in
      if l = PB_LTYPE_BOOL then pb_enc_bool h d
      else if l \<in> {PB_LTYPE_VARINT, PB_LTYPE_UVARINT, PB_LTYPE_SVARINT} then pb_enc_varint h d
      else if l \<in> {PB_LTYPE_FIXED32, PB_LTYPE_FIXED64} then pb_enc_fixed h d
      else if l = PB_LTYPE_BYTES then pb_enc_bytes h d
      else if l = PB_LTYPE_STRING then pb_enc_string h d
      else if l = PB_LTYPE_FIXED_LENGTH_BYTES then pb_enc_fixed_length_bytes h d
      else (\<lambda>s. PB_RETURN_ERROR s ''invalid field type''))"

text \<open>
  \<open>encode_field\<close>'s presence checks: \<open>true\<close> when it returns before the field's contents are read.
\<close>

definition field_absent :: "pb_field \<Rightarrow> bool" where
  "field_absent f =
     (let h = fld_hdr f; ps = fld_size f; t = h_type h in
      if PB_HTYPE t = PB_HTYPE_ONEOF then psize_count ps \<noteq> h_tag h
      else if PB_HTYPE t = PB_HTYPE_OPTIONAL then
        if ps \<noteq> SNull then \<not> psize_has ps
        else PB_ATYPE t = PB_ATYPE_STATIC \<and> pb_check_proto3_default_value f
      else False)"

fun pb_encode :: "pb_field list \<Rightarrow> writer"
  and encode_field :: "pb_field \<Rightarrow> writer"
  and encode_basic_field :: "pb_hdr \<Rightarrow> pb_psize \<Rightarrow> pb_data \<Rightarrow> writer"
  and encode_unpacked :: "pb_hdr \<Rightarrow> pb_psize \<Rightarrow> nat \<Rightarrow> pb_data list \<Rightarrow> writer"
  and encode_array :: "pb_hdr \<Rightarrow> pb_psize \<Rightarrow> pb_data \<Rightarrow> writer"
  and encode_extension_field :: "pb_ext list \<Rightarrow> writer"
where
  "pb_encode [] = (\<lambda>s. (True, s))"
| "pb_encode (f # fs) =
     seqw
       (case f of PbField h ps d \<Rightarrow>
          if PB_LTYPE (h_type h) = PB_LTYPE_EXTENSION
          then (case d of PExtension es \<Rightarrow> encode_extension_field es | _ \<Rightarrow> (\<lambda>s. (True, s)))
          else encode_field f)
       (pb_encode fs)"
| "encode_field (PbField h ps d) =
     (if field_absent (PbField h ps d) then (\<lambda>s. (True, s))
      else if null_data d then
        if PB_HTYPE (h_type h) = PB_HTYPE_REQUIRED
        then (\<lambda>s. PB_RETURN_ERROR s ''missing required field'') else (\<lambda>s. (True, s))
      else if PB_ATYPE (h_type h) = PB_ATYPE_CALLBACK then encode_callback_field h d
      else if PB_HTYPE (h_type h) = PB_HTYPE_REPEATED then encode_array h ps d
      else encode_basic_field h ps d)"
| "encode_basic_field h ps d =
     (if null_data d then (\<lambda>s. (True, s))
      else
        seqw (pb_encode_tag_for_field h)
          (case d of
             PSub cb fs \<Rightarrow>
               if PB_LTYPE_IS_SUBMSG (h_type h) then pb_enc_submessage h ps cb (pb_encode fs)
               else encode_scalar h d
           | _ \<Rightarrow> encode_scalar h d))"
| "encode_array h ps (PArr ds) =
     (if psize_count ps = 0 then (\<lambda>s. (True, s))
      else if PB_ATYPE (h_type h) \<noteq> PB_ATYPE_POINTER \<and> psize_count ps > h_array_size h
      then (\<lambda>s. PB_RETURN_ERROR s ''array max size exceeded'')
      else if PB_LTYPE (h_type h) \<le> PB_LTYPE_LAST_PACKABLE
      then encode_packed_array h (unat (psize_count ps)) ds
      else encode_unpacked h ps (unat (psize_count ps)) ds)"
| "encode_array h ps _ = (\<lambda>s. PB_RETURN_ERROR s ''invalid data'')"
| "encode_unpacked h ps 0 ds = (\<lambda>s. (True, s))"
| "encode_unpacked h ps (Suc n) [] = (\<lambda>s. PB_RETURN_ERROR s ''out of bounds'')"
| "encode_unpacked h ps (Suc n) (d # ds) =
     seqw
       (if PB_ATYPE (h_type h) = PB_ATYPE_POINTER \<and>
           (PB_LTYPE (h_type h) = PB_LTYPE_STRING \<or> PB_LTYPE (h_type h) = PB_LTYPE_BYTES) \<and>
           null_data d
        then seqw (pb_encode_tag_for_field h) (\<lambda>s. pb_encode_varint s 0)
        else encode_basic_field h ps d)
       (encode_unpacked h ps n ds)"
| "encode_extension_field [] = (\<lambda>s. (True, s))"
| "encode_extension_field (e # es) =
     seqw
       (case e of
          PbExt (Some f) _ \<Rightarrow> f
        | PbExt None (Some fld) \<Rightarrow> encode_field fld
        | PbExt None None \<Rightarrow> (\<lambda>s. PB_RETURN_ERROR s ''invalid extension''))
       (encode_extension_field es)"

definition PB_ENCODE_DELIMITED :: u32 where "PB_ENCODE_DELIMITED = 2"
definition PB_ENCODE_NULLTERMINATED :: u32 where "PB_ENCODE_NULLTERMINATED = 4"

definition pb_encode_ex :: "pb_field list \<Rightarrow> u32 \<Rightarrow> writer" where
  "pb_encode_ex fs flags =
     (if flags AND PB_ENCODE_DELIMITED \<noteq> 0 then pb_encode_submessage (pb_encode fs)
      else if flags AND PB_ENCODE_NULLTERMINATED \<noteq> 0
      then seqw (pb_encode fs) (\<lambda>s. pb_write s [0] 1)
      else pb_encode fs)"

definition pb_get_encoded_size :: "pb_field list \<Rightarrow> size_t option" where
  "pb_get_encoded_size fs =
     (case pb_encode fs PB_OSTREAM_SIZING of
        (ok, stream) \<Rightarrow> if ok then Some (os_bytes_written stream) else None)"

end
