(* ===== verification/PbWire.thy ===== *)
theory PbWire
  imports PbEncode
begin

text \<open>
  What the encoder of \<open>PbEncode\<close> writes. \<open>wire_msg\<close> is the specification: the bytes of a message
  and whether encoding succeeds, with no stream, no size pass and no buffer. The refinement is that
  \<open>pb_encode\<close> meets the contract \<open>byte_writer\<close> for these bytes, whatever the buffer, provided the
  memory has the shape that the descriptor promises and the callbacks keep the same contract.
\<close>

section \<open>Outputs\<close>

type_synonym wire = "byte list \<times> bool"

definition seqo :: "wire \<Rightarrow> wire \<Rightarrow> wire" where
  "seqo a b = (if snd a then (fst a @ fst b, snd b) else a)"

definition writes_wire :: "writer \<Rightarrow> wire \<Rightarrow> bool" where
  "writes_wire w r = byte_writer w (fst r) (snd r)"

text \<open>The output of a callback, read off one run on a buffer of the largest size.\<close>

definition cb_out :: "writer \<Rightarrow> wire" where
  "cb_out w = (case w (pb_ostream_from_buffer (- 1)) of
     (ok, s) \<Rightarrow> ((case os_sink s of None \<Rightarrow> [] | Some out \<Rightarrow> out), ok))"

definition cb_good :: "writer \<Rightarrow> bool" where
  "cb_good w = writes_wire w (cb_out w)"

lemma cb_out_byte_writer:
  assumes "byte_writer w bs ok" "length bs < 4294967296"
  shows "cb_out w = (bs, ok)"
proof -
  have "unat (- 1 :: size_t) = 4294967295" by (simp add: unsigned_minus_1_eq_mask mask_eq_exp_minus_1)
  with assms(2) have "length bs \<le> unat (- 1 :: size_t)" by simp
  from byte_writer.fresh_buffer_ok [OF assms(1) this] show ?thesis
    by (cases "w (pb_ostream_from_buffer (- 1))") (simp add: cb_out_def)
qed

lemma cb_good_byte_writer:
  "byte_writer w bs ok \<Longrightarrow> length bs < 4294967296 \<Longrightarrow> cb_good w"
  by (simp add: cb_good_def writes_wire_def cb_out_byte_writer)

named_theorems wire_intros \<open>writers and the outputs they stand for\<close>

lemma writes_wire_seqw [wire_intros]:
  "writes_wire f a \<Longrightarrow> writes_wire g b \<Longrightarrow> writes_wire (seqw f g) (seqo a b)"
  by (cases a, cases b)
    (auto simp: writes_wire_def seqo_def intro: byte_writer_seqw byte_writer_seqw_fail)

lemma writes_wire_return [wire_intros]: "writes_wire (\<lambda>s. (True, s)) ([], True)"
  by (simp add: writes_wire_def byte_writer_return)

lemma writes_wire_error [wire_intros]: "writes_wire (\<lambda>s. PB_RETURN_ERROR s m) ([], False)"
  by (simp add: writes_wire_def byte_writer_error)

lemma writes_wire_false [wire_intros]: "writes_wire (\<lambda>s. (False, s)) ([], False)"
  by (simp add: writes_wire_def byte_writer_false)

lemma writes_wire_varint [wire_intros]:
  "writes_wire (\<lambda>s. pb_encode_varint s v) (varint_ref (unat v), True)"
  by (simp add: writes_wire_def byte_writer_varint)

lemma writes_wire_svarint [wire_intros]:
  "writes_wire (\<lambda>s. pb_encode_svarint s v) (varint_ref (nat (zigzag_ref (sint v))), True)"
  by (simp add: writes_wire_def byte_writer_svarint)

lemma writes_wire_fixed [wire_intros]:
  "length m = 4 \<Longrightarrow> writes_wire (\<lambda>s. pb_encode_fixed32 s m) (m, True)"
  "length m = 8 \<Longrightarrow> writes_wire (\<lambda>s. pb_encode_fixed64 s m) (m, True)"
  by (simp_all add: writes_wire_def byte_writer_fixed)

lemma writes_wire_tag [wire_intros]:
  "writes_wire (\<lambda>s. pb_encode_tag s wt n) (varint_ref (8 * unat n + wire_code wt), True)"
  by (simp add: writes_wire_def byte_writer_tag)

lemma pb_write_take: "pb_write s bs n = pb_write s (take (unat n) bs) n"
  by (cases "os_sink s") (simp_all add: pb_write_def buf_write_def)

lemma writes_wire_string [wire_intros]:
  assumes "unat n \<le> length bs"
  shows "writes_wire (\<lambda>s. pb_encode_string s bs n)
           (varint_ref (unat n) @ take (unat n) bs, True)"
proof -
  have "(\<lambda>s. pb_encode_string s bs n) = (\<lambda>s. pb_encode_string s (take (unat n) bs) n)"
    by (rule ext) (simp add: pb_encode_string_def seqw_def pb_write_take [of _ bs])
  then show ?thesis
    using byte_writer_string [of "take (unat n) bs" n] assms by (simp add: writes_wire_def)
qed

section \<open>Submessages\<close>

lemma byte_writer_submessage:
  assumes e: "byte_writer enc inner True"
  shows "byte_writer (pb_encode_submessage enc)
           (varint_ref (length inner mod 4294967296) @ inner) True"
proof -
  define sz where "sz = (of_nat (length inner) :: size_t)"
  have usz: "unat sz = length inner mod 4294967296"
    by (simp add: sz_def unat_of_nat)
  have first: "fst (enc PB_OSTREAM_SIZING)" "os_bytes_written (snd (enc PB_OSTREAM_SIZING)) = sz"
    using byte_writer.fresh_sizing [OF e] by (simp_all add: sz_def)
  have v: "byte_writer (\<lambda>s. pb_encode_varint s (ucast sz)) (varint_ref (unat sz)) True"
    using byte_writer_varint [of "ucast sz"] by (simp add: unat_ucast_u64)
  define rest where "rest = (\<lambda>stream. if os_sink stream = None then pb_write stream [] sz
           else if os_bytes_written stream + sz > os_max_size stream
           then PB_RETURN_ERROR stream ''stream full''
           else
             let (status, substream) =
                   enc \<lparr>os_sink = os_sink stream, os_max_size = sz, os_bytes_written = 0,
                           os_errmsg = None\<rparr>;
                 stream = stream\<lparr>os_sink := os_sink substream,
                            os_bytes_written := os_bytes_written stream + os_bytes_written substream,
                            os_errmsg := os_errmsg substream\<rparr>
             in if os_bytes_written substream \<noteq> sz
                then PB_RETURN_ERROR stream ''submsg size changed''
                else (status, stream))"
  have eq: "pb_encode_submessage enc = seqw (\<lambda>s. pb_encode_varint s (ucast sz)) rest"
  proof
    fix s
    obtain sub where sub: "enc PB_OSTREAM_SIZING = (True, sub)" "os_bytes_written sub = sz"
      using first by (cases "enc PB_OSTREAM_SIZING") auto
    show "pb_encode_submessage enc s = seqw (\<lambda>s. pb_encode_varint s (ucast sz)) rest s"
      by (cases "pb_encode_varint s (ucast sz)")
        (simp only: pb_encode_submessage_def seqw_def rest_def Let_def sub prod.case not_True_eq_False
          if_False split: if_split, simp)
  qed
  have "byte_writer rest inner True"
  proof
    fix s :: pb_ostream assume s: "os_sink s = None"
    then have "rest s = pb_write s [] sz" by (simp only: rest_def if_True simp_thms)
    with s show "\<exists>e. rest s = (True, s\<lparr>os_bytes_written := os_bytes_written s + of_nat (length inner),
        os_errmsg := e\<rparr>)"
      by (intro exI [of _ "os_errmsg s"]) (simp add: pb_write_def sz_def)
  next
    fix s :: pb_ostream and out assume s: "os_sink s = Some out"
      and r: "unat (os_bytes_written s) + length inner \<le> unat (os_max_size s)"
    have len: "length inner < 4294967296" using r unat_u32_lt [of "os_max_size s"] by linarith
    then have u: "unat sz = length inner" by (simp add: usz)
    have "\<not> os_bytes_written s + sz > os_max_size s"
      using unat_add_of_nat32 [OF r] r by (simp add: sz_def word_less_nat_alt)
    moreover obtain em where "enc \<lparr>os_sink = os_sink s, os_max_size = sz, os_bytes_written = 0,
        os_errmsg = None\<rparr> = (True, \<lparr>os_sink = Some (out @ inner), os_max_size = sz,
        os_bytes_written = sz, os_errmsg = em\<rparr>)"
      using byte_writer.writes [OF e, of "\<lparr>os_sink = os_sink s, os_max_size = sz,
        os_bytes_written = 0, os_errmsg = None\<rparr>" out] s u by (auto simp: sz_def)
    ultimately show "\<exists>e. rest s = (True, s\<lparr>os_sink := Some (out @ inner),
        os_bytes_written := os_bytes_written s + of_nat (length inner), os_errmsg := e\<rparr>)"
      using s by (auto simp: rest_def sz_def)
  next
    fix s :: pb_ostream and out assume s: "os_sink s = Some out"
      and m: "unat (os_bytes_written s) \<le> unat (os_max_size s)"
      and r: "unat (os_max_size s) < unat (os_bytes_written s) + length inner"
      and b: "unat (os_bytes_written s) + length inner < 4294967296"
    have "unat (os_bytes_written s + sz) = unat (os_bytes_written s) + length inner"
      using b by (simp add: sz_def unat_add_small32 unat_of_nat_small32)
    then have "rest s = PB_RETURN_ERROR s ''stream full''"
      using s r by (simp add: rest_def word_less_nat_alt)
    then show "\<exists>p e. rest s = (False, s\<lparr>os_sink := Some (out @ p),
        os_bytes_written := os_bytes_written s + of_nat (length p), os_errmsg := e\<rparr>) \<and>
        prefix p inner \<and> unat (os_bytes_written s) + length p \<le> unat (os_max_size s)"
      using s m by (intro exI [of _ "[]"], cases s)
        (simp add: PB_RETURN_ERROR_def PB_SET_ERROR_def)
  qed
  from byte_writer_seqw [OF v this] show ?thesis by (simp add: eq usz)
qed

lemma byte_writer_submessage_fail:
  assumes e: "byte_writer enc inner False"
  shows "byte_writer (pb_encode_submessage enc) [] False"
proof -
  have "\<exists>em. pb_encode_submessage enc s = (False, s\<lparr>os_errmsg := em\<rparr>)" for s
    using byte_writer.fresh_sizing(1) [OF e]
    by (auto simp: pb_encode_submessage_def split: prod.splits)
  note f = this
  show ?thesis
  proof
    fix s :: pb_ostream
    show "\<exists>e. pb_encode_submessage enc s = (False, s\<lparr>os_bytes_written :=
        os_bytes_written s + of_nat (length []), os_errmsg := e\<rparr>)"
      using f [of s] by simp
  next
    fix s :: pb_ostream and out assume "os_sink s = Some out"
    then show "\<exists>e. pb_encode_submessage enc s = (False, s\<lparr>os_sink := Some (out @ []),
        os_bytes_written := os_bytes_written s + of_nat (length []), os_errmsg := e\<rparr>)"
      using f [of s] by (cases s) simp
  qed simp_all
qed

definition wire_submsg :: "wire \<Rightarrow> wire" where
  "wire_submsg r =
     (if snd r then (varint_ref (length (fst r) mod 4294967296) @ fst r, True) else ([], False))"

lemma writes_wire_submessage [wire_intros]:
  "writes_wire enc r \<Longrightarrow> writes_wire (pb_encode_submessage enc) (wire_submsg r)"
  by (cases "snd r") (auto simp: writes_wire_def wire_submsg_def
      intro: byte_writer_submessage byte_writer_submessage_fail)

section \<open>The specification of the encoder\<close>

text \<open>The value part of a field without a submessage.\<close>

fun wire_varint :: "pb_hdr \<Rightarrow> pb_data \<Rightarrow> wire" where
  "wire_varint h (PRaw m) =
     (if h_data_size h \<notin> {1, 2, 4, 8} then ([], False)
      else if PB_LTYPE (h_type h) = PB_LTYPE_UVARINT then (varint_ref (unat (mem_unsigned m)), True)
      else if PB_LTYPE (h_type h) = PB_LTYPE_SVARINT
      then (varint_ref (nat (zigzag_ref (sint (mem_signed m)))), True)
      else (varint_ref (unat (mem_signed m)), True))"
| "wire_varint h _ = ([], False)"

fun wire_fixed :: "pb_hdr \<Rightarrow> pb_data \<Rightarrow> wire" where
  "wire_fixed h (PRaw m) = (if h_data_size h \<in> {4, 8} then (m, True) else ([], False))"
| "wire_fixed h _ = ([], False)"

definition wire_string :: "byte list \<Rightarrow> wire" where
  "wire_string bs = (varint_ref (length bs) @ bs, True)"

fun wire_scalar :: "pb_hdr \<Rightarrow> pb_data \<Rightarrow> wire" where
  "wire_scalar h (PRaw m) =
     (let l = PB_LTYPE (h_type h);
          ptr = (PB_ATYPE (h_type h) = PB_ATYPE_POINTER);
          text = take (if ptr then 4294967295 else unat (h_data_size h) - 1) m
      in
      if l = PB_LTYPE_BOOL then ([if safe_read_bool m then 1 else 0], True)
      else if l \<in> {PB_LTYPE_VARINT, PB_LTYPE_UVARINT, PB_LTYPE_SVARINT} then wire_varint h (PRaw m)
      else if l \<in> {PB_LTYPE_FIXED32, PB_LTYPE_FIXED64} then wire_fixed h (PRaw m)
      else if l = PB_LTYPE_BYTES then wire_string []
      else if l = PB_LTYPE_STRING then
        if (\<not> ptr \<and> h_data_size h = 0) \<or>
           (length (cstr text) < length m \<and> m ! length (cstr text) \<noteq> 0)
        then ([], False) else wire_string (cstr text)
      else if l = PB_LTYPE_FIXED_LENGTH_BYTES then wire_string m
      else ([], False))"
| "wire_scalar h (PBytes n m) =
     (let l = PB_LTYPE (h_type h) in
      if l = PB_LTYPE_BYTES then
        if PB_ATYPE (h_type h) = PB_ATYPE_STATIC \<and> ucast n > (ucast (h_data_size h) - 2 :: size_t)
        then ([], False) else wire_string (take (unat n) m)
      else if l = PB_LTYPE_STRING then wire_string []
      else ([], False))"
| "wire_scalar h d =
     (if PB_LTYPE (h_type h) \<in> {PB_LTYPE_BYTES, PB_LTYPE_STRING} then wire_string []
      else ([], False))"

definition wire_tag :: "pb_wire_type \<Rightarrow> nat \<Rightarrow> wire" where
  "wire_tag wt n = (varint_ref (8 * n + wire_code wt), True)"

definition wire_tag_for_field :: "pb_hdr \<Rightarrow> wire" where
  "wire_tag_for_field h =
     (case field_wire_type (h_type h) of
        None \<Rightarrow> ([], False) | Some wt \<Rightarrow> wire_tag wt (unat (h_tag h)))"

text \<open>The entries of an array, one after another.\<close>

fun wire_loop :: "(pb_data \<Rightarrow> wire) \<Rightarrow> nat \<Rightarrow> pb_data list \<Rightarrow> wire" where
  "wire_loop f 0 ds = ([], True)"
| "wire_loop f (Suc n) [] = ([], False)"
| "wire_loop f (Suc n) (d # ds) = seqo (f d) (wire_loop f n ds)"

definition wire_packed_entry :: "pb_hdr \<Rightarrow> pb_data \<Rightarrow> wire" where
  "wire_packed_entry h d =
     (if PB_LTYPE (h_type h) = PB_LTYPE_FIXED32 \<or> PB_LTYPE (h_type h) = PB_LTYPE_FIXED64
      then wire_fixed h d else wire_varint h d)"

text \<open>A packed array is one length-delimited record.\<close>

definition wire_packed_array :: "pb_hdr \<Rightarrow> nat \<Rightarrow> pb_data list \<Rightarrow> wire" where
  "wire_packed_array h count ds =
     seqo (wire_tag PB_WT_STRING (unat (h_tag h)))
          (wire_submsg (wire_loop (wire_packed_entry h) count ds))"

definition wire_callback_field :: "pb_hdr \<Rightarrow> pb_data \<Rightarrow> wire" where
  "wire_callback_field h d =
     (if h_field_callback h \<and> h_data_size h = 8
      then (case d of PCallback (Some f) \<Rightarrow> cb_out (f h) | _ \<Rightarrow> ([], True))
      else ([], True))"

definition wire_enc_submessage :: "pb_hdr \<Rightarrow> pb_psize \<Rightarrow> pb_cb option \<Rightarrow> wire \<Rightarrow> wire" where
  "wire_enc_submessage h ps cb r =
     (case cb of
        Some f \<Rightarrow> if PB_LTYPE (h_type h) = PB_LTYPE_SUBMSG_W_CB \<and> ps \<noteq> SNull
                  then seqo (cb_out (f h)) (wire_submsg r) else wire_submsg r
      | None \<Rightarrow> wire_submsg r)"

fun wire_msg :: "pb_field list \<Rightarrow> wire"
  and wire_field :: "pb_field \<Rightarrow> wire"
  and wire_basic_field :: "pb_hdr \<Rightarrow> pb_psize \<Rightarrow> pb_data \<Rightarrow> wire"
  and wire_unpacked :: "pb_hdr \<Rightarrow> pb_psize \<Rightarrow> nat \<Rightarrow> pb_data list \<Rightarrow> wire"
  and wire_array :: "pb_hdr \<Rightarrow> pb_psize \<Rightarrow> pb_data \<Rightarrow> wire"
  and wire_exts :: "pb_ext list \<Rightarrow> wire"
where
  "wire_msg [] = ([], True)"
| "wire_msg (f # fs) =
     seqo
       (case f of PbField h ps d \<Rightarrow>
          if PB_LTYPE (h_type h) = PB_LTYPE_EXTENSION
          then (case d of PExtension es \<Rightarrow> wire_exts es | _ \<Rightarrow> ([], True))
          else wire_field f)
       (wire_msg fs)"
| "wire_field (PbField h ps d) =
     (if field_absent (PbField h ps d) then ([], True)
      else if null_data d then ([], PB_HTYPE (h_type h) \<noteq> PB_HTYPE_REQUIRED)
      else if PB_ATYPE (h_type h) = PB_ATYPE_CALLBACK then wire_callback_field h d
      else if PB_HTYPE (h_type h) = PB_HTYPE_REPEATED then wire_array h ps d
      else wire_basic_field h ps d)"
| "wire_basic_field h ps d =
     (if null_data d then ([], True)
      else
        seqo (wire_tag_for_field h)
          (case d of
             PSub cb fs \<Rightarrow>
               if PB_LTYPE_IS_SUBMSG (h_type h) then wire_enc_submessage h ps cb (wire_msg fs)
               else wire_scalar h d
           | _ \<Rightarrow> wire_scalar h d))"
| "wire_array h ps (PArr ds) =
     (if psize_count ps = 0 then ([], True)
      else if PB_ATYPE (h_type h) \<noteq> PB_ATYPE_POINTER \<and> psize_count ps > h_array_size h
      then ([], False)
      else if PB_LTYPE (h_type h) \<le> PB_LTYPE_LAST_PACKABLE
      then wire_packed_array h (unat (psize_count ps)) ds
      else wire_unpacked h ps (unat (psize_count ps)) ds)"
| "wire_array h ps _ = ([], False)"
| "wire_unpacked h ps 0 ds = ([], True)"
| "wire_unpacked h ps (Suc n) [] = ([], False)"
| "wire_unpacked h ps (Suc n) (d # ds) =
     seqo
       (if PB_ATYPE (h_type h) = PB_ATYPE_POINTER \<and>
           (PB_LTYPE (h_type h) = PB_LTYPE_STRING \<or> PB_LTYPE (h_type h) = PB_LTYPE_BYTES) \<and>
           null_data d
        then seqo (wire_tag_for_field h) (varint_ref 0, True)
        else wire_basic_field h ps d)
       (wire_unpacked h ps n ds)"
| "wire_exts [] = ([], True)"
| "wire_exts (e # es) =
     seqo
       (case e of
          PbExt (Some f) _ \<Rightarrow> cb_out f
        | PbExt None (Some fld) \<Rightarrow> wire_field fld
        | PbExt None None \<Rightarrow> ([], False))
       (wire_exts es)"

section \<open>Well-formed memory\<close>

text \<open>
  The memory of a field has the size its descriptor gives, the entries of a packed array are
  numbers of the type's width, and every callback keeps the writer contract.
\<close>

fun wf_scalar :: "pb_hdr \<Rightarrow> pb_data \<Rightarrow> bool" where
  "wf_scalar h (PRaw m) \<longleftrightarrow>
     length m = unat (h_data_size h) \<or>
     PB_ATYPE (h_type h) = PB_ATYPE_POINTER \<and> PB_LTYPE (h_type h) = PB_LTYPE_STRING"
| "wf_scalar h (PBytes n m) \<longleftrightarrow> unat n \<le> length m"
| "wf_scalar h _ \<longleftrightarrow> True"

definition wf_packed :: "pb_hdr \<Rightarrow> pb_data list \<Rightarrow> bool" where
  "wf_packed h ds \<longleftrightarrow>
     (PB_LTYPE (h_type h) = PB_LTYPE_FIXED32 \<longrightarrow>
        h_data_size h = 4 \<and> (\<forall>d \<in> set ds. \<exists>m. d = PRaw m \<and> length m = 4)) \<and>
     (PB_LTYPE (h_type h) = PB_LTYPE_FIXED64 \<longrightarrow>
        h_data_size h = 8 \<and> (\<forall>d \<in> set ds. \<exists>m. d = PRaw m \<and> length m = 8))"

fun wf_array :: "pb_hdr \<Rightarrow> pb_psize \<Rightarrow> pb_data \<Rightarrow> bool" where
  "wf_array h ps (PArr ds) \<longleftrightarrow>
     (if PB_ATYPE (h_type h) = PB_ATYPE_POINTER then unat (psize_count ps) \<le> length ds
      else unat (h_array_size h) \<le> length ds)"
| "wf_array h ps _ \<longleftrightarrow> True"

fun wf_fields :: "pb_field list \<Rightarrow> bool"
  and wf_field :: "pb_field \<Rightarrow> bool"
  and wf_data :: "pb_hdr \<Rightarrow> pb_data \<Rightarrow> bool"
  and wf_entries :: "pb_hdr \<Rightarrow> pb_data list \<Rightarrow> bool"
  and wf_exts :: "pb_ext list \<Rightarrow> bool"
where
  "wf_fields [] \<longleftrightarrow> True"
| "wf_fields (f # fs) \<longleftrightarrow> wf_field f \<and> wf_fields fs"
| "wf_field (PbField h ps d) \<longleftrightarrow> wf_data h d \<and> wf_array h ps d"
| "wf_data h (PSub cb fs) \<longleftrightarrow> (\<forall>f. cb = Some f \<longrightarrow> cb_good (f h)) \<and> wf_fields fs"
| "wf_data h (PArr ds) \<longleftrightarrow>
     (PB_LTYPE (h_type h) \<le> PB_LTYPE_LAST_PACKABLE \<longrightarrow> wf_packed h ds) \<and> wf_entries h ds"
| "wf_data h (PCallback cb) \<longleftrightarrow> (\<forall>f. cb = Some f \<longrightarrow> cb_good (f h))"
| "wf_data h (PExtension es) \<longleftrightarrow> wf_exts es"
| "wf_data h d \<longleftrightarrow> wf_scalar h d"
| "wf_entries h [] \<longleftrightarrow> True"
| "wf_entries h (d # ds) \<longleftrightarrow> wf_data h d \<and> wf_entries h ds"
| "wf_exts [] \<longleftrightarrow> True"
| "wf_exts (e # es) \<longleftrightarrow>
     (case e of PbExt (Some f) _ \<Rightarrow> cb_good f
      | PbExt None (Some fld) \<Rightarrow> wf_field fld
      | PbExt None None \<Rightarrow> True) \<and> wf_exts es"

section \<open>The refinement\<close>

lemma writes_wire_enc_varint:
  "writes_wire (pb_enc_varint h d) (wire_varint h d)"
  by (cases d) (auto intro: wire_intros)

lemma writes_wire_enc_fixed:
  assumes "case d of PRaw m \<Rightarrow> length m = unat (h_data_size h) | _ \<Rightarrow> True"
  shows "writes_wire (pb_enc_fixed h d) (wire_fixed h d)"
  using assms by (cases d) (auto intro: wire_intros)

lemma length_take_cstr: "length (cstr (take n m)) \<le> length m"
  by (metis cstr_def length_takeWhile_le length_take le_trans min.cobounded1)

lemma take_cstr: "take (length (cstr (take n m))) m = cstr (take n m)"
  by (metis append_take_drop_id cstr_def takeWhile_eq_take take_take min.absorb1
      length_takeWhile_le length_take min.boundedE take_all)

lemma writes_wire_enc_string:
  "writes_wire (pb_enc_string h (PRaw m))
     (let ptr = (PB_ATYPE (h_type h) = PB_ATYPE_POINTER);
          text = take (if ptr then 4294967295 else unat (h_data_size h) - 1) m
      in if (\<not> ptr \<and> h_data_size h = 0) \<or>
            (length (cstr text) < length m \<and> m ! length (cstr text) \<noteq> 0)
         then ([], False) else wire_string (cstr text))"
proof -
  define k where "k = (if PB_ATYPE (h_type h) = PB_ATYPE_POINTER then 4294967295
                       else unat (h_data_size h) - 1)"
  have "unat (h_data_size h) < 65536" by (rule order_less_le_trans [OF unsigned_less]) simp
  then have k: "k < 4294967296" unfolding k_def by (auto intro: order_le_less_trans [OF diff_le_self])
  have n: "length (cstr (take k m)) \<le> k"
    using length_cstr_le [of "take k m"] by simp
  with k have u: "unat (of_nat (length (cstr (take k m))) :: size_t) = length (cstr (take k m))"
    by (simp add: unat_of_nat_small32)
  have "writes_wire (\<lambda>s. pb_encode_string s m (of_nat (length (cstr (take k m)))))
          (wire_string (cstr (take k m)))"
    using writes_wire_string [of "of_nat (length (cstr (take k m)))" m]
    by (simp add: u length_take_cstr wire_string_def take_cstr)
  then show ?thesis
    by (simp add: strnlen_def k_def [symmetric] Let_def writes_wire_error del: unat_of_nat)
qed

lemma writes_wire_empty_string: "writes_wire (\<lambda>s. pb_encode_string s [] 0) (wire_string [])"
  using writes_wire_string [of 0 "[]"] by (simp add: wire_string_def)

lemma unat_ucast_u32: "unat (ucast (n :: u16) :: size_t) = unat n"
  by (simp add: unsigned_ucast_eq take_bit_nat_eq_self order_less_trans [OF unsigned_less])

lemma writes_wire_enc_bytes:
  assumes "unat n \<le> length m"
  shows "writes_wire (pb_enc_bytes h (PBytes n m))
     (if PB_ATYPE (h_type h) = PB_ATYPE_STATIC \<and> ucast n > (ucast (h_data_size h) - 2 :: size_t)
      then ([], False) else wire_string (take (unat n) m))"
  using writes_wire_string [of "ucast n" m] assms
  by (simp add: unat_ucast_u32 wire_string_def writes_wire_error)

lemma writes_wire_if:
  "(P \<Longrightarrow> writes_wire a x) \<Longrightarrow> (\<not> P \<Longrightarrow> writes_wire b y) \<Longrightarrow>
     writes_wire (if P then a else b) (if P then x else y)"
  by simp

definition scalar_error :: "pb_hdr \<Rightarrow> string" where
  "scalar_error h =
     (if PB_LTYPE (h_type h) \<in>
         {PB_LTYPE_BOOL, PB_LTYPE_VARINT, PB_LTYPE_UVARINT, PB_LTYPE_SVARINT, PB_LTYPE_FIXED32,
          PB_LTYPE_FIXED64, PB_LTYPE_FIXED_LENGTH_BYTES}
      then ''invalid data'' else ''invalid field type'')"

lemma encode_scalar_other:
  assumes "case d of PRaw m \<Rightarrow> False | PBytes n m \<Rightarrow> False | _ \<Rightarrow> True"
  shows "encode_scalar h d =
      (if PB_LTYPE (h_type h) \<in> {PB_LTYPE_BYTES, PB_LTYPE_STRING} then \<lambda>s. pb_encode_string s [] 0
       else (\<lambda>s. PB_RETURN_ERROR s (scalar_error h)))"
proof -
  have "pb_enc_bool h d = (\<lambda>s. PB_RETURN_ERROR s ''invalid data'')"
    "pb_enc_varint h d = (\<lambda>s. PB_RETURN_ERROR s ''invalid data'')"
    "pb_enc_fixed h d = (\<lambda>s. PB_RETURN_ERROR s ''invalid data'')"
    "pb_enc_bytes h d = (\<lambda>s. pb_encode_string s [] 0)"
    "pb_enc_string h d = (\<lambda>s. pb_encode_string s [] 0)"
    "pb_enc_fixed_length_bytes h d = (\<lambda>s. PB_RETURN_ERROR s ''invalid data'')"
    using assms by (cases d; simp)+
  then show ?thesis by (auto simp: encode_scalar_def Let_def pb_type_defs scalar_error_def)
qed

lemma writes_wire_scalar:
  assumes "wf_scalar h d"
  shows "writes_wire (encode_scalar h d) (wire_scalar h d)"
proof (cases d)
  case (PRaw m)
  have b: "writes_wire (pb_enc_bool h d) ([if safe_read_bool m then 1 else 0], True)"
    using writes_wire_varint [of "if safe_read_bool m then 1 else 0"]
    by (simp add: PRaw varint_ref_small split: if_splits)
  have f: "writes_wire (pb_enc_fixed h d) (wire_fixed h d)"
    if "PB_LTYPE (h_type h) \<in> {PB_LTYPE_FIXED32, PB_LTYPE_FIXED64}"
    by (rule writes_wire_enc_fixed) (use assms PRaw that in \<open>auto simp: pb_type_defs\<close>)
  have l: "writes_wire (pb_enc_fixed_length_bytes h d) (wire_string m)"
    if "PB_LTYPE (h_type h) = PB_LTYPE_FIXED_LENGTH_BYTES"
    using writes_wire_string [of "ucast (h_data_size h)" m] assms PRaw that
    by (auto simp: unat_ucast_u32 wire_string_def pb_type_defs)
  show ?thesis
    unfolding PRaw encode_scalar_def wire_scalar.simps Let_def
    by (intro writes_wire_if)
      (use writes_wire_enc_varint [of h d] b f l in \<open>simp_all add: PRaw writes_wire_empty_string
         writes_wire_error writes_wire_enc_string [unfolded Let_def] del: pb_enc_string.simps
         pb_enc_varint.simps wire_varint.simps pb_enc_fixed.simps wire_fixed.simps\<close>)
next
  case (PBytes n m)
  then have "encode_scalar h d =
      (if PB_LTYPE (h_type h) = PB_LTYPE_BYTES then pb_enc_bytes h (PBytes n m)
       else if PB_LTYPE (h_type h) = PB_LTYPE_STRING then \<lambda>s. pb_encode_string s [] 0
       else (\<lambda>s. PB_RETURN_ERROR s (scalar_error h)))"
    by (auto simp: encode_scalar_def Let_def pb_type_defs scalar_error_def)
  then show ?thesis
    using assms writes_wire_enc_bytes [of n m h] PBytes
    by (simp del: pb_enc_bytes.simps add: Let_def writes_wire_empty_string writes_wire_error)
qed (simp_all add: encode_scalar_other writes_wire_empty_string writes_wire_error)

lemma writes_wire_tag_for_field:
  "writes_wire (pb_encode_tag_for_field h) (wire_tag_for_field h)"
  using writes_wire_tag [of _ "ucast (h_tag h)"]
  by (auto simp: pb_encode_tag_for_field_def wire_tag_for_field_def wire_tag_def unat_ucast_u32
      writes_wire_error split: option.split)

lemma writes_wire_loop:
  assumes "\<And>d. d \<in> set ds \<Longrightarrow> writes_wire (f d) (g d)"
  shows "writes_wire (enc_loop f n ds) (wire_loop g n ds)"
  using assms by (induction f n ds rule: enc_loop.induct) (auto intro: wire_intros)

lemma wire_loop_fixed:
  assumes "\<forall>d \<in> set ds. \<exists>m. d = PRaw m \<and> length m = k" "h_data_size h \<in> {4, 8}" "n \<le> length ds"
    "PB_LTYPE (h_type h) = PB_LTYPE_FIXED32 \<or> PB_LTYPE (h_type h) = PB_LTYPE_FIXED64"
  shows "snd (wire_loop (wire_packed_entry h) n ds)"
    and "length (fst (wire_loop (wire_packed_entry h) n ds)) = k * n"
  using assms
  by (induction "wire_packed_entry h" n ds rule: wire_loop.induct)
    (auto simp: seqo_def wire_packed_entry_def)

text \<open>The counted size agrees with the data, so the length prefix is right.\<close>

lemma packed_size_ok:
  assumes w: "wf_packed h ds" "n \<le> length ds" and r: "r = wire_loop (wire_packed_entry h) n ds"
  shows "case packed_size h n ds of Inl m \<Rightarrow> \<not> snd r | Inr sz \<Rightarrow> snd r \<and> sz = of_nat (length (fst r))"
proof -
  let ?l = "PB_LTYPE (h_type h)"
  have v: "writes_wire (enc_loop (pb_enc_varint h) n ds) r"
    if "?l \<noteq> PB_LTYPE_FIXED32" "?l \<noteq> PB_LTYPE_FIXED64"
    unfolding r by (rule writes_wire_loop) (simp add: wire_packed_entry_def that writes_wire_enc_varint)
  consider "?l = PB_LTYPE_FIXED32" | "?l = PB_LTYPE_FIXED64" |
    "?l \<noteq> PB_LTYPE_FIXED32" "?l \<noteq> PB_LTYPE_FIXED64" by blast
  then show ?thesis
  proof cases
    case 1
    then show ?thesis using w wire_loop_fixed [of ds 4 h n]
      by (simp add: packed_size_def wf_packed_def r)
  next
    case 2
    then show ?thesis using w wire_loop_fixed [of ds 8 h n]
      by (simp add: packed_size_def wf_packed_def r pb_type_defs)
  next
    case 3
    then show ?thesis using byte_writer.fresh_sizing [OF v [unfolded writes_wire_def]]
      by (auto simp: packed_size_def split: prod.split)
  qed
qed

text \<open>A writer whose sizing pass is replaced by one count.\<close>

lemma byte_writer_sizing_shortcut:
  assumes w: "byte_writer w bs True" and sz: "sz = of_nat (length bs)"
  shows "byte_writer (\<lambda>s. if os_sink s = None then pb_write s [] sz else w s) bs True"
proof
  fix s :: pb_ostream assume "os_sink s = None"
  then show "\<exists>e. (if os_sink s = None then pb_write s [] sz else w s) =
      (True, s\<lparr>os_bytes_written := os_bytes_written s + of_nat (length bs), os_errmsg := e\<rparr>)"
    by (intro exI [of _ "os_errmsg s"]) (simp add: pb_write_def sz)
next
  fix s :: pb_ostream and out assume s: "os_sink s = Some out"
    and m: "unat (os_bytes_written s) \<le> unat (os_max_size s)"
      "unat (os_max_size s) < unat (os_bytes_written s) + length bs"
      "unat (os_bytes_written s) + length bs < 4294967296"
  from byte_writer.full [OF w this] s
  show "\<exists>p e. (if os_sink s = None then pb_write s [] sz else w s) =
      (False, s\<lparr>os_sink := Some (out @ p),
        os_bytes_written := os_bytes_written s + of_nat (length p), os_errmsg := e\<rparr>) \<and>
      prefix p bs \<and> unat (os_bytes_written s) + length p \<le> unat (os_max_size s)"
    by simp
qed (simp add: byte_writer.writes [OF w])

text \<open>The error message is outside the contract.\<close>

lemma byte_writer_errmsg:
  assumes w: "byte_writer w bs ok" and e: "\<And>s. \<exists>e. w' s = (fst (w s), (snd (w s))\<lparr>os_errmsg := e\<rparr>)"
  shows "byte_writer w' bs ok"
proof
  fix s :: pb_ostream assume "os_sink s = None"
  from byte_writer.sizing [OF w this] e [of s]
  show "\<exists>e. w' s = (ok, s\<lparr>os_bytes_written := os_bytes_written s + of_nat (length bs),
      os_errmsg := e\<rparr>)" by auto
next
  fix s :: pb_ostream and out assume "os_sink s = Some out"
    "unat (os_bytes_written s) + length bs \<le> unat (os_max_size s)"
  from byte_writer.writes [OF w this] e [of s]
  show "\<exists>e. w' s = (ok, s\<lparr>os_sink := Some (out @ bs),
      os_bytes_written := os_bytes_written s + of_nat (length bs), os_errmsg := e\<rparr>)" by auto
next
  fix s :: pb_ostream and out assume "os_sink s = Some out"
    "unat (os_bytes_written s) \<le> unat (os_max_size s)"
    "unat (os_max_size s) < unat (os_bytes_written s) + length bs"
    "unat (os_bytes_written s) + length bs < 4294967296"
  from byte_writer.full [OF w this] e [of s]
  show "\<exists>p e. w' s = (False, s\<lparr>os_sink := Some (out @ p),
      os_bytes_written := os_bytes_written s + of_nat (length p), os_errmsg := e\<rparr>) \<and>
      prefix p bs \<and> unat (os_bytes_written s) + length p \<le> unat (os_max_size s)"
    by (elim exE conjE) (intro exI conjI; simp?)
qed

lemma unat_of_nat_mod32: "unat (of_nat n :: size_t) = n mod 4294967296"
  by (simp add: unat_of_nat)

lemma writes_wire_packed_array:
  assumes w: "wf_packed h ds" "n \<le> length ds" and e: "wf_entries h ds"
    and ok: "PB_LTYPE (h_type h) \<le> PB_LTYPE_LAST_PACKABLE"
  shows "writes_wire (encode_packed_array h n ds) (wire_packed_array h n ds)"
proof -
  define r where "r = wire_loop (wire_packed_entry h) n ds"
  have ent: "writes_wire (packed_entry h d) (wire_packed_entry h d)" if "d \<in> set ds" for d
    using w that by (auto simp: packed_entry_def wire_packed_entry_def wf_packed_def
        writes_wire_enc_varint intro!: writes_wire_enc_fixed)
  then have loop: "writes_wire (enc_loop (packed_entry h) n ds) r"
    unfolding r_def by (rule writes_wire_loop)
  have "writes_wire (case packed_size h n ds of Inl msg \<Rightarrow> (\<lambda>s. PB_RETURN_ERROR s msg)
        | Inr sz \<Rightarrow> seqw (\<lambda>s. pb_encode_varint s (ucast sz))
              (\<lambda>s. if os_sink s = None then pb_write s [] sz
                   else enc_loop (packed_entry h) n ds s)) (wire_submsg r)"
  proof (cases "packed_size h n ds")
    case (Inl m)
    with packed_size_ok [OF w r_def] show ?thesis by (simp add: wire_submsg_def writes_wire_error)
  next
    case (Inr sz)
    with packed_size_ok [OF w r_def] have r: "snd r" "sz = of_nat (length (fst r))" by simp_all
    have "byte_writer (\<lambda>s. if os_sink s = None then pb_write s [] sz
        else enc_loop (packed_entry h) n ds s) (fst r) True"
      by (rule byte_writer_sizing_shortcut) (use loop r in \<open>simp_all add: writes_wire_def\<close>)
    from byte_writer_seqw [OF byte_writer_varint this, of "ucast sz"] show ?thesis
      unfolding Inr sum.case wire_submsg_def writes_wire_def
      using r(1) by (simp add: unat_ucast_u64 r(2) unat_of_nat_mod32)
  qed
  then show ?thesis
    using writes_wire_tag [of PB_WT_STRING "ucast (h_tag h)"]
    by (auto simp: encode_packed_array_def wire_packed_array_def wire_tag_def unat_ucast_u32
        r_def [symmetric] intro!: writes_wire_seqw)
qed

lemma writes_wire_callback_field:
  assumes "wf_data h d"
  shows "writes_wire (encode_callback_field h d) (wire_callback_field h d)"
proof -
  have "writes_wire (\<lambda>s. case w s of (ok, s1) \<Rightarrow> if ok then (True, s1)
      else PB_RETURN_ERROR s1 ''callback error'') r" if "writes_wire w r" for w r
    unfolding writes_wire_def
    by (rule byte_writer_errmsg [OF that [unfolded writes_wire_def]])
      (auto simp: PB_RETURN_ERROR_def PB_SET_ERROR_def split: prod.split
        intro: exI [where P = "\<lambda>e. x = x\<lparr>os_errmsg := e\<rparr>" and x = "os_errmsg x" for x])
  note cb = this
  show ?thesis using assms
    by (auto simp: encode_callback_field_def wire_callback_field_def pb_default_field_callback_def
        cb_good_def writes_wire_return split: pb_data.split option.split intro!: cb)
qed

lemma writes_wire_enc_submessage:
  assumes "writes_wire enc r" "\<forall>f. cb = Some f \<longrightarrow> cb_good (f h)"
  shows "writes_wire (pb_enc_submessage h ps cb enc) (wire_enc_submessage h ps cb r)"
  using assms by (cases cb) (auto simp: pb_enc_submessage_def wire_enc_submessage_def cb_good_def
      intro!: wire_intros)

lemma wf_data_scalar: "wf_data h d \<Longrightarrow> wf_scalar h d"
  by (cases d) simp_all

lemma writes_wire_encode:
  "wf_fields fs \<Longrightarrow> writes_wire (pb_encode fs) (wire_msg fs)"
  "wf_field f \<Longrightarrow> writes_wire (encode_field f) (wire_field f)"
  "wf_data h d \<Longrightarrow> writes_wire (encode_basic_field h ps d) (wire_basic_field h ps d)"
  "wf_entries h ds \<Longrightarrow> writes_wire (encode_unpacked h ps n ds) (wire_unpacked h ps n ds)"
  "wf_data h d \<Longrightarrow> wf_array h ps d \<Longrightarrow> writes_wire (encode_array h ps d) (wire_array h ps d)"
  "wf_exts es \<Longrightarrow> writes_wire (encode_extension_field es) (wire_exts es)"
proof (induction fs and f and h ps d and h ps n ds and h ps d and es
    rule: pb_encode_encode_field_encode_basic_field_encode_unpacked_encode_array_encode_extension_field.induct)
  case (2 f fs)
  then show ?case by (cases f; cases "fld_data f")
     (auto intro!: wire_intros simp del: encode_field.simps wire_field.simps)
next
  case (3 h ps d)
  then show ?case
    using writes_wire_callback_field [of h d]
    by (auto simp: writes_wire_return writes_wire_error
      simp del: encode_basic_field.simps wire_basic_field.simps)
next
  case (4 h ps d)
  have "writes_wire (case d of PSub cb fs \<Rightarrow>
        if PB_LTYPE_IS_SUBMSG (h_type h) then pb_enc_submessage h ps cb (pb_encode fs)
        else encode_scalar h d | _ \<Rightarrow> encode_scalar h d)
      (case d of PSub cb fs \<Rightarrow>
        if PB_LTYPE_IS_SUBMSG (h_type h) then wire_enc_submessage h ps cb (wire_msg fs)
        else wire_scalar h d | _ \<Rightarrow> wire_scalar h d)"
    using 4 writes_wire_scalar [OF wf_data_scalar [OF 4(2)]]
    by (cases d) (auto intro!: writes_wire_enc_submessage)
  then show ?case
    by (auto simp: writes_wire_return intro!: writes_wire_seqw writes_wire_tag_for_field)
next
  case (5 h ps ds)
  have n: "unat (psize_count ps) \<le> length ds"
    if "PB_ATYPE (h_type h) = PB_ATYPE_POINTER \<or> \<not> psize_count ps > h_array_size h"
    using 5(3) that by (auto simp: word_less_nat_alt split: if_splits)
  show ?case
    using 5 n by (auto simp: writes_wire_return writes_wire_error not_less
        intro!: writes_wire_packed_array)
next
  case (9 h ps n d ds)
  have "writes_wire (seqw (pb_encode_tag_for_field h) (\<lambda>s. pb_encode_varint s 0))
      (seqo (wire_tag_for_field h) (varint_ref 0, True))"
    using writes_wire_varint [of 0] by (intro writes_wire_seqw writes_wire_tag_for_field) simp
  with 9 show ?case
    by (auto intro!: writes_wire_seqw simp del: encode_basic_field.simps wire_basic_field.simps
        varint_ref.simps)
next
  case (11 e es)
  then show ?case
    by (auto intro!: wire_intros simp: cb_good_def simp del: encode_field.simps wire_field.simps
        split: pb_ext.splits option.splits)
qed (auto intro: wire_intros)

lemma encode_byte_writer:
  "wf_fields fs \<Longrightarrow> byte_writer (pb_encode fs) (fst (wire_msg fs)) (snd (wire_msg fs))"
  using writes_wire_encode(1) by (simp add: writes_wire_def)

lemma encode_ex_byte_writer:
  assumes "wf_fields fs"
  shows "writes_wire (pb_encode_ex fs flags)
     (if flags AND PB_ENCODE_DELIMITED \<noteq> 0 then wire_submsg (wire_msg fs)
      else if flags AND PB_ENCODE_NULLTERMINATED \<noteq> 0 then seqo (wire_msg fs) ([0], True)
      else wire_msg fs)"
  using writes_wire_encode(1) [OF assms] byte_writer_pb_write [of "[0]" 1]
  by (auto simp: pb_encode_ex_def writes_wire_def [of "\<lambda>s. pb_write s [0] 1"]
      intro!: writes_wire_submessage writes_wire_seqw)

section \<open>Reading records back\<close>

text \<open>
  A reader of the wire format, independent of any descriptor: a message is a sequence of records,
  each a tag and a value in one of the wire types.
\<close>

datatype wval = WVarint nat | WI64 "byte list" | WLen "byte list" | WI32 "byte list"

lemma get_varint_less: "get_varint bs = Some (n, r) \<Longrightarrow> length r < length bs"
  by (induction bs arbitrary: n r rule: get_varint.induct)
    (auto split: if_splits option.splits)

definition get_val :: "nat \<Rightarrow> byte list \<Rightarrow> (wval \<times> byte list) option" where
  "get_val wt bs =
     (if wt = 0 then (case get_varint bs of None \<Rightarrow> None | Some (n, r) \<Rightarrow> Some (WVarint n, r))
      else if wt = 1 then
        if length bs < 8 then None else Some (WI64 (take 8 bs), drop 8 bs)
      else if wt = 2 then
        (case get_varint bs of None \<Rightarrow> None
         | Some (n, r) \<Rightarrow> if length r < n then None else Some (WLen (take n r), drop n r))
      else if wt = 5 then
        if length bs < 4 then None else Some (WI32 (take 4 bs), drop 4 bs)
      else None)"

lemma get_val_le: "get_val wt bs = Some (v, r) \<Longrightarrow> length r \<le> length bs"
  by (auto simp: get_val_def dest!: get_varint_less split: if_splits option.splits)

definition get_record :: "byte list \<Rightarrow> ((nat \<times> wval) \<times> byte list) option" where
  "get_record bs =
     (case get_varint bs of None \<Rightarrow> None
      | Some (k, r) \<Rightarrow>
          if k div 8 = 0 then None
          else (case get_val (k mod 8) r of None \<Rightarrow> None | Some (v, r) \<Rightarrow> Some ((k div 8, v), r)))"

lemma get_record_less: "get_record bs = Some (v, r) \<Longrightarrow> length r < length bs"
  by (auto simp: get_record_def dest!: get_varint_less get_val_le split: if_splits option.splits)

function get_records :: "byte list \<Rightarrow> (nat \<times> wval) list option" where
  "get_records bs =
     (if bs = [] then Some []
      else case get_record bs of None \<Rightarrow> None
           | Some (v, r) \<Rightarrow>
               (case get_records r of None \<Rightarrow> None | Some vs \<Rightarrow> Some (v # vs)))"
  by pat_completeness auto
termination by (relation "measure length") (auto dest: get_record_less)

declare get_records.simps [simp del]

lemma get_records_Nil [simp]: "get_records [] = Some []"
  by (simp add: get_records.simps)

fun put_val :: "wval \<Rightarrow> byte list" where
  "put_val (WVarint n) = varint_ref n"
| "put_val (WLen bs) = varint_ref (length bs) @ bs"
| "put_val (WI64 bs) = bs"
| "put_val (WI32 bs) = bs"

fun val_code :: "wval \<Rightarrow> nat" where
  "val_code (WVarint n) = 0"
| "val_code (WI64 bs) = 1"
| "val_code (WLen bs) = 2"
| "val_code (WI32 bs) = 5"

fun val_ok :: "wval \<Rightarrow> bool" where
  "val_ok (WI64 bs) \<longleftrightarrow> length bs = 8"
| "val_ok (WI32 bs) \<longleftrightarrow> length bs = 4"
| "val_ok _ \<longleftrightarrow> True"

fun put_record :: "nat \<times> wval \<Rightarrow> byte list" where
  "put_record (tag, v) = varint_ref (8 * tag + val_code v) @ put_val v"

lemma get_put_val: "val_ok v \<Longrightarrow> get_val (val_code v) (put_val v @ r) = Some (v, r)"
  by (cases v) (auto simp: get_val_def get_varint_ref)

lemma val_code_less: "val_code v < 8"
  by (cases v) simp_all

lemma get_put_record:
  assumes "0 < tag" "val_ok v"
  shows "get_record (put_record (tag, v) @ r) = Some ((tag, v), r)"
proof -
  have "(8 * tag + val_code v) div 8 = tag" "(8 * tag + val_code v) mod 8 = val_code v"
    using val_code_less [of v] by simp_all
  then show ?thesis using assms by (simp add: get_record_def get_varint_ref get_put_val)
qed

lemma get_put_records:
  assumes "\<forall>(t, v) \<in> set rs. 0 < t \<and> val_ok v"
  shows "get_records (concat (map put_record rs) @ bs) =
     (case get_records bs of None \<Rightarrow> None | Some vs \<Rightarrow> Some (rs @ vs))"
  using assms
proof (induction rs)
  case Nil
  then show ?case by (simp split: option.split)
next
  case (Cons a rs)
  obtain t v where a: "a = (t, v)" by (cases a)
  have "put_record a \<noteq> []" unfolding a put_record.simps by (subst varint_ref.simps) simp
  with Cons a show ?case
    by (subst get_records.simps)
      (auto simp: get_put_record simp del: put_record.simps varint_ref.simps split: option.split)
qed

end
