(* ===== verification/PbProps.thy ===== *)
theory PbProps
  imports PbWire
begin

text \<open>
  The properties of the nanopb encoder, stated on the functions of \<open>pb_encode.c\<close>: the encoder
  implements the wire format, it never leaves its buffer, the sizing pass predicts the writing pass,
  and the integer codes have inverses.
\<close>

section \<open>A message for the witnesses\<close>

definition demo_hdr :: "u16 \<Rightarrow> byte \<Rightarrow> u16 \<Rightarrow> pb_hdr" where
  "demo_hdr tag ltype n = \<lparr>h_tag = tag, h_type = PB_ATYPE_STATIC OR PB_HTYPE_OPTIONAL OR ltype,
     h_data_size = n, h_array_size = 1, h_field_callback = False, h_default_value = False\<rparr>"

definition demo_fields :: "pb_field list" where
  "demo_fields =
     [PbField (demo_hdr 1 PB_LTYPE_UVARINT 4) SNull (PRaw [44, 1, 0, 0]),
      PbField (demo_hdr 2 PB_LTYPE_STRING 4) SNull (PRaw [104, 105, 0, 0]),
      PbField (demo_hdr 3 PB_LTYPE_UVARINT 4) SNull (PRaw [0, 0, 0, 0])]"

lemmas demo_defs = demo_fields_def demo_hdr_def pb_type_defs PB_ATYPE_def PB_HTYPE_def PB_LTYPE_def

lemma demo_fields_wire: "wire_msg demo_fields = ([8, 172, 2, 18, 2, 104, 105], True)"
  by code_simp

lemma demo_fields_wf: "wf_fields demo_fields"
  by (simp add: demo_defs)

section \<open>Encoding into a buffer\<close>

text \<open>
  C8. \<open>pb_encode\<close> into a buffer of \<open>n\<close> bytes implements the wire format of the message: it succeeds
  exactly when the format defines the message and its bytes fit, and then the buffer holds exactly these
  bytes and \<open>bytes_written\<close> is their number. In every case what it wrote is a prefix of the wire bytes
  and stays within the \<open>n\<close> bytes of the buffer.
\<close>

theorem encode_into_buffer:
  assumes "wf_fields fs" "length (fst (wire_msg fs)) < 2 ^ 32"
    and "pb_encode fs (pb_ostream_from_buffer n) = (ok, s)"
  shows "(ok \<longleftrightarrow> snd (wire_msg fs) \<and> length (fst (wire_msg fs)) \<le> unat n) \<and>
     (\<exists>out. os_sink s = Some out \<and> prefix out (fst (wire_msg fs)) \<and> length out \<le> unat n \<and>
        (ok \<longrightarrow> out = fst (wire_msg fs) \<and> unat (os_bytes_written s) = length out))"
proof -
  note enc = encode_byte_writer [OF assms(1)]
  show ?thesis
  proof (cases "length (fst (wire_msg fs)) \<le> unat n")
    case True
    then show ?thesis
      using byte_writer.fresh_buffer_ok [OF enc True] assms(2,3) by (auto simp: unat_of_nat_small32)
  next
    case False
    then show ?thesis
      using byte_writer.fresh_buffer_full [OF enc, of n] assms(2,3) by (auto simp: not_le)
  qed
qed

theorem encode_into_buffer_witness:
  "fst (pb_encode demo_fields (pb_ostream_from_buffer 7)) \<and>
   os_sink (snd (pb_encode demo_fields (pb_ostream_from_buffer 7))) =
     Some [8, 172, 2, 18, 2, 104, 105] \<and>
   \<not> fst (pb_encode demo_fields (pb_ostream_from_buffer 6))"
  using encode_into_buffer [OF demo_fields_wf, of 7, OF _ prod.collapse [symmetric]]
    encode_into_buffer [OF demo_fields_wf, of 6, OF _ prod.collapse [symmetric]]
  by (auto simp: demo_fields_wire)

text \<open>
  C17. \<open>pb_get_encoded_size\<close> predicts the encoder: if it reports \<open>n\<close> bytes, then \<open>pb_encode\<close> of the
  same message succeeds on exactly the buffers of at least \<open>n\<close> bytes and writes \<open>n\<close> bytes there; if it
  reports failure, \<open>pb_encode\<close> fails on every buffer.
\<close>

theorem encoded_size_predicts:
  assumes "wf_fields fs" "length (fst (wire_msg fs)) < 2 ^ 32"
    and "pb_encode fs (pb_ostream_from_buffer n) = (ok, s)"
  shows "case pb_get_encoded_size fs of
      None \<Rightarrow> \<not> ok
    | Some k \<Rightarrow> (ok \<longleftrightarrow> k \<le> n) \<and> (ok \<longrightarrow> os_bytes_written s = k)"
proof -
  note enc = encode_byte_writer [OF assms(1)]
  have size: "pb_get_encoded_size fs =
      (if snd (wire_msg fs) then Some (of_nat (length (fst (wire_msg fs)))) else None)"
    using byte_writer.fresh_sizing [OF enc] by (auto simp: pb_get_encoded_size_def split: prod.split)
  show ?thesis
  proof (cases "length (fst (wire_msg fs)) \<le> unat n")
    case True
    then show ?thesis using byte_writer.fresh_buffer_ok [OF enc True] assms(2,3) size
      by (auto simp: word_le_nat_alt unat_of_nat_small32)
  next
    case False
    then show ?thesis using byte_writer.fresh_buffer_full [OF enc, of n] assms(2,3) size
      by (auto simp: word_le_nat_alt unat_of_nat_small32 not_le)
  qed
qed

theorem encoded_size_predicts_witness:
  "pb_get_encoded_size demo_fields = Some 7 \<and>
   fst (pb_encode demo_fields (pb_ostream_from_buffer 64)) \<and>
   os_bytes_written (snd (pb_encode demo_fields (pb_ostream_from_buffer 64))) = 7"
proof -
  have "pb_get_encoded_size demo_fields = Some 7" by code_simp
  then show ?thesis
    using encoded_size_predicts [OF demo_fields_wf, of 64, OF _ prod.collapse [symmetric]]
    by (simp add: demo_fields_wire)
qed

section \<open>Integer codes\<close>

lemma length_varint_u64: "length (varint_ref (unat (v :: u64))) \<le> 10"
proof -
  have "unat v < 2 ^ 64" using unsigned_less [of v, where 'a = nat] by simp
  also have "(2 :: nat) ^ 64 < 128 ^ 10" by simp
  finally show ?thesis by (intro length_varint_ref) simp_all
qed

text \<open>
  C18. Every 64-bit value survives its varint: the two-loop 32-bit routine \<open>pb_encode_varint_32\<close>
  behind \<open>pb_encode_varint\<close> writes at most ten bytes into a ten-byte buffer, they are the base-128
  digits of the value, and a reader of the wire format gets the value back from them and stops exactly
  behind them.
\<close>

theorem varint_roundtrip:
  "\<exists>bs. fst (pb_encode_varint (pb_ostream_from_buffer 10) v) \<and>
     os_sink (snd (pb_encode_varint (pb_ostream_from_buffer 10) v)) = Some bs \<and>
     bs = varint_ref (unat v) \<and> length bs \<le> 10 \<and> get_varint (bs @ rest) = Some (unat v, rest)"
proof -
  note len = length_varint_u64 [of v]
  then show ?thesis
    using varint.fresh_buffer_ok [of v 10] by (simp add: get_varint_ref del: varint_ref.simps)
qed

text \<open>
  Every signed 64-bit value survives \<open>pb_encode_svarint\<close>: its masked shifts compute the zigzag
  code of the protobuf specification, so the bytes written read back as a number whose zigzag decoding
  is the signed value.
\<close>

theorem svarint_roundtrip:
  "\<exists>bs z. os_sink (snd (pb_encode_svarint (pb_ostream_from_buffer 10) v)) = Some bs \<and>
     fst (pb_encode_svarint (pb_ostream_from_buffer 10) v) \<and>
     get_varint (bs @ rest) = Some (z, rest) \<and> unzigzag_ref (int z) = sint v"
proof -
  note len = length_varint_u64 [of "zigzag v"]
  have "int (unat (zigzag v)) = zigzag_ref (sint v)" by (simp add: zigzag_correct)
  then have "unzigzag_ref (int (unat (zigzag v))) = sint v" by (simp add: unzigzag_zigzag_ref)
  then show ?thesis
    using varint.fresh_buffer_ok [of "zigzag v" 10] len
    by (simp add: get_varint_ref pb_encode_svarint_def del: varint_ref.simps)
qed

text \<open>
  The two implementations of the fixed-width encoders agree: copying the little-endian memory of a
  value writes the same bytes, with the same result and the same stream, as extracting its bytes by
  shifts, for 32 and for 64 bits.
\<close>

theorem fixed_encoders_agree:
  "pb_encode_fixed32 s (le_bytes 4 (unat v)) = pb_encode_fixed32_portable s v \<and>
   pb_encode_fixed64 s (le_bytes 8 (unat w)) = pb_encode_fixed64_portable s w"
  by (simp add: fixed_portable_eq)

end
