(* ===== verification/AetusTypes.thy ===== *)
theory AetusTypes
  imports Prelude
begin

text \<open>
  The data of the Aetus firmware component (\<open>include/aetus.h\<close>, \<open>include/aetus_internal.h\<close>, the
  context of \<open>aetus.c\<close>) and the heap its objects share. Structs are records, a fixed \<open>char[N]\<close> is the
  list of its \<open>N\<close> bytes, a pointer to a C string is an optional byte list (\<open>None\<close> for \<open>NULL\<close>), an enum
  has one more constructor for the integers outside its list, and a pointer to heap memory is a
  32-bit address, 0 for \<open>NULL\<close>.
\<close>

section \<open>Limits\<close>

definition AETUS_MAX_METRICS :: nat where [c_defs]: "AETUS_MAX_METRICS = 32"
definition AETUS_TELEMETRY_INLINE_METRICS :: nat where [c_defs]: "AETUS_TELEMETRY_INLINE_METRICS = 4"
definition AETUS_METRIC_KEY_MAX :: nat where [c_defs]: "AETUS_METRIC_KEY_MAX = 20"
definition AETUS_METRIC_UNIT_MAX :: nat where [c_defs]: "AETUS_METRIC_UNIT_MAX = 8"
definition AETUS_SIGNAL_STREAM_KEY_MAX :: nat where [c_defs]: "AETUS_SIGNAL_STREAM_KEY_MAX = 32"
definition AETUS_SIGNAL_CHANNELS_MAX :: nat where [c_defs]: "AETUS_SIGNAL_CHANNELS_MAX = 4"
definition AETUS_SIGNAL_SAMPLES_MAX :: nat where [c_defs]: "AETUS_SIGNAL_SAMPLES_MAX = 2400"
definition AETUS_WIFI_SSID_MAX :: nat where [c_defs]: "AETUS_WIFI_SSID_MAX = 32"
definition AETUS_WIFI_PASSWORD_MAX :: nat where [c_defs]: "AETUS_WIFI_PASSWORD_MAX = 64"
definition AETUS_WIFI_IDENTITY_MAX :: nat where [c_defs]: "AETUS_WIFI_IDENTITY_MAX = 127"
definition AETUS_URL_MAX :: nat where [c_defs]: "AETUS_URL_MAX = 159"
definition AETUS_DEVICE_ID_MAX :: nat where [c_defs]: "AETUS_DEVICE_ID_MAX = 63"
definition AETUS_DEVICE_TOKEN_MAX :: nat where [c_defs]: "AETUS_DEVICE_TOKEN_MAX = 127"
definition AETUS_UPLOAD_DEFAULT_INTERVAL_MS :: u32 where
  [c_defs]: "AETUS_UPLOAD_DEFAULT_INTERVAL_MS = 10 * 60 * 1000"
definition AETUS_RTC_VALID_AFTER_UNIX_S :: u64 where
  [c_defs]: "AETUS_RTC_VALID_AFTER_UNIX_S = 1577836800"
definition AETUS_ENCODE_BUFFER_BYTES :: size_t where [c_defs]: "AETUS_ENCODE_BUFFER_BYTES = 4096"

section \<open>Enums\<close>

datatype aetus_metric_value_type =
    AETUS_METRIC_VALUE_INT64
  | AETUS_METRIC_VALUE_DOUBLE
  | AETUS_METRIC_VALUE_BOOL
  | AETUS_METRIC_VALUE_STRING
  | AETUS_METRIC_VALUE_BYTES
  | METRIC_VALUE_OTHER u32

datatype aetus_signal_encoding =
    AETUS_SIGNAL_ENCODING_FLOAT32_LE
  | AETUS_SIGNAL_ENCODING_INT16_LE
  | AETUS_SIGNAL_ENCODING_UINT16_LE
  | AETUS_SIGNAL_ENCODING_INT32_LE
  | SIGNAL_ENCODING_OTHER u32

datatype aetus_signal_layout =
    AETUS_SIGNAL_LAYOUT_INTERLEAVED
  | AETUS_SIGNAL_LAYOUT_PLANAR
  | SIGNAL_LAYOUT_OTHER u32

datatype aetus_device_status =
    AETUS_DEVICE_STATUS_ONLINE
  | AETUS_DEVICE_STATUS_DEGRADED
  | AETUS_DEVICE_STATUS_OFFLINE
  | DEVICE_STATUS_OTHER u32

datatype aetus_wifi_auth = AETUS_WIFI_AUTH_PSK | AETUS_WIFI_AUTH_PEAP | WIFI_AUTH_OTHER u32

datatype aetus_auth_mode = AETUS_AUTH_BEARER | AETUS_AUTH_HMAC_SHA256 | AUTH_MODE_OTHER u32

datatype aetus_queue_item_kind =
    AETUS_QUEUE_ITEM_TELEMETRY
  | AETUS_QUEUE_ITEM_STATUS
  | AETUS_QUEUE_ITEM_SIGNAL_FRAME
  | QUEUE_ITEM_OTHER u32

section \<open>Metrics and telemetry\<close>

type_synonym addr = u32

text \<open>
  The value union is its eight bytes of memory: an \<open>int64_t\<close>, the bits of a \<open>double\<close>, a \<open>bool\<close> in the
  first byte or a pointer in the first four.
\<close>

record aetus_metric =
  m_key :: "byte list"
  m_unit :: "byte list"
  m_type :: aetus_metric_value_type
  m_blob_size :: u32
  m_value :: u64

definition blob_data :: "aetus_metric \<Rightarrow> addr" where
  "blob_data m = ucast (m_value m)"

definition set_blob_data :: "addr \<Rightarrow> aetus_metric \<Rightarrow> aetus_metric" where
  "set_blob_data p m = m\<lparr>m_value := (m_value m AND NOT 0xFFFFFFFF) OR ucast p\<rparr>"

definition bool_value :: "aetus_metric \<Rightarrow> byte" where
  "bool_value m = ucast (m_value m)"

definition set_bool_value :: "bool \<Rightarrow> aetus_metric \<Rightarrow> aetus_metric" where
  "set_bool_value b m = m\<lparr>m_value := (m_value m AND NOT 0xFF) OR (if b then 1 else 0)\<rparr>"

text \<open>\<open>memset(metric, 0, sizeof(*metric))\<close>.\<close>

definition zero_metric :: aetus_metric where
  "zero_metric = \<lparr>m_key = replicate AETUS_METRIC_KEY_MAX 0, m_unit = replicate AETUS_METRIC_UNIT_MAX 0,
     m_type = AETUS_METRIC_VALUE_INT64, m_blob_size = 0, m_value = 0\<rparr>"

record aetus_telemetry =
  t_timestamp_ns :: u64
  t_metric_count :: u32
  t_capacity :: u32
  t_inline_metrics :: "aetus_metric list"
  t_heap_metrics :: addr

section \<open>Signal frames, status, queue items\<close>

record aetus_signal_channel =
  ch_key :: "byte list"
  ch_unit :: "byte list"
  ch_has_scale :: bool
  ch_scale :: u32
  ch_has_offset :: bool
  ch_offset :: u32

definition zero_channel :: aetus_signal_channel where
  "zero_channel = \<lparr>ch_key = replicate AETUS_METRIC_KEY_MAX 0,
     ch_unit = replicate AETUS_METRIC_UNIT_MAX 0, ch_has_scale = False, ch_scale = 0,
     ch_has_offset = False, ch_offset = 0\<rparr>"

text \<open>
  The pointer \<open>samples\<close>: \<open>NULL\<close>, memory of the caller's (given by its contents), or the data of a
  sample block of the heap.
\<close>

datatype sample_ptr = Samples_null | Samples_mem "byte list" | Samples_block addr

record aetus_signal_frame =
  fr_timestamp_ns :: u64
  fr_stream_key :: "byte list"
  fr_sample_interval_ns :: u64
  fr_sample_count :: u32
  fr_encoding :: aetus_signal_encoding
  fr_layout :: aetus_signal_layout
  fr_channel_count :: u32
  fr_channels :: "aetus_signal_channel list"
  fr_samples :: sample_ptr
  fr_samples_size :: size_t

record aetus_status =
  st_status :: aetus_device_status
  st_rssi :: u32
  st_free_heap :: u32
  st_reboot_reason :: "byte list"
  st_timestamp_ns :: u64

record aetus_signal_sample_pool_stats =
  allocated_blocks :: u32
  peak_allocated_blocks :: u32
  allocation_count :: u32
  release_count :: u32
  allocation_failure_count :: u32
  queue_send_failure_release_count :: u32
  validation_failure_release_count :: u32
  upload_success_release_count :: u32
  final_drop_release_count :: u32
  allocated_bytes :: size_t
  peak_allocated_bytes :: size_t

text \<open>
  The queue item's union holds the member its kind names; the frame of a queued signal item keeps
  its samples in the heap block \<open>signal_sample_owner\<close>.
\<close>

datatype queue_body =
    Body_telemetry aetus_telemetry
  | Body_status aetus_status
  | Body_signal_frame aetus_signal_frame

record aetus_queue_item =
  qi_kind :: aetus_queue_item_kind
  qi_signal_sample_owner :: addr
  qi_body :: queue_body

record aetus_config =
  wifi_ssid :: "byte list option"
  wifi_password :: "byte list option"
  wifi_auth :: aetus_wifi_auth
  wifi_identity :: "byte list option"
  ingest_url :: "byte list option"
  time_url :: "byte list option"
  device_id :: "byte list option"
  device_token :: "byte list option"
  auth_mode :: aetus_auth_mode
  firmware_version :: u32
  upload_interval_ms :: u32
  queue_depth :: u32
  connected_led_enabled :: bool
  connected_led_gpio :: u32

section \<open>The heap\<close>

text \<open>
  A heap block is a string or byte blob, an array of metrics, or a sample block (its \<open>size\<close> word and
  data). \<open>heap_corrupt\<close> records a use of memory that is not live: a free of, a read through or a
  write through an address that holds no block.
\<close>

datatype block =
    Blob "byte list"
  | Metric_array "aetus_metric list"
  | Sample_block size_t "byte list"

record heap =
  blocks :: "addr \<rightharpoonup> block"
  heap_corrupt :: bool

text \<open>
  \<open>pvPortMalloc\<close> belongs to FreeRTOS: which address it returns, or \<open>NULL\<close>, is the parameter \<open>M\<close>,
  a function of the live blocks and the size. What the code relies on is \<open>malloc_ok\<close>: an address
  that is returned is not live. A fresh block's contents are unspecified; every caller writes them
  before it reads them, so the block is given here as the caller fills it.
\<close>

type_synonym malloc = "(addr \<rightharpoonup> block) \<Rightarrow> nat \<Rightarrow> addr"

definition malloc_ok :: "malloc \<Rightarrow> bool" where
  "malloc_ok M \<longleftrightarrow> (\<forall>b n. M b n \<noteq> 0 \<longrightarrow> b (M b n) = None)"

definition pvPortMalloc :: "malloc \<Rightarrow> nat \<Rightarrow> block \<Rightarrow> heap \<Rightarrow> addr \<times> heap" where
  "pvPortMalloc M n b h =
     (let p = M (blocks h) n in
      if p = 0 then (0, h) else (p, h\<lparr>blocks := (blocks h)(p \<mapsto> b)\<rparr>))"

definition vPortFree :: "addr \<Rightarrow> heap \<Rightarrow> heap" where
  "vPortFree p h =
     (if p = 0 then h
      else case blocks h p of
             None \<Rightarrow> h\<lparr>heap_corrupt := True\<rparr>
           | Some b \<Rightarrow> h\<lparr>blocks := (blocks h)(p := None)\<rparr>)"

text \<open>Reads through a pointer; an address that holds nothing of the right shape reads as empty.\<close>

definition blob_at :: "heap \<Rightarrow> addr \<Rightarrow> byte list" where
  "blob_at h p = (case blocks h p of Some (Blob bs) \<Rightarrow> bs | _ \<Rightarrow> [])"

definition metrics_at :: "heap \<Rightarrow> addr \<Rightarrow> aetus_metric list" where
  "metrics_at h p = (case blocks h p of Some (Metric_array ms) \<Rightarrow> ms | _ \<Rightarrow> [])"

definition samples_at :: "heap \<Rightarrow> sample_ptr \<Rightarrow> byte list" where
  "samples_at h p = (case p of Samples_null \<Rightarrow> [] | Samples_mem bs \<Rightarrow> bs
     | Samples_block a \<Rightarrow> (case blocks h a of Some (Sample_block n bs) \<Rightarrow> bs | _ \<Rightarrow> []))"

definition is_metric_array :: "heap \<Rightarrow> addr \<Rightarrow> bool" where
  "is_metric_array h p = (case blocks h p of Some (Metric_array ms) \<Rightarrow> True | _ \<Rightarrow> False)"

text \<open>A write to one entry of a metric array through its pointer.\<close>

definition put_metric :: "addr \<Rightarrow> nat \<Rightarrow> aetus_metric \<Rightarrow> heap \<Rightarrow> heap" where
  "put_metric p i m h =
     (case blocks h p of
        Some (Metric_array ms) \<Rightarrow>
          if i < length ms then h\<lparr>blocks := (blocks h)(p \<mapsto> Metric_array (ms[i := m]))\<rparr>
          else h\<lparr>heap_corrupt := True\<rparr>
      | _ \<Rightarrow> h\<lparr>heap_corrupt := True\<rparr>)"

text \<open>
  The allocator contract as an interface: an allocation either fails and changes nothing or adds
  one block at an address that was free.
\<close>

locale allocator =
  fixes M :: malloc
  assumes fresh: "M b n \<noteq> 0 \<Longrightarrow> b (M b n) = None"
begin

lemma malloc_cases:
  obtains "pvPortMalloc M n b h = (0, h)"
  | p where "p \<noteq> 0" "blocks h p = None"
      "pvPortMalloc M n b h = (p, h\<lparr>blocks := (blocks h)(p \<mapsto> b)\<rparr>)"
  using fresh [of "blocks h" n] by (cases "M (blocks h) n = 0") (auto simp: pvPortMalloc_def Let_def)

lemma malloc_free_inverse:
  assumes "pvPortMalloc M n b h = (p, h')"
  shows "vPortFree p h' = h"
proof (cases rule: malloc_cases [of n b h])
  case 1
  with assms show ?thesis by (simp add: vPortFree_def)
next
  case (2 q)
  with assms show ?thesis by (cases h) (auto simp: vPortFree_def fun_upd_idem)
qed

lemma malloc_keeps_corrupt: "pvPortMalloc M n b h = (p, h') \<Longrightarrow> heap_corrupt h' = heap_corrupt h"
  by (auto simp: pvPortMalloc_def Let_def split: if_splits)

end

lemma malloc_ok_allocator: "malloc_ok M \<Longrightarrow> allocator M"
  by (unfold_locales) (simp add: malloc_ok_def)

text \<open>An allocator that hands out the first free address of a fixed arena.\<close>

definition arena :: "nat \<Rightarrow> malloc" where
  "arena k b n =
     (case find (\<lambda>a. b a = None) (map of_nat [1 ..< Suc k]) of None \<Rightarrow> 0 | Some a \<Rightarrow> a)"

lemma arena_fresh: "arena k b n \<noteq> 0 \<Longrightarrow> b (arena k b n) = None"
  by (auto simp: arena_def dest: find_SomeD simp del: upt_Suc upt.simps split: option.splits)

interpretation arena: allocator "arena k" for k
  by unfold_locales (rule arena_fresh)

lemma arena_ok: "malloc_ok (arena k)"
  by (simp add: malloc_ok_def arena_fresh)

section \<open>Accessors of the value union\<close>

lemma union_masks: "(0xFFFFFFFF :: u64) = mask 32" "(0xFF :: u64) = mask 8"
  by (simp_all add: mask_eq_exp_minus_1)

lemma blob_data_set [simp]: "blob_data (set_blob_data p m) = p"
  by (auto intro!: bit_word_eqI simp: blob_data_def set_blob_data_def union_masks bit_simps)

lemma blob_data_update [simp]:
  "blob_data (m\<lparr>m_blob_size := n\<rparr>) = blob_data m" "blob_data (m\<lparr>m_type := ty\<rparr>) = blob_data m"
  by (simp_all add: blob_data_def)

lemma set_blob_data_select [simp]:
  "m_key (set_blob_data p m) = m_key m" "m_unit (set_blob_data p m) = m_unit m"
  "m_type (set_blob_data p m) = m_type m" "m_blob_size (set_blob_data p m) = m_blob_size m"
  by (simp_all add: set_blob_data_def)

lemma bool_value_set [simp]: "bool_value (set_bool_value b m) = (if b then 1 else 0)"
  by (auto intro!: bit_word_eqI simp: bool_value_def set_bool_value_def union_masks bit_simps)

lemma set_bool_value_select [simp]:
  "m_key (set_bool_value b m) = m_key m" "m_unit (set_bool_value b m) = m_unit m"
  "m_type (set_bool_value b m) = m_type m" "m_blob_size (set_bool_value b m) = m_blob_size m"
  by (simp_all add: set_bool_value_def)

end
