(* ===== verification/AetusStrings.thy ===== *)
theory AetusStrings
  imports AetusTypes
begin

text \<open>The string helpers of \<open>aetus.c\<close> (lines 133-172 and 197-211).\<close>

section \<open>Copying and checking\<close>

text \<open>The array \<open>target\<close> after the call; \<open>target_sz\<close> is the \<open>sizeof\<close> of the array.\<close>

definition copy_string :: "byte list \<Rightarrow> nat \<Rightarrow> byte list option \<Rightarrow> byte list" where
  "copy_string target target_sz source =
     (if target_sz = 0 then target
      else case source of
             None \<Rightarrow> target[0 := 0]
           | Some s \<Rightarrow> (strncpy target s (target_sz - 1))[target_sz - 1 := 0])"

definition string_required_fits :: "byte list option \<Rightarrow> nat \<Rightarrow> bool" where
  "string_required_fits value max_len =
     (case value of None \<Rightarrow> False | Some s \<Rightarrow> cstr s \<noteq> [] \<and> strlen s \<le> max_len)"

definition string_fits :: "byte list option \<Rightarrow> nat \<Rightarrow> bool" where
  "string_fits value target_sz =
     (case value of None \<Rightarrow> True
      | Some s \<Rightarrow> if target_sz = 0 then False else strnlen s target_sz < target_sz)"

definition ends_with :: "byte list option \<Rightarrow> byte list option \<Rightarrow> bool" where
  "ends_with value suf =
     (case (value, suf) of
        (Some v, Some s) \<Rightarrow>
          let value_len = strlen v; suffix_len = strlen s in
          value_len \<ge> suffix_len \<and>
          take suffix_len (drop (value_len - suffix_len) v) = take suffix_len s
      | _ \<Rightarrow> False)"

text \<open>The string held by an optional C string, empty for \<open>NULL\<close>.\<close>

definition ostr :: "byte list option \<Rightarrow> byte list" where
  "ostr v = (case v of None \<Rightarrow> [] | Some s \<Rightarrow> cstr s)"

lemma ostr_simps [simp]: "ostr None = []" "ostr (Some s) = cstr s"
  by (simp_all add: ostr_def)

lemma length_copy_string [simp]:
  assumes "n \<le> length target"
  shows "length (copy_string target n source) = length target"
  using assms by (auto simp: copy_string_def length_strncpy split: option.split)

text \<open>The array always ends up terminated, and holds the longest prefix of the source that fits.\<close>

lemma cstr_copy_string:
  assumes "0 < n" "length target = n"
  shows "cstr (copy_string target n source) = take (n - 1) (ostr source)"
proof (cases source)
  case None
  with assms show ?thesis by (cases target) (simp_all add: copy_string_def)
next
  case (Some s)
  define c where "c = take (n - 1) (cstr s)"
  have c: "0 \<notin> set c" using cstr_no_zero [of s] by (auto simp: c_def dest: in_set_takeD)
  have len: "length c \<le> n - 1" by (simp add: c_def)
  have "strncpy target s (n - 1) = c @ replicate (n - 1 - length c) 0 @ drop (n - 1) target"
    by (simp add: strncpy_def c_def Let_def)
  moreover have "length (drop (n - 1) target) = Suc 0" using assms by simp
  then obtain z where "drop (n - 1) target = [z]" by (auto simp: length_Suc_conv simp del: length_drop)
  ultimately have "(strncpy target s (n - 1))[n - 1 := 0] = c @ replicate (n - 1 - length c) 0 @ [0]"
    using len by (simp add: list_update_append)
  also have "replicate (n - 1 - length c) 0 @ [0] = replicate (Suc (n - 1 - length c)) (0 :: byte)"
    by (simp only: replicate_append_same replicate_Suc)
  finally have "copy_string target n source = c @ replicate (Suc (n - 1 - length c)) 0"
    using Some assms by (simp only: copy_string_def option.case) simp
  then have "cstr (copy_string target n source) = c" using cstr_append_zeros [OF c] by (simp only:)
  then show ?thesis by (simp add: Some c_def)
qed

lemma string_fits_iff: "0 < n \<Longrightarrow> string_fits v n \<longleftrightarrow> length (ostr v) < n"
  by (cases v) (auto simp: string_fits_def strnlen_less strlen_def)

lemma string_required_fits_iff:
  "string_required_fits v n \<longleftrightarrow> ostr v \<noteq> [] \<and> length (ostr v) \<le> n"
  by (cases v) (auto simp: string_required_fits_def strlen_def)

text \<open>A string that passed the check is copied whole.\<close>

lemma copy_string_fits:
  assumes "0 < n" "length target = n" "string_fits source n"
  shows "cstr (copy_string target n source) = ostr source"
  using assms by (simp add: cstr_copy_string string_fits_iff)

lemma take_strlen: "k \<le> strlen s \<Longrightarrow> take k s = take k (cstr s)"
  by (subst (1) takeWhile_dropWhile_id [of "\<lambda>b. b \<noteq> 0" s, symmetric])
    (simp add: strlen_def cstr_def del: takeWhile_dropWhile_id)

lemma ends_with_iff:
  "ends_with (Some v) (Some s) \<longleftrightarrow> suffix (cstr s) (cstr v)"
proof
  have v: "take (strlen v) v = cstr v" using take_strlen [of "strlen v" v] by (simp add: strlen_def)
  have s: "take (strlen s) s = cstr s" using take_strlen [of "strlen s" s] by (simp add: strlen_def)
  {
    assume "ends_with (Some v) (Some s)"
    then have le: "strlen s \<le> strlen v"
      and eq: "take (strlen s) (drop (strlen v - strlen s) v) = cstr s"
      by (auto simp: ends_with_def Let_def s)
    have "cstr v = take (strlen v - strlen s) v @ cstr s"
      using v le eq by (metis le_add_diff_inverse2 take_add)
    then show "suffix (cstr s) (cstr v)" by (metis suffixI)
  next
    assume "suffix (cstr s) (cstr v)"
    then obtain p where p: "cstr v = p @ cstr s" by (auto simp: suffix_def)
    then have le: "strlen s \<le> strlen v" and lp: "strlen v - strlen s = length p"
      by (simp_all add: strlen_def)
    have "strlen s + length p = strlen v" using le lp by simp
    then have "take (strlen s) (drop (length p) v) = drop (length p) (take (strlen v) v)"
      by (simp add: take_drop)
    with p show "ends_with (Some v) (Some s)"
      using le by (simp add: ends_with_def Let_def v s lp)
  }
qed

section \<open>Hexadecimal digests\<close>

definition hex_digit :: "byte \<Rightarrow> byte" where
  "hex_digit n = (str ''0123456789abcdef'') ! unat n"

text \<open>The loop writes the digits in place; the array after it.\<close>

definition bytes_to_hex :: "byte list \<Rightarrow> nat \<Rightarrow> byte list \<Rightarrow> nat \<Rightarrow> byte list" where
  "bytes_to_hex bytes byte_count hex hex_size =
     (if hex_size < byte_count * 2 + 1 then (if hex_size > 0 then hex[0 := 0] else hex)
      else
        (foldl (\<lambda>hex i. hex[i * 2 := hex_digit (drop_bit 4 (bytes ! i)),
                             i * 2 + 1 := hex_digit (bytes ! i AND 0x0F)]) hex [0 ..< byte_count])
          [byte_count * 2 := 0])"

definition hex_of :: "byte list \<Rightarrow> byte list" where
  "hex_of bs = concat (map (\<lambda>b. [hex_digit (drop_bit 4 b), hex_digit (b AND 0x0F)]) bs)"

lemma length_hex_of [simp]: "length (hex_of bs) = 2 * length bs"
  by (induction bs) (simp_all add: hex_of_def)

lemma hex_loop:
  assumes "n \<le> length bytes" "2 * n \<le> length hex"
  shows "foldl (\<lambda>hex i. hex[i * 2 := hex_digit (drop_bit 4 (bytes ! i)),
                  i * 2 + 1 := hex_digit (bytes ! i AND 0x0F)]) hex [0 ..< n]
         = hex_of (take n bytes) @ drop (2 * n) hex"
  using assms
proof (induction n)
  case 0
  then show ?case by (simp add: hex_of_def)
next
  case (Suc n)
  obtain a b r where d: "drop (2 * n) hex = a # b # r"
    using Suc.prems by (metis Cons_nth_drop_Suc Suc_le_lessD Suc_lessD mult_Suc_right
        add_2_eq_Suc)
  have "drop (2 * Suc n) hex = r" using d by (metis drop_drop drop_Suc_Cons drop0 mult_Suc_right
        numeral_2_eq_2 add_2_eq_Suc add_2_eq_Suc')
  moreover have "hex_of (take (Suc n) bytes) = hex_of (take n bytes) @
      [hex_digit (drop_bit 4 (bytes ! n)), hex_digit (bytes ! n AND 0x0F)]"
    using Suc.prems by (simp add: take_Suc_conv_app_nth hex_of_def)
  ultimately show ?case using Suc d
    by (simp add: list_update_append mult.commute [of n 2])
qed

lemma bytes_to_hex_ok:
  assumes "length bytes = n" "length hex = 2 * n + 1"
  shows "bytes_to_hex bytes n hex (length hex) = hex_of bytes @ [0]"
proof -
  have "length (drop (2 * n) hex) = Suc 0" using assms by simp
  then obtain z where "drop (2 * n) hex = [z]" by (auto simp: length_Suc_conv simp del: length_drop)
  then show ?thesis
    using assms hex_loop [of n bytes hex] by (simp add: bytes_to_hex_def list_update_append mult.commute)
qed

lemma hex_digit_nonzero:
  assumes "unat n < 16"
  shows "hex_digit n \<noteq> 0"
proof -
  have "hex_digit n \<in> set (str ''0123456789abcdef'')"
    unfolding hex_digit_def by (rule nth_mem) (use assms in \<open>simp add: str_def\<close>)
  moreover have "0 \<notin> set (str ''0123456789abcdef'')" by code_simp
  ultimately show ?thesis by auto
qed

lemma hex_of_no_zero: "0 \<notin> set (hex_of bs)"
proof -
  have "unat (drop_bit 4 b) < 16" for b :: byte
  proof -
    have "unat b < 256" by (rule order_less_le_trans [OF unsigned_less]) simp
    then show ?thesis by (simp add: unat_drop_bit_eq drop_bit_eq_div unat_div)
  qed
  moreover have "unat (b AND 0x0F) < 16" for b :: byte
    using word_and_le1 [of b "0x0F"] by (simp add: word_le_nat_alt)
  ultimately show ?thesis using hex_digit_nonzero by (fastforce simp: hex_of_def)
qed

end
