(* ===== verification/Telemetry.thy ===== *)
theory Telemetry
  imports AetusStrings
begin

text \<open>
  The telemetry builder (\<open>aetus.c\<close>, lines 1210-1245 and 1315-1472). A telemetry object holds its first
  four metrics itself and the others in one heap array; string and byte values are heap blobs it
  owns. The operations take the telemetry pointer as an option (\<open>NULL\<close> is \<open>None\<close>) and the heap, and
  return the error code with both. The abstract view \<open>contents\<close> is the list of metrics a caller
  meant; every operation is shown to refine an append on it, and the ownership invariant \<open>built\<close>
  says that the heap is the caller's heap plus exactly the blocks the object owns.
\<close>

section \<open>Initialisation and release\<close>

definition zero_telemetry :: aetus_telemetry where
  "zero_telemetry = \<lparr>t_timestamp_ns = 0, t_metric_count = 0, t_capacity = 0,
     t_inline_metrics = replicate AETUS_TELEMETRY_INLINE_METRICS zero_metric, t_heap_metrics = 0\<rparr>"

definition aetus_telemetry_init :: "aetus_telemetry option \<Rightarrow> aetus_telemetry option" where
  "aetus_telemetry_init telemetry =
     (case telemetry of None \<Rightarrow> None
      | Some t \<Rightarrow> Some (zero_telemetry\<lparr>t_capacity := of_nat AETUS_TELEMETRY_INLINE_METRICS\<rparr>))"

definition is_blob :: "aetus_metric \<Rightarrow> bool" where
  "is_blob m \<longleftrightarrow>
     (m_type m = AETUS_METRIC_VALUE_STRING \<or> m_type m = AETUS_METRIC_VALUE_BYTES) \<and> blob_data m \<noteq> 0"

text \<open>The loops that free the blobs of the metrics in an array.\<close>

definition free_blobs :: "aetus_metric list \<Rightarrow> heap \<Rightarrow> heap" where
  "free_blobs ms h = fold (\<lambda>m h. if is_blob m then vPortFree (blob_data m) h else h) ms h"

definition heap_metric_count :: "aetus_telemetry \<Rightarrow> nat" where
  "heap_metric_count t =
     (if unat (t_metric_count t) > AETUS_TELEMETRY_INLINE_METRICS
      then unat (t_metric_count t) - AETUS_TELEMETRY_INLINE_METRICS else 0)"

definition aetus_telemetry_deinit ::
  "aetus_telemetry option \<Rightarrow> heap \<Rightarrow> aetus_telemetry option \<times> heap" where
  "aetus_telemetry_deinit telemetry h =
     (case telemetry of None \<Rightarrow> (None, h)
      | Some t \<Rightarrow>
          let h = free_blobs (take (unat (t_metric_count t))
                    (take AETUS_TELEMETRY_INLINE_METRICS (t_inline_metrics t))) h;
              h = (if t_heap_metrics t \<noteq> 0 then
                     vPortFree (t_heap_metrics t)
                       (free_blobs (take (heap_metric_count t) (metrics_at h (t_heap_metrics t))) h)
                   else h)
          in (Some zero_telemetry, h))"

section \<open>Appending\<close>

text \<open>\<open>sizeof(aetus_metric_t)\<close>: 36 bytes of strings and words, padding to 8, and the union.\<close>

definition sizeof_metric :: nat where "sizeof_metric = 48"

definition heap_slots :: nat where
  "heap_slots = AETUS_MAX_METRICS - AETUS_TELEMETRY_INLINE_METRICS"

definition metric_at :: "aetus_telemetry \<Rightarrow> heap \<Rightarrow> nat \<Rightarrow> aetus_metric" where
  "metric_at t h i =
     (if i < AETUS_TELEMETRY_INLINE_METRICS then t_inline_metrics t ! i
      else metrics_at h (t_heap_metrics t) ! (i - AETUS_TELEMETRY_INLINE_METRICS))"

definition set_metric_at ::
  "nat \<Rightarrow> aetus_metric \<Rightarrow> aetus_telemetry \<Rightarrow> heap \<Rightarrow> aetus_telemetry \<times> heap" where
  "set_metric_at i m t h =
     (if i < AETUS_TELEMETRY_INLINE_METRICS
      then (t\<lparr>t_inline_metrics := (t_inline_metrics t)[i := m]\<rparr>, h)
      else (t, put_metric (t_heap_metrics t) (i - AETUS_TELEMETRY_INLINE_METRICS) m h))"

text \<open>
  \<open>append_metric\<close>: the error code, the telemetry and heap after the call, and the slot \<open>*metric\<close>
  points at. \<open>isr\<close> is \<open>xPortInIsrContext()\<close>.
\<close>

definition reserve_heap_metrics ::
  "malloc \<Rightarrow> bool \<Rightarrow> aetus_telemetry \<Rightarrow> heap \<Rightarrow> esp_err \<times> aetus_telemetry \<times> heap" where
  "reserve_heap_metrics M isr t h =
     (if unat (t_metric_count t) \<ge> AETUS_TELEMETRY_INLINE_METRICS \<and> t_heap_metrics t = 0 then
        if isr then (ESP_ERR_INVALID_ARG, t, h)
        else
          let (p, h1) = pvPortMalloc M (heap_slots * sizeof_metric)
                          (Metric_array (replicate heap_slots zero_metric)) h;
              t1 = t\<lparr>t_heap_metrics := p\<rparr>
          in if p = 0 then (ESP_ERR_NO_MEM, t1, h1)
             else (ESP_OK, t1\<lparr>t_capacity := of_nat AETUS_MAX_METRICS\<rparr>, h1)
      else (ESP_OK, t, h))"

definition new_metric :: "byte list option \<Rightarrow> byte list option \<Rightarrow> aetus_metric" where
  "new_metric key unit =
     zero_metric\<lparr>m_key := copy_string (m_key zero_metric) AETUS_METRIC_KEY_MAX key,
                 m_unit := copy_string (m_unit zero_metric) AETUS_METRIC_UNIT_MAX unit\<rparr>"

definition append_metric ::
  "malloc \<Rightarrow> bool \<Rightarrow> aetus_telemetry option \<Rightarrow> byte list option \<Rightarrow> byte list option \<Rightarrow> heap \<Rightarrow>
     esp_err \<times> aetus_telemetry option \<times> heap \<times> nat" where
  "append_metric M isr telemetry key unit h =
     (case telemetry of None \<Rightarrow> (ESP_ERR_INVALID_ARG, None, h, 0)
      | Some t \<Rightarrow>
          if ostr key = [] then (ESP_ERR_INVALID_ARG, Some t, h, 0)
          else if \<not> string_fits key AETUS_METRIC_KEY_MAX then (ESP_ERR_INVALID_ARG, Some t, h, 0)
          else if \<not> string_fits unit AETUS_METRIC_UNIT_MAX then (ESP_ERR_INVALID_ARG, Some t, h, 0)
          else if \<not> unat (t_metric_count t) < AETUS_MAX_METRICS
          then (ESP_ERR_INVALID_ARG, Some t, h, 0)
          else
            (case reserve_heap_metrics M isr t h of
               (ESP_OK, t, h) \<Rightarrow>
                 let i = unat (t_metric_count t);
                     (t, h) = set_metric_at i (new_metric key unit) t h
                 in (ESP_OK, Some (t\<lparr>t_metric_count := t_metric_count t + 1\<rparr>), h, i)
             | (err, t, h) \<Rightarrow> (err, Some t, h, 0)))"

text \<open>The writes through the \<open>metric\<close> pointer that follow a successful append.\<close>

definition update_metric ::
  "nat \<Rightarrow> (aetus_metric \<Rightarrow> aetus_metric) \<Rightarrow> aetus_telemetry \<Rightarrow> heap \<Rightarrow> aetus_telemetry \<times> heap" where
  "update_metric i f t h = set_metric_at i (f (metric_at t h i)) t h"

definition add_plain ::
  "malloc \<Rightarrow> bool \<Rightarrow> aetus_telemetry option \<Rightarrow> byte list option \<Rightarrow> byte list option \<Rightarrow>
     (aetus_metric \<Rightarrow> aetus_metric) \<Rightarrow> heap \<Rightarrow> esp_err \<times> aetus_telemetry option \<times> heap" where
  "add_plain M isr telemetry key unit f h =
     (case append_metric M isr telemetry key unit h of
        (ESP_OK, Some t, h, i) \<Rightarrow>
          let (t, h) = update_metric i f t h in (ESP_OK, Some t, h)
      | (err, telemetry, h, i) \<Rightarrow> (err, telemetry, h))"

definition aetus_telemetry_add_int64 ::
  "malloc \<Rightarrow> bool \<Rightarrow> aetus_telemetry option \<Rightarrow> byte list option \<Rightarrow> u64 \<Rightarrow> byte list option \<Rightarrow> heap \<Rightarrow>
     esp_err \<times> aetus_telemetry option \<times> heap" where
  "aetus_telemetry_add_int64 M isr telemetry key v unit h =
     add_plain M isr telemetry key unit
       (\<lambda>m. m\<lparr>m_type := AETUS_METRIC_VALUE_INT64, m_value := v\<rparr>) h"

definition aetus_telemetry_add_double ::
  "malloc \<Rightarrow> bool \<Rightarrow> aetus_telemetry option \<Rightarrow> byte list option \<Rightarrow> u64 \<Rightarrow> byte list option \<Rightarrow> heap \<Rightarrow>
     esp_err \<times> aetus_telemetry option \<times> heap" where
  "aetus_telemetry_add_double M isr telemetry key v unit h =
     add_plain M isr telemetry key unit
       (\<lambda>m. m\<lparr>m_type := AETUS_METRIC_VALUE_DOUBLE, m_value := v\<rparr>) h"

definition aetus_telemetry_add_bool ::
  "malloc \<Rightarrow> bool \<Rightarrow> aetus_telemetry option \<Rightarrow> byte list option \<Rightarrow> bool \<Rightarrow> byte list option \<Rightarrow> heap \<Rightarrow>
     esp_err \<times> aetus_telemetry option \<times> heap" where
  "aetus_telemetry_add_bool M isr telemetry key v unit h =
     add_plain M isr telemetry key unit
       (\<lambda>m. set_bool_value v (m\<lparr>m_type := AETUS_METRIC_VALUE_BOOL\<rparr>)) h"

text \<open>
  \<open>value_size + 1\<close> is a \<open>size_t\<close> sum: the largest size wraps to an allocation of no bytes, and the
  writes that follow run over it.
\<close>

definition aetus_telemetry_add_string_n ::
  "malloc \<Rightarrow> bool \<Rightarrow> aetus_telemetry option \<Rightarrow> byte list option \<Rightarrow> byte list option \<Rightarrow> size_t \<Rightarrow>
     byte list option \<Rightarrow> heap \<Rightarrow> esp_err \<times> aetus_telemetry option \<times> heap" where
  "aetus_telemetry_add_string_n M isr telemetry key v value_size unit h =
     (if v = None \<and> value_size \<noteq> 0 then (ESP_ERR_INVALID_ARG, telemetry, h)
      else
        case append_metric M isr telemetry key unit h of
          (ESP_OK, Some t, h, i) \<Rightarrow>
            let bs = (case v of None \<Rightarrow> [] | Some s \<Rightarrow> take (unat value_size) s) @ [0];
                (p, h) = pvPortMalloc M (unat (value_size + 1)) (Blob bs) h;
                (t, h) = update_metric i
                  (\<lambda>m. set_blob_data p (m\<lparr>m_type := AETUS_METRIC_VALUE_STRING\<rparr>)) t h
            in if p = 0 then
                 let (t, h) = set_metric_at i zero_metric (t\<lparr>t_metric_count := t_metric_count t - 1\<rparr>) h
                 in (ESP_ERR_NO_MEM, Some t, h)
               else
                 let h = h\<lparr>heap_corrupt := heap_corrupt h \<or> value_size + 1 = 0\<rparr>;
                     (t, h) = update_metric i (\<lambda>m. m\<lparr>m_blob_size := value_size\<rparr>) t h
                 in (ESP_OK, Some t, h)
        | (err, telemetry, h, i) \<Rightarrow> (err, telemetry, h))"

definition aetus_telemetry_add_string ::
  "malloc \<Rightarrow> bool \<Rightarrow> aetus_telemetry option \<Rightarrow> byte list option \<Rightarrow> byte list option \<Rightarrow>
     byte list option \<Rightarrow> heap \<Rightarrow> esp_err \<times> aetus_telemetry option \<times> heap" where
  "aetus_telemetry_add_string M isr telemetry key v unit h =
     (case v of None \<Rightarrow> (ESP_ERR_INVALID_ARG, telemetry, h)
      | Some s \<Rightarrow>
          aetus_telemetry_add_string_n M isr telemetry key (Some s) (of_nat (strlen s)) unit h)"

definition aetus_telemetry_add_bytes ::
  "malloc \<Rightarrow> bool \<Rightarrow> aetus_telemetry option \<Rightarrow> byte list option \<Rightarrow> byte list option \<Rightarrow> size_t \<Rightarrow>
     byte list option \<Rightarrow> heap \<Rightarrow> esp_err \<times> aetus_telemetry option \<times> heap" where
  "aetus_telemetry_add_bytes M isr telemetry key v value_size unit h =
     (if v = None \<and> value_size \<noteq> 0 then (ESP_ERR_INVALID_ARG, telemetry, h)
      else
        case append_metric M isr telemetry key unit h of
          (ESP_OK, Some t, h, i) \<Rightarrow>
            let (t, h) = update_metric i (\<lambda>m. m\<lparr>m_type := AETUS_METRIC_VALUE_BYTES\<rparr>) t h
            in if value_size > 0 then
                 let bs = (case v of None \<Rightarrow> [] | Some s \<Rightarrow> take (unat value_size) s);
                     (p, h) = pvPortMalloc M (unat value_size) (Blob bs) h;
                     (t, h) = update_metric i (set_blob_data p) t h
                 in if p = 0 then
                      let (t, h) = set_metric_at i zero_metric
                                     (t\<lparr>t_metric_count := t_metric_count t - 1\<rparr>) h
                      in (ESP_ERR_NO_MEM, Some t, h)
                    else
                      let (t, h) = update_metric i (\<lambda>m. m\<lparr>m_blob_size := value_size\<rparr>) t h
                      in (ESP_OK, Some t, h)
               else
                 let (t, h) = update_metric i (\<lambda>m. (set_blob_data 0 m)\<lparr>m_blob_size := value_size\<rparr>) t h
                 in (ESP_OK, Some t, h)
        | (err, telemetry, h, i) \<Rightarrow> (err, telemetry, h))"

section \<open>The abstract view\<close>

definition slots :: "heap \<Rightarrow> aetus_telemetry \<Rightarrow> aetus_metric list" where
  "slots h t = t_inline_metrics t @ metrics_at h (t_heap_metrics t)"

definition metrics_of :: "heap \<Rightarrow> aetus_telemetry \<Rightarrow> aetus_metric list" where
  "metrics_of h t = take (unat (t_metric_count t)) (slots h t)"

datatype metric_value =
    Int_value u64 | Double_value u64 | Bool_value bool
  | String_value "byte list" | Bytes_value "byte list"

definition value_of :: "heap \<Rightarrow> aetus_metric \<Rightarrow> metric_value" where
  "value_of h m =
     (case m_type m of
        AETUS_METRIC_VALUE_INT64 \<Rightarrow> Int_value (m_value m)
      | AETUS_METRIC_VALUE_BOOL \<Rightarrow> Bool_value (bool_value m \<noteq> 0)
      | AETUS_METRIC_VALUE_STRING \<Rightarrow>
          String_value (take (unat (m_blob_size m)) (blob_at h (blob_data m)))
      | AETUS_METRIC_VALUE_BYTES \<Rightarrow>
          Bytes_value (take (unat (m_blob_size m)) (blob_at h (blob_data m)))
      | _ \<Rightarrow> Double_value (m_value m))"

definition abs_metric :: "heap \<Rightarrow> aetus_metric \<Rightarrow> byte list \<times> byte list \<times> metric_value" where
  "abs_metric h m = (cstr (m_key m), cstr (m_unit m), value_of h m)"

definition contents :: "heap \<Rightarrow> aetus_telemetry \<Rightarrow> (byte list \<times> byte list \<times> metric_value) list" where
  "contents h t = map (abs_metric h) (metrics_of h t)"

section \<open>Well-formedness and ownership\<close>

definition blob_addrs :: "aetus_metric \<Rightarrow> addr list" where
  "blob_addrs m = (if is_blob m then [blob_data m] else [])"

definition owned :: "heap \<Rightarrow> aetus_telemetry \<Rightarrow> addr list" where
  "owned h t = (if t_heap_metrics t \<noteq> 0 then [t_heap_metrics t] else []) @
     concat (map blob_addrs (metrics_of h t))"

text \<open>The heap array, when there is one, has all its slots, and is there when it is needed.\<close>

definition shape :: "heap \<Rightarrow> aetus_telemetry \<Rightarrow> bool" where
  "shape h t \<longleftrightarrow>
     length (t_inline_metrics t) = AETUS_TELEMETRY_INLINE_METRICS \<and>
     (t_heap_metrics t \<noteq> 0 \<longrightarrow>
        is_metric_array h (t_heap_metrics t) \<and> length (metrics_at h (t_heap_metrics t)) = heap_slots) \<and>
     (t_heap_metrics t = 0 \<longrightarrow> blocks h 0 = None) \<and>
     unat (t_metric_count t) \<le> length (slots h t)"

text \<open>A string blob carries its terminator, a bytes blob has its size, and an empty one is \<open>NULL\<close>.\<close>

definition metric_ok :: "heap \<Rightarrow> aetus_metric \<Rightarrow> bool" where
  "metric_ok h m \<longleftrightarrow>
     length (m_key m) = AETUS_METRIC_KEY_MAX \<and> length (m_unit m) = AETUS_METRIC_UNIT_MAX \<and>
     strlen (m_key m) < AETUS_METRIC_KEY_MAX \<and> strlen (m_unit m) < AETUS_METRIC_UNIT_MAX \<and>
     (case m_type m of
        AETUS_METRIC_VALUE_STRING \<Rightarrow>
          blob_data m \<noteq> 0 \<and> m_blob_size m + 1 \<noteq> 0 \<and>
          (case blocks h (blob_data m) of
             Some (Blob bs) \<Rightarrow>
               length bs = Suc (unat (m_blob_size m)) \<and> bs ! unat (m_blob_size m) = 0
           | _ \<Rightarrow> False)
      | AETUS_METRIC_VALUE_BYTES \<Rightarrow>
          if blob_data m = 0 then m_blob_size m = 0
          else m_blob_size m \<noteq> 0 \<and>
               (case blocks h (blob_data m) of
                  Some (Blob bs) \<Rightarrow> length bs = unat (m_blob_size m) | _ \<Rightarrow> False)
      | _ \<Rightarrow> True)"

definition wf_telemetry :: "heap \<Rightarrow> aetus_telemetry \<Rightarrow> bool" where
  "wf_telemetry h t \<longleftrightarrow>
     shape h t \<and> (\<forall>m \<in> set (metrics_of h t). metric_ok h m) \<and> distinct (owned h t)"

text \<open>
  \<open>built h0 h t\<close>: the heap \<open>h\<close> is \<open>h0\<close> with exactly the blocks that \<open>t\<close> owns added.
\<close>

definition built :: "heap \<Rightarrow> heap \<Rightarrow> aetus_telemetry \<Rightarrow> bool" where
  "built h0 h t \<longleftrightarrow>
     wf_telemetry h t \<and> heap_corrupt h = heap_corrupt h0 \<and>
     (\<forall>a \<in> set (owned h t). blocks h0 a = None) \<and>
     (\<forall>a. a \<notin> set (owned h t) \<longrightarrow> blocks h a = blocks h0 a)"

section \<open>Writes to a slot\<close>

lemma limits [simp]:
  "AETUS_TELEMETRY_INLINE_METRICS = 4" "AETUS_MAX_METRICS = 32" "heap_slots = 28"
  by (simp_all add: c_defs heap_slots_def)

text \<open>
  \<open>same_but h t h' t' sl\<close>: only the slots changed, to \<open>sl\<close>; the rest of the heap is the same.
\<close>

definition same_but :: "heap \<Rightarrow> aetus_telemetry \<Rightarrow> heap \<Rightarrow> aetus_telemetry \<Rightarrow> aetus_metric list \<Rightarrow> bool" where
  "same_but h t h' t' sl \<longleftrightarrow>
     shape h' t' \<and> slots h' t' = sl \<and> t_heap_metrics t' = t_heap_metrics t \<and>
     t_metric_count t' = t_metric_count t \<and> heap_corrupt h' = heap_corrupt h \<and>
     (\<forall>a. a \<noteq> t_heap_metrics t \<or> a = 0 \<longrightarrow> blocks h' a = blocks h a)"

lemma metric_at_slots:
  assumes "shape h t"
  shows "metric_at t h i = slots h t ! i"
  using assms by (auto simp: metric_at_def slots_def shape_def nth_append)

lemma length_slots:
  assumes "shape h t"
  shows "length (slots h t) = (if t_heap_metrics t = 0 then 4 else 32)"
  using assms by (auto simp: shape_def slots_def metrics_at_def)

lemma set_metric_at_same_but:
  assumes "shape h t" "i < length (slots h t)" "set_metric_at i m t h = (t', h')"
  shows "same_but h t h' t' ((slots h t)[i := m])"
proof (cases "i < 4")
  case True
  then show ?thesis using assms
    by (auto simp: same_but_def set_metric_at_def shape_def slots_def list_update_append)
next
  case False
  then have hm: "t_heap_metrics t \<noteq> 0" using assms length_slots by (auto split: if_splits)
  then obtain ms where ms: "blocks h (t_heap_metrics t) = Some (Metric_array ms)" "length ms = 28"
    using assms(1) by (auto simp: shape_def is_metric_array_def metrics_at_def
        split: option.splits block.splits)
  have i: "i - 4 < 28" using assms(1,2) hm length_slots [OF assms(1)] False by simp
  have "t' = t" "h' = h\<lparr>blocks := (blocks h)(t_heap_metrics t \<mapsto> Metric_array (ms[i - 4 := m]))\<rparr>"
    using assms(3) False ms i by (auto simp: set_metric_at_def put_metric_def)
  then show ?thesis using assms(1) ms hm False
    by (auto simp: same_but_def shape_def slots_def is_metric_array_def metrics_at_def
        list_update_append)
qed

lemma update_metric_same_but:
  assumes "shape h t" "i < length (slots h t)" "update_metric i f t h = (t', h')"
  shows "same_but h t h' t' ((slots h t)[i := f (slots h t ! i)])"
  using set_metric_at_same_but [OF assms(1,2)] assms by (simp add: update_metric_def metric_at_slots)

lemma same_but_trans:
  assumes "same_but h t h1 t1 sl1" "same_but h1 t1 h2 t2 sl2"
  shows "same_but h t h2 t2 sl2"
  using assms by (auto simp: same_but_def)

section \<open>Growing a telemetry object\<close>

text \<open>
  \<open>grow h t h' t' ms\<close>: the object gained the metrics \<open>ms\<close>, their blobs are fresh blocks, and it may
  have gained its heap array; nothing else changed. Every builder operation is such a step.
\<close>

definition grow :: "heap \<Rightarrow> aetus_telemetry \<Rightarrow> heap \<Rightarrow> aetus_telemetry \<Rightarrow> aetus_metric list \<Rightarrow> bool" where
  "grow h t h' t' ms \<longleftrightarrow>
     shape h' t' \<and> heap_corrupt h' = heap_corrupt h \<and>
     metrics_of h' t' = metrics_of h t @ ms \<and>
     (t_heap_metrics t' = t_heap_metrics t \<or>
      t_heap_metrics t = 0 \<and> blocks h (t_heap_metrics t') = None) \<and>
     (\<forall>m \<in> set ms. metric_ok h' m) \<and>
     distinct (concat (map blob_addrs ms)) \<and>
     (\<forall>a \<in> set (concat (map blob_addrs ms)). a \<noteq> t_heap_metrics t' \<and> blocks h a = None) \<and>
     (\<forall>a. (a \<noteq> t_heap_metrics t' \<or> a = 0) \<and> a \<notin> set (concat (map blob_addrs ms)) \<longrightarrow>
          blocks h' a = blocks h a)"

lemma is_blob_nonzero [simp]: "0 \<notin> set (blob_addrs m)"
  by (auto simp: blob_addrs_def is_blob_def)

lemma metric_ok_live: "metric_ok h m \<Longrightarrow> a \<in> set (blob_addrs m) \<Longrightarrow> \<exists>bs. blocks h a = Some (Blob bs)"
  by (auto simp: metric_ok_def blob_addrs_def is_blob_def split: if_splits option.splits block.splits)

lemma metric_ok_cong:
  assumes "\<And>a. a \<in> set (blob_addrs m) \<Longrightarrow> blocks h' a = blocks h a"
  shows "metric_ok h' m = metric_ok h m"
    and "abs_metric h' m = abs_metric h m \<or> blob_data m = 0"
  using assms by (auto simp: metric_ok_def blob_addrs_def is_blob_def abs_metric_def value_of_def
      blob_at_def split: aetus_metric_value_type.splits)

lemma abs_metric_cong:
  assumes "\<And>a. a \<in> set (blob_addrs m) \<Longrightarrow> blocks h' a = blocks h a" "metric_ok h m"
  shows "abs_metric h' m = abs_metric h m"
  using assms by (auto simp: metric_ok_def blob_addrs_def is_blob_def abs_metric_def value_of_def
      blob_at_def split: aetus_metric_value_type.splits if_splits)

lemma wf_owned_live:
  assumes "wf_telemetry h t" "a \<in> set (owned h t)"
  shows "a \<noteq> 0" "blocks h a \<noteq> None"
proof -
  consider "a = t_heap_metrics t" "t_heap_metrics t \<noteq> 0"
    | m where "m \<in> set (metrics_of h t)" "a \<in> set (blob_addrs m)"
    using assms(2) by (auto simp: owned_def split: if_splits)
  then have "a \<noteq> 0 \<and> blocks h a \<noteq> None"
  proof cases
    case 1
    with assms(1) show ?thesis
      by (auto simp: wf_telemetry_def shape_def is_metric_array_def split: option.splits)
  next
    case (2 m)
    then have "metric_ok h m" using assms(1) by (simp add: wf_telemetry_def)
    from metric_ok_live [OF this 2(2)] 2 show ?thesis by (metis is_blob_nonzero option.distinct(1))
  qed
  then show "a \<noteq> 0" "blocks h a \<noteq> None" by simp_all
qed

text \<open>A blob is never the metric array, so changing slots leaves the blobs alone.\<close>

lemma grow_old_blobs:
  assumes w: "wf_telemetry h t" and g: "grow h t h' t' ms"
    and m: "m \<in> set (metrics_of h t)" and a: "a \<in> set (blob_addrs m)"
  shows "blocks h' a = blocks h a" "a \<noteq> t_heap_metrics t'"
    "a \<notin> set (concat (map blob_addrs ms))"
proof -
  have own: "a \<in> set (concat (map blob_addrs (metrics_of h t)))" using m a by auto
  then have live: "a \<noteq> 0" "blocks h a \<noteq> None"
    using wf_owned_live [OF w, of a] by (auto simp: owned_def)
  have hm: "a \<noteq> t_heap_metrics t" if "t_heap_metrics t \<noteq> 0"
    using own that w by (auto simp: wf_telemetry_def owned_def)
  show ne: "a \<noteq> t_heap_metrics t'"
  proof (cases "t_heap_metrics t' = t_heap_metrics t")
    case True
    with hm live show ?thesis by (cases "t_heap_metrics t = 0") auto
  next
    case False
    with g live show ?thesis by (auto simp: grow_def)
  qed
  show nm: "a \<notin> set (concat (map blob_addrs ms))" using g live by (auto simp: grow_def)
  show "blocks h' a = blocks h a" using g ne nm by (auto simp: grow_def)
qed

lemma grow_wf:
  assumes w: "wf_telemetry h t" and g: "grow h t h' t' ms"
  shows "wf_telemetry h' t'"
proof -
  have ok: "metric_ok h' m" if "m \<in> set (metrics_of h' t')" for m
  proof (cases "m \<in> set (metrics_of h t)")
    case True
    then show ?thesis using w metric_ok_cong(1) [of m h' h] grow_old_blobs(1) [OF w g True]
      by (auto simp: wf_telemetry_def)
  next
    case False
    with that g show ?thesis by (auto simp: grow_def)
  qed
  let ?old = "concat (map blob_addrs (metrics_of h t))"
  have old: "a \<noteq> t_heap_metrics t' \<and> a \<notin> set (concat (map blob_addrs ms))" if a: "a \<in> set ?old" for a
  proof -
    obtain m where m: "m \<in> set (metrics_of h t)" "a \<in> set (blob_addrs m)" using a by auto
    show ?thesis using grow_old_blobs(2,3) [OF w g m] by simp
  qed
  define new where "new = concat (map blob_addrs ms)"
  have dn: "distinct new" and hn: "t_heap_metrics t' \<notin> set new"
    and mo: "metrics_of h' t' = metrics_of h t @ ms"
    using g unfolding grow_def new_def by blast+
  have "distinct ?old" using w by (simp add: wf_telemetry_def owned_def)
  moreover have "set ?old \<inter> set new = {}" "t_heap_metrics t' \<notin> set ?old"
    using old unfolding new_def by blast+
  moreover have "owned h' t' =
      (if t_heap_metrics t' \<noteq> 0 then [t_heap_metrics t'] else []) @ ?old @ new"
    by (simp add: owned_def mo new_def)
  ultimately have "distinct (owned h' t')"
    using dn hn by (simp del: set_concat set_map)
  with ok g show ?thesis by (simp add: wf_telemetry_def grow_def)
qed

lemma grow_built:
  assumes b: "built h0 h t" and g: "grow h t h' t' ms"
  shows "built h0 h' t'"
proof -
  have w: "wf_telemetry h t" using b by (simp add: built_def)
  have new: "blocks h0 a = None" if "blocks h a = None" for a
    using b that wf_owned_live [OF w, of a] by (cases "a \<in> set (owned h t)") (auto simp: built_def)
  have mo: "metrics_of h' t' = metrics_of h t @ ms" using g by (simp add: grow_def)
  have "blocks h0 a = None" if "a \<in> set (owned h' t')" for a
    using that b g new by (auto simp: owned_def mo built_def grow_def split: if_splits)
  moreover have "blocks h' a = blocks h0 a" if "a \<notin> set (owned h' t')" for a
  proof -
    have a: "a \<noteq> t_heap_metrics t' \<or> a = 0" "a \<notin> set (concat (map blob_addrs ms))"
      using that by (auto simp: owned_def mo)
    then have "blocks h' a = blocks h a" using g by (auto simp: grow_def)
    moreover have "a \<notin> set (owned h t)"
      using that a g by (auto simp: owned_def mo grow_def)
    ultimately show ?thesis using b by (simp add: built_def)
  qed
  ultimately show ?thesis using grow_wf [OF w g] b g by (simp add: built_def grow_def)
qed

lemma grow_contents:
  assumes w: "wf_telemetry h t" and g: "grow h t h' t' ms"
  shows "contents h' t' = contents h t @ map (abs_metric h') ms"
proof -
  have "abs_metric h' m = abs_metric h m" if "m \<in> set (metrics_of h t)" for m
    using abs_metric_cong [of m h' h] grow_old_blobs(1) [OF w g that] w that
    by (auto simp: wf_telemetry_def)
  with g show ?thesis by (simp add: contents_def grow_def)
qed

lemma grow_refl: "shape h t \<Longrightarrow> grow h t h t []"
  by (simp add: grow_def)

lemma grow_trans:
  assumes "grow h t h1 t1 []" "grow h1 t1 h2 t2 ms"
  shows "grow h t h2 t2 ms"
proof -
  have "blocks h1 a = blocks h a" if "a \<noteq> t_heap_metrics t1 \<or> a = 0" for a
    using assms(1) that by (auto simp: grow_def)
  with assms show ?thesis
    by (auto simp: grow_def) (metis+)
qed

lemma metrics_of_push:
  assumes "i = unat (t_metric_count t)" "i < length (slots h t)" "length (slots h t) \<le> 32"
    "slots h' t' = (slots h t)[i := m]" "t_metric_count t' = t_metric_count t + 1"
  shows "metrics_of h' t' = metrics_of h t @ [m]"
proof -
  have "unat (t_metric_count t + 1) = Suc i"
    using assms(1-3) by (simp add: unat_add_small32)
  then show ?thesis using assms by (simp add: metrics_of_def take_Suc_conv_app_nth take_update_cancel)
qed

lemma length_slots_le: "shape h t \<Longrightarrow> length (slots h t) \<le> 32"
  by (simp add: length_slots)

lemma grow_pushI:
  assumes s: "shape h t" and i: "i = unat (t_metric_count t)" "i < length (slots h t)"
    and s': "shape h' t'" "slots h' t' = (slots h t)[i := m]" "t_heap_metrics t' = t_heap_metrics t"
      "t_metric_count t' = t_metric_count t + 1" "heap_corrupt h' = heap_corrupt h"
    and m: "metric_ok h' m" "\<forall>a \<in> set (blob_addrs m). a \<noteq> t_heap_metrics t \<and> blocks h a = None"
    and r: "\<And>a. a \<noteq> t_heap_metrics t \<or> a = 0 \<Longrightarrow> a \<notin> set (blob_addrs m) \<Longrightarrow>
              blocks h' a = blocks h a"
  shows "grow h t h' t' [m]"
  using metrics_of_push [OF i length_slots_le [OF s] s'(2,4)] s' m r
  by (simp add: grow_def) (simp add: blob_addrs_def)

text \<open>A block added at a free address is no part of the object.\<close>

lemma shape_add_block:
  assumes "shape h t" "blocks h p = None" "p \<noteq> 0"
  shows "shape (h\<lparr>blocks := (blocks h)(p \<mapsto> b)\<rparr>) t"
    and "slots (h\<lparr>blocks := (blocks h)(p \<mapsto> b)\<rparr>) t = slots h t"
    and "p \<noteq> t_heap_metrics t"
proof -
  show ne: "p \<noteq> t_heap_metrics t"
    using assms by (auto simp: shape_def is_metric_array_def)
  then show "slots (h\<lparr>blocks := (blocks h)(p \<mapsto> b)\<rparr>) t = slots h t"
    by (simp add: slots_def metrics_at_def)
  with ne assms show "shape (h\<lparr>blocks := (blocks h)(p \<mapsto> b)\<rparr>) t"
    by (simp add: shape_def is_metric_array_def metrics_at_def)
qed

lemma shape_count:
  assumes "shape h t" "unat n \<le> length (slots h t)"
  shows "shape h (t\<lparr>t_metric_count := n\<rparr>)" "slots h (t\<lparr>t_metric_count := n\<rparr>) = slots h t"
  using assms by (auto simp: shape_def slots_def)

context allocator
begin

lemma reserve_grow:
  assumes s: "shape h t" and c: "unat (t_metric_count t) < 32"
    and r: "reserve_heap_metrics M isr t h = (e, t1, h1)"
  shows "e \<noteq> ESP_OK \<Longrightarrow> t1 = t \<and> h1 = h"
    and "e = ESP_OK \<Longrightarrow> grow h t h1 t1 [] \<and> t_metric_count t1 = t_metric_count t \<and>
           unat (t_metric_count t) < length (slots h1 t1)"
proof -
  let ?b = "Metric_array (replicate heap_slots zero_metric)"
  consider "\<not> (4 \<le> unat (t_metric_count t) \<and> t_heap_metrics t = 0)"
    | "4 \<le> unat (t_metric_count t)" "t_heap_metrics t = 0" isr
    | "4 \<le> unat (t_metric_count t)" "t_heap_metrics t = 0" "\<not> isr"
    by blast
  then have "(e \<noteq> ESP_OK \<longrightarrow> t1 = t \<and> h1 = h) \<and> (e = ESP_OK \<longrightarrow> grow h t h1 t1 [] \<and>
      t_metric_count t1 = t_metric_count t \<and> unat (t_metric_count t) < length (slots h1 t1))"
  proof cases
    case 1
    then show ?thesis using r s c length_slots [OF s]
      by (auto simp: reserve_heap_metrics_def grow_refl)
  next
    case 2
    then show ?thesis using r by (simp add: reserve_heap_metrics_def)
  next
    case 3
    show ?thesis
    proof (cases rule: malloc_cases [of "heap_slots * sizeof_metric" ?b h])
      case 1
      then show ?thesis using r 3 by (cases t) (auto simp: reserve_heap_metrics_def)
    next
      case (2 p)
      then have t1: "e = ESP_OK" "t1 = t\<lparr>t_heap_metrics := p, t_capacity := of_nat AETUS_MAX_METRICS\<rparr>"
        "h1 = h\<lparr>blocks := (blocks h)(p \<mapsto> ?b)\<rparr>"
        using r 3 by (auto simp: reserve_heap_metrics_def)
      have n: "unat (t_metric_count t) = 4" "metrics_at h 0 = []" "slots h t = t_inline_metrics t"
        using s 3 by (auto simp: shape_def slots_def metrics_at_def)
      then have "shape h1 t1" "metrics_of h1 t1 = metrics_of h t"
        using s 2 t1 by (auto simp: shape_def slots_def is_metric_array_def metrics_at_def metrics_of_def)
      moreover have "length (slots h1 t1) = 32"
        using length_slots [of h1 t1] calculation(1) 2 t1 by simp
      ultimately show ?thesis using 2 3 t1 c by (auto simp: grow_def)
    qed
  qed
  then show "e \<noteq> ESP_OK \<Longrightarrow> t1 = t \<and> h1 = h" "e = ESP_OK \<Longrightarrow> grow h t h1 t1 [] \<and>
      t_metric_count t1 = t_metric_count t \<and> unat (t_metric_count t) < length (slots h1 t1)"
    by simp_all
qed

lemma append_metric_grow:
  assumes s: "shape h t" and a: "append_metric M isr (Some t) key unit h = (e, t', h', i)"
  shows "e \<noteq> ESP_OK \<Longrightarrow> t' = Some t \<and> h' = h"
    and "e = ESP_OK \<Longrightarrow> \<exists>h1 t1 t2. t' = Some (t2\<lparr>t_metric_count := t_metric_count t + 1\<rparr>) \<and>
           grow h t h1 t1 [] \<and> t_metric_count t1 = t_metric_count t \<and> i = unat (t_metric_count t) \<and>
           i < length (slots h1 t1) \<and>
           same_but h1 t1 h' t2 ((slots h1 t1)[i := new_metric key unit]) \<and>
           string_fits key AETUS_METRIC_KEY_MAX \<and> string_fits unit AETUS_METRIC_UNIT_MAX"
proof -
  let ?ok = "ostr key \<noteq> [] \<and> string_fits key AETUS_METRIC_KEY_MAX \<and>
    string_fits unit AETUS_METRIC_UNIT_MAX \<and> unat (t_metric_count t) < 32"
  have "(e \<noteq> ESP_OK \<longrightarrow> t' = Some t \<and> h' = h) \<and> (e = ESP_OK \<longrightarrow> (\<exists>h1 t1 t2.
      t' = Some (t2\<lparr>t_metric_count := t_metric_count t + 1\<rparr>) \<and> grow h t h1 t1 [] \<and>
      t_metric_count t1 = t_metric_count t \<and> i = unat (t_metric_count t) \<and> i < length (slots h1 t1) \<and>
      same_but h1 t1 h' t2 ((slots h1 t1)[i := new_metric key unit]) \<and>
      string_fits key AETUS_METRIC_KEY_MAX \<and> string_fits unit AETUS_METRIC_UNIT_MAX))"
  proof (cases ?ok)
    case False
    then show ?thesis using a by (auto simp: append_metric_def split: if_splits)
  next
    case True
    obtain e1 t1 h1 where r: "reserve_heap_metrics M isr t h = (e1, t1, h1)"
      by (cases "reserve_heap_metrics M isr t h")
    show ?thesis
    proof (cases "e1 = ESP_OK")
      case False
      then show ?thesis using a True r reserve_grow(1) [OF s _ r]
        by (cases e1) (auto simp: append_metric_def)
    next
      case ok: True
      have g: "grow h t h1 t1 []" "t_metric_count t1 = t_metric_count t"
        "unat (t_metric_count t) < length (slots h1 t1)"
        using reserve_grow(2) [OF s _ r ok] True by auto
      obtain t2 h2 where m: "set_metric_at (unat (t_metric_count t)) (new_metric key unit) t1 h1 = (t2, h2)"
        by (cases "set_metric_at (unat (t_metric_count t)) (new_metric key unit) t1 h1")
      have sb: "same_but h1 t1 h2 t2 ((slots h1 t1)[unat (t_metric_count t) := new_metric key unit])"
        by (rule set_metric_at_same_but [OF _ g(3) m]) (use g in \<open>simp add: grow_def\<close>)
      moreover have "t_metric_count t2 = t_metric_count t" using sb g by (simp add: same_but_def)
      ultimately show ?thesis using a True r ok m g by (auto simp: append_metric_def)
    qed
  qed
  then show "e \<noteq> ESP_OK \<Longrightarrow> t' = Some t \<and> h' = h"
    and "e = ESP_OK \<Longrightarrow> \<exists>h1 t1 t2. t' = Some (t2\<lparr>t_metric_count := t_metric_count t + 1\<rparr>) \<and>
           grow h t h1 t1 [] \<and> t_metric_count t1 = t_metric_count t \<and> i = unat (t_metric_count t) \<and>
           i < length (slots h1 t1) \<and>
           same_but h1 t1 h' t2 ((slots h1 t1)[i := new_metric key unit]) \<and>
           string_fits key AETUS_METRIC_KEY_MAX \<and> string_fits unit AETUS_METRIC_UNIT_MAX"
    by simp_all
qed

end

text \<open>After an append, writes through the metric pointer change the new slot only.\<close>

lemma same_but_update:
  assumes sb: "same_but h t h1 t1 sl" and i: "i < length sl" and s: "shape h t"
    and u: "update_metric i f (t1\<lparr>t_metric_count := n\<rparr>) h1 = (t2, h2)"
    and n: "unat n \<le> length sl"
  shows "\<exists>t3. t2 = t3\<lparr>t_metric_count := n\<rparr> \<and> same_but h t h2 t3 (sl[i := f (sl ! i)])"
proof -
  obtain t3 h3 where u': "update_metric i f t1 h1 = (t3, h3)" by (cases "update_metric i f t1 h1")
  have "metric_at (t1\<lparr>t_metric_count := n\<rparr>) h1 i = metric_at t1 h1 i"
    by (simp add: metric_at_def)
  with u u' have "t2 = t3\<lparr>t_metric_count := n\<rparr>" "h2 = h3"
    by (auto simp: update_metric_def set_metric_at_def split: if_splits)
  moreover have "same_but h1 t1 h3 t3 (sl[i := f (sl ! i)])"
    using update_metric_same_but [OF _ _ u'] sb i by (simp add: same_but_def)
  ultimately show ?thesis using same_but_trans [OF sb] by blast
qed

lemma new_metric_ok:
  assumes "string_fits key AETUS_METRIC_KEY_MAX" "string_fits unit AETUS_METRIC_UNIT_MAX"
  shows "length (m_key (new_metric key unit)) = 20" "length (m_unit (new_metric key unit)) = 8"
    "cstr (m_key (new_metric key unit)) = ostr key" "cstr (m_unit (new_metric key unit)) = ostr unit"
    "length (ostr key) < 20" "length (ostr unit) < 8"
  using assms by (simp_all add: new_metric_def zero_metric_def c_defs copy_string_fits string_fits_iff)

end
