(* ===== verification/TelemetryProps.thy ===== *)
theory TelemetryProps
  imports Telemetry
begin

text \<open>
  What the operations of the telemetry builder do to its contents and to the heap: a call that
  returns \<open>ESP_OK\<close> appends exactly one metric, a call that fails leaves the contents as they were,
  and the heap always holds the caller's blocks and the blocks the object owns, no more and no less.
\<close>

section \<open>Operations as growth steps\<close>

lemma shape_same_but: "same_but h t h' t' sl \<Longrightarrow> shape h' t'"
  by (simp add: same_but_def)

lemma unat_count_suc:
  assumes "unat (c :: u32) < 32"
  shows "unat (c + 1) = Suc (unat c)"
  using assms by (simp add: unat_add_small32)

text \<open>The state in which \<open>append_metric\<close> has just succeeded: slot \<open>i\<close> is the new metric.\<close>

definition appended ::
  "heap \<Rightarrow> aetus_telemetry \<Rightarrow> heap \<Rightarrow> aetus_telemetry \<Rightarrow> nat \<Rightarrow> heap \<Rightarrow> aetus_telemetry \<Rightarrow> aetus_metric \<Rightarrow> bool"
where
  "appended h t hr tr i h1 t1 m \<longleftrightarrow>
     grow h t hr tr [] \<and> t_metric_count tr = t_metric_count t \<and> i = unat (t_metric_count t) \<and>
     i < length (slots hr tr) \<and> shape h1 t1 \<and> slots h1 t1 = (slots hr tr)[i := m] \<and>
     t_heap_metrics t1 = t_heap_metrics tr \<and> t_metric_count t1 = t_metric_count t + 1 \<and>
     heap_corrupt h1 = heap_corrupt hr \<and>
     (\<forall>a. a \<noteq> t_heap_metrics tr \<or> a = 0 \<longrightarrow> blocks h1 a = blocks hr a)"

context allocator
begin

lemma append_then_grow:
  assumes g: "grow h t h1 t1 []" and sb: "same_but h1 t1 h2 t2 ((slots h1 t1)[i := m])"
    and i: "i = unat (t_metric_count t)" "t_metric_count t1 = t_metric_count t" "i < length (slots h1 t1)"
    and m: "metric_ok h2 m" "blob_addrs m = []"
  shows "grow h t h2 (t2\<lparr>t_metric_count := t_metric_count t + 1\<rparr>) [m]"
proof (rule grow_trans [OF g], rule grow_pushI)
  show s: "shape h1 t1" using g by (simp add: grow_def)
  have le: "length (slots h1 t1) \<le> 32" by (rule length_slots_le [OF s])
  then have n: "unat (t_metric_count t + 1) \<le> length (slots h2 t2)"
    using sb i by (simp add: same_but_def unat_count_suc)
  show "shape h2 (t2\<lparr>t_metric_count := t_metric_count t + 1\<rparr>)"
    and "slots h2 (t2\<lparr>t_metric_count := t_metric_count t + 1\<rparr>) = (slots h1 t1)[i := m]"
    using shape_count [OF _ n] sb by (auto simp: same_but_def)
qed (use sb i m in \<open>auto simp: same_but_def\<close>)

lemma add_plain_grow:
  assumes s: "shape h t" and a: "add_plain M isr (Some t) key unit f h = (e, t', h')"
    and f: "\<And>m. m_key (f m) = m_key m" "\<And>m. m_unit (f m) = m_unit m"
      "\<And>m. m_type (f m) \<noteq> AETUS_METRIC_VALUE_STRING" "\<And>m. m_type (f m) \<noteq> AETUS_METRIC_VALUE_BYTES"
  shows "e \<noteq> ESP_OK \<Longrightarrow> t' = Some t \<and> h' = h"
    and "e = ESP_OK \<Longrightarrow> \<exists>t2. t' = Some t2 \<and> grow h t h' t2 [f (new_metric key unit)] \<and>
      string_fits key AETUS_METRIC_KEY_MAX \<and> string_fits unit AETUS_METRIC_UNIT_MAX"
proof -
  obtain e1 t1 h1 i where ap: "append_metric M isr (Some t) key unit h = (e1, t1, h1, i)"
    by (cases "append_metric M isr (Some t) key unit h")
  have err: "e1 \<noteq> ESP_OK \<Longrightarrow> e = e1 \<and> t' = t1 \<and> h' = h1"
    using a by (cases e1) (auto simp: add_plain_def ap)
  note app = append_metric_grow [OF s ap]
  have ok: "e = ESP_OK \<and> (\<exists>t2. t' = Some t2 \<and> grow h t h' t2 [f (new_metric key unit)]) \<and>
      string_fits key AETUS_METRIC_KEY_MAX \<and> string_fits unit AETUS_METRIC_UNIT_MAX" if "e1 = ESP_OK"
  proof -
    from app(2) [OF that] obtain hr tr t2 where
      t1: "t1 = Some (t2\<lparr>t_metric_count := t_metric_count t + 1\<rparr>)" and
      g: "grow h t hr tr []" "t_metric_count tr = t_metric_count t" "i = unat (t_metric_count t)"
        "i < length (slots hr tr)" and
      sb: "same_but hr tr h1 t2 ((slots hr tr)[i := new_metric key unit])" and
      fits: "string_fits key AETUS_METRIC_KEY_MAX" "string_fits unit AETUS_METRIC_UNIT_MAX"
      by blast
    let ?n = "t_metric_count t + 1"
    obtain t3 h3 where u: "update_metric i f (t2\<lparr>t_metric_count := ?n\<rparr>) h1 = (t3, h3)"
      by (cases "update_metric i f (t2\<lparr>t_metric_count := ?n\<rparr>) h1")
    have sr: "shape hr tr" using g by (simp add: grow_def)
    have n: "unat ?n \<le> length ((slots hr tr)[i := new_metric key unit])"
      using g length_slots_le [OF sr] by (simp add: unat_count_suc)
    obtain t4 where t4: "t3 = t4\<lparr>t_metric_count := ?n\<rparr>"
      "same_but hr tr h3 t4 ((slots hr tr)[i := f (new_metric key unit)])"
      using same_but_update [OF sb _ sr u n] g by auto
    have "grow h t h3 t3 [f (new_metric key unit)]"
      unfolding t4 by (rule append_then_grow [OF g(1) t4(2) g(3,2,4)])
        (use f new_metric_ok [OF fits] in \<open>auto simp: metric_ok_def blob_addrs_def is_blob_def
          strlen_def c_defs split: aetus_metric_value_type.split\<close>)
    moreover have "e = ESP_OK" "t' = Some t3" "h' = h3"
      using a that by (simp_all add: add_plain_def ap t1 u)
    ultimately show ?thesis using fits by simp
  qed
  show "e \<noteq> ESP_OK \<Longrightarrow> t' = Some t \<and> h' = h" using app(1) err ok by (cases "e1 = ESP_OK") auto
  show "e = ESP_OK \<Longrightarrow> \<exists>t2. t' = Some t2 \<and> grow h t h' t2 [f (new_metric key unit)] \<and>
      string_fits key AETUS_METRIC_KEY_MAX \<and> string_fits unit AETUS_METRIC_UNIT_MAX"
    using err ok by (cases "e1 = ESP_OK") auto
qed

lemma append_metric_appended:
  assumes s: "shape h t" and a: "append_metric M isr (Some t) key unit h = (ESP_OK, t', h', i)"
  obtains hr tr t1 where "t' = Some t1" "appended h t hr tr i h' t1 (new_metric key unit)"
    "string_fits key AETUS_METRIC_KEY_MAX" "string_fits unit AETUS_METRIC_UNIT_MAX"
proof -
  from append_metric_grow(2) [OF s a refl] obtain hr tr t2 where
    t1: "t' = Some (t2\<lparr>t_metric_count := t_metric_count t + 1\<rparr>)" and
    g: "grow h t hr tr []" "t_metric_count tr = t_metric_count t" "i = unat (t_metric_count t)"
      "i < length (slots hr tr)" and
    sb: "same_but hr tr h' t2 ((slots hr tr)[i := new_metric key unit])" and
    fits: "string_fits key AETUS_METRIC_KEY_MAX" "string_fits unit AETUS_METRIC_UNIT_MAX"
    by blast
  have "shape hr tr" using g by (simp add: grow_def)
  then have "unat (t_metric_count t + 1) \<le> length (slots h' t2)"
    using sb g length_slots_le [of hr tr] by (simp add: same_but_def unat_count_suc)
  with sb have "appended h t hr tr i h' (t2\<lparr>t_metric_count := t_metric_count t + 1\<rparr>) (new_metric key unit)"
    using g shape_count [of h' t2 "t_metric_count t + 1"] by (auto simp: appended_def same_but_def)
  with t1 fits that show thesis by blast
qed

lemma appended_update:
  assumes a: "appended h t hr tr i h1 t1 m" and u: "update_metric i f t1 h1 = (t2, h2)"
  shows "appended h t hr tr i h2 t2 (f m)"
proof -
  have "i < length (slots h1 t1)" "shape h1 t1" using a by (simp_all add: appended_def)
  from update_metric_same_but [OF this(2,1) u] show ?thesis
    using a by (auto simp: appended_def same_but_def)
qed

text \<open>Giving the metric a fresh blob completes the append.\<close>

lemma appended_blob:
  assumes a: "appended h t hr tr i h1 t1 m" and p: "p \<noteq> 0" "blocks h1 p = None"
    and h2: "h2 = h1\<lparr>blocks := (blocks h1)(p \<mapsto> Blob bs)\<rparr>"
    and sb: "same_but h2 t1 h3 t3 ((slots hr tr)[i := m'])"
    and m': "blob_addrs m' = [p]" "metric_ok h3 m'"
  shows "grow h t h3 t3 [m']"
proof (rule grow_trans [of _ _ hr tr], use a in \<open>simp add: appended_def\<close>, rule grow_pushI)
  have sr: "shape hr tr" using a by (simp add: appended_def grow_def)
  then show "shape hr tr" .
  have pn: "p \<noteq> t_heap_metrics tr" using shape_add_block(3) [of h1 t1 p] a p by (simp add: appended_def)
  then show "\<forall>a \<in> set (blob_addrs m'). a \<noteq> t_heap_metrics tr \<and> blocks hr a = None"
    using a p m' by (auto simp: appended_def)
  show "blocks h3 x = blocks hr x" if "x \<noteq> t_heap_metrics tr \<or> x = 0" "x \<notin> set (blob_addrs m')" for x
    using that a sb h2 m' by (auto simp: appended_def same_but_def)
qed (use a sb h2 m' in \<open>auto simp: appended_def same_but_def\<close>)

text \<open>Undoing the append after a failed allocation.\<close>

lemma appended_undo:
  assumes a: "appended h t hr tr i h1 t1 m"
    and u: "set_metric_at i zero_metric (t1\<lparr>t_metric_count := t_metric_count t1 - 1\<rparr>) h1 = (t2, h2)"
  shows "grow h t h2 t2 []"
proof -
  let ?t = "t1\<lparr>t_metric_count := t_metric_count t1 - 1\<rparr>"
  have sr: "shape hr tr" using a by (simp add: appended_def grow_def)
  have c: "t_metric_count ?t = t_metric_count t" using a by (simp add: appended_def)
  have s: "shape h1 ?t" "slots h1 ?t = slots h1 t1"
    using shape_count [of h1 t1 "t_metric_count t1 - 1"] a by (simp_all add: appended_def)
  have i: "i < length (slots h1 ?t)" using a s by (simp add: appended_def)
  have sb: "same_but h1 ?t h2 t2 ((slots hr tr)[i := zero_metric])"
    using set_metric_at_same_but [OF s(1) i u] a s(2) by (simp add: appended_def)
  have "grow hr tr h2 t2 []"
    using a sb c sr by (auto simp: grow_def appended_def same_but_def metrics_of_def)
  with a show ?thesis using grow_trans by (auto simp: appended_def)
qed

lemma blob_update_twice:
  assumes a: "appended h t hr tr i h1 t1 m" and p: "p \<noteq> 0" "blocks h1 p = None"
    and h2: "h2 = h1\<lparr>blocks := (blocks h1)(p \<mapsto> Blob bs)\<rparr>"
    and u: "update_metric i f t1 h2 = (t3, h3)" "update_metric i g t3 h3 = (t4, h4)"
  shows "same_but h2 t1 h4 t4 ((slots hr tr)[i := g (f m)])" "blocks h4 p = Some (Blob bs)"
proof -
  have s: "shape h2 t1" "slots h2 t1 = (slots hr tr)[i := m]" "p \<noteq> t_heap_metrics t1"
    using shape_add_block [of h1 t1 p] a p h2 by (auto simp: appended_def)
  have i: "i < length (slots hr tr)" using a by (simp add: appended_def)
  have sb1: "same_but h2 t1 h3 t3 ((slots hr tr)[i := f m])"
    using update_metric_same_but [OF s(1) _ u(1)] s i by simp
  then have "same_but h3 t3 h4 t4 ((slots hr tr)[i := g (f m)])"
    using update_metric_same_but [OF _ _ u(2)] i by (simp add: same_but_def)
  with sb1 show sb: "same_but h2 t1 h4 t4 ((slots hr tr)[i := g (f m)])" by (rule same_but_trans)
  then show "blocks h4 p = Some (Blob bs)" using s h2 p by (simp add: same_but_def)
qed

lemma add_string_n_grow:
  assumes s: "shape h t"
    and a: "aetus_telemetry_add_string_n M isr (Some t) key v n unit h = (e, t', h')"
    and v: "case v of None \<Rightarrow> True | Some bs \<Rightarrow> unat n \<le> length bs" and n: "n + 1 \<noteq> 0"
  shows "e \<noteq> ESP_OK \<Longrightarrow> \<exists>t2. t' = Some t2 \<and> grow h t h' t2 []"
    and "e = ESP_OK \<Longrightarrow> \<exists>t2 m. t' = Some t2 \<and> grow h t h' t2 [m] \<and> abs_metric h' m =
      (ostr key, ostr unit, String_value (case v of None \<Rightarrow> [] | Some bs \<Rightarrow> take (unat n) bs))"
proof -
  let ?val = "case v of None \<Rightarrow> [] | Some bs \<Rightarrow> take (unat n) bs"
  let ?P = "(e \<noteq> ESP_OK \<longrightarrow> (\<exists>t2. t' = Some t2 \<and> grow h t h' t2 [])) \<and>
    (e = ESP_OK \<longrightarrow> (\<exists>t2 m. t' = Some t2 \<and> grow h t h' t2 [m] \<and>
       abs_metric h' m = (ostr key, ostr unit, String_value ?val)))"
  obtain e1 t1o h1 i where ap: "append_metric M isr (Some t) key unit h = (e1, t1o, h1, i)"
    by (cases "append_metric M isr (Some t) key unit h")
  have ?P
  proof (cases "(v = None \<and> n \<noteq> 0) \<or> e1 \<noteq> ESP_OK")
    case True
    have "e \<noteq> ESP_OK \<and> t' = Some t \<and> h' = h"
      using a True append_metric_grow(1) [OF s ap]
      by (cases e1) (auto simp: aetus_telemetry_add_string_n_def ap split: if_splits)
    then show ?thesis using s by (simp add: grow_refl)
  next
    case False
    then have ok: "\<not> (v = None \<and> n \<noteq> 0)" and e1: "e1 = ESP_OK" by auto
    obtain hr tr t1 where t1: "t1o = Some t1"
      and app: "appended h t hr tr i h1 t1 (new_metric key unit)"
      and fits: "string_fits key AETUS_METRIC_KEY_MAX" "string_fits unit AETUS_METRIC_UNIT_MAX"
      using append_metric_appended [OF s ap [unfolded e1]] by blast
    have len: "length ?val = unat n" using v ok by (auto split: option.splits)
    let ?f = "\<lambda>p m. set_blob_data p (m\<lparr>m_type := AETUS_METRIC_VALUE_STRING\<rparr>)"
    let ?g = "\<lambda>m. m\<lparr>m_blob_size := n\<rparr>"
    show ?thesis
    proof (cases rule: malloc_cases [of "unat (n + 1)" "Blob (?val @ [0])" h1])
      case 1
      obtain t2 h2 where u: "update_metric i (?f 0) t1 h1 = (t2, h2)"
        by (cases "update_metric i (?f 0) t1 h1")
      obtain t3 h3 where z: "set_metric_at i zero_metric
          (t2\<lparr>t_metric_count := t_metric_count t2 - 1\<rparr>) h2 = (t3, h3)"
        by (cases "set_metric_at i zero_metric (t2\<lparr>t_metric_count := t_metric_count t2 - 1\<rparr>) h2")
      have "e = ESP_ERR_NO_MEM \<and> t' = Some t3 \<and> h' = h3"
        using a ok by (simp add: aetus_telemetry_add_string_n_def ap e1 t1 1 u z)
      then show ?thesis using appended_undo [OF appended_update [OF app u] z] by simp
    next
      case (2 p)
      let ?h2 = "h1\<lparr>blocks := (blocks h1)(p \<mapsto> Blob (?val @ [0]))\<rparr>"
      let ?m = "?g (?f p (new_metric key unit))"
      obtain t3 h3 where u1: "update_metric i (?f p) t1 ?h2 = (t3, h3)"
        by (cases "update_metric i (?f p) t1 ?h2")
      have c: "h3\<lparr>heap_corrupt := heap_corrupt h3 \<or> n + 1 = 0\<rparr> = h3" using n by simp
      obtain t4 h4 where u2: "update_metric i ?g t3 h3 = (t4, h4)" by (cases "update_metric i ?g t3 h3")
      have r: "e = ESP_OK \<and> t' = Some t4 \<and> h' = h4"
        using a ok 2(1) by (simp add: aetus_telemetry_add_string_n_def ap e1 t1 2(3) u1 c u2)
      note sb = blob_update_twice [OF app 2(1,2) refl u1 u2]
      have "metric_ok h4 ?m" "blob_addrs ?m = [p]" "abs_metric h4 ?m = (ostr key, ostr unit, String_value ?val)"
        using sb(2) 2(1) len n new_metric_ok [OF fits]
        by (simp_all add: metric_ok_def blob_addrs_def is_blob_def strlen_def c_defs
            abs_metric_def value_of_def blob_at_def nth_append)
      with appended_blob [OF app 2(1,2) refl sb(1)] r show ?thesis by blast
    qed
  qed
  then show "e \<noteq> ESP_OK \<Longrightarrow> \<exists>t2. t' = Some t2 \<and> grow h t h' t2 []"
    and "e = ESP_OK \<Longrightarrow> \<exists>t2 m. t' = Some t2 \<and> grow h t h' t2 [m] \<and>
       abs_metric h' m = (ostr key, ostr unit, String_value ?val)"
    by simp_all
qed

lemma add_bytes_grow:
  assumes s: "shape h t"
    and a: "aetus_telemetry_add_bytes M isr (Some t) key v n unit h = (e, t', h')"
    and v: "case v of None \<Rightarrow> True | Some bs \<Rightarrow> unat n \<le> length bs"
  shows "e \<noteq> ESP_OK \<Longrightarrow> \<exists>t2. t' = Some t2 \<and> grow h t h' t2 []"
    and "e = ESP_OK \<Longrightarrow> \<exists>t2 m. t' = Some t2 \<and> grow h t h' t2 [m] \<and> abs_metric h' m =
      (ostr key, ostr unit, Bytes_value (case v of None \<Rightarrow> [] | Some bs \<Rightarrow> take (unat n) bs))"
proof -
  let ?val = "case v of None \<Rightarrow> [] | Some bs \<Rightarrow> take (unat n) bs"
  let ?P = "(e \<noteq> ESP_OK \<longrightarrow> (\<exists>t2. t' = Some t2 \<and> grow h t h' t2 [])) \<and>
    (e = ESP_OK \<longrightarrow> (\<exists>t2 m. t' = Some t2 \<and> grow h t h' t2 [m] \<and>
       abs_metric h' m = (ostr key, ostr unit, Bytes_value ?val)))"
  obtain e1 t1o h1 i where ap: "append_metric M isr (Some t) key unit h = (e1, t1o, h1, i)"
    by (cases "append_metric M isr (Some t) key unit h")
  have ?P
  proof (cases "(v = None \<and> n \<noteq> 0) \<or> e1 \<noteq> ESP_OK")
    case True
    have "e \<noteq> ESP_OK \<and> t' = Some t \<and> h' = h"
      using a True append_metric_grow(1) [OF s ap]
      by (cases e1) (auto simp: aetus_telemetry_add_bytes_def ap split: if_splits)
    then show ?thesis using s by (simp add: grow_refl)
  next
    case False
    then have ok: "\<not> (v = None \<and> n \<noteq> 0)" and e1: "e1 = ESP_OK" by auto
    obtain hr tr t0 where t0: "t1o = Some t0"
      and app0: "appended h t hr tr i h1 t0 (new_metric key unit)"
      and fits: "string_fits key AETUS_METRIC_KEY_MAX" "string_fits unit AETUS_METRIC_UNIT_MAX"
      using append_metric_appended [OF s ap [unfolded e1]] by blast
    have len: "length ?val = unat n" using v ok by (auto split: option.splits)
    let ?ty = "\<lambda>m. m\<lparr>m_type := AETUS_METRIC_VALUE_BYTES\<rparr>"
    let ?nm = "?ty (new_metric key unit)"
    obtain t1 hb where ub: "update_metric i ?ty t0 h1 = (t1, hb)" by (cases "update_metric i ?ty t0 h1")
    note app = appended_update [OF app0 ub]
    note call = aetus_telemetry_add_bytes_def ap e1 t0 ub
    show ?thesis
    proof (cases "n = 0")
      case True
      obtain t2 h2 where u: "update_metric i (\<lambda>m. (set_blob_data 0 m)\<lparr>m_blob_size := n\<rparr>) t1 hb = (t2, h2)"
        by (cases "update_metric i (\<lambda>m. (set_blob_data 0 m)\<lparr>m_blob_size := n\<rparr>) t1 hb")
      have r: "e = ESP_OK \<and> t' = Some t2 \<and> h' = h2" using a ok u by (simp add: call True)
      let ?m = "(set_blob_data 0 ?nm)\<lparr>m_blob_size := n\<rparr>"
      have m: "metric_ok h2 ?m" "blob_addrs ?m = []"
        "abs_metric h2 ?m = (ostr key, ostr unit, Bytes_value ?val)"
        using new_metric_ok [OF fits] len
        by (simp_all add: metric_ok_def blob_addrs_def is_blob_def strlen_def c_defs True
            abs_metric_def value_of_def)
      note app2 = appended_update [OF app u]
      have "grow h t h2 t2 [?m]"
      proof (rule grow_trans [of _ _ hr tr], use app2 in \<open>simp add: appended_def\<close>, rule grow_pushI)
        show "shape hr tr" using app2 by (simp add: appended_def grow_def)
      qed (use app2 m in \<open>auto simp: appended_def\<close>)
      with m(3) r show ?thesis by blast
    next
      case nz: False
      obtain w where w: "v = Some w" using ok nz by auto
      note call = call w
      show ?thesis
      proof (cases rule: malloc_cases [of "unat n" "Blob ?val" hb])
        case 1
        obtain t2 h2 where u: "update_metric i (set_blob_data 0) t1 hb = (t2, h2)"
          by (cases "update_metric i (set_blob_data 0) t1 hb")
        obtain t3 h3 where z: "set_metric_at i zero_metric
            (t2\<lparr>t_metric_count := t_metric_count t2 - 1\<rparr>) h2 = (t3, h3)"
          by (cases "set_metric_at i zero_metric (t2\<lparr>t_metric_count := t_metric_count t2 - 1\<rparr>) h2")
        have "e = ESP_ERR_NO_MEM \<and> t' = Some t3 \<and> h' = h3"
          using a nz 1 [unfolded w] by (simp add: call u z word_gt_0)
        then show ?thesis using appended_undo [OF appended_update [OF app u] z] by simp
      next
        case (2 p)
        let ?h2 = "hb\<lparr>blocks := (blocks hb)(p \<mapsto> Blob ?val)\<rparr>"
        let ?m = "(set_blob_data p ?nm)\<lparr>m_blob_size := n\<rparr>"
        obtain t3 h3 where u1: "update_metric i (set_blob_data p) t1 ?h2 = (t3, h3)"
          by (cases "update_metric i (set_blob_data p) t1 ?h2")
        obtain t4 h4 where u2: "update_metric i (\<lambda>m. m\<lparr>m_blob_size := n\<rparr>) t3 h3 = (t4, h4)"
          by (cases "update_metric i (\<lambda>m. m\<lparr>m_blob_size := n\<rparr>) t3 h3")
        have r: "e = ESP_OK \<and> t' = Some t4 \<and> h' = h4"
          using a nz 2(1) 2(3) [unfolded w] u1 [unfolded w] by (simp add: call u2 word_gt_0)
        note sb = blob_update_twice [OF app 2(1,2) refl u1 u2]
        have "metric_ok h4 ?m" "blob_addrs ?m = [p]"
          "abs_metric h4 ?m = (ostr key, ostr unit, Bytes_value ?val)"
          using sb(2) 2(1) len nz new_metric_ok [OF fits]
          by (simp_all add: metric_ok_def blob_addrs_def is_blob_def strlen_def c_defs
              abs_metric_def value_of_def blob_at_def)
        with appended_blob [OF app 2(1,2) refl sb(1)] r show ?thesis by blast
      qed
    qed
  qed
  then show "e \<noteq> ESP_OK \<Longrightarrow> \<exists>t2. t' = Some t2 \<and> grow h t h' t2 []"
    and "e = ESP_OK \<Longrightarrow> \<exists>t2 m. t' = Some t2 \<and> grow h t h' t2 [m] \<and>
       abs_metric h' m = (ostr key, ostr unit, Bytes_value ?val)"
    by simp_all
qed

end

section \<open>Release\<close>

lemma free_blobs_append: "free_blobs (xs @ ys) h = free_blobs ys (free_blobs xs h)"
  by (simp add: free_blobs_def)

lemma free_blobs_live:
  assumes "distinct (concat (map blob_addrs ms))"
    "\<forall>a \<in> set (concat (map blob_addrs ms)). blocks h a \<noteq> None"
  shows "blocks (free_blobs ms h) =
      (\<lambda>a. if a \<in> set (concat (map blob_addrs ms)) then None else blocks h a) \<and>
    heap_corrupt (free_blobs ms h) = heap_corrupt h"
  using assms
proof (induction ms arbitrary: h)
  case Nil
  then show ?case by (simp add: free_blobs_def)
next
  case (Cons m ms)
  define h1 where "h1 = (if is_blob m then vPortFree (blob_data m) h else h)"
  let ?r = "set (concat (map blob_addrs ms))"
  have d: "set (blob_addrs m) \<inter> ?r = {}" "distinct (concat (map blob_addrs ms))"
    and l: "\<forall>a \<in> set (blob_addrs m). blocks h a \<noteq> None" "\<forall>a \<in> ?r. blocks h a \<noteq> None"
    using Cons.prems by auto
  have h1: "blocks h1 = (\<lambda>a. if a \<in> set (blob_addrs m) then None else blocks h a)"
    "heap_corrupt h1 = heap_corrupt h"
    using l(1) by (auto simp: h1_def blob_addrs_def vPortFree_def is_blob_def)
  have "\<forall>a \<in> ?r. blocks h1 a \<noteq> None" using d l(2) unfolding h1(1) by (metis disjoint_iff)
  from Cons.IH [OF d(2) this] have
    "blocks (free_blobs ms h1) = (\<lambda>a. if a \<in> ?r then None else blocks h1 a)"
    "heap_corrupt (free_blobs ms h1) = heap_corrupt h1" by simp_all
  moreover have "free_blobs (m # ms) h = free_blobs ms h1" by (simp add: free_blobs_def h1_def)
  ultimately show ?case by (auto simp: h1 fun_eq_iff)
qed

text \<open>The blocks of a well-formed object, blobs first and then the array, are freed once each.\<close>

definition free_owned :: "heap \<Rightarrow> aetus_telemetry \<Rightarrow> heap" where
  "free_owned h t = vPortFree (t_heap_metrics t) (free_blobs (metrics_of h t) h)"

lemma free_owned_wf:
  assumes w: "wf_telemetry h t"
  shows "blocks (free_owned h t) = (\<lambda>a. if a \<in> set (owned h t) then None else blocks h a)"
    and "heap_corrupt (free_owned h t) = heap_corrupt h"
proof -
  let ?bl = "concat (map blob_addrs (metrics_of h t))"
  have d: "distinct ?bl" "t_heap_metrics t \<noteq> 0 \<longrightarrow> t_heap_metrics t \<notin> set ?bl"
    using w unfolding wf_telemetry_def owned_def by (simp_all split: if_splits)
  have l: "\<forall>a \<in> set ?bl. blocks h a \<noteq> None"
    using wf_owned_live(2) [OF w] unfolding owned_def by simp
  have hm: "t_heap_metrics t \<noteq> 0 \<longrightarrow> blocks h (t_heap_metrics t) \<noteq> None"
    using wf_owned_live(2) [OF w, of "t_heap_metrics t"] by (simp add: owned_def)
  note f = free_blobs_live [OF d(1) l]
  show "blocks (free_owned h t) = (\<lambda>a. if a \<in> set (owned h t) then None else blocks h a)"
    and "heap_corrupt (free_owned h t) = heap_corrupt h"
    using d(2) hm f unfolding free_owned_def owned_def
    by (auto simp: vPortFree_def fun_eq_iff simp del: set_concat set_map)
qed

lemma metrics_of_split:
  assumes "shape h t"
  shows "metrics_of h t = take (unat (t_metric_count t)) (take 4 (t_inline_metrics t)) @
     take (heap_metric_count t) (metrics_at h (t_heap_metrics t))"
  using assms by (auto simp: metrics_of_def slots_def shape_def heap_metric_count_def)

lemma metrics_at_free:
  assumes "p \<notin> set (concat (map blob_addrs ms))"
  shows "metrics_at (free_blobs ms h) p = metrics_at h p"
proof -
  have "blocks (free_blobs ms h) p = blocks h p"
    using assms
    by (induction ms arbitrary: h)
      (auto simp: free_blobs_def blob_addrs_def vPortFree_def split: option.splits if_splits)
  then show ?thesis by (simp add: metrics_at_def)
qed

lemma deinit_shape:
  assumes s: "shape h t"
    and d: "t_heap_metrics t \<noteq> 0 \<longrightarrow> t_heap_metrics t \<notin> set (concat (map blob_addrs (metrics_of h t)))"
  shows "aetus_telemetry_deinit (Some t) h = (Some zero_telemetry, free_owned h t)"
proof -
  let ?in = "take (unat (t_metric_count t)) (take 4 (t_inline_metrics t))"
  show ?thesis
  proof (cases "t_heap_metrics t = 0")
    case True
    with s have "metrics_at h 0 = []" by (simp add: shape_def metrics_at_def)
    with True show ?thesis
      by (simp add: aetus_telemetry_deinit_def free_owned_def metrics_of_split [OF s] vPortFree_def)
  next
    case False
    with d have "metrics_at (free_blobs ?in h) (t_heap_metrics t) = metrics_at h (t_heap_metrics t)"
      by (intro metrics_at_free) (simp add: metrics_of_split [OF s])
    with False show ?thesis
      by (simp add: aetus_telemetry_deinit_def free_owned_def metrics_of_split [OF s] free_blobs_append)
  qed
qed

lemma deinit_free_owned:
  assumes "wf_telemetry h t"
  shows "aetus_telemetry_deinit (Some t) h = (Some zero_telemetry, free_owned h t)"
  by (rule deinit_shape) (use assms in \<open>auto simp: wf_telemetry_def owned_def\<close>)

lemma built_free_owned:
  assumes "built h0 h t"
  shows "free_owned h t = h0"
proof -
  have w: "wf_telemetry h t" using assms by (simp add: built_def)
  have "blocks (free_owned h t) = blocks h0"
    using assms by (auto simp: free_owned_wf [OF w] built_def fun_eq_iff)
  moreover have "heap_corrupt (free_owned h t) = heap_corrupt h0"
    using assms by (simp add: free_owned_wf [OF w] built_def)
  ultimately show ?thesis by (simp add: heap.equality)
qed

lemma init_built:
  assumes "aetus_telemetry_init (Some x) = Some t" "blocks h 0 = None"
  shows "built h h t" "contents h t = []" "shape h t"
  using assms
  by (auto simp: aetus_telemetry_init_def zero_telemetry_def built_def wf_telemetry_def shape_def
      slots_def metrics_at_def metrics_of_def owned_def contents_def)

section \<open>The builder as a whole\<close>

datatype telemetry_call =
    Add_int64 "byte list option" u64 "byte list option"
  | Add_double "byte list option" u64 "byte list option"
  | Add_bool "byte list option" bool "byte list option"
  | Add_string "byte list option" "byte list option" "byte list option"
  | Add_string_n "byte list option" "byte list option" size_t "byte list option"
  | Add_bytes "byte list option" "byte list option" size_t "byte list option"

fun run_call :: "malloc \<Rightarrow> bool \<Rightarrow> telemetry_call \<Rightarrow> aetus_telemetry option \<Rightarrow> heap \<Rightarrow>
    esp_err \<times> aetus_telemetry option \<times> heap" where
  "run_call M isr (Add_int64 k v u) t h = aetus_telemetry_add_int64 M isr t k v u h"
| "run_call M isr (Add_double k v u) t h = aetus_telemetry_add_double M isr t k v u h"
| "run_call M isr (Add_bool k v u) t h = aetus_telemetry_add_bool M isr t k v u h"
| "run_call M isr (Add_string k v u) t h = aetus_telemetry_add_string M isr t k v u h"
| "run_call M isr (Add_string_n k v n u) t h = aetus_telemetry_add_string_n M isr t k v n u h"
| "run_call M isr (Add_bytes k v n u) t h = aetus_telemetry_add_bytes M isr t k v n u h"

text \<open>The metric a caller means by a call.\<close>

fun meant :: "telemetry_call \<Rightarrow> byte list \<times> byte list \<times> metric_value" where
  "meant (Add_int64 k v u) = (ostr k, ostr u, Int_value v)"
| "meant (Add_double k v u) = (ostr k, ostr u, Double_value v)"
| "meant (Add_bool k v u) = (ostr k, ostr u, Bool_value v)"
| "meant (Add_string k v u) = (ostr k, ostr u, String_value (ostr v))"
| "meant (Add_string_n k v n u) =
     (ostr k, ostr u, String_value (case v of None \<Rightarrow> [] | Some bs \<Rightarrow> take (unat n) bs))"
| "meant (Add_bytes k v n u) =
     (ostr k, ostr u, Bytes_value (case v of None \<Rightarrow> [] | Some bs \<Rightarrow> take (unat n) bs))"

text \<open>The memory behind a value pointer has the size the caller states.\<close>

definition points_to :: "byte list option \<Rightarrow> size_t \<Rightarrow> bool" where
  "points_to v n \<longleftrightarrow> (case v of None \<Rightarrow> True | Some bs \<Rightarrow> unat n \<le> length bs)"

fun call_ok :: "telemetry_call \<Rightarrow> bool" where
  "call_ok (Add_string k (Some s) u) \<longleftrightarrow> strlen s < 4294967295"
| "call_ok (Add_string_n k v n u) \<longleftrightarrow> points_to v n \<and> n + 1 \<noteq> 0"
| "call_ok (Add_bytes k v n u) \<longleftrightarrow> points_to v n"
| "call_ok _ \<longleftrightarrow> True"

context allocator
begin

lemma plain_call_grow:
  assumes s: "shape h t" and a: "add_plain M isr (Some t) key unit f h = (e, t', h')"
    and f: "\<And>m. m_key (f m) = m_key m" "\<And>m. m_unit (f m) = m_unit m"
      "\<And>m. m_type (f m) \<noteq> AETUS_METRIC_VALUE_STRING" "\<And>m. m_type (f m) \<noteq> AETUS_METRIC_VALUE_BYTES"
    and v: "\<And>h. value_of h (f (new_metric key unit)) = val"
  shows "\<exists>t2 ms. t' = Some t2 \<and> grow h t h' t2 ms \<and>
    map (abs_metric h') ms = (if e = ESP_OK then [(ostr key, ostr unit, val)] else [])"
proof (cases "e = ESP_OK")
  case True
  from add_plain_grow(2) [OF s a f True] new_metric_ok [of key unit] show ?thesis
    by (auto simp: True abs_metric_def f v intro!: exI [of _ "[f (new_metric key unit)]"])
next
  case False
  from add_plain_grow(1) [OF s a f False] s False show ?thesis
    by (intro exI [of _ t] exI [of _ "[]"]) (simp add: grow_refl)
qed

lemma string_call_grow:
  assumes s: "shape h t"
    and a: "aetus_telemetry_add_string_n M isr (Some t) key v n unit h = (e, t', h')"
    and v: "points_to v n" "n + 1 \<noteq> 0"
  shows "\<exists>t2 ms. t' = Some t2 \<and> grow h t h' t2 ms \<and>
    map (abs_metric h') ms = (if e = ESP_OK then [meant (Add_string_n key v n unit)] else [])"
proof (cases "e = ESP_OK")
  case True
  from add_string_n_grow(2) [OF s a v [unfolded points_to_def] True] obtain t2 m where
    "t' = Some t2" "grow h t h' t2 [m]" "abs_metric h' m = meant (Add_string_n key v n unit)" by auto
  with True show ?thesis by (intro exI [of _ t2] exI [of _ "[m]"]) simp
next
  case False
  from add_string_n_grow(1) [OF s a v [unfolded points_to_def] False] False show ?thesis
    by (auto intro!: exI [of _ "[]"])
qed

lemma bytes_call_grow:
  assumes s: "shape h t"
    and a: "aetus_telemetry_add_bytes M isr (Some t) key v n unit h = (e, t', h')"
    and v: "points_to v n"
  shows "\<exists>t2 ms. t' = Some t2 \<and> grow h t h' t2 ms \<and>
    map (abs_metric h') ms = (if e = ESP_OK then [meant (Add_bytes key v n unit)] else [])"
proof (cases "e = ESP_OK")
  case True
  from add_bytes_grow(2) [OF s a v [unfolded points_to_def] True] obtain t2 m where
    "t' = Some t2" "grow h t h' t2 [m]" "abs_metric h' m = meant (Add_bytes key v n unit)" by auto
  with True show ?thesis by (intro exI [of _ t2] exI [of _ "[m]"]) simp
next
  case False
  from add_bytes_grow(1) [OF s a v [unfolded points_to_def] False] False show ?thesis
    by (auto intro!: exI [of _ "[]"])
qed

lemma call_grow:
  assumes s: "shape h t" and a: "run_call M isr c (Some t) h = (e, t', h')" and c: "call_ok c"
  shows "\<exists>t2 ms. t' = Some t2 \<and> grow h t h' t2 ms \<and>
    map (abs_metric h') ms = (if e = ESP_OK then [meant c] else [])"
proof (cases c)
  case (Add_int64 k v u)
  then have p: "add_plain M isr (Some t) k u (\<lambda>m. m\<lparr>m_type := AETUS_METRIC_VALUE_INT64, m_value := v\<rparr>) h = (e, t', h')"
    using a by (simp add: aetus_telemetry_add_int64_def)
  show ?thesis using plain_call_grow [OF s p, of "Int_value v"] by (simp add: Add_int64 value_of_def cong: if_cong split del: if_split)
next
  case (Add_double k v u)
  then have p: "add_plain M isr (Some t) k u (\<lambda>m. m\<lparr>m_type := AETUS_METRIC_VALUE_DOUBLE, m_value := v\<rparr>) h = (e, t', h')"
    using a by (simp add: aetus_telemetry_add_double_def)
  show ?thesis using plain_call_grow [OF s p, of "Double_value v"] by (simp add: Add_double value_of_def cong: if_cong split del: if_split)
next
  case (Add_bool k v u)
  then have p: "add_plain M isr (Some t) k u (\<lambda>m. set_bool_value v (m\<lparr>m_type := AETUS_METRIC_VALUE_BOOL\<rparr>)) h = (e, t', h')"
    using a by (simp add: aetus_telemetry_add_bool_def)
  show ?thesis using plain_call_grow [OF s p, of "Bool_value v"] by (cases v) (simp_all add: Add_bool value_of_def cong: if_cong split del: if_split)
next
  case (Add_string k v u)
  show ?thesis
  proof (cases v)
    case None
    with a Add_string s show ?thesis
      by (auto simp: aetus_telemetry_add_string_def intro!: exI [of _ "[]"] grow_refl)
  next
    case (Some w)
    have n: "strlen w < 4294967295" using c Add_string Some by simp
    then have u: "unat (of_nat (strlen w) :: size_t) = strlen w" by (simp add: unat_of_nat_small32)
    have "points_to (Some w) (of_nat (strlen w))"
      using length_cstr_le [of w] by (simp add: points_to_def u) (simp add: strlen_def)
    moreover have "unat (of_nat (strlen w) + 1 :: size_t) = Suc (strlen w)"
      using n u by (simp add: unat_add_small32)
    then have "(of_nat (strlen w) + 1 :: size_t) \<noteq> 0" by (metis unat_0 Zero_not_Suc)
    moreover have "aetus_telemetry_add_string_n M isr (Some t) k v (of_nat (strlen w)) u h = (e, t', h')"
      using a by (simp add: Add_string Some aetus_telemetry_add_string_def)
    ultimately have "\<exists>t2 ms. t' = Some t2 \<and> grow h t h' t2 ms \<and> map (abs_metric h') ms =
        (if e = ESP_OK then [meant (Add_string_n k v (of_nat (strlen w)) u)] else [])"
      using string_call_grow [OF s] Some by blast
    moreover have "meant (Add_string_n k v (of_nat (strlen w)) u) = meant c"
      using Some Add_string u take_strlen [of "strlen w" w] by (simp add: strlen_def)
    ultimately show ?thesis by (simp only:)
  qed
next
  case (Add_string_n k v n u)
  then show ?thesis using a c string_call_grow [OF s, of isr k v n u] by (simp cong: if_cong split del: if_split)
next
  case (Add_bytes k v n u)
  then show ?thesis using a c bytes_call_grow [OF s, of isr k v n u] by (simp cong: if_cong split del: if_split)
qed

end

section \<open>Calls that fail\<close>

text \<open>
  The calls that copy a value to the heap can fail after their append, when the copy cannot be allocated; the append is
  undone then, but a heap array allocated for it stays.
\<close>

fun copies_value :: "telemetry_call \<Rightarrow> bool" where
  "copies_value (Add_string k v u) \<longleftrightarrow> True"
| "copies_value (Add_string_n k v n u) \<longleftrightarrow> True"
| "copies_value (Add_bytes k v n u) \<longleftrightarrow> True"
| "copies_value _ \<longleftrightarrow> False"

text \<open>
  The object between two states: the time stamp stays; the pointer and the capacity change only together, by the
  first allocation of the heap array of an object whose inline metrics are in use.
\<close>

definition same_object :: "aetus_telemetry \<Rightarrow> aetus_telemetry \<Rightarrow> bool" where
  "same_object t t' \<longleftrightarrow>
     t_timestamp_ns t' = t_timestamp_ns t \<and>
     (if t_heap_metrics t' = t_heap_metrics t then t_capacity t' = t_capacity t
      else t_heap_metrics t = 0 \<and> 4 \<le> unat (t_metric_count t) \<and> t_capacity t' = 32)"


definition same_header :: "aetus_telemetry \<Rightarrow> aetus_telemetry \<Rightarrow> bool" where
  "same_header t t' \<longleftrightarrow>
     t_timestamp_ns t' = t_timestamp_ns t \<and> t_heap_metrics t' = t_heap_metrics t \<and> t_capacity t' = t_capacity t \<and>
     t_metric_count t' = t_metric_count t"

lemma update_keeps:
  "set_metric_at i m t h = (t', h') \<Longrightarrow> same_header t t'"
  "update_metric i f t h = (t', h') \<Longrightarrow> same_header t t'"
  by (auto simp: same_header_def set_metric_at_def update_metric_def Let_def split: if_splits)

lemma append_keeps:
  assumes "append_metric M isr (Some t) key unit h = (ESP_OK, Some t', h', i)"
  shows "t_metric_count t' = t_metric_count t + 1" "same_object t t'"
  using assms
  by (auto simp: append_metric_def reserve_heap_metrics_def Let_def same_object_def same_header_def c_defs
      dest!: update_keeps split: prod.splits if_splits)

text \<open>A run of updates of the new metric, with or without the undo.\<close>

lemma same_object_after:
  "same_object t t1 \<Longrightarrow> same_header t1 t2 \<Longrightarrow> same_object t t2"
  "same_object t t1 \<Longrightarrow> same_header (t1\<lparr>t_metric_count := n\<rparr>) t2 \<Longrightarrow> same_object t t2"
  by (auto simp: same_object_def same_header_def)

lemma same_object_refl [simp]: "same_object t t"
  by (simp add: same_object_def)

context allocator
begin

lemma plain_result:
  assumes s: "shape h t" and a: "add_plain M isr (Some t) key unit f h = (e, Some t', h')"
  shows "same_object t t' \<and> (e = ESP_OK \<or> t' = t \<and> h' = h)"
proof -
  obtain e1 t1 h1 i where ap: "append_metric M isr (Some t) key unit h = (e1, t1, h1, i)"
    by (cases "append_metric M isr (Some t) key unit h")
  show ?thesis
  proof (cases "e1 = ESP_OK")
    case True
    then obtain t2 where t2: "t1 = Some t2" using append_metric_grow(2) [OF s ap] by auto
    then have "same_object t t2" using append_keeps(2) ap True by blast
    with a show ?thesis
      by (auto simp: add_plain_def ap True t2 split: prod.splits dest!: update_keeps intro: same_object_after)
  next
    case False
    with a append_metric_grow(1) [OF s ap] show ?thesis by (cases e1) (auto simp: add_plain_def ap)
  qed
qed

lemma string_result:
  assumes s: "shape h t" and a: "aetus_telemetry_add_string_n M isr (Some t) key v n unit h = (e, Some t', h')"
  shows "same_object t t' \<and> (e = ESP_OK \<or> e = ESP_ERR_NO_MEM \<or> t' = t \<and> h' = h)"
proof -
  obtain e1 t1 h1 i where ap: "append_metric M isr (Some t) key unit h = (e1, t1, h1, i)"
    by (cases "append_metric M isr (Some t) key unit h")
  show ?thesis
  proof (cases "e1 = ESP_OK")
    case True
    then obtain t2 where t2: "t1 = Some t2" using append_metric_grow(2) [OF s ap] by auto
    then have "same_object t t2" using append_keeps(2) ap True by blast
    with a show ?thesis
      by (auto simp: aetus_telemetry_add_string_n_def ap True t2 Let_def split: prod.splits if_splits dest!: update_keeps)
        (blast intro: same_object_after)+
  next
    case False
    with a append_metric_grow(1) [OF s ap] show ?thesis
      by (cases e1) (auto simp: aetus_telemetry_add_string_n_def ap split: if_splits)
  qed
qed

lemma bytes_result:
  assumes s: "shape h t" and a: "aetus_telemetry_add_bytes M isr (Some t) key v n unit h = (e, Some t', h')"
  shows "same_object t t' \<and> (e = ESP_OK \<or> e = ESP_ERR_NO_MEM \<or> t' = t \<and> h' = h)"
proof -
  obtain e1 t1 h1 i where ap: "append_metric M isr (Some t) key unit h = (e1, t1, h1, i)"
    by (cases "append_metric M isr (Some t) key unit h")
  show ?thesis
  proof (cases "e1 = ESP_OK")
    case True
    then obtain t2 where t2: "t1 = Some t2" using append_metric_grow(2) [OF s ap] by auto
    then have "same_object t t2" using append_keeps(2) ap True by blast
    with a show ?thesis
      by (auto simp: aetus_telemetry_add_bytes_def ap True t2 Let_def split: prod.splits if_splits dest!: update_keeps)
        (blast intro: same_object_after)+
  next
    case False
    with a append_metric_grow(1) [OF s ap] show ?thesis
      by (cases e1) (auto simp: aetus_telemetry_add_bytes_def ap split: if_splits)
  qed
qed

lemma call_result:
  assumes "shape h t" "run_call M isr c (Some t) h = (e, Some t', h')"
  shows "same_object t t' \<and> (e = ESP_OK \<or> e = ESP_ERR_NO_MEM \<and> copies_value c \<or> t' = t \<and> h' = h)"
  using assms plain_result [OF assms(1)] string_result [OF assms(1)] bytes_result [OF assms(1)]
  by (cases c) (fastforce simp: aetus_telemetry_add_int64_def aetus_telemetry_add_double_def aetus_telemetry_add_bool_def
      aetus_telemetry_add_string_def split: option.splits)+

end



section \<open>Properties\<close>

lemma call_refines:
  assumes "malloc_ok M" and "built h0 h t" and "call_ok c"
    and "run_call M isr c (Some t) h = (e, t', h')"
  shows "\<exists>t2. t' = Some t2 \<and> built h0 h' t2 \<and>
    contents h' t2 = contents h t @ (if e = ESP_OK then [meant c] else [])"
proof -
  have w: "wf_telemetry h t" using assms(2) by (simp add: built_def)
  then have "shape h t" by (simp add: wf_telemetry_def)
  from allocator.call_grow [OF malloc_ok_allocator [OF assms(1)] this assms(4,3)]
  obtain t2 ms where "t' = Some t2" and g: "grow h t h' t2 ms"
    and "map (abs_metric h') ms = (if e = ESP_OK then [meant c] else [])" by blast
  then show ?thesis using grow_built [OF assms(2) g] grow_contents [OF w g] by auto
qed


definition empty_heap :: heap where
  "empty_heap = \<lparr>blocks = (\<lambda>a. None), heap_corrupt = False\<rparr>"

definition init_telemetry :: aetus_telemetry where
  "init_telemetry = zero_telemetry\<lparr>t_capacity := 4\<rparr>"

lemma init_telemetry_built: "blocks h 0 = None \<Longrightarrow> built h h init_telemetry"
  "contents h init_telemetry = []"
  using init_built [of zero_telemetry init_telemetry h]
  by (simp_all add: aetus_telemetry_init_def init_telemetry_def contents_def metrics_of_def zero_telemetry_def)


text \<open>
  C19. The result code of an append is decided by its arguments and the state alone: bad strings,
  a full object and an interrupt context that would need the heap give \<open>ESP_ERR_INVALID_ARG\<close>, a
  failed allocation of the heap array \<open>ESP_ERR_NO_MEM\<close>, and nothing else fails.
\<close>

theorem append_metric_result:
  "fst (append_metric M isr telemetry key unit h) =
     (case telemetry of None \<Rightarrow> ESP_ERR_INVALID_ARG
      | Some t \<Rightarrow>
          if ostr key = [] \<or> 20 \<le> length (ostr key) \<or> 8 \<le> length (ostr unit) \<or>
             32 \<le> unat (t_metric_count t)
          then ESP_ERR_INVALID_ARG
          else if 4 \<le> unat (t_metric_count t) \<and> t_heap_metrics t = 0 then
            if isr then ESP_ERR_INVALID_ARG
            else if M (blocks h) (28 * 48) = 0 then ESP_ERR_NO_MEM else ESP_OK
          else ESP_OK)"
proof (cases telemetry)
  case None
  then show ?thesis by (simp add: append_metric_def)
next
  case (Some t)
  have "fst (reserve_heap_metrics M isr t h) =
      (if unat (t_metric_count t) < 4 \<or> t_heap_metrics t \<noteq> 0 then ESP_OK
       else if isr then ESP_ERR_INVALID_ARG
       else if M (blocks h) (28 * 48) = 0 then ESP_ERR_NO_MEM else ESP_OK)"
    by (auto simp: reserve_heap_metrics_def pvPortMalloc_def sizeof_metric_def Let_def not_le)
  then show ?thesis
    by (cases "reserve_heap_metrics M isr t h"; cases "fst (reserve_heap_metrics M isr t h)")
      (auto simp: Some append_metric_def string_fits_iff AETUS_METRIC_KEY_MAX_def
        AETUS_METRIC_UNIT_MAX_def not_less not_le Let_def split: prod.split if_splits)
qed

text \<open>
  A run of calls, each with its own context (task or interrupt); the codes it returned.
\<close>

fun run_calls :: "malloc \<Rightarrow> (bool \<times> telemetry_call) list \<Rightarrow> aetus_telemetry option \<Rightarrow> heap \<Rightarrow>
    esp_err list \<times> aetus_telemetry option \<times> heap" where
  "run_calls M [] t h = ([], t, h)"
| "run_calls M ((isr, c) # cs) t h =
     (case run_call M isr c t h of
        (e, t, h) \<Rightarrow> (case run_calls M cs t h of (es, t, h) \<Rightarrow> (e # es, t, h)))"

lemma run_calls_built:
  assumes "malloc_ok M" "built h0 h t" "\<forall>(isr, c) \<in> set cs. call_ok c"
    "run_calls M cs (Some t) h = (es, t', h')"
  shows "\<exists>t2. t' = Some t2 \<and> built h0 h' t2 \<and> length es = length cs \<and>
    contents h' t2 = contents h t @ map (\<lambda>((isr, c), e). meant c) (filter (\<lambda>(c, e). e = ESP_OK) (zip cs es))"
  using assms(2-)
proof (induction cs arbitrary: t h es t' h')
  case Nil
  then show ?case by auto
next
  case (Cons ic cs)
  obtain isr c where ic: "ic = (isr, c)" by (cases ic)
  obtain e1 t1 h1 where r: "run_call M isr c (Some t) h = (e1, t1, h1)"
    by (cases "run_call M isr c (Some t) h")
  have "call_ok c" using Cons.prems(2) by (simp add: ic)
  from call_refines [OF assms(1) Cons.prems(1) this r] obtain t2 where t2: "t1 = Some t2"
    "built h0 h1 t2" "contents h1 t2 = contents h t @ (if e1 = ESP_OK then [meant c] else [])" by blast
  obtain es2 t3 h3 where rs: "run_calls M cs (Some t2) h1 = (es2, t3, h3)"
    by (cases "run_calls M cs (Some t2) h1")
  from Cons.IH [OF t2(2) _ rs] Cons.prems(2) obtain t4 where "t3 = Some t4" "built h0 h3 t4"
    "length es2 = length cs" "contents h3 t4 = contents h1 t2 @
       map (\<lambda>((isr, c), e). meant c) (filter (\<lambda>(c, e). e = ESP_OK) (zip cs es2))" by auto
  moreover have "es = e1 # es2" "t' = t3" "h' = h3" using Cons.prems(3) by (auto simp: ic r t2(1) rs)
  ultimately show ?case using t2(3) by (auto simp: ic)
qed

text \<open>
  C6. Building and releasing leaks nothing and frees nothing twice: after
  \<open>aetus_telemetry_init\<close>, any sequence of \<open>add\<close> calls, successful or not, and
  \<open>aetus_telemetry_deinit\<close>, the heap is exactly the heap before.
\<close>

theorem telemetry_lifecycle_restores_heap:
  assumes "malloc_ok M" and "blocks h 0 = None" and "\<forall>(isr, c) \<in> set cs. call_ok c"
    and "aetus_telemetry_init (Some x) = t0" and "run_calls M cs t0 h = (es, t, h')"
  shows "aetus_telemetry_deinit t h' = (Some zero_telemetry, h)"
proof -
  have t0: "t0 = Some init_telemetry"
    using assms(4) by (simp add: aetus_telemetry_init_def init_telemetry_def)
  from run_calls_built [OF assms(1) init_telemetry_built(1) [OF assms(2)] assms(3) assms(5) [unfolded t0]]
  obtain t2 where "t = Some t2" and b: "built h h' t2" by blast
  then show ?thesis using deinit_free_owned built_free_owned [OF b] by (simp add: built_def)
qed

theorem telemetry_lifecycle_witness:
  "\<exists>es t h'. run_calls (arena 9) [(False, Add_bytes (Some [65]) (Some [1, 2]) 2 None)]
      (aetus_telemetry_init (Some zero_telemetry)) empty_heap = (es, t, h') \<and>
    aetus_telemetry_deinit t h' = (Some zero_telemetry, empty_heap)"
proof -
  let ?cs = "[(False, Add_bytes (Some [65]) (Some [1, 2]) 2 None)]"
  let ?t = "aetus_telemetry_init (Some zero_telemetry)"
  obtain es t h' where r: "run_calls (arena 9) ?cs ?t empty_heap = (es, t, h')"
    by (cases "run_calls (arena 9) ?cs ?t empty_heap")
  have "\<forall>(isr, c) \<in> set ?cs. call_ok c" by (simp add: points_to_def)
  from telemetry_lifecycle_restores_heap [OF arena_ok _ this refl r] r show ?thesis
    by (auto simp: empty_heap_def)
qed

end
