(* ===== verification/QueueItem.thy ===== *)
theory QueueItem
  imports TelemetryProps
begin

text \<open>
  The deep copy of a telemetry object into a queue item and its release
  (\<open>aetus_queue_item.c\<close>). A queue item is copied by value through the FreeRTOS queue; its metric array
  and blobs stay in the heap, owned by whoever holds the item.
\<close>

section \<open>Release\<close>

record aetus_test_release_stats =
  telemetry_heap_metrics_released :: u32
  telemetry_blobs_released :: u32

text \<open>The body of the loops: free the blob of one metric and clear it.\<close>

definition release_metric ::
  "aetus_metric \<Rightarrow> heap \<Rightarrow> aetus_test_release_stats \<Rightarrow> aetus_metric \<times> heap \<times> aetus_test_release_stats" where
  "release_metric m h st =
     (if is_blob m
      then ((set_blob_data 0 m)\<lparr>m_blob_size := 0\<rparr>, vPortFree (blob_data m) h,
            st\<lparr>telemetry_blobs_released := telemetry_blobs_released st + 1\<rparr>)
      else (m, h, st))"

fun release_inline ::
  "nat \<Rightarrow> aetus_metric list \<Rightarrow> heap \<Rightarrow> aetus_test_release_stats \<Rightarrow>
     aetus_metric list \<times> heap \<times> aetus_test_release_stats" where
  "release_inline 0 ms h st = (ms, h, st)"
| "release_inline (Suc n) [] h st = ([], h, st)"
| "release_inline (Suc n) (m # ms) h st =
     (let (m, h, st) = release_metric m h st;
          (ms, h, st) = release_inline n ms h st
      in (m # ms, h, st))"

text \<open>The loop over the heap array writes the cleared metrics back through the pointer.\<close>

definition release_heap_metric ::
  "addr \<Rightarrow> nat \<Rightarrow> heap \<times> aetus_test_release_stats \<Rightarrow> heap \<times> aetus_test_release_stats" where
  "release_heap_metric p i hs =
     (let (h, st) = hs; m = metrics_at h p ! i in
      if is_blob m then
        let (m, h, st) = release_metric m h st in (put_metric p i m h, st)
      else (h, st))"

definition body_telemetry :: "aetus_queue_item \<Rightarrow> aetus_telemetry" where
  "body_telemetry item = (case qi_body item of Body_telemetry t \<Rightarrow> t | _ \<Rightarrow> zero_telemetry)"

definition release_telemetry ::
  "aetus_telemetry \<Rightarrow> heap \<Rightarrow> aetus_test_release_stats \<Rightarrow>
     aetus_telemetry \<times> heap \<times> aetus_test_release_stats" where
  "release_telemetry t h st =
     (let (ms, h, st) = release_inline
            (min (unat (t_metric_count t)) AETUS_TELEMETRY_INLINE_METRICS) (t_inline_metrics t) h st;
          t = t\<lparr>t_inline_metrics := ms\<rparr>
      in if t_heap_metrics t \<noteq> 0 then
           let (h, st) = fold (release_heap_metric (t_heap_metrics t)) [0 ..< heap_metric_count t] (h, st);
               h = vPortFree (t_heap_metrics t) h;
               st = st\<lparr>telemetry_heap_metrics_released := telemetry_heap_metrics_released st + 1\<rparr>
           in (t\<lparr>t_heap_metrics := 0\<rparr>, h, st)
         else (t, h, st))"

definition aetus_internal_release_telemetry_queue_item ::
  "aetus_queue_item option \<Rightarrow> heap \<Rightarrow> aetus_test_release_stats \<Rightarrow>
     aetus_queue_item option \<times> heap \<times> aetus_test_release_stats" where
  "aetus_internal_release_telemetry_queue_item item h st =
     (case item of None \<Rightarrow> (None, h, st)
      | Some it \<Rightarrow>
          if qi_kind it \<noteq> AETUS_QUEUE_ITEM_TELEMETRY then (Some it, h, st)
          else
            let (t, h, st) = release_telemetry (body_telemetry it) h st
            in (Some (it\<lparr>qi_body := Body_telemetry t\<rparr>), h, st))"

section \<open>Copy\<close>

definition telemetry_item :: "aetus_telemetry \<Rightarrow> aetus_queue_item" where
  "telemetry_item t = \<lparr>qi_kind = AETUS_QUEUE_ITEM_TELEMETRY, qi_signal_sample_owner = 0,
     qi_body = Body_telemetry t\<rparr>"

text \<open>\<open>memcpy\<close> from a blob: reading past it or through a dead pointer is recorded.\<close>

definition copy_from_blob :: "addr \<Rightarrow> nat \<Rightarrow> heap \<Rightarrow> byte list \<times> heap" where
  "copy_from_blob p n h =
     (take n (blob_at h p),
      h\<lparr>heap_corrupt := heap_corrupt h \<or>
          (case blocks h p of Some (Blob bs) \<Rightarrow> length bs < n | _ \<Rightarrow> True)\<rparr>)"

text \<open>The loop over the metrics: whether an allocation failed, and the copy and heap then.\<close>

fun copy_blobs ::
  "malloc \<Rightarrow> aetus_telemetry \<Rightarrow> nat list \<Rightarrow> aetus_telemetry \<Rightarrow> heap \<Rightarrow> bool \<times> aetus_telemetry \<times> heap" where
  "copy_blobs M telemetry [] t h = (False, t, h)"
| "copy_blobs M telemetry (i # is) t h =
     (let src = metric_at telemetry h i in
      if (m_type src = AETUS_METRIC_VALUE_STRING \<or>
          m_type src = AETUS_METRIC_VALUE_BYTES \<and> m_blob_size src > 0) \<and> blob_data src \<noteq> 0 then
        let copy_size = (if m_type src = AETUS_METRIC_VALUE_STRING then m_blob_size src + 1
                         else m_blob_size src);
            (bs, h1) = copy_from_blob (blob_data src) (unat copy_size) h;
            (p, h2) = pvPortMalloc M (unat copy_size) (Blob bs) h1
        in if p = 0 then (True, t, h)
           else
             let (t, h) = update_metric i
                            (\<lambda>m. (set_blob_data p m)\<lparr>m_blob_size := m_blob_size src\<rparr>) t h2
             in copy_blobs M telemetry is t h
      else copy_blobs M telemetry is t h)"

definition aetus_internal_copy_telemetry_to_queue_item ::
  "malloc \<Rightarrow> aetus_telemetry option \<Rightarrow> aetus_queue_item option \<Rightarrow> heap \<Rightarrow> aetus_test_release_stats \<Rightarrow>
     esp_err \<times> aetus_queue_item option \<times> heap \<times> aetus_test_release_stats" where
  "aetus_internal_copy_telemetry_to_queue_item M telemetry item h st =
     (case (telemetry, item) of
        (Some t, Some _) \<Rightarrow>
          let (p, h1) =
                (if t_heap_metrics t \<noteq> 0
                 then pvPortMalloc M (heap_slots * sizeof_metric)
                        (Metric_array (metrics_at h (t_heap_metrics t))) h
                 else (0, h));
              copy = t\<lparr>t_heap_metrics := p\<rparr>
          in if t_heap_metrics t \<noteq> 0 \<and> p = 0
             then (ESP_ERR_NO_MEM, Some (telemetry_item copy), h1, st)
             else
               (case copy_blobs M t [0 ..< unat (t_metric_count t)] copy h1 of
                  (True, copy, h2) \<Rightarrow>
                    let (it, h3, st) = aetus_internal_release_telemetry_queue_item
                                         (Some (telemetry_item copy)) h2 st
                    in (ESP_ERR_NO_MEM, it, h3, st)
                | (False, copy, h2) \<Rightarrow> (ESP_OK, Some (telemetry_item copy), h2, st))
      | _ \<Rightarrow> (ESP_ERR_INVALID_ARG, item, h, st))"

definition aetus_test_reset_release_stats :: "aetus_test_release_stats \<Rightarrow> aetus_test_release_stats" where
  "aetus_test_reset_release_stats st =
     \<lparr>telemetry_heap_metrics_released = 0, telemetry_blobs_released = 0\<rparr>"

definition aetus_test_get_release_stats ::
  "aetus_test_release_stats option \<Rightarrow> aetus_test_release_stats \<Rightarrow> aetus_test_release_stats option" where
  "aetus_test_get_release_stats stats st = (case stats of None \<Rightarrow> None | Some _ \<Rightarrow> Some st)"

definition aetus_test_copy_telemetry_to_queue_item ::
  "malloc \<Rightarrow> aetus_telemetry option \<Rightarrow> aetus_queue_item option \<Rightarrow> heap \<Rightarrow> aetus_test_release_stats \<Rightarrow>
     esp_err \<times> aetus_queue_item option \<times> heap \<times> aetus_test_release_stats" where
  "aetus_test_copy_telemetry_to_queue_item = aetus_internal_copy_telemetry_to_queue_item"

definition aetus_test_release_queue_item ::
  "aetus_queue_item option \<Rightarrow> heap \<Rightarrow> aetus_test_release_stats \<Rightarrow>
     aetus_queue_item option \<times> heap \<times> aetus_test_release_stats" where
  "aetus_test_release_queue_item = aetus_internal_release_telemetry_queue_item"

section \<open>Release frees exactly what the item owns\<close>

lemma release_inline_heap:
  "fst (snd (release_inline n ms h st)) = free_blobs (take n ms) h"
  by (induction n ms h st rule: release_inline.induct)
    (auto simp: free_blobs_def release_metric_def split: prod.split)

text \<open>
  The heap after the first \<open>n\<close> entries of the array: their blobs freed, the array's own entries
  cleared. \<open>h\<close> is the heap before, and the array is none of the blobs.
\<close>

lemma release_heap_loop:
  assumes a: "blocks h p = Some (Metric_array ms)" and n: "n \<le> length ms"
    and d: "distinct (concat (map blob_addrs (take n ms)))"
      "p \<notin> set (concat (map blob_addrs (take n ms)))"
      "\<forall>a \<in> set (concat (map blob_addrs (take n ms))). blocks h a \<noteq> None"
  shows "\<exists>ms' st'. fold (release_heap_metric p) [0 ..< n] (h, st) =
      ((free_blobs (take n ms) h)\<lparr>blocks := (blocks (free_blobs (take n ms) h))
         (p \<mapsto> Metric_array (ms' @ drop n ms))\<rparr>, st') \<and> length ms' = n"
  using n d
proof (induction n)
  case 0
  have e: "free_blobs [] h = h" by (simp add: free_blobs_def)
  have "(blocks h)(p \<mapsto> Metric_array ms) = blocks h" using a by (simp add: fun_upd_idem)
  then show ?case by (intro exI [of _ "[]"] exI [of _ st]) (simp add: e del: fun_upd_apply)
next
  case (Suc n)
  let ?m = "ms ! n"
  have t: "take (Suc n) ms = take n ms @ [?m]" using Suc.prems(1) by (simp add: take_Suc_conv_app_nth)
  define hn where "hn = free_blobs (take n ms) h"
  have "\<exists>ms' st'. fold (release_heap_metric p) [0 ..< n] (h, st) =
      (hn\<lparr>blocks := (blocks hn)(p \<mapsto> Metric_array (ms' @ drop n ms))\<rparr>, st') \<and> length ms' = n"
    unfolding hn_def by (rule Suc.IH) (use Suc.prems in \<open>auto simp: t\<close>)
  then obtain ms' st' where
    ih: "fold (release_heap_metric p) [0 ..< n] (h, st) =
      (hn\<lparr>blocks := (blocks hn)(p \<mapsto> Metric_array (ms' @ drop n ms))\<rparr>, st')" and l: "length ms' = n"
    by blast
  have dr: "drop n ms = ?m # drop (Suc n) ms" using Suc.prems(1) by (simp add: Cons_nth_drop_Suc)
  have f: "free_blobs (take (Suc n) ms) h = (if is_blob ?m then vPortFree (blob_data ?m) hn else hn)"
    unfolding t hn_def free_blobs_append by (simp add: free_blobs_def)
  have live: "blocks hn (blob_data ?m) \<noteq> None" "blob_data ?m \<noteq> p" "blob_data ?m \<noteq> 0" if "is_blob ?m"
  proof -
    have am: "blob_addrs ?m = [blob_data ?m]" using that by (simp add: blob_addrs_def)
    have "distinct (concat (map blob_addrs (take n ms)))"
      "\<forall>a \<in> set (concat (map blob_addrs (take n ms))). blocks h a \<noteq> None"
      "blob_data ?m \<notin> set (concat (map blob_addrs (take n ms)))" "blocks h (blob_data ?m) \<noteq> None"
      "blob_data ?m \<noteq> p"
      using Suc.prems by (auto simp: t am)
    then show "blocks hn (blob_data ?m) \<noteq> None" "blob_data ?m \<noteq> p"
      using free_blobs_live [of "take n ms" h] by (simp_all add: hn_def del: set_concat set_map)
    show "blob_data ?m \<noteq> 0" using that by (simp add: is_blob_def)
  qed
  show ?case
  proof (cases "is_blob ?m")
    case False
    then have "release_heap_metric p n (hn\<lparr>blocks := (blocks hn)(p \<mapsto> Metric_array (ms' @ drop n ms))\<rparr>, st')
      = (hn\<lparr>blocks := (blocks hn)(p \<mapsto> Metric_array (ms' @ drop n ms))\<rparr>, st')"
      using l by (simp add: release_heap_metric_def metrics_at_def dr nth_append)
    with False ih f l show ?thesis by (intro exI [of _ "ms' @ [?m]"]) (simp add: dr del: fun_upd_apply)
  next
    case True
    let ?c = "(set_blob_data 0 ?m)\<lparr>m_blob_size := 0\<rparr>"
    have "\<exists>st''. release_heap_metric p n (hn\<lparr>blocks := (blocks hn)(p \<mapsto> Metric_array (ms' @ drop n ms))\<rparr>, st')
      = ((vPortFree (blob_data ?m) hn)\<lparr>blocks := (blocks (vPortFree (blob_data ?m) hn))
           (p \<mapsto> Metric_array (ms' @ ?c # drop (Suc n) ms))\<rparr>, st'')"
      using l True live [OF True]
      by (auto simp: release_heap_metric_def metrics_at_def dr nth_append release_metric_def
          put_metric_def vPortFree_def list_update_append fun_upd_twist Let_def)
    with True ih f l show ?thesis by (intro exI [of _ "ms' @ [?c]"]) (auto simp del: fun_upd_apply)
  qed
qed

lemma release_telemetry_wf:
  assumes w: "wf_telemetry h t"
  shows "\<exists>t' st'. release_telemetry t h st = (t', free_owned h t, st')"
proof -
  have s: "shape h t" using w by (simp add: wf_telemetry_def)
  let ?in = "take (unat (t_metric_count t)) (take 4 (t_inline_metrics t))"
  let ?n = "min (unat (t_metric_count t)) 4"
  have inl: "take ?n (t_inline_metrics t) = ?in" by (simp add: min.commute)
  obtain ms h1 st1 where r: "release_inline ?n (t_inline_metrics t) h st = (ms, h1, st1)"
    by (cases "release_inline ?n (t_inline_metrics t) h st")
  have h1: "h1 = free_blobs ?in h" using release_inline_heap [of ?n "t_inline_metrics t" h st] unfolding inl r by simp
  show ?thesis
  proof (cases "t_heap_metrics t = 0")
    case True
    with s have "metrics_at h 0 = []" by (simp add: shape_def metrics_at_def)
    with True show ?thesis
      by (simp add: release_telemetry_def r h1 free_owned_def metrics_of_split [OF s] vPortFree_def)
  next
    case False
    obtain arr where arr: "blocks h (t_heap_metrics t) = Some (Metric_array arr)" "length arr = 28"
      using s False by (auto simp: shape_def is_metric_array_def metrics_at_def split: option.splits block.splits)
    let ?p = "t_heap_metrics t" and ?k = "heap_metric_count t"
    have mo: "metrics_of h t = ?in @ take ?k arr"
      using metrics_of_split [OF s] arr by (simp add: metrics_at_def)
    have d: "distinct (concat (map blob_addrs (?in @ take ?k arr)))"
      "?p \<notin> set (concat (map blob_addrs (?in @ take ?k arr)))"
      using w False unfolding wf_telemetry_def owned_def mo by simp_all
    have l: "\<forall>a \<in> set (concat (map blob_addrs (?in @ take ?k arr))). blocks h a \<noteq> None"
      using wf_owned_live(2) [OF w] unfolding owned_def mo by simp
    have f: "blocks h1 = (\<lambda>a. if a \<in> set (concat (map blob_addrs ?in)) then None else blocks h a)"
      unfolding h1 using free_blobs_live [of ?in h] d(1) l
      unfolding map_append concat_append distinct_append set_append by blast
    have k: "?k \<le> length arr"
      using s arr length_slots [OF s] False by (auto simp: shape_def heap_metric_count_def)
    have "\<exists>ms' st'. fold (release_heap_metric ?p) [0 ..< ?k] (h1, st1) =
      ((free_blobs (take ?k arr) h1)\<lparr>blocks := (blocks (free_blobs (take ?k arr) h1))
         (?p \<mapsto> Metric_array (ms' @ drop ?k arr))\<rparr>, st') \<and> length ms' = ?k"
    proof (rule release_heap_loop [OF _ k])
      show "blocks h1 ?p = Some (Metric_array arr)" using f arr d(2) by simp
      show "\<forall>a \<in> set (concat (map blob_addrs (take ?k arr))). blocks h1 a \<noteq> None"
        using d(1) l unfolding f by auto
    qed (use d in auto)
    then obtain ms' st2 where lp: "fold (release_heap_metric ?p) [0 ..< ?k] (h1, st1) =
      ((free_blobs (take ?k arr) h1)\<lparr>blocks := (blocks (free_blobs (take ?k arr) h1))
         (?p \<mapsto> Metric_array (ms' @ drop ?k arr))\<rparr>, st2)" by blast
    let ?h2 = "free_blobs (take ?k arr) h1"
    have h2: "?h2 = free_blobs (metrics_of h t) h" by (simp add: mo free_blobs_append h1)
    have "blocks ?h2 ?p = Some (Metric_array arr)"
      unfolding h2 using free_blobs_live [OF d(1) l] d(2) arr by (simp add: mo)
    then have "vPortFree ?p (?h2\<lparr>blocks := (blocks ?h2)(?p \<mapsto> Metric_array (ms' @ drop ?k arr))\<rparr>) = vPortFree ?p ?h2"
      using False by (simp add: vPortFree_def)
    moreover have cnt: "heap_metric_count (t\<lparr>t_inline_metrics := ms\<rparr>) = ?k"
      by (simp add: heap_metric_count_def)
    ultimately show ?thesis using False
      by (simp add: release_telemetry_def Let_def r lp cnt free_owned_def h2)
  qed
qed

end
