(* ===== verification/QueueItemProps.thy ===== *)
theory QueueItemProps
  imports QueueItem
begin

text \<open>
  What the deep copy guarantees: a successful copy is a telemetry object with the same contents that
  owns fresh blocks only, so the queue item and the caller's object can be released independently.
  What it does not: when the allocation of a blob fails, the clean-up also frees blobs of the caller.
\<close>

section \<open>The caller's object during the copy\<close>

lemma built_other:
  assumes "wf_telemetry h t" "built h h' x"
  shows "\<forall>a \<in> set (owned h t). blocks h' a = blocks h a" "blocks h' 0 = blocks h 0"
    "\<forall>a. blocks h a \<noteq> None \<longrightarrow> blocks h' a = blocks h a"
proof -
  have "a \<notin> set (owned h' x)" if "blocks h a \<noteq> None" for a using assms(2) that by (auto simp: built_def)
  then show "\<forall>a. blocks h a \<noteq> None \<longrightarrow> blocks h' a = blocks h a" using assms(2) by (simp add: built_def)
  then show "\<forall>a \<in> set (owned h t). blocks h' a = blocks h a" using wf_owned_live(2) [OF assms(1)] by simp
  have "0 \<notin> set (owned h' x)" using assms(2) wf_owned_live(1) [of h' x 0] by (auto simp: built_def)
  then show "blocks h' 0 = blocks h 0" using assms(2) by (simp add: built_def)
qed

text \<open>An object depends on the blocks it owns, and on address 0 holding none.\<close>

lemma wf_same:
  assumes w: "wf_telemetry h t" and o: "\<forall>a \<in> set (owned h t). blocks h' a = blocks h a" "blocks h' 0 = blocks h 0"
  shows "slots h' t = slots h t" "shape h' t" "wf_telemetry h' t" "contents h' t = contents h t"
    "owned h' t = owned h t"
proof -
  have hm: "blocks h' (t_heap_metrics t) = blocks h (t_heap_metrics t)"
    using o by (cases "t_heap_metrics t = 0") (simp_all add: owned_def)
  then show sl: "slots h' t = slots h t" by (simp add: slots_def metrics_at_def)
  show sh: "shape h' t" using w hm sl o(2) by (simp add: wf_telemetry_def shape_def is_metric_array_def metrics_at_def)
  have mo: "metrics_of h' t = metrics_of h t" by (simp add: metrics_of_def sl)
  then show ow: "owned h' t = owned h t" by (simp add: owned_def)
  have bl: "blocks h' a = blocks h a" if "m \<in> set (metrics_of h t)" "a \<in> set (blob_addrs m)" for m a
    using that o(1) by (auto simp: owned_def)
  have ok: "metric_ok h m" if "m \<in> set (metrics_of h t)" for m using w that by (simp add: wf_telemetry_def)
  show "wf_telemetry h' t"
    using w sh metric_ok_cong(1) [OF bl] by (simp add: wf_telemetry_def mo ow)
  show "contents h' t = contents h t"
    using abs_metric_cong [OF bl ok] by (simp add: contents_def mo)
qed

lemma built_other_same:
  assumes w: "wf_telemetry h t" and b: "built h h' x"
  shows "slots h' t = slots h t" "shape h' t" "wf_telemetry h' t" "contents h' t = contents h t"
    "owned h' t = owned h t"
  using wf_same [OF w built_other(1,2) [OF w b]] by simp_all

section \<open>The copy loop\<close>

text \<open>
  After \<open>k\<close> metrics: the first \<open>k\<close> slots of the copy own fresh blobs, the others still point at the
  caller's.
\<close>

definition copied :: "heap \<Rightarrow> aetus_telemetry \<Rightarrow> nat \<Rightarrow> aetus_telemetry \<Rightarrow> heap \<Rightarrow> bool" where
  "copied h t k it hk \<longleftrightarrow>
     k \<le> unat (t_metric_count t) \<and> t_metric_count it = t_metric_count t \<and>
     built h hk (it\<lparr>t_metric_count := of_nat k\<rparr>) \<and>
     length (slots hk it) = length (slots h t) \<and> drop k (slots hk it) = drop k (slots h t) \<and>
     contents hk (it\<lparr>t_metric_count := of_nat k\<rparr>) = take k (contents h t)"

lemma slots_count [simp]: "slots h (t\<lparr>t_metric_count := n\<rparr>) = slots h t"
  by (simp add: slots_def)

lemma unat_small: "k \<le> 32 \<Longrightarrow> unat (of_nat k :: u32) = k"
  by (simp add: unat_of_nat_small32)

lemma contents_nth:
  assumes "k < unat (t_metric_count t)" "shape h t"
  shows "take (Suc k) (contents h t) = take k (contents h t) @ [abs_metric h (slots h t ! k)]"
proof -
  have "k < length (contents h t)" "contents h t ! k = abs_metric h (slots h t ! k)"
    using assms by (auto simp: contents_def metrics_of_def shape_def)
  then show ?thesis by (simp add: take_Suc_conv_app_nth)
qed

lemma copied_push:
  assumes w: "wf_telemetry h t" and c: "copied h t k it hk" and k: "k < unat (t_metric_count t)"
    and s': "shape h' (it'\<lparr>t_metric_count := of_nat k\<rparr>)" "slots h' it' = (slots hk it)[k := m]"
      "t_heap_metrics it' = t_heap_metrics it" "t_metric_count it' = t_metric_count it"
      "heap_corrupt h' = heap_corrupt hk"
    and m: "metric_ok h' m"
      "\<forall>a \<in> set (blob_addrs m). a \<noteq> t_heap_metrics it \<and> blocks hk a = None"
      "abs_metric h' m = abs_metric h (slots h t ! k)"
    and r: "\<And>a. a \<noteq> t_heap_metrics it \<or> a = 0 \<Longrightarrow> a \<notin> set (blob_addrs m) \<Longrightarrow>
              blocks h' a = blocks hk a"
  shows "copied h t (Suc k) it' h'"
proof -
  let ?ik = "it\<lparr>t_metric_count := of_nat k\<rparr>" and ?i' = "it'\<lparr>t_metric_count := of_nat (Suc k)\<rparr>"
  have sh: "shape h t" using w by (simp add: wf_telemetry_def)
  then have le: "unat (t_metric_count t) \<le> 32" "unat (t_metric_count t) \<le> length (slots h t)"
    using length_slots_le [OF sh] by (auto simp: shape_def)
  have b: "built h hk ?ik" "wf_telemetry hk ?ik" "shape hk ?ik"
    using c by (auto simp: copied_def built_def wf_telemetry_def)
  have u: "unat (of_nat k :: u32) = k" "unat (of_nat (Suc k) :: u32) = Suc k"
    using k le(1) unat_small [of k] unat_small [of "Suc k"] by auto
  have len: "length (slots hk it) = length (slots h t)" using c by (simp add: copied_def)
  have g: "grow hk ?ik h' ?i' [m]"
  proof (rule grow_pushI [OF b(3)])
    show "k = unat (t_metric_count ?ik)" by (simp add: u)
    show "k < length (slots hk ?ik)" using k le len by simp
    show "shape h' ?i'"
      using shape_count [OF s'(1), of "of_nat (Suc k)"] s'(2) len k le u by simp
    show "t_metric_count ?i' = t_metric_count ?ik + 1" by simp
  qed (use s' m r in auto)
  have "drop (Suc k) (slots h' it') = drop (Suc k) (slots h t)"
    using c s'(2) by (simp add: copied_def) (metis drop_Suc drop_drop add.commute plus_1_eq_Suc)
  then show ?thesis
    using grow_built [OF b(1) g] grow_contents [OF b(2) g] c s' k m(3) contents_nth [OF k sh]
    by (simp add: copied_def)
qed

lemma update_metric_count:
  assumes "update_metric i f t h = (t', h')"
  shows "update_metric i f (t\<lparr>t_metric_count := n\<rparr>) h = (t'\<lparr>t_metric_count := n\<rparr>, h')"
  using assms by (auto simp: update_metric_def set_metric_at_def metric_at_def split: if_splits)

definition copies_blob :: "aetus_metric \<Rightarrow> bool" where
  "copies_blob m \<longleftrightarrow>
     (m_type m = AETUS_METRIC_VALUE_STRING \<or> m_type m = AETUS_METRIC_VALUE_BYTES \<and> m_blob_size m > 0) \<and>
     blob_data m \<noteq> 0"

definition copy_len :: "aetus_metric \<Rightarrow> nat" where
  "copy_len m = unat (if m_type m = AETUS_METRIC_VALUE_STRING then m_blob_size m + 1 else m_blob_size m)"

lemma copy_blobs_Cons:
  "copy_blobs M telemetry (i # is) t h =
     (let src = metric_at telemetry h i in
      if copies_blob src then
        let (bs, h1) = copy_from_blob (blob_data src) (copy_len src) h;
            (p, h2) = pvPortMalloc M (copy_len src) (Blob bs) h1
        in if p = 0 then (True, t, h)
           else
             let (t, h) = update_metric i
                            (\<lambda>m. (set_blob_data p m)\<lparr>m_blob_size := m_blob_size src\<rparr>) t h2
             in copy_blobs M telemetry is t h
      else copy_blobs M telemetry is t h)"
  by (simp only: copy_blobs.simps copies_blob_def copy_len_def Let_def)

text \<open>A well-formed metric that is not copied owns no blob; one that is has a blob of the right size.\<close>

lemma metric_ok_no_copy: "metric_ok h m \<Longrightarrow> \<not> copies_blob m \<Longrightarrow> blob_addrs m = []"
  by (auto simp: metric_ok_def copies_blob_def blob_addrs_def is_blob_def word_gt_0
      split: if_splits)

lemma copies_blob_is_blob: "copies_blob m \<Longrightarrow> blob_addrs m = [blob_data m]"
  by (auto simp: copies_blob_def blob_addrs_def is_blob_def)

lemma metric_ok_copy:
  assumes "metric_ok h m" "copies_blob m"
  obtains bs where "blocks h (blob_data m) = Some (Blob bs)" "length bs = copy_len m"
proof -
  have "unat (m_blob_size m + 1) = Suc (unat (m_blob_size m))" if "m_blob_size m + 1 \<noteq> 0"
    using that by (metis add.commute unatSuc)
  with assms that show thesis
    by (auto simp: metric_ok_def copies_blob_def copy_len_def split: option.splits block.splits if_splits)
qed

text \<open>The copy of a metric with its blob at a fresh address.\<close>

lemma copied_metric_ok:
  assumes ok: "metric_ok h m" "copies_blob m" and p: "p \<noteq> 0"
    and b: "blocks h (blob_data m) = Some (Blob bs)" and b': "blocks h' p = Some (Blob bs)"
    and m': "m' = (set_blob_data p m)\<lparr>m_blob_size := m_blob_size m\<rparr>"
  shows "metric_ok h' m'" "abs_metric h' m' = abs_metric h m" "blob_addrs m' = [p]"
  using ok p b b' unfolding m'
  by (auto simp: metric_ok_def copies_blob_def blob_addrs_def is_blob_def abs_metric_def value_of_def
      blob_at_def split: if_splits)

context allocator
begin

lemma copied_step:
  assumes w: "wf_telemetry h t" and c: "copied h t k it hk" and k: "k < unat (t_metric_count t)"
    and src: "src = slots h t ! k" "copies_blob src" and b: "blocks h (blob_data src) = Some (Blob bs)"
    and p: "p \<noteq> 0" "blocks hk p = None"
    and u: "update_metric k (\<lambda>m. (set_blob_data p m)\<lparr>m_blob_size := m_blob_size src\<rparr>) it
              (hk\<lparr>blocks := (blocks hk)(p \<mapsto> Blob bs)\<rparr>) = (it', h')"
  shows "copied h t (Suc k) it' h'"
proof -
  let ?h2 = "hk\<lparr>blocks := (blocks hk)(p \<mapsto> Blob bs)\<rparr>" and ?ik = "it\<lparr>t_metric_count := of_nat k\<rparr>"
  let ?m = "(set_blob_data p src)\<lparr>m_blob_size := m_blob_size src\<rparr>"
  have sh: "shape h t" using w by (simp add: wf_telemetry_def)
  then have kl: "k < length (slots h t)" using k by (simp add: shape_def)
  have b1: "shape hk ?ik" using c by (auto simp: copied_def built_def wf_telemetry_def)
  have kk: "slots hk it ! k = src" "length (slots hk it) = length (slots h t)"
    using c src(1) kl unfolding copied_def by (metis hd_drop_conv_nth, simp)
  note ab = shape_add_block(1,2) [OF b1 p(2,1), of "Blob bs"] shape_add_block(3) [OF b1 p(2,1)]
  have sb: "same_but ?h2 ?ik h' (it'\<lparr>t_metric_count := of_nat k\<rparr>) ((slots hk it)[k := ?m])"
    using update_metric_same_but [OF ab(1) _ update_metric_count [OF u]] ab(2) kk kl by simp
  have p': "p \<noteq> t_heap_metrics it" using ab(3) by simp
  have bp: "blocks h' p = Some (Blob bs)" using sb p' by (simp add: same_but_def)
  have "src \<in> set (metrics_of h t)"
    using k sh src(1) by (auto simp: metrics_of_def shape_def in_set_conv_nth)
  then have ok: "metric_ok h src" using w by (simp add: wf_telemetry_def)
  note m = copied_metric_ok [OF ok src(2) p(1) b bp refl]
  show ?thesis
    by (rule copied_push [OF w c k, where m = ?m])
      (use sb m p p' src(1) c u in \<open>auto simp: same_but_def copied_def update_metric_def set_metric_at_def
         split: if_splits\<close>)
qed

lemma copy_blobs_copied:
  assumes w: "wf_telemetry h t"
    and "copied h t k it hk" "copy_blobs M t [k ..< unat (t_metric_count t)] it hk = (failed, it', h')"
  shows "if failed then \<exists>j < unat (t_metric_count t). copied h t j it' h' \<and> copies_blob (slots h t ! j)
         else copied h t (unat (t_metric_count t)) it' h'"
  using assms(2,3)
proof (induction "unat (t_metric_count t) - k" arbitrary: k it hk)
  case 0
  then have "k = unat (t_metric_count t)" by (simp add: copied_def)
  with 0 show ?case by simp
next
  case (Suc d)
  note c = Suc.prems(1)
  let ?n = "unat (t_metric_count t)" and ?src = "slots h t ! k"
  have k: "k < ?n" and d: "d = ?n - Suc k" using Suc.hyps(2) by auto
  have sh: "shape h t" using w by (simp add: wf_telemetry_def)
  have upt: "[k ..< ?n] = k # [Suc k ..< ?n]" using k by (simp add: upt_conv_Cons)
  have b: "built h hk (it\<lparr>t_metric_count := of_nat k\<rparr>)" using c by (simp add: copied_def)
  note same = built_other_same [OF w b] built_other(3) [OF w b]
  have at: "metric_at t hk k = ?src" using metric_at_slots [OF same(2)] same(1) by simp
  have "?src \<in> set (metrics_of h t)" using k sh by (auto simp: metrics_of_def shape_def in_set_conv_nth)
  then have ok: "metric_ok h ?src" using w by (simp add: wf_telemetry_def)
  show ?case
  proof (cases "copies_blob ?src")
    case False
    have "slots hk it ! k = ?src" "length (slots hk it) = length (slots h t)" "k < length (slots h t)"
      using c k sh unfolding copied_def shape_def by (metis hd_drop_conv_nth order_less_le_trans, auto)
    then have sl: "(slots hk it)[k := ?src] = slots hk it" by (metis list_update_id)
    have na: "blob_addrs ?src = []" by (rule metric_ok_no_copy [OF ok False])
    have "copied h t (Suc k) it hk"
      by (rule copied_push [OF w c k, where m = ?src])
        (use sl na ok b metric_ok_cong(1) [of ?src hk h] abs_metric_cong [of ?src hk h] in
          \<open>auto simp: built_def wf_telemetry_def\<close>)
    moreover have "copy_blobs M t [Suc k ..< ?n] it hk = (failed, it', h')"
      using Suc.prems(2) False by (simp add: upt at copy_blobs_Cons del: copy_blobs.simps)
    ultimately show ?thesis using Suc.hyps(1) [OF d] by blast
  next
    case True
    obtain bs where bs: "blocks h (blob_data ?src) = Some (Blob bs)" "length bs = copy_len ?src"
      using metric_ok_copy [OF ok True] by blast
    then have bk: "blocks hk (blob_data ?src) = Some (Blob bs)" using same(6) by simp
    have cf: "copy_from_blob (blob_data ?src) (copy_len ?src) hk = (bs, hk)"
      using bk bs by (simp add: copy_from_blob_def blob_at_def)
    show ?thesis
    proof (cases rule: malloc_cases [of "copy_len ?src" "Blob bs" hk])
      case 1
      then have "failed" "it' = it" "h' = hk"
        using Suc.prems(2) True cf by (auto simp: upt at copy_blobs_Cons simp del: copy_blobs.simps)
      with c k True show ?thesis by auto
    next
      case (2 p)
      let ?f = "\<lambda>m. (set_blob_data p m)\<lparr>m_blob_size := m_blob_size ?src\<rparr>"
      obtain it2 h2 where u: "update_metric k ?f it (hk\<lparr>blocks := (blocks hk)(p \<mapsto> Blob bs)\<rparr>) = (it2, h2)"
        by (cases "update_metric k ?f it (hk\<lparr>blocks := (blocks hk)(p \<mapsto> Blob bs)\<rparr>)")
      have "copied h t (Suc k) it2 h2" by (rule copied_step [OF w c k refl True bs(1) 2(1,2) u])
      moreover have "copy_blobs M t [Suc k ..< ?n] it2 h2 = (failed, it', h')"
        using Suc.prems(2) True cf 2 u by (simp add: upt at copy_blobs_Cons del: copy_blobs.simps)
      ultimately show ?thesis using Suc.hyps(1) [OF d] by blast
    qed
  qed
qed

end

section \<open>Copying an object\<close>

lemma copied_init:
  assumes w: "wf_telemetry h t"
    and p: "if t_heap_metrics t \<noteq> 0
            then p \<noteq> 0 \<and> blocks h p = None \<and>
                 h1 = h\<lparr>blocks := (blocks h)(p \<mapsto> Metric_array (metrics_at h (t_heap_metrics t)))\<rparr>
            else p = 0 \<and> h1 = h"
  shows "copied h t 0 (t\<lparr>t_heap_metrics := p\<rparr>) h1"
proof -
  have s: "shape h t" using w by (simp add: wf_telemetry_def)
  let ?it = "t\<lparr>t_heap_metrics := p\<rparr>"
  have sl: "slots h1 ?it = slots h t"
    using p s by (auto simp: slots_def metrics_at_def shape_def split: if_splits)
  have "built h h1 (?it\<lparr>t_metric_count := 0\<rparr>)"
    using p s sl by (auto simp: built_def wf_telemetry_def shape_def metrics_of_def owned_def
        is_metric_array_def metrics_at_def slots_def split: if_splits)
  then show ?thesis by (simp add: copied_def sl contents_def metrics_of_def)
qed

lemma copied_all:
  assumes "copied h t (unat (t_metric_count t)) it h'"
  shows "built h h' it" "contents h' it = contents h t"
proof -
  have "it\<lparr>t_metric_count := of_nat (unat (t_metric_count t))\<rparr> = it"
    using assms by (cases it) (simp add: copied_def)
  moreover have "length (contents h t) \<le> unat (t_metric_count t)" by (simp add: contents_def metrics_of_def)
  ultimately show "built h h' it" "contents h' it = contents h t" using assms by (simp_all add: copied_def)
qed

text \<open>The outcomes of the copy.\<close>

lemma copy_cases:
  assumes M: "malloc_ok M" and w: "wf_telemetry h t"
    and c: "aetus_internal_copy_telemetry_to_queue_item M (Some t) (Some it0) h st = (e, item, h', st')"
  obtains (array_failed) "e = ESP_ERR_NO_MEM" "h' = h" "st' = st"
      "t_heap_metrics t \<noteq> 0" "M (blocks h) (heap_slots * sizeof_metric) = 0"
  | (blob_failed) it h2 j where "e = ESP_ERR_NO_MEM" "copied h t j it h2" "j < unat (t_metric_count t)"
      "copies_blob (slots h t ! j)"
      "aetus_internal_release_telemetry_queue_item (Some (telemetry_item it)) h2 st = (item, h', st')"
  | (ok) it where "e = ESP_OK" "item = Some (telemetry_item it)" "st' = st"
      "built h h' it" "contents h' it = contents h t"
proof -
  note A = malloc_ok_allocator [OF M]
  let ?b = "Metric_array (metrics_at h (t_heap_metrics t))" and ?n = "heap_slots * sizeof_metric"
  define ph where "ph = (if t_heap_metrics t \<noteq> 0 then pvPortMalloc M ?n ?b h else (0, h))"
  obtain p h1 where ph: "ph = (p, h1)" by (cases ph)
  note c' = c [unfolded aetus_internal_copy_telemetry_to_queue_item_def prod.case option.case
      ph_def [symmetric] ph Let_def]
  show thesis
  proof (cases "t_heap_metrics t \<noteq> 0 \<and> p = 0")
    case True
    then have "M (blocks h) ?n = 0" "h1 = h"
      using ph by (auto simp: ph_def pvPortMalloc_def Let_def split: if_splits)
    with True c' show thesis by (intro array_failed) auto
  next
    case False
    have "if t_heap_metrics t \<noteq> 0
          then p \<noteq> 0 \<and> blocks h p = None \<and> h1 = h\<lparr>blocks := (blocks h)(p \<mapsto> ?b)\<rparr>
          else p = 0 \<and> h1 = h"
      using ph False M by (auto simp: ph_def pvPortMalloc_def malloc_ok_def Let_def split: if_splits)
    then have c0: "copied h t 0 (t\<lparr>t_heap_metrics := p\<rparr>) h1" by (rule copied_init [OF w])
    obtain failed it h2 where l: "copy_blobs M t [0 ..< unat (t_metric_count t)] (t\<lparr>t_heap_metrics := p\<rparr>) h1
        = (failed, it, h2)"
      by (cases "copy_blobs M t [0 ..< unat (t_metric_count t)] (t\<lparr>t_heap_metrics := p\<rparr>) h1")
    note r = allocator.copy_blobs_copied [OF A w c0 l]
    show thesis
    proof (cases failed)
      case True
      obtain item1 h3 st3 where rel: "aetus_internal_release_telemetry_queue_item
          (Some (telemetry_item it)) h2 st = (item1, h3, st3)"
        by (cases "aetus_internal_release_telemetry_queue_item (Some (telemetry_item it)) h2 st")
      have "e = ESP_ERR_NO_MEM" "item1 = item" "h3 = h'" "st3 = st'"
        using c' False True by (auto simp: l rel)
      with r True rel show thesis using blob_failed by auto
    next
      case f: False
      have "e = ESP_OK" "item = Some (telemetry_item it)" "h2 = h'" "st' = st"
        using c' False f by (auto simp: l)
      with r f copied_all show thesis using ok by auto
    qed
  qed
qed

lemma release_item_wf:
  assumes "wf_telemetry h t"
  shows "\<exists>item' st'. aetus_internal_release_telemetry_queue_item (Some (telemetry_item t)) h st =
    (Some item', free_owned h t, st')"
proof -
  obtain t' st' where "release_telemetry t h st = (t', free_owned h t, st')"
    using release_telemetry_wf [OF assms] by blast
  then show ?thesis
    by (simp add: aetus_internal_release_telemetry_queue_item_def telemetry_item_def body_telemetry_def)
qed

section \<open>A concrete object\<close>

text \<open>One string metric \<open>A = "B"\<close> whose blob is at address 1.\<close>

definition demo_metric :: aetus_metric where
  "demo_metric = zero_metric\<lparr>m_key := 65 # replicate 19 0, m_type := AETUS_METRIC_VALUE_STRING,
     m_blob_size := 1, m_value := 1\<rparr>"

definition demo_telemetry :: aetus_telemetry where
  "demo_telemetry = init_telemetry\<lparr>t_metric_count := 1,
     t_inline_metrics := demo_metric # replicate 3 zero_metric\<rparr>"

definition demo_heap :: heap where
  "demo_heap = \<lparr>blocks = (\<lambda>a. if a = 1 then Some (Blob [66, 0]) else None), heap_corrupt = False\<rparr>"

definition demo_item :: aetus_queue_item where
  "demo_item = telemetry_item zero_telemetry"

definition no_stats :: aetus_test_release_stats where
  "no_stats = \<lparr>telemetry_heap_metrics_released = 0, telemetry_blobs_released = 0\<rparr>"

lemma demo_metrics: "metrics_of demo_heap demo_telemetry = [demo_metric]"
  by (simp add: metrics_of_def slots_def demo_telemetry_def demo_heap_def metrics_at_def
      init_telemetry_def zero_telemetry_def)

lemma demo_metric_ok: "metric_ok demo_heap demo_metric" "blob_data demo_metric = 1"
  by code_simp+

lemma demo_wf: "wf_telemetry demo_heap demo_telemetry"
  using demo_metric_ok
  by (simp add: wf_telemetry_def demo_metrics owned_def blob_addrs_def)
    (simp add: shape_def slots_def demo_telemetry_def demo_heap_def metrics_at_def init_telemetry_def
      zero_telemetry_def)

lemma demo_copy_result:
  "fst (aetus_internal_copy_telemetry_to_queue_item (arena 9) (Some demo_telemetry) (Some demo_item)
      demo_heap no_stats) = ESP_OK"
  "fst (aetus_internal_copy_telemetry_to_queue_item (arena 1) (Some demo_telemetry) (Some demo_item)
      demo_heap no_stats) = ESP_ERR_NO_MEM"
  by code_simp+

section \<open>Properties\<close>

text \<open>
  C11. A copy that returns \<open>ESP_OK\<close> is deep: the item holds the same metrics, every block it owns is
  new (none is a block of the heap before, so none is shared with the caller), and the caller's
  object is as it was.
\<close>

theorem copy_telemetry_deep:
  assumes "malloc_ok M" and "wf_telemetry h t"
    and "aetus_internal_copy_telemetry_to_queue_item M (Some t) (Some it0) h st = (ESP_OK, item, h', st')"
  shows "\<exists>t'. item = Some (telemetry_item t') \<and> built h h' t' \<and> contents h' t' = contents h t \<and>
    set (owned h' t') \<inter> set (owned h t) = {} \<and>
    wf_telemetry h' t \<and> contents h' t = contents h t \<and> owned h' t = owned h t"
proof (cases rule: copy_cases [OF assms])
  case (3 it)
  have "set (owned h' it) \<inter> set (owned h t) = {}"
    using 3(4) wf_owned_live(2) [OF assms(2)] unfolding built_def by blast
  with 3 built_other_same [OF assms(2) 3(4)] show ?thesis by blast
qed simp_all

theorem copy_telemetry_deep_witness:
  "\<exists>item h' st' t'. aetus_internal_copy_telemetry_to_queue_item (arena 9) (Some demo_telemetry)
      (Some demo_item) demo_heap no_stats = (ESP_OK, item, h', st') \<and>
    item = Some (telemetry_item t') \<and> contents h' t' = contents demo_heap demo_telemetry"
proof -
  let ?c = "aetus_internal_copy_telemetry_to_queue_item (arena 9) (Some demo_telemetry)
      (Some demo_item) demo_heap no_stats"
  obtain item h' st' where r: "?c = (ESP_OK, item, h', st')"
    using demo_copy_result(1) by (cases ?c) auto
  from copy_telemetry_deep [OF arena_ok demo_wf r] r show ?thesis by blast
qed

text \<open>
  C7. Copy and release are inverse on the heap: releasing a queue item that was copied
  successfully gives back exactly the heap before the copy, nothing leaked and nothing freed twice.
\<close>

theorem copy_release_roundtrip:
  assumes "malloc_ok M" and "wf_telemetry h t"
    and "aetus_internal_copy_telemetry_to_queue_item M (Some t) (Some it0) h st = (ESP_OK, item, h', st')"
  shows "fst (snd (aetus_internal_release_telemetry_queue_item item h' st')) = h"
proof (cases rule: copy_cases [OF assms])
  case (3 it)
  have "wf_telemetry h' it" using 3(4) by (simp add: built_def)
  from release_item_wf [OF this, of st'] 3 built_free_owned [OF 3(4)] show ?thesis by auto
qed simp_all

theorem copy_release_roundtrip_witness:
  "\<exists>item h' st'. aetus_internal_copy_telemetry_to_queue_item (arena 9) (Some demo_telemetry)
      (Some demo_item) demo_heap no_stats = (ESP_OK, item, h', st') \<and>
    fst (snd (aetus_internal_release_telemetry_queue_item item h' st')) = demo_heap"
proof -
  let ?c = "aetus_internal_copy_telemetry_to_queue_item (arena 9) (Some demo_telemetry)
      (Some demo_item) demo_heap no_stats"
  obtain item h' st' where r: "?c = (ESP_OK, item, h', st')"
    using demo_copy_result(1) by (cases ?c) auto
  from copy_release_roundtrip [OF arena_ok demo_wf r] r show ?thesis by blast
qed

section \<open>The failure path\<close>

text \<open>
  When a blob allocation fails, the item is still well-formed on its own: its first metrics have
  their own blobs, the others have the caller's.
\<close>

lemma copied_metrics_of:
  assumes w: "wf_telemetry h t" and c: "copied h t j it h2"
  shows "metrics_of h2 it = metrics_of h2 (it\<lparr>t_metric_count := of_nat j\<rparr>) @ drop j (metrics_of h t)"
proof -
  let ?n = "unat (t_metric_count t)"
  have s: "shape h t" using w by (simp add: wf_telemetry_def)
  have j: "j \<le> ?n" "?n \<le> 32" "t_metric_count it = t_metric_count t" "drop j (slots h2 it) = drop j (slots h t)"
    using c s length_slots_le [OF s] by (auto simp: copied_def shape_def)
  then have u: "unat (of_nat j :: u32) = j" by (simp add: unat_small)
  have "take ?n (slots h2 it) = take j (slots h2 it) @ take (?n - j) (drop j (slots h2 it))"
    using j(1) by (metis le_add_diff_inverse take_add)
  also have "take (?n - j) (drop j (slots h2 it)) = drop j (take ?n (slots h t))"
    using j(1,4) by (simp add: drop_take)
  finally show ?thesis using j(3) by (simp add: metrics_of_def u)
qed

lemma copied_wf:
  assumes w: "wf_telemetry h t" and c: "copied h t j it h2"
  shows "wf_telemetry h2 it"
    and "owned h2 it = owned h2 (it\<lparr>t_metric_count := of_nat j\<rparr>) @
           concat (map blob_addrs (drop j (metrics_of h t)))"
proof -
  let ?ij = "it\<lparr>t_metric_count := of_nat j\<rparr>"
  note mo = copied_metrics_of [OF w c]
  show ow: "owned h2 it = owned h2 ?ij @ concat (map blob_addrs (drop j (metrics_of h t)))"
    by (simp add: owned_def mo)
  have b: "built h h2 ?ij" and wj: "wf_telemetry h2 ?ij" using c by (auto simp: copied_def built_def)
  have s: "shape h t" using w by (simp add: wf_telemetry_def)
  have sh: "shape h2 it"
    using shape_count(1) [of h2 ?ij "t_metric_count t"] wj c s
    by (cases it) (simp add: wf_telemetry_def copied_def shape_def slots_def)
  have live: "blocks h a \<noteq> None" if "a \<in> set (concat (map blob_addrs (drop j (metrics_of h t))))" for a
    using that wf_owned_live(2) [OF w, of a] by (auto simp: owned_def dest: in_set_dropD)
  have ok: "metric_ok h2 m" if "m \<in> set (metrics_of h2 it)" for m
  proof (cases "m \<in> set (metrics_of h2 ?ij)")
    case True
    then show ?thesis using wj by (simp add: wf_telemetry_def)
  next
    case False
    with that have m: "m \<in> set (drop j (metrics_of h t))" by (auto simp: mo)
    then have "blocks h2 a = blocks h a" if "a \<in> set (blob_addrs m)" for a
    proof -
      have "a \<in> set (concat (map blob_addrs (drop j (metrics_of h t))))" using m that by auto
      with live built_other(3) [OF w b] show ?thesis by blast
    qed
    from metric_ok_cong(1) [OF this] show ?thesis
      using w m by (auto simp: wf_telemetry_def dest: in_set_dropD)
  qed
  have "distinct (concat (map blob_addrs (metrics_of h t)))" using w by (simp add: wf_telemetry_def owned_def)
  then have "distinct (concat (map blob_addrs (drop j (metrics_of h t))))"
    by (metis append_take_drop_id concat_append distinct_append map_append)
  moreover have "set (owned h2 ?ij) \<inter> set (concat (map blob_addrs (drop j (metrics_of h t)))) = {}"
    using live b unfolding built_def by blast
  ultimately have "distinct (owned h2 it)" using wj by (simp add: ow wf_telemetry_def)
  with sh ok show "wf_telemetry h2 it" by (simp add: wf_telemetry_def)
qed

text \<open>Freeing a blob that is not live is recorded, and the record is never taken back.\<close>

lemma vPortFree_mono:
  "heap_corrupt h \<Longrightarrow> heap_corrupt (vPortFree p h)" "blocks h a = None \<Longrightarrow> blocks (vPortFree p h) a = None"
  by (auto simp: vPortFree_def split: option.split)

lemma free_blobs_mono:
  "heap_corrupt h \<Longrightarrow> heap_corrupt (free_blobs ms h)"
  by (induction ms arbitrary: h) (auto simp: free_blobs_def vPortFree_mono)

lemma free_blobs_dead:
  assumes "a \<in> set (concat (map blob_addrs ms))" "blocks h a = None"
  shows "heap_corrupt (free_blobs ms h)"
  using assms
proof (induction ms arbitrary: h)
  case (Cons m ms)
  define h1 where "h1 = (if is_blob m then vPortFree (blob_data m) h else h)"
  have f: "free_blobs (m # ms) h = free_blobs ms h1" by (simp add: free_blobs_def h1_def)
  show ?case
  proof (cases "a \<in> set (blob_addrs m)")
    case True
    then have "heap_corrupt h1"
      using Cons.prems(2) by (auto simp: h1_def blob_addrs_def is_blob_def vPortFree_def split: if_splits)
    then show ?thesis unfolding f by (rule free_blobs_mono)
  next
    case False
    moreover have "blocks h1 a = None" using Cons.prems(2) by (simp add: h1_def vPortFree_mono)
    ultimately show ?thesis unfolding f using Cons by simp
  qed
qed simp

text \<open>
  C20. A copy that fails on a blob frees memory of the caller: if
  \<open>aetus_internal_copy_telemetry_to_queue_item\<close> returns \<open>ESP_ERR_NO_MEM\<close> and it was not the
  metric array that could not be allocated, some block the caller's telemetry owns is gone, and the
  caller's \<open>aetus_telemetry_deinit\<close> then frees it a second time.
\<close>

theorem copy_failure_frees_caller:
  assumes "malloc_ok M" and "wf_telemetry h t"
    and "aetus_internal_copy_telemetry_to_queue_item M (Some t) (Some it0) h st =
           (ESP_ERR_NO_MEM, item, h', st')"
    and "t_heap_metrics t = 0 \<or> M (blocks h) (heap_slots * sizeof_metric) \<noteq> 0"
  shows "(\<exists>a \<in> set (owned h t). blocks h' a = None) \<and>
    heap_corrupt (snd (aetus_telemetry_deinit (Some t) h'))"
proof (cases rule: copy_cases [OF assms(1-3)])
  case (2 it h2 j)
  note w = assms(2)
  have s: "shape h t" using w by (simp add: wf_telemetry_def)
  let ?m = "slots h t ! j" and ?ij = "it\<lparr>t_metric_count := of_nat j\<rparr>"
  have b: "built h h2 ?ij" using 2(2) by (simp add: copied_def)
  note cw = copied_wf [OF w 2(2)]
  have h': "blocks h' = (\<lambda>a. if a \<in> set (owned h2 it) then None else blocks h2 a)"
    using release_item_wf [OF cw(1), of st] 2(5) free_owned_wf(1) [OF cw(1)] by auto
  have lt: "j < length (metrics_of h t)" "metrics_of h t ! j = ?m"
    using 2(3) s by (auto simp: metrics_of_def shape_def)
  then have mj: "?m \<in> set (drop j (metrics_of h t))"
    by (metis Cons_nth_drop_Suc list.set_intros(1))
  have am: "blob_addrs ?m = [blob_data ?m]" by (rule copies_blob_is_blob [OF 2(4)])
  have dead: "blocks h' (blob_data ?m) = None" using mj am by (auto simp: h' cw(2))
  have mem: "blob_data ?m \<in> set (concat (map blob_addrs (metrics_of h t)))"
    using in_set_dropD [OF mj] am by force
  have hm: "blocks h' (t_heap_metrics t) = blocks h (t_heap_metrics t)"
  proof (cases "t_heap_metrics t = 0")
    case True
    moreover have "0 \<notin> set (owned h2 it)" using wf_owned_live(1) [OF cw(1)] by blast
    ultimately show ?thesis using built_other(2) [OF w b] by (simp add: h')
  next
    case False
    then have l: "blocks h (t_heap_metrics t) \<noteq> None"
      using wf_owned_live(2) [OF w, of "t_heap_metrics t"] by (simp add: owned_def)
    then have "t_heap_metrics t \<notin> set (owned h2 ?ij)" using b by (auto simp: built_def)
    moreover have "t_heap_metrics t \<notin> set (concat (map blob_addrs (drop j (metrics_of h t))))"
      using w False by (auto simp: wf_telemetry_def owned_def dest: in_set_dropD)
    ultimately show ?thesis using built_other(3) [OF w b] l by (simp add: h' cw(2))
  qed
  then have sl: "slots h' t = slots h t" by (simp add: slots_def metrics_at_def)
  then have mo: "metrics_of h' t = metrics_of h t" by (simp add: metrics_of_def)
  have "0 \<notin> set (owned h2 it)" using wf_owned_live(1) [OF cw(1)] by blast
  then have z: "blocks h' 0 = blocks h 0" using built_other(2) [OF w b] by (simp add: h')
  have "shape h' t" using s hm sl z by (simp add: shape_def is_metric_array_def metrics_at_def)
  then have "aetus_telemetry_deinit (Some t) h' = (Some zero_telemetry, free_owned h' t)"
    by (rule deinit_shape) (use w in \<open>auto simp: mo wf_telemetry_def owned_def\<close>)
  moreover have "heap_corrupt (free_owned h' t)"
    unfolding free_owned_def mo by (intro vPortFree_mono free_blobs_dead [OF mem dead])
  ultimately show ?thesis using mem dead by (auto simp: owned_def)
qed (use assms(4) in auto)

theorem copy_failure_frees_caller_witness:
  "\<exists>item h' st'. aetus_internal_copy_telemetry_to_queue_item (arena 1) (Some demo_telemetry)
      (Some demo_item) demo_heap no_stats = (ESP_ERR_NO_MEM, item, h', st') \<and>
    heap_corrupt (snd (aetus_telemetry_deinit (Some demo_telemetry) h'))"
proof -
  let ?c = "aetus_internal_copy_telemetry_to_queue_item (arena 1) (Some demo_telemetry)
      (Some demo_item) demo_heap no_stats"
  obtain item h' st' where r: "?c = (ESP_ERR_NO_MEM, item, h', st')"
    using demo_copy_result(2) by (cases ?c) auto
  have "t_heap_metrics demo_telemetry = 0"
    by (simp add: demo_telemetry_def init_telemetry_def zero_telemetry_def)
  with copy_failure_frees_caller [OF arena_ok demo_wf r] r show ?thesis by blast
qed

end
