(* ===== verification/SamplePool.thy ===== *)
theory SamplePool
  imports AetusTypes
begin

text \<open>
  The pool of signal sample blocks (\<open>aetus_signal_sample_pool.c\<close>): each queued signal frame owns one
  heap block with a copy of its samples, and the pool keeps statistics of them. The critical
  sections make each update of the statistics one step, so the operations are functions on the
  statistics; \<open>NULL\<close> pointers are \<open>None\<close>.
\<close>

section \<open>Operations\<close>

definition zero_pool_stats :: aetus_signal_sample_pool_stats where
  "zero_pool_stats = \<lparr>allocated_blocks = 0, peak_allocated_blocks = 0, allocation_count = 0,
     release_count = 0, allocation_failure_count = 0, queue_send_failure_release_count = 0,
     validation_failure_release_count = 0, upload_success_release_count = 0,
     final_drop_release_count = 0, allocated_bytes = 0, peak_allocated_bytes = 0\<rparr>"

definition signal_sample_pool_note_alloc ::
  "aetus_signal_sample_pool_stats \<Rightarrow> size_t \<Rightarrow> aetus_signal_sample_pool_stats" where
  "signal_sample_pool_note_alloc stats n =
     (let stats = stats\<lparr>allocated_blocks := allocated_blocks stats + 1,
                        allocation_count := allocation_count stats + 1,
                        allocated_bytes := allocated_bytes stats + n\<rparr>;
          stats = (if allocated_blocks stats > peak_allocated_blocks stats
                   then stats\<lparr>peak_allocated_blocks := allocated_blocks stats\<rparr> else stats)
      in if allocated_bytes stats > peak_allocated_bytes stats
         then stats\<lparr>peak_allocated_bytes := allocated_bytes stats\<rparr> else stats)"

definition signal_sample_pool_note_release ::
  "aetus_signal_sample_pool_stats \<Rightarrow> size_t \<Rightarrow> aetus_signal_sample_pool_stats" where
  "signal_sample_pool_note_release stats n =
     (let stats = (if allocated_blocks stats > 0
                   then stats\<lparr>allocated_blocks := allocated_blocks stats - 1\<rparr> else stats);
          stats = (if allocated_bytes stats \<ge> n
                   then stats\<lparr>allocated_bytes := allocated_bytes stats - n\<rparr>
                   else stats\<lparr>allocated_bytes := 0\<rparr>)
      in stats\<lparr>release_count := release_count stats + 1\<rparr>)"

definition aetus_signal_sample_pool_reset ::
  "aetus_signal_sample_pool_stats option \<Rightarrow> aetus_signal_sample_pool_stats option" where
  "aetus_signal_sample_pool_reset stats = map_option (\<lambda>_. zero_pool_stats) stats"

text \<open>
  The pointer to the block's data (\<open>Samples_null\<close> when the allocation fails), the owner written
  through \<open>owner\<close> (\<open>None\<close> when that pointer is \<open>NULL\<close>), the statistics and the heap.
\<close>

definition aetus_signal_sample_pool_alloc ::
  "malloc \<Rightarrow> aetus_signal_sample_pool_stats option \<Rightarrow> size_t \<Rightarrow> addr option \<Rightarrow> heap \<Rightarrow>
     sample_ptr \<times> addr option \<times> aetus_signal_sample_pool_stats option \<times> heap" where
  "aetus_signal_sample_pool_alloc M stats n owner h =
     (case (owner, stats) of
        (Some _, Some st) \<Rightarrow>
          if n = 0 \<or> unat n > AETUS_SIGNAL_SAMPLES_MAX
          then (Samples_null, Some 0,
                Some (st\<lparr>allocation_failure_count := allocation_failure_count st + 1\<rparr>), h)
          else
            let (p, h) = pvPortMalloc M (4 + unat n) (Sample_block n (replicate (unat n) 0)) h
            in if p = 0
               then (Samples_null, Some 0,
                     Some (st\<lparr>allocation_failure_count := allocation_failure_count st + 1\<rparr>), h)
               else (Samples_block p, Some p, Some (signal_sample_pool_note_alloc st n), h)
      | _ \<Rightarrow> (Samples_null, owner, stats, h))"

text \<open>\<open>block->size\<close>; reading it through a dead pointer is recorded by the free that follows.\<close>

definition sample_block_size :: "heap \<Rightarrow> addr \<Rightarrow> size_t" where
  "sample_block_size h p = (case blocks h p of Some (Sample_block n bs) \<Rightarrow> n | _ \<Rightarrow> 0)"

definition aetus_signal_sample_pool_release ::
  "aetus_signal_sample_pool_stats option \<Rightarrow> addr \<Rightarrow> heap \<Rightarrow> aetus_signal_sample_pool_stats option \<times> heap" where
  "aetus_signal_sample_pool_release stats owner h =
     (case stats of None \<Rightarrow> (None, h)
      | Some st \<Rightarrow>
          if owner = 0 then (Some st, h)
          else (Some (signal_sample_pool_note_release st (sample_block_size h owner)), vPortFree owner h))"

definition aetus_signal_sample_pool_note_queue_send_failure ::
  "aetus_signal_sample_pool_stats option \<Rightarrow> aetus_signal_sample_pool_stats option" where
  "aetus_signal_sample_pool_note_queue_send_failure = map_option (\<lambda>st.
     st\<lparr>queue_send_failure_release_count := queue_send_failure_release_count st + 1\<rparr>)"

definition aetus_signal_sample_pool_note_validation_failure ::
  "aetus_signal_sample_pool_stats option \<Rightarrow> aetus_signal_sample_pool_stats option" where
  "aetus_signal_sample_pool_note_validation_failure = map_option (\<lambda>st.
     st\<lparr>validation_failure_release_count := validation_failure_release_count st + 1\<rparr>)"

definition aetus_signal_sample_pool_note_upload_success ::
  "aetus_signal_sample_pool_stats option \<Rightarrow> aetus_signal_sample_pool_stats option" where
  "aetus_signal_sample_pool_note_upload_success = map_option (\<lambda>st.
     st\<lparr>upload_success_release_count := upload_success_release_count st + 1\<rparr>)"

definition aetus_signal_sample_pool_note_final_drop ::
  "aetus_signal_sample_pool_stats option \<Rightarrow> aetus_signal_sample_pool_stats option" where
  "aetus_signal_sample_pool_note_final_drop = map_option (\<lambda>st.
     st\<lparr>final_drop_release_count := final_drop_release_count st + 1\<rparr>)"

definition aetus_signal_sample_pool_copy_stats ::
  "aetus_signal_sample_pool_stats option \<Rightarrow> aetus_signal_sample_pool_stats option \<Rightarrow>
     aetus_signal_sample_pool_stats option" where
  "aetus_signal_sample_pool_copy_stats target source =
     (case (target, source) of (Some _, Some s) \<Rightarrow> Some s | _ \<Rightarrow> target)"

section \<open>The accounting invariant\<close>

text \<open>
  \<open>owners\<close> are the live sample blocks. The counters of blocks and bytes are exact, the peaks bound
  them, and every allocation is either released or still live.
\<close>

definition pool_bytes :: "heap \<Rightarrow> addr list \<Rightarrow> nat" where
  "pool_bytes h owners = (\<Sum>p \<leftarrow> owners. unat (sample_block_size h p))"

definition is_sample_block :: "heap \<Rightarrow> addr \<Rightarrow> bool" where
  "is_sample_block h p =
     (case blocks h p of Some (Sample_block n bs) \<Rightarrow> n \<noteq> 0 \<and> unat n \<le> AETUS_SIGNAL_SAMPLES_MAX \<and>
        length bs = unat n | _ \<Rightarrow> False)"

lemma is_sample_block_live: "is_sample_block h p \<Longrightarrow> blocks h p \<noteq> None"
  by (auto simp: is_sample_block_def split: option.splits)

definition pool_inv :: "heap \<Rightarrow> addr list \<Rightarrow> aetus_signal_sample_pool_stats \<Rightarrow> bool" where
  "pool_inv h owners st \<longleftrightarrow>
     distinct owners \<and> 0 \<notin> set owners \<and> (\<forall>p \<in> set owners. is_sample_block h p) \<and>
     unat (allocated_blocks st) = length owners \<and> unat (allocated_bytes st) = pool_bytes h owners \<and>
     allocated_blocks st \<le> peak_allocated_blocks st \<and> allocated_bytes st \<le> peak_allocated_bytes st \<and>
     allocation_count st = release_count st + allocated_blocks st"

lemma pool_inv_init: "pool_inv h [] zero_pool_stats"
  by (simp add: pool_inv_def zero_pool_stats_def pool_bytes_def)

lemma pool_bytes_cong:
  "(\<And>p. p \<in> set owners \<Longrightarrow> blocks h' p = blocks h p) \<Longrightarrow> pool_bytes h' owners = pool_bytes h owners"
  by (auto simp: pool_bytes_def sample_block_size_def intro!: arg_cong [where f = sum_list] map_cong)

lemma note_alloc_select:
  "allocated_blocks (signal_sample_pool_note_alloc st n) = allocated_blocks st + 1"
  "allocated_bytes (signal_sample_pool_note_alloc st n) = allocated_bytes st + n"
  "allocation_count (signal_sample_pool_note_alloc st n) = allocation_count st + 1"
  "release_count (signal_sample_pool_note_alloc st n) = release_count st"
  "peak_allocated_blocks (signal_sample_pool_note_alloc st n) =
     max (peak_allocated_blocks st) (allocated_blocks st + 1)"
  "peak_allocated_bytes (signal_sample_pool_note_alloc st n) =
     max (peak_allocated_bytes st) (allocated_bytes st + n)"
  by (auto simp: signal_sample_pool_note_alloc_def Let_def max_def)

lemma note_release_select:
  "allocated_blocks (signal_sample_pool_note_release st n) =
     (if allocated_blocks st > 0 then allocated_blocks st - 1 else 0)"
  "allocated_bytes (signal_sample_pool_note_release st n) =
     (if allocated_bytes st \<ge> n then allocated_bytes st - n else 0)"
  "allocation_count (signal_sample_pool_note_release st n) = allocation_count st"
  "release_count (signal_sample_pool_note_release st n) = release_count st + 1"
  "peak_allocated_blocks (signal_sample_pool_note_release st n) = peak_allocated_blocks st"
  "peak_allocated_bytes (signal_sample_pool_note_release st n) = peak_allocated_bytes st"
  by (auto simp: signal_sample_pool_note_release_def Let_def word_gt_0)

context allocator
begin

lemma alloc_pool_inv:
  assumes i: "pool_inv h owners st"
    and a: "aetus_signal_sample_pool_alloc M (Some st) n (Some x) h = (sp, ow, st', h')"
    and room: "Suc (length owners) < 4294967296" "pool_bytes h owners + unat n < 4294967296"
  shows "(sp = Samples_null \<and> ow = Some 0 \<and> h' = h \<and> (\<exists>s. st' = Some s \<and> pool_inv h owners s)) \<or>
    (\<exists>p s. sp = Samples_block p \<and> ow = Some p \<and> st' = Some s \<and> p \<noteq> 0 \<and> blocks h p = None \<and>
       h' = h\<lparr>blocks := (blocks h)(p \<mapsto> Sample_block n (replicate (unat n) 0))\<rparr> \<and>
       pool_inv h' (p # owners) s)"
proof (cases "n = 0 \<or> unat n > 2400")
  case True
  then show ?thesis using a i
    by (auto simp: aetus_signal_sample_pool_alloc_def pool_inv_def c_defs)
next
  case False
  show ?thesis
  proof (cases rule: malloc_cases [of "4 + unat n" "Sample_block n (replicate (unat n) 0)" h])
    case 1
    then show ?thesis using a i False
      by (auto simp: aetus_signal_sample_pool_alloc_def pool_inv_def c_defs)
  next
    case (2 p)
    let ?s = "signal_sample_pool_note_alloc st n"
    have r: "sp = Samples_block p" "ow = Some p" "st' = Some ?s"
      "h' = h\<lparr>blocks := (blocks h)(p \<mapsto> Sample_block n (replicate (unat n) 0))\<rparr>"
      using a False 2 by (auto simp: aetus_signal_sample_pool_alloc_def c_defs)
    have live: "blocks h q \<noteq> None" if "q \<in> set owners" for q
      using i that is_sample_block_live by (auto simp: pool_inv_def)
    have np: "p \<notin> set owners" using live [of p] 2(2) by blast
    have old: "blocks h' q = blocks h q" if "q \<in> set owners" for q using that r np by auto
    have bytes: "pool_bytes h' (p # owners) = unat n + pool_bytes h owners"
      using pool_bytes_cong [OF old] r(4) by (simp add: pool_bytes_def sample_block_size_def)
    have "unat (allocated_blocks st + 1) = Suc (length owners)"
      "unat (allocated_bytes st + n) = pool_bytes h owners + unat n"
      using i room by (simp_all add: pool_inv_def unat_add_small32)
    then have "pool_inv h' (p # owners) ?s"
      using i 2 np r(4) old False bytes
      by (auto simp: pool_inv_def note_alloc_select is_sample_block_def c_defs)
    with r 2 show ?thesis by blast
  qed
qed

end

lemma pool_bytes_remove1:
  "p \<in> set owners \<Longrightarrow> pool_bytes h owners = unat (sample_block_size h p) + pool_bytes h (remove1 p owners)"
  by (induction owners) (auto simp: pool_bytes_def)

lemma release_pool_inv:
  assumes i: "pool_inv h owners st" and p: "p \<in> set owners"
    and r: "aetus_signal_sample_pool_release (Some st) p h = (st', h')"
  shows "\<exists>s. st' = Some s \<and> pool_inv h' (remove1 p owners) s \<and>
    h' = h\<lparr>blocks := (blocks h)(p := None)\<rparr>"
proof -
  let ?n = "sample_block_size h p"
  let ?s = "signal_sample_pool_note_release st ?n"
  have pn: "p \<noteq> 0" "blocks h p \<noteq> None" using i p is_sample_block_live by (auto simp: pool_inv_def)
  then have r': "st' = Some ?s" "h' = h\<lparr>blocks := (blocks h)(p := None)\<rparr>"
    using r by (auto simp: aetus_signal_sample_pool_release_def vPortFree_def)
  have set': "set (remove1 p owners) = set owners - {p}" using i by (simp add: pool_inv_def)
  have old: "blocks h' q = blocks h q" if "q \<in> set (remove1 p owners)" for q
    using that r'(2) set' by auto
  have pb: "pool_bytes h' (remove1 p owners) = pool_bytes h (remove1 p owners)"
    by (rule pool_bytes_cong) (rule old)
  have len: "length owners = Suc (length (remove1 p owners))" using p by (simp add: length_remove1)
      (metis Suc_pred length_pos_if_in_set)
  have nz: "allocated_blocks st > 0" using i len by (auto simp: pool_inv_def word_gt_0)
  then have "unat (allocated_blocks st - 1) = length (remove1 p owners)"
    using i len by (simp add: pool_inv_def unat_minus_one word_gt_0)
  moreover have le: "?n \<le> allocated_bytes st"
    using i pool_bytes_remove1 [OF p, of h] by (simp add: pool_inv_def word_le_nat_alt)
  moreover have "unat (allocated_bytes st - ?n) = pool_bytes h (remove1 p owners)"
    using i le pool_bytes_remove1 [OF p, of h] by (simp add: pool_inv_def unat_sub)
  moreover have "allocated_blocks st - 1 \<le> peak_allocated_blocks st"
    "allocated_bytes st - ?n \<le> peak_allocated_bytes st"
    using i calculation p pool_bytes_remove1 [OF p, of h] len
    by (auto simp: pool_inv_def word_le_nat_alt)
  ultimately have "pool_inv h' (remove1 p owners) ?s"
    using i nz old pb set'
    by (auto simp: pool_inv_def note_release_select is_sample_block_def)
  with r' show ?thesis by blast
qed

section \<open>Runs of the pool\<close>

text \<open>
  The steps of the pool in any order: allocations (with the copy of the samples that follows a
  successful one), releases of live blocks, and the counters of the release reasons. \<open>limit\<close> bounds the
  bytes that can be live, below the range of \<open>size_t\<close>.
\<close>

inductive pool_run :: "malloc \<Rightarrow> nat \<Rightarrow> heap \<Rightarrow> heap \<Rightarrow> addr list \<Rightarrow> aetus_signal_sample_pool_stats \<Rightarrow> bool"
  for M limit h0
where
  start: "aetus_signal_sample_pool_reset (Some x) = Some st \<Longrightarrow> pool_run M limit h0 h0 [] st"
| alloc: "pool_run M limit h0 h owners st \<Longrightarrow> pool_bytes h owners + unat n < limit \<Longrightarrow>
    aetus_signal_sample_pool_alloc M (Some st) n (Some 0) h = (Samples_block p, Some p, Some st', h') \<Longrightarrow>
    pool_run M limit h0 h' (p # owners) st'"
| refused: "pool_run M limit h0 h owners st \<Longrightarrow> pool_bytes h owners + unat n < limit \<Longrightarrow>
    aetus_signal_sample_pool_alloc M (Some st) n (Some 0) h = (Samples_null, ow, Some st', h') \<Longrightarrow>
    pool_run M limit h0 h' owners st'"
| release: "pool_run M limit h0 h owners st \<Longrightarrow> p \<in> set owners \<Longrightarrow>
    aetus_signal_sample_pool_release (Some st) p h = (Some st', h') \<Longrightarrow>
    pool_run M limit h0 h' (remove1 p owners) st'"
| note_counter: "pool_run M limit h0 h owners st \<Longrightarrow>
    Some st' \<in> {aetus_signal_sample_pool_note_queue_send_failure (Some st),
      aetus_signal_sample_pool_note_validation_failure (Some st),
      aetus_signal_sample_pool_note_upload_success (Some st),
      aetus_signal_sample_pool_note_final_drop (Some st)} \<Longrightarrow>
    pool_run M limit h0 h owners st'"

inductive_cases pool_run_emptyE: "pool_run M limit h0 h [] st"

text \<open>Every live sample block has at least one byte, so there are at most \<open>limit\<close> of them.\<close>

lemma pool_length_le:
  assumes "pool_inv h owners st"
  shows "length owners \<le> pool_bytes h owners"
proof -
  have "1 \<le> unat (sample_block_size h p)" if "is_sample_block h p" for p
    using that by (auto simp: is_sample_block_def sample_block_size_def Suc_le_eq unat_gt_0
        split: option.splits block.splits)
  then have "\<forall>p \<in> set owners. 1 \<le> unat (sample_block_size h p)"
    using assms by (simp add: pool_inv_def)
  then show ?thesis unfolding pool_bytes_def by (induction owners) auto
qed

lemma pool_run_inv_heap:
  assumes M: "malloc_ok M" and lim: "limit < 4294967296" and r: "pool_run M limit h0 h owners st"
  shows "pool_inv h owners st \<and> heap_corrupt h = heap_corrupt h0 \<and>
    (\<forall>p \<in> set owners. blocks h0 p = None) \<and> (\<forall>p. p \<notin> set owners \<longrightarrow> blocks h p = blocks h0 p)"
  using r
proof induction
  case (start x st)
  then show ?case using pool_inv_init by (simp add: aetus_signal_sample_pool_reset_def)
next
  case (alloc h owners st n p st' h')
  note i = alloc.IH
  have room: "Suc (length owners) < 4294967296" "pool_bytes h owners + unat n < 4294967296"
    using pool_length_le [of h owners st] i alloc.hyps(2) lim by auto
  obtain s where p: "p \<noteq> 0" "blocks h p = None"
    "h' = h\<lparr>blocks := (blocks h)(p \<mapsto> Sample_block n (replicate (unat n) 0))\<rparr>" "pool_inv h' (p # owners) st'"
    using allocator.alloc_pool_inv [OF malloc_ok_allocator [OF M] conjunct1 [OF i] alloc.hyps(3) room] by auto
  then have "p \<notin> set owners" by (simp add: pool_inv_def)
  with p i show ?case by auto
next
  case (refused h owners st n ow st' h')
  note i = refused.IH
  have room: "Suc (length owners) < 4294967296" "pool_bytes h owners + unat n < 4294967296"
    using pool_length_le [of h owners st] i refused.hyps(2) lim by auto
  show ?case
    using allocator.alloc_pool_inv [OF malloc_ok_allocator [OF M] conjunct1 [OF i] refused.hyps(3) room] i
    by auto
next
  case (release h owners st p st' h')
  then have i: "pool_inv h owners st" by blast
  from release_pool_inv [OF i release.hyps(2,3)] release.IH release.hyps(2) show ?case
    by (auto simp: pool_inv_def)
next
  case (note_counter h owners st st')
  then show ?case
    by (auto simp: pool_inv_def aetus_signal_sample_pool_note_queue_send_failure_def
        aetus_signal_sample_pool_note_validation_failure_def
        aetus_signal_sample_pool_note_upload_success_def aetus_signal_sample_pool_note_final_drop_def)
qed

section \<open>Properties\<close>

text \<open>
  C9. The statistics of the sample pool are exact in every reachable state: \<open>allocated_blocks\<close> and
  \<open>allocated_bytes\<close> count the live blocks and their bytes, the peaks are never below them, and
  allocations are the releases plus the live blocks.
\<close>

theorem pool_accounting:
  assumes "malloc_ok M" and "limit < 4294967296" and "pool_run M limit h0 h owners st"
  shows "unat (allocated_blocks st) = length owners \<and> unat (allocated_bytes st) = pool_bytes h owners \<and>
    allocated_blocks st \<le> peak_allocated_blocks st \<and> allocated_bytes st \<le> peak_allocated_bytes st \<and>
    allocation_count st = release_count st + allocated_blocks st"
  using pool_run_inv_heap [OF assms] by (simp add: pool_inv_def)

lemma demo_pool_run: "pool_run (arena 3) 5000 \<lparr>blocks = Map.empty, heap_corrupt = False\<rparr>
    \<lparr>blocks = Map.empty, heap_corrupt = False\<rparr> [] zero_pool_stats"
  by (rule pool_run.start [of zero_pool_stats]) (simp add: aetus_signal_sample_pool_reset_def)

lemma demo_pool_alloc:
  "\<exists>h st. pool_run (arena 3) 5000 \<lparr>blocks = Map.empty, heap_corrupt = False\<rparr> h [1] st"
proof -
  let ?h = "\<lparr>blocks = Map.empty, heap_corrupt = False\<rparr> :: heap"
  have a: "arena 3 Map.empty 6 = 1" by (simp add: arena_def upt_rec)
  have "aetus_signal_sample_pool_alloc (arena 3) (Some zero_pool_stats) 2 (Some 0) ?h =
    (Samples_block 1, Some 1, Some (signal_sample_pool_note_alloc zero_pool_stats 2),
     ?h\<lparr>blocks := (blocks ?h)(1 \<mapsto> Sample_block 2 (replicate 2 0))\<rparr>)"
    by (simp add: aetus_signal_sample_pool_alloc_def pvPortMalloc_def a c_defs)
  from pool_run.alloc [OF demo_pool_run _ this] show ?thesis by (auto simp: pool_bytes_def)
qed

theorem pool_accounting_witness:
  "\<exists>h st. pool_run (arena 3) 5000 \<lparr>blocks = Map.empty, heap_corrupt = False\<rparr> h [1] st \<and>
     unat (allocated_blocks st) = 1"
proof -
  obtain h st where r: "pool_run (arena 3) 5000 \<lparr>blocks = Map.empty, heap_corrupt = False\<rparr> h [1] st"
    using demo_pool_alloc by blast
  with pool_accounting [OF arena_ok _ r] show ?thesis by auto
qed

text \<open>
  C13. The pool leaks nothing and never frees a block twice: in every reachable state the heap is
  the initial heap with exactly the live sample blocks added, and when all are released it is the
  initial heap.
\<close>

theorem pool_no_leak:
  assumes "malloc_ok M" and "limit < 4294967296" and "pool_run M limit h0 h owners st"
  shows "heap_corrupt h = heap_corrupt h0 \<and> (\<forall>p. p \<notin> set owners \<longrightarrow> blocks h p = blocks h0 p) \<and>
    (owners = [] \<longrightarrow> h = h0)"
  using pool_run_inv_heap [OF assms] by (auto intro!: heap.equality simp: fun_eq_iff)

theorem pool_no_leak_witness:
  "\<exists>h st. pool_run (arena 3) 5000 \<lparr>blocks = Map.empty, heap_corrupt = False\<rparr> h [1] st \<and> \<not> heap_corrupt h"
proof -
  obtain h st where r: "pool_run (arena 3) 5000 \<lparr>blocks = Map.empty, heap_corrupt = False\<rparr> h [1] st"
    using demo_pool_alloc by blast
  with pool_no_leak [OF arena_ok _ r] show ?thesis by auto
qed

end
