(* ===== verification/SignalFrame.thy ===== *)
theory SignalFrame
  imports AetusStrings
begin

text \<open>
  Signal frames and status events (\<open>aetus.c\<close>, lines 415-509, 1247-1278 and 1474-1523): the enum maps
  to the wire enums, the size check with its overflow guards, the validation that guards both the
  enqueue and the encoder, and the builders.
\<close>

section \<open>Wire enums\<close>

definition map_device_status :: "aetus_device_status \<Rightarrow> u32" where
  "map_device_status s =
     (case s of AETUS_DEVICE_STATUS_ONLINE \<Rightarrow> 1 | AETUS_DEVICE_STATUS_DEGRADED \<Rightarrow> 2
      | AETUS_DEVICE_STATUS_OFFLINE \<Rightarrow> 3 | _ \<Rightarrow> 0)"

definition map_signal_encoding :: "aetus_signal_encoding \<Rightarrow> u32" where
  "map_signal_encoding e =
     (case e of AETUS_SIGNAL_ENCODING_INT16_LE \<Rightarrow> 2 | AETUS_SIGNAL_ENCODING_UINT16_LE \<Rightarrow> 3
      | AETUS_SIGNAL_ENCODING_INT32_LE \<Rightarrow> 4 | _ \<Rightarrow> 1)"

definition map_signal_layout :: "aetus_signal_layout \<Rightarrow> u32" where
  "map_signal_layout l = (case l of AETUS_SIGNAL_LAYOUT_PLANAR \<Rightarrow> 2 | _ \<Rightarrow> 1)"

definition signal_sample_width_bytes :: "aetus_signal_encoding \<Rightarrow> size_t" where
  "signal_sample_width_bytes e =
     (case e of AETUS_SIGNAL_ENCODING_INT16_LE \<Rightarrow> 2 | AETUS_SIGNAL_ENCODING_UINT16_LE \<Rightarrow> 2
      | AETUS_SIGNAL_ENCODING_FLOAT32_LE \<Rightarrow> 4 | AETUS_SIGNAL_ENCODING_INT32_LE \<Rightarrow> 4
      | _ \<Rightarrow> 0)"

section \<open>Size and validation\<close>

definition SIZE_MAX :: size_t where "SIZE_MAX = 0xFFFFFFFF"

text \<open>The error, or the size written to \<open>*expected_size\<close>.\<close>

definition expected_signal_samples_size :: "aetus_signal_frame option \<Rightarrow> esp_err + size_t" where
  "expected_signal_samples_size frame =
     (case frame of None \<Rightarrow> Inl ESP_ERR_INVALID_ARG
      | Some f \<Rightarrow>
          let w = signal_sample_width_bytes (fr_encoding f) in
          if \<not> w > 0 then Inl ESP_ERR_INVALID_ARG
          else if \<not> (fr_channel_count f = 0 \<or> fr_sample_count f \<le> SIZE_MAX div fr_channel_count f)
          then Inl ESP_ERR_INVALID_ARG
          else
            let total = fr_sample_count f * fr_channel_count f in
            if \<not> (total = 0 \<or> total \<le> SIZE_MAX div w) then Inl ESP_ERR_INVALID_ARG
            else Inr (total * w))"

text \<open>The tests of \<open>validate_signal_frame\<close>, in order; all of them return the same code.\<close>

definition validate_signal_frame :: "aetus_signal_frame option \<Rightarrow> esp_err" where
  "validate_signal_frame frame =
     (case frame of None \<Rightarrow> ESP_ERR_INVALID_ARG
      | Some f \<Rightarrow>
          if cstr (fr_stream_key f) = [] then ESP_ERR_INVALID_ARG
          else if \<not> fr_sample_interval_ns f > 0 then ESP_ERR_INVALID_ARG
          else if \<not> fr_sample_count f > 0 then ESP_ERR_INVALID_ARG
          else if \<not> fr_channel_count f > 0 then ESP_ERR_INVALID_ARG
          else if \<not> unat (fr_channel_count f) \<le> AETUS_SIGNAL_CHANNELS_MAX then ESP_ERR_INVALID_ARG
          else if \<not> fr_samples_size f > 0 then ESP_ERR_INVALID_ARG
          else if fr_samples f = Samples_null then ESP_ERR_INVALID_ARG
          else if \<not> unat (fr_samples_size f) \<le> AETUS_SIGNAL_SAMPLES_MAX then ESP_ERR_INVALID_ARG
          else if (\<exists>c \<in> set (take (unat (fr_channel_count f)) (fr_channels f)). cstr (ch_key c) = [])
          then ESP_ERR_INVALID_ARG
          else
            (case expected_signal_samples_size (Some f) of
               Inl e \<Rightarrow> e
             | Inr n \<Rightarrow> if n \<noteq> fr_samples_size f then ESP_ERR_INVALID_ARG else ESP_OK))"

section \<open>Builders\<close>

definition zero_frame :: aetus_signal_frame where
  "zero_frame = \<lparr>fr_timestamp_ns = 0, fr_stream_key = replicate AETUS_SIGNAL_STREAM_KEY_MAX 0,
     fr_sample_interval_ns = 0, fr_sample_count = 0, fr_encoding = AETUS_SIGNAL_ENCODING_FLOAT32_LE,
     fr_layout = AETUS_SIGNAL_LAYOUT_INTERLEAVED, fr_channel_count = 0,
     fr_channels = replicate AETUS_SIGNAL_CHANNELS_MAX zero_channel, fr_samples = Samples_null,
     fr_samples_size = 0\<rparr>"

definition aetus_signal_frame_init :: "aetus_signal_frame option \<Rightarrow> aetus_signal_frame option" where
  "aetus_signal_frame_init frame = map_option (\<lambda>_. zero_frame\<lparr>
     fr_encoding := AETUS_SIGNAL_ENCODING_FLOAT32_LE, fr_layout := AETUS_SIGNAL_LAYOUT_INTERLEAVED\<rparr>) frame"

definition aetus_signal_frame_set_stream_key ::
  "aetus_signal_frame option \<Rightarrow> byte list option \<Rightarrow> esp_err \<times> aetus_signal_frame option" where
  "aetus_signal_frame_set_stream_key frame stream_key =
     (case frame of None \<Rightarrow> (ESP_ERR_INVALID_ARG, None)
      | Some f \<Rightarrow>
          if ostr stream_key = [] then (ESP_ERR_INVALID_ARG, Some f)
          else if \<not> string_fits stream_key AETUS_SIGNAL_STREAM_KEY_MAX
          then (ESP_ERR_INVALID_ARG, Some f)
          else (ESP_OK, Some (f\<lparr>fr_stream_key :=
                  copy_string (fr_stream_key f) AETUS_SIGNAL_STREAM_KEY_MAX stream_key\<rparr>)))"

text \<open>\<open>scale\<close> and \<open>offset\<close> are optional pointers to the bits of a \<open>float\<close>.\<close>

definition aetus_signal_frame_add_channel ::
  "aetus_signal_frame option \<Rightarrow> byte list option \<Rightarrow> byte list option \<Rightarrow> u32 option \<Rightarrow> u32 option \<Rightarrow>
     esp_err \<times> aetus_signal_frame option" where
  "aetus_signal_frame_add_channel frame key unit scale offset =
     (case frame of None \<Rightarrow> (ESP_ERR_INVALID_ARG, None)
      | Some f \<Rightarrow>
          if ostr key = [] then (ESP_ERR_INVALID_ARG, Some f)
          else if \<not> string_fits key AETUS_METRIC_KEY_MAX then (ESP_ERR_INVALID_ARG, Some f)
          else if \<not> string_fits unit AETUS_METRIC_UNIT_MAX then (ESP_ERR_INVALID_ARG, Some f)
          else if \<not> unat (fr_channel_count f) < AETUS_SIGNAL_CHANNELS_MAX
          then (ESP_ERR_INVALID_ARG, Some f)
          else
            let c = zero_channel\<lparr>
                  ch_key := copy_string (ch_key zero_channel) AETUS_METRIC_KEY_MAX key,
                  ch_unit := copy_string (ch_unit zero_channel) AETUS_METRIC_UNIT_MAX unit\<rparr>;
                c = (case scale of None \<Rightarrow> c | Some x \<Rightarrow> c\<lparr>ch_has_scale := True, ch_scale := x\<rparr>);
                c = (case offset of None \<Rightarrow> c | Some x \<Rightarrow> c\<lparr>ch_has_offset := True, ch_offset := x\<rparr>)
            in (ESP_OK, Some (f\<lparr>fr_channels := (fr_channels f)[unat (fr_channel_count f) := c],
                                fr_channel_count := fr_channel_count f + 1\<rparr>)))"

definition aetus_signal_frame_set_samples ::
  "aetus_signal_frame option \<Rightarrow> byte list option \<Rightarrow> size_t \<Rightarrow> esp_err \<times> aetus_signal_frame option" where
  "aetus_signal_frame_set_samples frame samples samples_size =
     (case frame of None \<Rightarrow> (ESP_ERR_INVALID_ARG, None)
      | Some f \<Rightarrow>
          if samples = None \<and> samples_size \<noteq> 0 then (ESP_ERR_INVALID_ARG, Some f)
          else if \<not> unat samples_size \<le> AETUS_SIGNAL_SAMPLES_MAX then (ESP_ERR_INVALID_ARG, Some f)
          else (ESP_OK, Some (f\<lparr>fr_samples := (case samples of None \<Rightarrow> Samples_null
                                                | Some bs \<Rightarrow> Samples_mem bs),
                                fr_samples_size := samples_size\<rparr>)))"

definition zero_status :: aetus_status where
  "zero_status = \<lparr>st_status = AETUS_DEVICE_STATUS_ONLINE, st_rssi = 0, st_free_heap = 0,
     st_reboot_reason = replicate 24 0, st_timestamp_ns = 0\<rparr>"

definition aetus_status_init :: "aetus_status option \<Rightarrow> aetus_device_status \<Rightarrow> aetus_status option" where
  "aetus_status_init status device_status =
     map_option (\<lambda>_. zero_status\<lparr>st_status := device_status\<rparr>) status"

definition aetus_status_set_reboot_reason ::
  "aetus_status option \<Rightarrow> byte list option \<Rightarrow> esp_err \<times> aetus_status option" where
  "aetus_status_set_reboot_reason status reboot_reason =
     (case status of None \<Rightarrow> (ESP_ERR_INVALID_ARG, None)
      | Some s \<Rightarrow>
          if reboot_reason = None then (ESP_ERR_INVALID_ARG, Some s)
          else if \<not> string_fits reboot_reason 24 then (ESP_ERR_INVALID_ARG, Some s)
          else (ESP_OK, Some (s\<lparr>st_reboot_reason := copy_string (st_reboot_reason s) 24 reboot_reason\<rparr>)))"

section \<open>The size check is exact\<close>

definition sample_width :: "aetus_signal_encoding \<Rightarrow> nat" where
  "sample_width e = unat (signal_sample_width_bytes e)"

definition frame_bytes :: "aetus_signal_frame \<Rightarrow> nat" where
  "frame_bytes f = unat (fr_sample_count f) * unat (fr_channel_count f) * sample_width (fr_encoding f)"

lemma mult_guard:
  assumes "0 < unat (b :: size_t)"
  shows "a \<le> SIZE_MAX div b \<longleftrightarrow> unat a * unat b < 4294967296"
proof -
  have "a \<le> SIZE_MAX div b \<longleftrightarrow> unat a \<le> 4294967295 div unat b"
    by (simp add: word_le_nat_alt SIZE_MAX_def unat_div)
  also have "\<dots> \<longleftrightarrow> unat a * unat b \<le> 4294967295" using assms by (simp add: less_eq_div_iff_mult_less_eq)
  finally show ?thesis by linarith
qed

lemma unat_mult_small: "unat a * unat b < 4294967296 \<Longrightarrow> unat (a * b :: u32) = unat a * unat b"
  by (simp add: unat_word_ariths)

lemma expected_size_exact:
  "expected_signal_samples_size (Some f) =
     (if sample_width (fr_encoding f) = 0 \<or>
         4294967296 \<le> unat (fr_sample_count f) * unat (fr_channel_count f) \<or>
         4294967296 \<le> frame_bytes f
      then Inl ESP_ERR_INVALID_ARG else Inr (of_nat (frame_bytes f)))"
proof -
  let ?s = "fr_sample_count f" and ?c = "fr_channel_count f"
  let ?w = "signal_sample_width_bytes (fr_encoding f)"
  have w: "?w > 0 \<longleftrightarrow> sample_width (fr_encoding f) \<noteq> 0" by (simp add: sample_width_def word_gt_0 unat_gt_0)
  have g1: "?c = 0 \<or> ?s \<le> SIZE_MAX div ?c \<longleftrightarrow> unat ?s * unat ?c < 4294967296"
  proof (cases "?c = 0")
    case False
    then have "0 < unat ?c" by (simp add: unat_gt_0)
    from mult_guard [OF this] False show ?thesis by simp
  qed simp
  show ?thesis
  proof (cases "?w > 0 \<and> unat ?s * unat ?c < 4294967296")
    case False
    then show ?thesis using w g1 by (auto simp: expected_signal_samples_size_def Let_def)
  next
    case True
    then have t: "unat (?s * ?c) = unat ?s * unat ?c" and wp: "0 < unat ?w"
      by (simp_all add: unat_mult_small unat_gt_0 word_gt_0)
    have g2: "?s * ?c = 0 \<or> ?s * ?c \<le> SIZE_MAX div ?w \<longleftrightarrow> frame_bytes f < 4294967296"
    proof (cases "?s * ?c = 0")
      case z: True
      then have "unat ?s * unat ?c = 0" using t by simp
      then show ?thesis using z by (auto simp: frame_bytes_def)
    next
      case False
      then show ?thesis using mult_guard [OF wp, of "?s * ?c"] t
        by (simp add: frame_bytes_def sample_width_def)
    qed
    have "of_nat (frame_bytes f) = ?s * ?c * ?w" by (simp add: frame_bytes_def sample_width_def)
    with True g1 g2 w show ?thesis by (auto simp: expected_signal_samples_size_def Let_def)
  qed
qed

section \<open>Properties\<close>

text \<open>
  C12. \<open>validate_signal_frame\<close> accepts exactly the frames whose samples hold
  \<open>sample_count * channel_count * width\<close> bytes, computed without overflow: named stream and channels,
  one to four channels, a positive interval and count, and at most \<open>AETUS_SIGNAL_SAMPLES_MAX\<close> bytes.
\<close>

theorem validate_signal_frame_iff:
  "validate_signal_frame (Some f) = ESP_OK \<longleftrightarrow>
     cstr (fr_stream_key f) \<noteq> [] \<and> fr_sample_interval_ns f \<noteq> 0 \<and> fr_sample_count f \<noteq> 0 \<and>
     0 < unat (fr_channel_count f) \<and> unat (fr_channel_count f) \<le> 4 \<and>
     fr_samples f \<noteq> Samples_null \<and> 0 < unat (fr_samples_size f) \<and> unat (fr_samples_size f) \<le> 2400 \<and>
     list_all (\<lambda>c. cstr (ch_key c) \<noteq> []) (take (unat (fr_channel_count f)) (fr_channels f)) \<and>
     unat (fr_samples_size f) = frame_bytes f"
proof -
  have e: "(expected_signal_samples_size (Some f) = Inr n \<and> n = fr_samples_size f) \<longleftrightarrow>
      (n = fr_samples_size f \<and> unat (fr_samples_size f) = frame_bytes f)"
    if "0 < unat (fr_samples_size f)" "unat (fr_samples_size f) \<le> 2400" for n
  proof
    assume a: "expected_signal_samples_size (Some f) = Inr n \<and> n = fr_samples_size f"
    then have "n = of_nat (frame_bytes f)" "frame_bytes f < 4294967296"
      by (auto simp: expected_size_exact split: if_splits)
    then show "n = fr_samples_size f \<and> unat (fr_samples_size f) = frame_bytes f"
      using a by (auto simp: unat_of_nat_small32)
  next
    assume a: "n = fr_samples_size f \<and> unat (fr_samples_size f) = frame_bytes f"
    then have fb: "0 < frame_bytes f" "frame_bytes f \<le> 2400" "of_nat (frame_bytes f) = n"
      using that by (auto simp: a [THEN conjunct2, symmetric])
    have "unat (fr_sample_count f) * unat (fr_channel_count f) \<le> frame_bytes f"
      "sample_width (fr_encoding f) \<noteq> 0"
      using fb(1) by (auto simp: frame_bytes_def)
    with fb a show "expected_signal_samples_size (Some f) = Inr n \<and> n = fr_samples_size f"
      by (simp add: expected_size_exact)
  qed
  have "expected_signal_samples_size (Some f) \<noteq> Inl ESP_OK" by (simp add: expected_size_exact)
  then show ?thesis
    using e [of "fr_samples_size f"]
    by (auto simp: validate_signal_frame_def c_defs word_gt_0 unat_gt_0 list_all_iff split: sum.splits if_splits)
qed

text \<open>
  Well-formed frames: arrays of the declared sizes, terminated strings, channels within the array.
\<close>

definition channel_ok :: "aetus_signal_channel \<Rightarrow> bool" where
  "channel_ok c \<longleftrightarrow> length (ch_key c) = 20 \<and> strlen (ch_key c) < 20 \<and>
     length (ch_unit c) = 8 \<and> strlen (ch_unit c) < 8"

definition wf_frame :: "aetus_signal_frame \<Rightarrow> bool" where
  "wf_frame f \<longleftrightarrow> length (fr_stream_key f) = 32 \<and> strlen (fr_stream_key f) < 32 \<and>
     length (fr_channels f) = 4 \<and> unat (fr_channel_count f) \<le> 4 \<and>
     (\<forall>c \<in> set (fr_channels f). channel_ok c)"

definition frame_channels :: "aetus_signal_frame \<Rightarrow> aetus_signal_channel list" where
  "frame_channels f = take (unat (fr_channel_count f)) (fr_channels f)"

lemma strlen_zeros [simp]: "strlen (replicate n 0) = 0" "cstr (replicate n 0) = []"
  by (cases n; simp add: strlen_def)+

lemma zero_channel_ok: "channel_ok zero_channel"
  by (simp add: channel_ok_def zero_channel_def c_defs)

lemma init_frame_wf: "aetus_signal_frame_init (Some x) = Some f \<Longrightarrow> wf_frame f \<and> frame_channels f = []"
  by (auto simp: aetus_signal_frame_init_def zero_frame_def wf_frame_def frame_channels_def
      zero_channel_ok AETUS_SIGNAL_STREAM_KEY_MAX_def AETUS_SIGNAL_CHANNELS_MAX_def)

text \<open>
  \<open>aetus_signal_frame_add_channel\<close> keeps a frame well-formed and appends exactly the channel it is
  given, with its strings whole, or refuses with \<open>ESP_ERR_INVALID_ARG\<close> and changes nothing.
\<close>

theorem add_channel_appends:
  assumes "wf_frame f" and "aetus_signal_frame_add_channel (Some f) key unit scale offset = (e, f')"
  shows "(e = ESP_OK \<and> (\<exists>f2 c. f' = Some f2 \<and> wf_frame f2 \<and> frame_channels f2 = frame_channels f @ [c] \<and>
           cstr (ch_key c) = ostr key \<and> cstr (ch_unit c) = ostr unit \<and>
           (if ch_has_scale c then scale = Some (ch_scale c) else scale = None) \<and>
           (if ch_has_offset c then offset = Some (ch_offset c) else offset = None) \<and>
           ostr key \<noteq> []))
       \<or> (e = ESP_ERR_INVALID_ARG \<and> f' = Some f \<and>
          (ostr key = [] \<or> 20 \<le> length (ostr key) \<or> 8 \<le> length (ostr unit) \<or>
           unat (fr_channel_count f) = 4))"
proof (cases "ostr key = [] \<or> 20 \<le> length (ostr key) \<or> 8 \<le> length (ostr unit) \<or> unat (fr_channel_count f) = 4")
  case True
  then show ?thesis using assms
    by (auto simp: aetus_signal_frame_add_channel_def string_fits_iff wf_frame_def c_defs split: if_splits)
next
  case False
  then have n: "unat (fr_channel_count f) < 4" "unat (fr_channel_count f + 1) = Suc (unat (fr_channel_count f))"
    using assms(1) by (auto simp: wf_frame_def unat_add_small32)
  define c where "c = (let c = zero_channel\<lparr>
        ch_key := copy_string (ch_key zero_channel) AETUS_METRIC_KEY_MAX key,
        ch_unit := copy_string (ch_unit zero_channel) AETUS_METRIC_UNIT_MAX unit\<rparr>;
      c = (case scale of None \<Rightarrow> c | Some x \<Rightarrow> c\<lparr>ch_has_scale := True, ch_scale := x\<rparr>)
    in (case offset of None \<Rightarrow> c | Some x \<Rightarrow> c\<lparr>ch_has_offset := True, ch_offset := x\<rparr>))"
  have "aetus_signal_frame_add_channel (Some f) key unit scale offset =
      (ESP_OK, Some (f\<lparr>fr_channels := (fr_channels f)[unat (fr_channel_count f) := c],
                       fr_channel_count := fr_channel_count f + 1\<rparr>))"
    using False n by (simp add: aetus_signal_frame_add_channel_def string_fits_iff c_defs c_def Let_def)
  then have r: "e = ESP_OK" "f' = Some (f\<lparr>fr_channels := (fr_channels f)[unat (fr_channel_count f) := c],
                       fr_channel_count := fr_channel_count f + 1\<rparr>)" using assms(2) by auto
  have kk: "ch_key c = copy_string (replicate 20 0) 20 key" "ch_unit c = copy_string (replicate 8 0) 8 unit"
    by (auto simp: c_def zero_channel_def c_defs Let_def split: option.split)
  have cs: "cstr (ch_key c) = ostr key" "cstr (ch_unit c) = ostr unit"
    using False unfolding kk by (simp_all add: copy_string_fits string_fits_iff)
  moreover have ok: "channel_ok c" using cs False unfolding channel_ok_def strlen_def by (simp add: kk)
  moreover have "if ch_has_scale c then scale = Some (ch_scale c) else scale = None"
    "if ch_has_offset c then offset = Some (ch_offset c) else offset = None"
    by (auto simp: c_def zero_channel_def Let_def split: option.split)
  moreover have "wf_frame (the f')" "frame_channels (the f') = frame_channels f @ [c]"
    using assms(1) n ok set_update_subset_insert [of "fr_channels f" "unat (fr_channel_count f)" c]
    by (auto simp: r wf_frame_def frame_channels_def take_Suc_conv_app_nth take_update_cancel)
  ultimately show ?thesis using r False by auto
qed

definition demo_frame :: aetus_signal_frame where
  "demo_frame = zero_frame\<lparr>fr_stream_key := 65 # replicate 31 0, fr_sample_interval_ns := 1000,
     fr_sample_count := 1, fr_encoding := AETUS_SIGNAL_ENCODING_INT16_LE, fr_samples := Samples_mem [1, 2],
     fr_samples_size := 2\<rparr>"

lemma demo_frame_wf: "wf_frame demo_frame"
  by (simp add: demo_frame_def zero_frame_def wf_frame_def zero_channel_ok strlen_def
      AETUS_SIGNAL_STREAM_KEY_MAX_def AETUS_SIGNAL_CHANNELS_MAX_def)

theorem add_channel_appends_witness:
  "\<exists>e f'. aetus_signal_frame_add_channel (Some demo_frame) (Some [65, 0]) None None None = (e, f') \<and>
     f' \<noteq> None"
proof -
  let ?c = "aetus_signal_frame_add_channel (Some demo_frame) (Some [65, 0]) None None None"
  obtain e f' where r: "?c = (e, f')" by (cases ?c)
  from add_channel_appends [OF demo_frame_wf r] r show ?thesis by auto
qed

text \<open>
  \<open>aetus_status_set_reboot_reason\<close> stores the whole reason or refuses: a reason of 24 bytes or
  more is an error, never a truncation.
\<close>

theorem set_reboot_reason_exact:
  assumes "length (st_reboot_reason s) = 24"
    and "aetus_status_set_reboot_reason (Some s) reason = (e, s')"
  shows "(e = ESP_OK \<and> (\<exists>s2. s' = Some s2 \<and> cstr (st_reboot_reason s2) = ostr reason \<and>
            length (st_reboot_reason s2) = 24 \<and> length (ostr reason) < 24))
       \<or> (e = ESP_ERR_INVALID_ARG \<and> s' = Some s \<and> (reason = None \<or> 24 \<le> length (ostr reason)))"
  using assms by (auto simp: aetus_status_set_reboot_reason_def string_fits_iff copy_string_fits
      split: if_splits)

theorem set_reboot_reason_exact_witness:
  "\<exists>e s'. aetus_status_set_reboot_reason (Some zero_status) (Some [66, 0]) = (e, s') \<and> s' \<noteq> None"
proof -
  let ?c = "aetus_status_set_reboot_reason (Some zero_status) (Some [66, 0])"
  obtain e s' where r: "?c = (e, s')" by (cases ?c)
  have "length (st_reboot_reason zero_status) = 24" by (simp add: zero_status_def)
  from set_reboot_reason_exact [OF this r] r show ?thesis by auto
qed

end
