(* ===== verification/IngestPb.thy ===== *)
theory IngestPb
  imports PbWire
begin

text \<open>
  The generated messages of the ingest protocol (\<open>include/ingest.pb.h\<close>): one record per struct, and per
  message the list of fields its \<open>FIELDLIST\<close> macro gives, with the memory of the struct. Array sizes
  are those of the header: \<open>key[20]\<close>, \<open>unit[8]\<close>, \<open>device_id[32]\<close>, \<open>boot_id[32]\<close>, \<open>stream_key[32]\<close>,
  \<open>reboot_reason[24]\<close>, \<open>code[24]\<close>, \<open>message[80]\<close>, \<open>metrics[32]\<close>.
\<close>

section \<open>Field constructors\<close>

text \<open>\<open>SINGULAR\<close> is \<open>PB_HTYPE_OPTIONAL\<close> without a has-flag. A \<open>pb_callback_t\<close> has 8 bytes.\<close>

definition mk_hdr :: "byte \<Rightarrow> byte \<Rightarrow> byte \<Rightarrow> u16 \<Rightarrow> u16 \<Rightarrow> u16 \<Rightarrow> bool \<Rightarrow> pb_hdr" where
  "mk_hdr a h l tag dsize asize cb = \<lparr>h_tag = tag, h_type = a OR h OR l, h_data_size = dsize,
     h_array_size = asize, h_field_callback = cb, h_default_value = False\<rparr>"

definition string_field :: "bool \<Rightarrow> u16 \<Rightarrow> u16 \<Rightarrow> byte list \<Rightarrow> pb_field" where
  "string_field cb tag n s =
     PbField (mk_hdr PB_ATYPE_STATIC PB_HTYPE_OPTIONAL PB_LTYPE_STRING tag n 1 cb) SNull (PRaw s)"

definition uint_field :: "bool \<Rightarrow> u16 \<Rightarrow> u16 \<Rightarrow> nat \<Rightarrow> pb_field" where
  "uint_field cb tag n v =
     PbField (mk_hdr PB_ATYPE_STATIC PB_HTYPE_OPTIONAL PB_LTYPE_UVARINT tag n 1 cb) SNull
       (PRaw (le_bytes (unat n) v))"

definition sint_field :: "bool \<Rightarrow> u16 \<Rightarrow> u16 \<Rightarrow> nat \<Rightarrow> pb_field" where
  "sint_field cb tag n v =
     PbField (mk_hdr PB_ATYPE_STATIC PB_HTYPE_OPTIONAL PB_LTYPE_SVARINT tag n 1 cb) SNull
       (PRaw (le_bytes (unat n) v))"

definition opt_float_field :: "u16 \<Rightarrow> bool \<Rightarrow> u32 \<Rightarrow> pb_field" where
  "opt_float_field tag has v =
     PbField (mk_hdr PB_ATYPE_STATIC PB_HTYPE_OPTIONAL PB_LTYPE_FIXED32 tag 4 1 False)
       (SHas (if has then 1 else 0)) (PRaw (le_bytes 4 (unat v)))"

definition oneof_field :: "byte \<Rightarrow> byte \<Rightarrow> bool \<Rightarrow> u16 \<Rightarrow> u16 \<Rightarrow> u16 \<Rightarrow> pb_data \<Rightarrow> pb_field" where
  "oneof_field a l cb tag n which d = PbField (mk_hdr a PB_HTYPE_ONEOF l tag n 1 cb) (SCount which) d"

section \<open>Messages\<close>

text \<open>The union of a metric: eight bytes of memory, or a callback with its argument.\<close>

record pb_metric =
  pm_key :: "byte list"
  pm_which_value :: u16
  pm_value :: "byte list"
  pm_callback :: "pb_cb option"
  pm_unit :: "byte list"

definition pb_metric_init_zero :: pb_metric where
  "pb_metric_init_zero = \<lparr>pm_key = replicate 20 0, pm_which_value = 0, pm_value = replicate 8 0,
     pm_callback = None, pm_unit = replicate 8 0\<rparr>"

definition Metric_fields :: "pb_metric \<Rightarrow> pb_field list" where
  "Metric_fields m =
     [string_field True 1 20 (pm_key m),
      oneof_field PB_ATYPE_STATIC PB_LTYPE_SVARINT True 2 8 (pm_which_value m) (PRaw (pm_value m)),
      oneof_field PB_ATYPE_STATIC PB_LTYPE_FIXED64 True 3 8 (pm_which_value m) (PRaw (pm_value m)),
      oneof_field PB_ATYPE_STATIC PB_LTYPE_BOOL True 4 1 (pm_which_value m) (PRaw (take 1 (pm_value m))),
      oneof_field PB_ATYPE_CALLBACK PB_LTYPE_STRING True 5 8 (pm_which_value m) (PCallback (pm_callback m)),
      oneof_field PB_ATYPE_CALLBACK PB_LTYPE_BYTES True 6 8 (pm_which_value m) (PCallback (pm_callback m)),
      string_field True 7 8 (pm_unit m)]"

record pb_metric_set =
  ps_metrics_count :: u16
  ps_metrics :: "pb_metric list"

definition MetricSet_fields :: "pb_metric_set \<Rightarrow> pb_field list" where
  "MetricSet_fields s =
     [PbField (mk_hdr PB_ATYPE_STATIC PB_HTYPE_REPEATED PB_LTYPE_SUBMESSAGE 1 40 32 False)
        (SCount (ps_metrics_count s)) (PArr (map (\<lambda>m. PSub None (Metric_fields m)) (ps_metrics s)))]"

record pb_status_payload =
  psp_status :: u32
  psp_rssi :: u32
  psp_free_heap :: u32
  psp_reboot_reason :: "byte list"

definition StatusPayload_fields :: "pb_status_payload \<Rightarrow> pb_field list" where
  "StatusPayload_fields s =
     [uint_field False 1 4 (unat (psp_status s)), sint_field False 2 4 (unat (psp_rssi s)),
      uint_field False 3 4 (unat (psp_free_heap s)), string_field False 4 24 (psp_reboot_reason s)]"

record pb_alert_payload =
  pap_code :: "byte list"
  pap_severity :: u32
  pap_message :: "byte list"

definition AlertPayload_fields :: "pb_alert_payload \<Rightarrow> pb_field list" where
  "AlertPayload_fields a =
     [string_field False 1 24 (pap_code a), uint_field False 2 4 (unat (pap_severity a)),
      string_field False 3 80 (pap_message a)]"

record pb_signal_frame =
  pf_stream_key :: "byte list"
  pf_sample_interval_ns :: u64
  pf_sample_count :: u32
  pf_encoding :: u32
  pf_layout :: u32
  pf_channels :: "pb_cb option"
  pf_samples :: "pb_cb option"

definition SignalFrame_fields :: "pb_signal_frame \<Rightarrow> pb_field list" where
  "SignalFrame_fields f =
     [string_field True 1 32 (pf_stream_key f),
      uint_field True 2 8 (unat (pf_sample_interval_ns f)),
      uint_field True 3 4 (unat (pf_sample_count f)),
      uint_field True 4 4 (unat (pf_encoding f)),
      uint_field True 5 4 (unat (pf_layout f)),
      PbField (mk_hdr PB_ATYPE_CALLBACK PB_HTYPE_REPEATED PB_LTYPE_SUBMESSAGE 6 8 1 True) SNull
        (PCallback (pf_channels f)),
      PbField (mk_hdr PB_ATYPE_CALLBACK PB_HTYPE_OPTIONAL PB_LTYPE_BYTES 7 8 1 True) SNull
        (PCallback (pf_samples f))]"

record pb_signal_channel =
  pc_key :: "byte list"
  pc_unit :: "byte list"
  pc_has_scale :: bool
  pc_scale :: u32
  pc_has_offset :: bool
  pc_offset :: u32

definition SignalChannel_fields :: "pb_signal_channel \<Rightarrow> pb_field list" where
  "SignalChannel_fields c =
     [string_field False 1 20 (pc_key c), string_field False 2 8 (pc_unit c),
      opt_float_field 3 (pc_has_scale c) (pc_scale c), opt_float_field 4 (pc_has_offset c) (pc_offset c)]"

text \<open>The unions of payload and body hold the member that was written last.\<close>

datatype pb_payload = Payload_metric_set pb_metric_set | Payload_signal_frame pb_signal_frame

record pb_telemetry_payload =
  pt_which_payload :: u16
  pt_payload :: pb_payload

definition TelemetryPayload_fields :: "pb_telemetry_payload \<Rightarrow> pb_field list" where
  "TelemetryPayload_fields t =
     [oneof_field PB_ATYPE_STATIC PB_LTYPE_SUBMESSAGE False 1 1288 (pt_which_payload t)
        (case pt_payload t of Payload_metric_set s \<Rightarrow> PSub None (MetricSet_fields s) | _ \<Rightarrow> PNull),
      oneof_field PB_ATYPE_STATIC PB_LTYPE_SUBMESSAGE False 2 72 (pt_which_payload t)
        (case pt_payload t of Payload_signal_frame f \<Rightarrow> PSub None (SignalFrame_fields f) | _ \<Rightarrow> PNull)]"

datatype pb_body =
    Event_telemetry pb_telemetry_payload | Event_status pb_status_payload | Event_alert pb_alert_payload

record pb_ingest_event =
  pe_schema_version :: u32
  pe_device_id :: "byte list"
  pe_sequence :: u64
  pe_event_type :: u32
  pe_boot_id :: "byte list"
  pe_firmware_version :: u32
  pe_uptime_ms :: u64
  pe_timestamp_ns :: u64
  pe_which_body :: u16
  pe_body :: pb_body

definition IngestEvent_fields :: "pb_ingest_event \<Rightarrow> pb_field list" where
  "IngestEvent_fields e =
     [uint_field False 1 4 (unat (pe_schema_version e)),
      string_field False 2 32 (pe_device_id e),
      uint_field False 3 8 (unat (pe_sequence e)),
      uint_field False 4 4 (unat (pe_event_type e)),
      string_field False 5 32 (pe_boot_id e),
      uint_field False 6 4 (unat (pe_firmware_version e)),
      uint_field False 7 8 (unat (pe_uptime_ms e)),
      uint_field False 8 8 (unat (pe_timestamp_ns e)),
      oneof_field PB_ATYPE_STATIC PB_LTYPE_SUBMESSAGE False 10 1296 (pe_which_body e)
        (case pe_body e of Event_telemetry t \<Rightarrow> PSub None (TelemetryPayload_fields t) | _ \<Rightarrow> PNull),
      oneof_field PB_ATYPE_STATIC PB_LTYPE_SUBMESSAGE False 11 36 (pe_which_body e)
        (case pe_body e of Event_status s \<Rightarrow> PSub None (StatusPayload_fields s) | _ \<Rightarrow> PNull),
      oneof_field PB_ATYPE_STATIC PB_LTYPE_SUBMESSAGE False 12 108 (pe_which_body e)
        (case pe_body e of Event_alert a \<Rightarrow> PSub None (AlertPayload_fields a) | _ \<Rightarrow> PNull)]"

section \<open>What each field emits\<close>

text \<open>A field that always succeeds and writes the records \<open>rs\<close>.\<close>

definition emits :: "pb_field \<Rightarrow> (nat \<times> wval) list \<Rightarrow> bool" where
  "emits f rs \<longleftrightarrow> PB_LTYPE (h_type (fld_hdr f)) \<noteq> PB_LTYPE_EXTENSION \<and>
     wire_field f = (concat (map put_record rs), True)"

lemma emits_msg:
  "list_all2 emits fs rss \<Longrightarrow> wire_msg fs = (concat (map put_record (concat rss)), True)"
  by (induction rule: list_all2_induct)
    (auto simp: emits_def seqo_def simp del: wire_field.simps put_record.simps split: pb_field.split)

definition str_rec :: "nat \<Rightarrow> byte list \<Rightarrow> (nat \<times> wval) list" where
  "str_rec tag s = (if s = [] then [] else [(tag, WLen s)])"

definition int_rec :: "nat \<Rightarrow> nat \<Rightarrow> (nat \<times> wval) list" where
  "int_rec tag v = (if v = 0 then [] else [(tag, WVarint v)])"

lemma mk_hdr_select [simp]:
  "h_tag (mk_hdr a h l tag n k cb) = tag" "h_data_size (mk_hdr a h l tag n k cb) = n"
  "h_array_size (mk_hdr a h l tag n k cb) = k" "h_field_callback (mk_hdr a h l tag n k cb) = cb"
  "h_default_value (mk_hdr a h l tag n k cb) = False" "h_type (mk_hdr a h l tag n k cb) = a OR h OR l"
  by (simp_all add: mk_hdr_def)

text \<open>The three parts of a type byte do not overlap.\<close>

lemma type_parts:
  assumes "a \<in> {PB_ATYPE_STATIC, PB_ATYPE_CALLBACK}"
    "h \<in> {PB_HTYPE_OPTIONAL, PB_HTYPE_REPEATED, PB_HTYPE_ONEOF}"
    "l \<in> {PB_LTYPE_BOOL, PB_LTYPE_UVARINT, PB_LTYPE_SVARINT, PB_LTYPE_FIXED32, PB_LTYPE_FIXED64,
          PB_LTYPE_STRING, PB_LTYPE_BYTES, PB_LTYPE_SUBMESSAGE}"
  shows "PB_ATYPE (a OR h OR l) = a" "PB_HTYPE (a OR h OR l) = h" "PB_LTYPE (a OR h OR l) = l"
  using assms by (auto simp: pb_type_defs PB_ATYPE_def PB_HTYPE_def PB_LTYPE_def)

lemmas static_optional_string = type_parts [of PB_ATYPE_STATIC PB_HTYPE_OPTIONAL PB_LTYPE_STRING, simplified]
lemmas static_optional_uvarint = type_parts [of PB_ATYPE_STATIC PB_HTYPE_OPTIONAL PB_LTYPE_UVARINT, simplified]
lemmas static_optional_svarint = type_parts [of PB_ATYPE_STATIC PB_HTYPE_OPTIONAL PB_LTYPE_SVARINT, simplified]
lemmas static_optional_fixed32 = type_parts [of PB_ATYPE_STATIC PB_HTYPE_OPTIONAL PB_LTYPE_FIXED32, simplified]

lemma type_distinct [simp]:
  "PB_ATYPE_CALLBACK \<noteq> PB_ATYPE_STATIC" "PB_ATYPE_POINTER \<noteq> PB_ATYPE_STATIC"
  "PB_ATYPE_POINTER \<noteq> PB_ATYPE_CALLBACK" "PB_ATYPE_STATIC \<noteq> PB_ATYPE_CALLBACK"
  "PB_ATYPE_STATIC \<noteq> PB_ATYPE_POINTER" "PB_ATYPE_CALLBACK \<noteq> PB_ATYPE_POINTER"
  "PB_HTYPE_ONEOF \<noteq> PB_HTYPE_OPTIONAL" "PB_HTYPE_OPTIONAL \<noteq> PB_HTYPE_ONEOF"
  "PB_HTYPE_ONEOF \<noteq> PB_HTYPE_REQUIRED" "PB_HTYPE_OPTIONAL \<noteq> PB_HTYPE_REQUIRED"
  "PB_HTYPE_REPEATED \<noteq> PB_HTYPE_REQUIRED" "PB_HTYPE_ONEOF \<noteq> PB_HTYPE_REPEATED"
  "PB_HTYPE_OPTIONAL \<noteq> PB_HTYPE_REPEATED" "PB_HTYPE_REPEATED \<noteq> PB_HTYPE_ONEOF"
  "PB_HTYPE_REPEATED \<noteq> PB_HTYPE_OPTIONAL"
  by (simp_all add: pb_type_defs)

text \<open>A static field that holds plain memory is a tag and a value, if it is present.\<close>

lemma wire_static:
  assumes "PB_ATYPE (h_type h) = PB_ATYPE_STATIC" "PB_HTYPE (h_type h) \<noteq> PB_HTYPE_REPEATED"
  shows "wire_field (PbField h ps (PRaw m)) =
    (if field_absent (PbField h ps (PRaw m)) then ([], True)
     else seqo (wire_tag_for_field h) (wire_scalar h (PRaw m)))"
  using assms by (simp del: wire_scalar.simps)

lemma wire_scalar_ltype:
  "PB_LTYPE (h_type h) = PB_LTYPE_STRING \<Longrightarrow> PB_ATYPE (h_type h) = PB_ATYPE_STATIC \<Longrightarrow>
     wire_scalar h (PRaw m) =
       (if h_data_size h = 0 \<or> (length (cstr (take (unat (h_data_size h) - 1) m)) < length m \<and>
            m ! length (cstr (take (unat (h_data_size h) - 1) m)) \<noteq> 0)
        then ([], False) else wire_string (cstr (take (unat (h_data_size h) - 1) m)))"
  "PB_LTYPE (h_type h) \<in> {PB_LTYPE_UVARINT, PB_LTYPE_SVARINT} \<Longrightarrow>
     wire_scalar h (PRaw m) = wire_varint h (PRaw m)"
  "PB_LTYPE (h_type h) \<in> {PB_LTYPE_FIXED32, PB_LTYPE_FIXED64} \<Longrightarrow>
     wire_scalar h (PRaw m) = wire_fixed h (PRaw m)"
  "PB_LTYPE (h_type h) = PB_LTYPE_BOOL \<Longrightarrow>
     wire_scalar h (PRaw m) = ([if safe_read_bool m then 1 else 0], True)"
  unfolding wire_scalar.simps Let_def
  by (simp_all del: wire_varint.simps wire_fixed.simps) (auto simp: pb_type_defs)

lemma wire_tag_ltype:
  "PB_LTYPE (h_type h) \<in> {PB_LTYPE_UVARINT, PB_LTYPE_SVARINT, PB_LTYPE_BOOL} \<Longrightarrow>
     wire_tag_for_field h = (varint_ref (8 * unat (h_tag h)), True)"
  "PB_LTYPE (h_type h) = PB_LTYPE_FIXED64 \<Longrightarrow>
     wire_tag_for_field h = (varint_ref (8 * unat (h_tag h) + 1), True)"
  "PB_LTYPE (h_type h) \<in> {PB_LTYPE_STRING, PB_LTYPE_BYTES, PB_LTYPE_SUBMESSAGE} \<Longrightarrow>
     wire_tag_for_field h = (varint_ref (8 * unat (h_tag h) + 2), True)"
  "PB_LTYPE (h_type h) = PB_LTYPE_FIXED32 \<Longrightarrow>
     wire_tag_for_field h = (varint_ref (8 * unat (h_tag h) + 5), True)"
  by (auto simp: wire_tag_for_field_def field_wire_type_def wire_tag_def pb_type_defs Let_def)

lemma string_field_emits:
  assumes "length s = unat n" "cstr s \<noteq> [] \<longrightarrow> strlen s < unat n" "n \<noteq> 0"
  shows "emits (string_field cb tag n s) (str_rec (unat tag) (cstr s))"
proof -
  let ?h = "mk_hdr PB_ATYPE_STATIC PB_HTYPE_OPTIONAL PB_LTYPE_STRING tag n 1 cb"
  have np: "0 < unat n" using assms(3) by (simp add: unat_gt_0)
  obtain b bs where s: "s = b # bs" using assms(1) np by (cases s) auto
  have ab: "field_absent (string_field cb tag n s) \<longleftrightarrow> cstr s = []"
    by (simp add: field_absent_def string_field_def static_optional_string s)
      (simp add: pb_type_defs)
  have v: "wire_scalar ?h (PRaw s) = (varint_ref (length (cstr s)) @ cstr s, True)" if "cstr s \<noteq> []"
  proof -
    have "cstr (take (unat n - 1) s) = cstr s"
      using assms that by (simp add: cstr_take strlen_def)
    moreover have "s ! length (cstr s) = 0"
      using assms that nth_length_takeWhile [of "\<lambda>b. b \<noteq> 0" s] by (simp add: cstr_def strlen_def)
    ultimately show ?thesis using assms(3) wire_scalar_ltype(1) [of ?h s]
      by (simp add: static_optional_string wire_string_def del: wire_scalar.simps)
  qed
  have "wire_field (string_field cb tag n s) =
      (if cstr s = [] then ([], True) else seqo (wire_tag_for_field ?h) (wire_scalar ?h (PRaw s)))"
    using ab wire_static [of ?h SNull s] by (simp add: string_field_def static_optional_string)
  also have "wire_tag_for_field ?h = (varint_ref (8 * unat tag + 2), True)"
    using wire_tag_ltype(3) [of ?h] by (simp add: static_optional_string)
  finally have "wire_field (string_field cb tag n s) = (concat (map put_record (str_rec (unat tag) (cstr s))), True)"
    using v by (simp add: str_rec_def seqo_def)
  moreover have "PB_LTYPE (h_type (fld_hdr (string_field cb tag n s))) \<noteq> PB_LTYPE_EXTENSION"
    by (simp add: string_field_def static_optional_string) (simp add: pb_type_defs)
  ultimately show ?thesis by (simp add: emits_def)
qed

lemma unat_mem_unsigned:
  assumes "v < 256 ^ k" "k \<le> 8"
  shows "unat (mem_unsigned (le_bytes k v)) = v"
proof -
  have "v < 256 ^ 8" using assms by (metis order_less_le_trans power_increasing one_le_numeral)
  then show ?thesis using assms(1) by (simp add: mem_unsigned_def of_le_le_bytes unat_of_nat)
qed

lemma uint_field_emits:
  assumes "n \<in> {4, 8}" "v < 256 ^ unat n"
  shows "emits (uint_field cb tag n v) (int_rec (unat tag) v)"
proof -
  let ?h = "mk_hdr PB_ATYPE_STATIC PB_HTYPE_OPTIONAL PB_LTYPE_UVARINT tag n 1 cb"
  let ?m = "le_bytes (unat n) v"
  have ab: "field_absent (uint_field cb tag n v) \<longleftrightarrow> v = 0"
    using le_bytes_all_zero [OF assms(2)]
    by (simp add: field_absent_def uint_field_def static_optional_uvarint) (simp add: pb_type_defs)
  have "unat n \<le> 8" using assms(1) by auto
  then have v: "wire_scalar ?h (PRaw ?m) = (varint_ref v, True)"
    using assms unat_mem_unsigned [OF assms(2)] wire_scalar_ltype(2) [of ?h ?m]
    by (auto simp: static_optional_uvarint simp del: wire_scalar.simps)
  have "wire_field (uint_field cb tag n v) =
      (if v = 0 then ([], True) else seqo (wire_tag_for_field ?h) (wire_scalar ?h (PRaw ?m)))"
    using ab wire_static [of ?h SNull ?m] by (simp add: uint_field_def static_optional_uvarint)
  also have "wire_tag_for_field ?h = (varint_ref (8 * unat tag), True)"
    using wire_tag_ltype(1) [of ?h] by (simp add: static_optional_uvarint)
  finally have "wire_field (uint_field cb tag n v) = (concat (map put_record (int_rec (unat tag) v)), True)"
    using v by (simp add: int_rec_def seqo_def)
  moreover have "PB_LTYPE (h_type (fld_hdr (uint_field cb tag n v))) \<noteq> PB_LTYPE_EXTENSION"
    by (simp add: uint_field_def static_optional_uvarint) (simp add: pb_type_defs)
  ultimately show ?thesis by (simp add: emits_def)
qed

lemma sint_u32_cases: "sint (v :: u32) = (if uint v < 2147483648 then uint v else uint v - 4294967296)"
proof -
  have b: "- 2147483648 \<le> sint v" "sint v < 2147483648"
    using sint_ge [of v] sint_lt [of v] by simp_all
  have "uint v = sint v mod 4294967296"
    using uint_sint [of v] by (simp add: take_bit_eq_mod)
  moreover have "sint v mod 4294967296 = (sint v + 4294967296) mod 4294967296"
    by simp
  ultimately show ?thesis
    using b by (cases "sint v < 0") (simp_all add: mod_pos_pos_trivial del: mod_add_self2)
qed

lemma mem_signed_u32: "mem_signed (le_bytes 4 (unat (v :: u32))) = scast v"
proof -
  have le: "of_le (le_bytes 4 (unat v)) = unat v" by (simp add: of_le_le_bytes)
  have "uint v < 2147483648 \<longleftrightarrow> unat v < 2147483648" 
    using of_nat_less_iff [of "unat v" 2147483648, where 'a = int] by simp
  then have "sint v = (if unat v < 2147483648 then int (unat v) else int (unat v) - 4294967296)"
    by (simp add: sint_u32_cases)
  then have "scast v = (of_int (if unat v < 2147483648 then int (unat v) else int (unat v) - 4294967296) :: u64)"
    by (simp only: scast_eq)
  then show ?thesis unfolding mem_signed_def le by simp
qed

lemma sint_scast_u64: "sint (scast (v :: u32) :: u64) = sint v"
proof -
  have "- (2 ^ 63) \<le> sint v" "sint v < 2 ^ 63"
    using sint_ge [of v] sint_lt [of v] by simp_all
  then show ?thesis by (simp add: signed_scast_eq signed_take_bit_int_eq_self)
qed

lemma mem_signed_u64: "mem_signed (le_bytes 8 (unat (v :: u64))) = v"
proof -
  have "unat v < 2 ^ 64" using unsigned_less [of v, where 'a = nat] by simp
  then have le: "of_le (le_bytes 8 (unat v)) = unat v" by (simp add: of_le_le_bytes)
  have "(of_int (int (unat v) - 2 ^ 64) :: u64) = of_int (int (unat v))"
    unfolding of_int_diff by simp
  then show ?thesis unfolding mem_signed_def le by simp
qed

section \<open>The other kinds of fields\<close>

definition sint_rec :: "nat \<Rightarrow> int \<Rightarrow> (nat \<times> wval) list" where
  "sint_rec tag v = [(tag, WVarint (nat (zigzag_ref v)))]"

lemma not_extension:
  "l \<in> {PB_LTYPE_BOOL, PB_LTYPE_UVARINT, PB_LTYPE_SVARINT, PB_LTYPE_FIXED32, PB_LTYPE_FIXED64,
     PB_LTYPE_STRING, PB_LTYPE_BYTES, PB_LTYPE_SUBMESSAGE} \<Longrightarrow> l \<noteq> PB_LTYPE_EXTENSION"
  by (auto simp: pb_type_defs)

lemma sint_field_emits:
  "emits (sint_field cb tag 4 (unat (v :: u32))) (if v = 0 then [] else sint_rec (unat tag) (sint v))"
proof -
  let ?h = "mk_hdr PB_ATYPE_STATIC PB_HTYPE_OPTIONAL PB_LTYPE_SVARINT tag 4 1 cb"
  let ?m = "le_bytes 4 (unat v)"
  have "unat v < 256 ^ 4" by simp
  note z = le_bytes_all_zero [OF this]
  have ab: "field_absent (sint_field cb tag 4 (unat v)) \<longleftrightarrow> v = 0"
    using z by (simp add: field_absent_def sint_field_def static_optional_svarint unat_eq_zero)
      (simp add: pb_type_defs)
  have sv: "wire_scalar ?h (PRaw ?m) = (varint_ref (nat (zigzag_ref (sint v))), True)"
    using wire_scalar_ltype(2) [of ?h ?m]
    by (simp add: static_optional_svarint mem_signed_u32 del: wire_scalar.simps)
      (simp add: pb_type_defs sint_scast_u64)
  have "wire_field (sint_field cb tag 4 (unat v)) =
      (if v = 0 then ([], True) else seqo (wire_tag_for_field ?h) (wire_scalar ?h (PRaw ?m)))"
    using ab wire_static [of ?h SNull ?m] by (simp add: sint_field_def static_optional_svarint)
  also have "wire_tag_for_field ?h = (varint_ref (8 * unat tag), True)"
    using wire_tag_ltype(1) [of ?h] by (simp add: static_optional_svarint)
  finally show ?thesis
    using sv not_extension [of PB_LTYPE_SVARINT]
    by (simp add: emits_def sint_rec_def seqo_def sint_field_def static_optional_svarint
        del: wire_field.simps wire_scalar.simps)
qed

end
