(* ===== verification/IngestWire.thy ===== *)
theory IngestWire
  imports IngestPb
begin

text \<open>
  What the messages of \<open>ingest.pb.h\<close> put on the wire, as records of the wire format: the optional
  and oneof fields, submessages and arrays of submessages, and the callback fields.
\<close>

section \<open>Optional floats and oneof values\<close>

definition opt_rec :: "nat \<Rightarrow> bool \<Rightarrow> u32 \<Rightarrow> (nat \<times> wval) list" where
  "opt_rec tag has v = (if has then [(tag, WI32 (le_bytes 4 (unat v)))] else [])"

lemma opt_float_field_emits:
  "emits (opt_float_field tag has v) (opt_rec (unat tag) has v)"
proof -
  let ?h = "mk_hdr PB_ATYPE_STATIC PB_HTYPE_OPTIONAL PB_LTYPE_FIXED32 tag 4 1 False"
  let ?ps = "SHas (if has then 1 else 0)" and ?m = "le_bytes 4 (unat v)"
  have ab: "field_absent (opt_float_field tag has v) \<longleftrightarrow> \<not> has"
    by (simp add: field_absent_def opt_float_field_def static_optional_fixed32 safe_read_bool_def)
  have v: "wire_scalar ?h (PRaw ?m) = (?m, True)"
    using wire_scalar_ltype(3) [of ?h ?m]
    by (simp add: static_optional_fixed32 del: wire_scalar.simps)
  have "wire_field (opt_float_field tag has v) =
      (if \<not> has then ([], True) else seqo (wire_tag_for_field ?h) (wire_scalar ?h (PRaw ?m)))"
    using ab wire_static [of ?h ?ps ?m]
    by (simp add: opt_float_field_def static_optional_fixed32 del: wire_field.simps wire_scalar.simps)
  also have "wire_tag_for_field ?h = (varint_ref (8 * unat tag + 5), True)"
    using wire_tag_ltype(4) [of ?h] by (simp add: static_optional_fixed32)
  finally show ?thesis
    using v not_extension [of PB_LTYPE_FIXED32]
    by (simp add: emits_def opt_rec_def seqo_def opt_float_field_def static_optional_fixed32
        del: wire_field.simps wire_scalar.simps)
qed

lemma oneof_absent: "field_absent (oneof_field PB_ATYPE_STATIC l cb tag n which d) \<longleftrightarrow> which \<noteq> tag"
  if "l \<in> {PB_LTYPE_BOOL, PB_LTYPE_SVARINT, PB_LTYPE_FIXED64, PB_LTYPE_SUBMESSAGE}"
  using type_parts [of PB_ATYPE_STATIC PB_HTYPE_ONEOF l] that
  by (auto simp: field_absent_def oneof_field_def Let_def)

lemma oneof_static_emits:
  assumes l: "l \<in> {PB_LTYPE_BOOL, PB_LTYPE_SVARINT, PB_LTYPE_FIXED64}"
    and h: "hh = mk_hdr PB_ATYPE_STATIC PB_HTYPE_ONEOF l tag n 1 cb"
    and v: "wire_scalar hh (PRaw m) = (put_val w, True)"
    and t: "wire_tag_for_field hh = (varint_ref (8 * unat tag + val_code w), True)"
  shows "emits (oneof_field PB_ATYPE_STATIC l cb tag n which (PRaw m))
    (if which = tag then [(unat tag, w)] else [])"
proof -
  have tp: "PB_ATYPE (h_type hh) = PB_ATYPE_STATIC" "PB_HTYPE (h_type hh) = PB_HTYPE_ONEOF"
    "PB_LTYPE (h_type hh) = l"
    using type_parts [of PB_ATYPE_STATIC PB_HTYPE_ONEOF l] l by (auto simp: h)
  have "wire_field (oneof_field PB_ATYPE_STATIC l cb tag n which (PRaw m)) =
      (if which = tag then seqo (wire_tag_for_field hh) (wire_scalar hh (PRaw m)) else ([], True))"
    using oneof_absent [of l cb tag n which "PRaw m"] l wire_static [of hh "SCount which" m]
    by (auto simp: oneof_field_def h [symmetric] tp simp del: wire_field.simps wire_scalar.simps)
  then show ?thesis
    using v t tp not_extension [of l] l
    by (auto simp: emits_def seqo_def oneof_field_def h [symmetric] simp del: wire_field.simps wire_scalar.simps)
qed

lemma oneof_int_emits:
  "emits (oneof_field PB_ATYPE_STATIC PB_LTYPE_SVARINT cb tag 8 which (PRaw (le_bytes 8 (unat v))))
     (if which = tag then sint_rec (unat tag) (sint (v :: u64)) else [])"
proof -
  let ?h = "mk_hdr PB_ATYPE_STATIC PB_HTYPE_ONEOF PB_LTYPE_SVARINT tag 8 1 cb"
  have tp: "PB_LTYPE (h_type ?h) = PB_LTYPE_SVARINT"
    using type_parts [of PB_ATYPE_STATIC PB_HTYPE_ONEOF PB_LTYPE_SVARINT] by simp
  have n: "PB_LTYPE_SVARINT \<noteq> PB_LTYPE_UVARINT" by (simp add: pb_type_defs)
  have v: "wire_scalar ?h (PRaw (le_bytes 8 (unat v))) = (put_val (WVarint (nat (zigzag_ref (sint v)))), True)"
    using wire_scalar_ltype(2) [of ?h "le_bytes 8 (unat v)"] tp n
    by (simp add: mem_signed_u64 del: wire_scalar.simps)
  have t: "wire_tag_for_field ?h = (varint_ref (8 * unat tag + val_code (WVarint k)), True)" for k
    using wire_tag_ltype(1) [of ?h] tp by simp
  show ?thesis
    using oneof_static_emits [OF _ refl v t, of which] by (cases "which = tag") (simp_all add: sint_rec_def)
qed

lemma oneof_double_emits:
  assumes "length m = 8"
  shows "emits (oneof_field PB_ATYPE_STATIC PB_LTYPE_FIXED64 cb tag 8 which (PRaw m))
     (if which = tag then [(unat tag, WI64 m)] else [])"
proof -
  let ?h = "mk_hdr PB_ATYPE_STATIC PB_HTYPE_ONEOF PB_LTYPE_FIXED64 tag 8 1 cb"
  have tp: "PB_LTYPE (h_type ?h) = PB_LTYPE_FIXED64"
    using type_parts [of PB_ATYPE_STATIC PB_HTYPE_ONEOF PB_LTYPE_FIXED64] by simp
  have v: "wire_scalar ?h (PRaw m) = (put_val (WI64 m), True)"
    using wire_scalar_ltype(3) [of ?h m] tp by (simp del: wire_scalar.simps)
  have t: "wire_tag_for_field ?h = (varint_ref (8 * unat tag + val_code (WI64 m)), True)"
    using wire_tag_ltype(2) [of ?h] tp by simp
  show ?thesis using oneof_static_emits [OF _ refl v t, of which] by simp
qed

lemma oneof_bool_emits:
  "emits (oneof_field PB_ATYPE_STATIC PB_LTYPE_BOOL cb tag 1 which (PRaw m))
     (if which = tag then [(unat tag, WVarint (if safe_read_bool m then 1 else 0))] else [])"
proof -
  let ?h = "mk_hdr PB_ATYPE_STATIC PB_HTYPE_ONEOF PB_LTYPE_BOOL tag 1 1 cb"
  let ?w = "WVarint (if safe_read_bool m then 1 else 0)"
  have tp: "PB_LTYPE (h_type ?h) = PB_LTYPE_BOOL"
    using type_parts [of PB_ATYPE_STATIC PB_HTYPE_ONEOF PB_LTYPE_BOOL] by simp
  have v: "wire_scalar ?h (PRaw m) = (put_val ?w, True)"
    using wire_scalar_ltype(4) [of ?h m] tp varint_ref_small [of 0] varint_ref_small [of 1]
    by (simp del: wire_scalar.simps varint_ref.simps)
  have t: "wire_tag_for_field ?h = (varint_ref (8 * unat tag + val_code ?w), True)"
    using wire_tag_ltype(1) [of ?h] tp by simp
  show ?thesis using oneof_static_emits [OF _ refl v t, of which] by simp
qed

section \<open>Submessages\<close>

lemma wire_submsg_ok:
  "length bs < 4294967296 \<Longrightarrow> wire_submsg (bs, True) = (put_val (WLen bs), True)"
  by (simp add: wire_submsg_def)

lemma oneof_submsg:
  "wire_field (oneof_field PB_ATYPE_STATIC PB_LTYPE_SUBMESSAGE cb tag n which (PSub None fs)) =
     (if which = tag then seqo (varint_ref (8 * unat tag + 2), True) (wire_submsg (wire_msg fs))
      else ([], True))"
  "wire_field (oneof_field PB_ATYPE_STATIC PB_LTYPE_SUBMESSAGE cb tag n which PNull) = ([], True)"
proof -
  let ?h = "mk_hdr PB_ATYPE_STATIC PB_HTYPE_ONEOF PB_LTYPE_SUBMESSAGE tag n 1 cb"
  have tp: "PB_ATYPE (h_type ?h) = PB_ATYPE_STATIC" "PB_HTYPE (h_type ?h) = PB_HTYPE_ONEOF"
    "PB_LTYPE (h_type ?h) = PB_LTYPE_SUBMESSAGE"
    using type_parts [of PB_ATYPE_STATIC PB_HTYPE_ONEOF PB_LTYPE_SUBMESSAGE] by simp_all
  have sm: "PB_LTYPE_IS_SUBMSG (h_type ?h)" using tp by (simp add: PB_LTYPE_IS_SUBMSG_def)
  have t: "wire_tag_for_field ?h = (varint_ref (8 * unat tag + 2), True)"
    using wire_tag_ltype(3) [of ?h] tp by simp
  show "wire_field (oneof_field PB_ATYPE_STATIC PB_LTYPE_SUBMESSAGE cb tag n which (PSub None fs)) =
     (if which = tag then seqo (varint_ref (8 * unat tag + 2), True) (wire_submsg (wire_msg fs))
      else ([], True))"
    using oneof_absent [of PB_LTYPE_SUBMESSAGE cb tag n which "PSub None fs"] tp sm t
    by (simp add: oneof_field_def wire_enc_submessage_def)
  show "wire_field (oneof_field PB_ATYPE_STATIC PB_LTYPE_SUBMESSAGE cb tag n which PNull) = ([], True)"
    using tp by (simp add: oneof_field_def)
qed

lemma oneof_submsg_emits:
  assumes "which = tag \<Longrightarrow> wire_msg fs = (bs, True) \<and> length bs < 4294967296"
  shows "emits (oneof_field PB_ATYPE_STATIC PB_LTYPE_SUBMESSAGE cb tag n which (PSub None fs))
     (if which = tag then [(unat tag, WLen bs)] else [])"
  using assms oneof_submsg(1) [of cb tag n which fs] not_extension [of PB_LTYPE_SUBMESSAGE]
    type_parts(3) [of PB_ATYPE_STATIC PB_HTYPE_ONEOF PB_LTYPE_SUBMESSAGE]
  by (auto simp: emits_def wire_submsg_ok seqo_def oneof_field_def simp del: wire_field.simps)

lemma oneof_null_emits:
  "emits (oneof_field PB_ATYPE_STATIC PB_LTYPE_SUBMESSAGE cb tag n which PNull) []"
  using oneof_submsg(2) not_extension [of PB_LTYPE_SUBMESSAGE]
    type_parts(3) [of PB_ATYPE_STATIC PB_HTYPE_ONEOF PB_LTYPE_SUBMESSAGE]
  by (auto simp: emits_def oneof_field_def simp del: wire_field.simps)

section \<open>Arrays of submessages\<close>

lemma unpacked_submsgs:
  assumes "PB_ATYPE (h_type h) = PB_ATYPE_STATIC" "PB_LTYPE (h_type h) = PB_LTYPE_SUBMESSAGE"
    and "list_all2 (\<lambda>fs bs. wire_msg fs = (bs, True) \<and> length bs < 4294967296) fss bss"
  shows "wire_unpacked h ps (length fss) (map (PSub None) fss @ ds) =
    (concat (map (\<lambda>bs. put_record (unat (h_tag h), WLen bs)) bss), True)"
  using assms(3)
proof (induction rule: list_all2_induct)
  case (Cons fs fss bs bss)
  have "wire_tag_for_field h = (varint_ref (8 * unat (h_tag h) + 2), True)"
    using wire_tag_ltype(3) [of h] assms(2) by simp
  then show ?case
    using Cons assms(1,2) by (simp add: PB_LTYPE_IS_SUBMSG_def wire_enc_submessage_def seqo_def wire_submsg_ok)
qed simp

lemma unpacked_submsg_fails:
  assumes "PB_ATYPE (h_type h) = PB_ATYPE_STATIC" "PB_LTYPE (h_type h) = PB_LTYPE_SUBMESSAGE"
    and "\<exists>fs \<in> set fss. \<not> snd (wire_msg fs)"
  shows "\<not> snd (wire_unpacked h ps (length fss) (map (PSub None) fss @ ds))"
  using assms(3)
proof (induction fss)
  case (Cons fs fss)
  have "wire_tag_for_field h = (varint_ref (8 * unat (h_tag h) + 2), True)"
    using wire_tag_ltype(3) [of h] assms(2) by simp
  then show ?case
    using Cons assms(1,2)
    by (auto simp: PB_LTYPE_IS_SUBMSG_def wire_enc_submessage_def seqo_def wire_submsg_def)
qed simp

text \<open>The field of an array of submessages, with the entries in use first.\<close>

definition submsg_array :: "u16 \<Rightarrow> u16 \<Rightarrow> u16 \<Rightarrow> u16 \<Rightarrow> pb_data list \<Rightarrow> pb_field" where
  "submsg_array tag n asize count ds =
     PbField (mk_hdr PB_ATYPE_STATIC PB_HTYPE_REPEATED PB_LTYPE_SUBMESSAGE tag n asize False)
       (SCount count) (PArr ds)"

lemma submsg_array_wire:
  assumes "unat count \<le> unat asize"
  shows "wire_field (submsg_array tag n asize count ds) =
    wire_unpacked (mk_hdr PB_ATYPE_STATIC PB_HTYPE_REPEATED PB_LTYPE_SUBMESSAGE tag n asize False)
      (SCount count) (unat count) ds"
proof -
  let ?h = "mk_hdr PB_ATYPE_STATIC PB_HTYPE_REPEATED PB_LTYPE_SUBMESSAGE tag n asize False"
  note tp = type_parts [of PB_ATYPE_STATIC PB_HTYPE_REPEATED PB_LTYPE_SUBMESSAGE, simplified]
  have "\<not> PB_LTYPE_SUBMESSAGE \<le> PB_LTYPE_LAST_PACKABLE" by (simp add: pb_type_defs)
  moreover have "\<not> count > asize" using assms by (simp add: word_less_nat_alt)
  moreover have "\<not> field_absent (submsg_array tag n asize count ds)"
    by (simp add: field_absent_def submsg_array_def tp)
  ultimately show ?thesis
    by (simp add: submsg_array_def tp)
qed

lemma submsg_array_emits:
  assumes "unat count = length fss" "unat count \<le> unat asize"
    and "list_all2 (\<lambda>fs bs. wire_msg fs = (bs, True) \<and> length bs < 4294967296) fss bss"
  shows "emits (submsg_array tag n asize count (map (PSub None) fss @ ds))
    (map (\<lambda>bs. (unat tag, WLen bs)) bss)"
proof -
  let ?h = "mk_hdr PB_ATYPE_STATIC PB_HTYPE_REPEATED PB_LTYPE_SUBMESSAGE tag n asize False"
  note tp = type_parts [of PB_ATYPE_STATIC PB_HTYPE_REPEATED PB_LTYPE_SUBMESSAGE, simplified]
  have "wire_unpacked ?h (SCount count) (length fss) (map (PSub None) fss @ ds) =
    (concat (map (\<lambda>bs. put_record (unat (h_tag ?h), WLen bs)) bss), True)"
    by (rule unpacked_submsgs [OF _ _ assms(3)]) (simp_all add: tp)
  moreover have "PB_LTYPE (h_type (fld_hdr (submsg_array tag n asize count (map (PSub None) fss @ ds))))
      \<noteq> PB_LTYPE_EXTENSION"
    using not_extension [of PB_LTYPE_SUBMESSAGE] by (simp add: submsg_array_def tp)
  ultimately show ?thesis
    using submsg_array_wire [OF assms(2), of tag n "map (PSub None) fss @ ds"] assms(1)
    by (simp add: emits_def comp_def)
qed

section \<open>Callback fields\<close>

definition callback_field :: "byte \<Rightarrow> byte \<Rightarrow> u16 \<Rightarrow> pb_psize \<Rightarrow> pb_cb option \<Rightarrow> pb_field" where
  "callback_field ht l tag ps f =
     PbField (mk_hdr PB_ATYPE_CALLBACK ht l tag 8 1 True) ps (PCallback f)"

lemma callback_field_wire:
  assumes "ht \<in> {PB_HTYPE_OPTIONAL, PB_HTYPE_REPEATED, PB_HTYPE_ONEOF}"
    "l \<in> {PB_LTYPE_STRING, PB_LTYPE_BYTES, PB_LTYPE_SUBMESSAGE}"
    "ht = PB_HTYPE_ONEOF \<Longrightarrow> ps = SCount which" "ht \<noteq> PB_HTYPE_ONEOF \<Longrightarrow> ps = SNull \<and> which = tag"
  shows "wire_field (callback_field ht l tag ps (Some f)) =
     (if which = tag then cb_out (f (mk_hdr PB_ATYPE_CALLBACK ht l tag 8 1 True)) else ([], True))"
proof -
  let ?h = "mk_hdr PB_ATYPE_CALLBACK ht l tag 8 1 True"
  have tp: "PB_ATYPE (h_type ?h) = PB_ATYPE_CALLBACK" "PB_HTYPE (h_type ?h) = ht" "PB_LTYPE (h_type ?h) = l"
    using type_parts [of PB_ATYPE_CALLBACK ht l] assms by auto
  have "field_absent (callback_field ht l tag ps (Some f)) \<longleftrightarrow> which \<noteq> tag"
    using assms tp by (auto simp: field_absent_def callback_field_def Let_def)
  then show ?thesis
    using tp by (simp add: callback_field_def wire_callback_field_def)
qed

lemma callback_field_emits:
  assumes "ht \<in> {PB_HTYPE_OPTIONAL, PB_HTYPE_REPEATED, PB_HTYPE_ONEOF}"
    "l \<in> {PB_LTYPE_STRING, PB_LTYPE_BYTES, PB_LTYPE_SUBMESSAGE}"
    "ht = PB_HTYPE_ONEOF \<Longrightarrow> ps = SCount which" "ht \<noteq> PB_HTYPE_ONEOF \<Longrightarrow> ps = SNull \<and> which = tag"
    and "which = tag \<Longrightarrow> cb_out (f (mk_hdr PB_ATYPE_CALLBACK ht l tag 8 1 True)) =
       (concat (map put_record rs), True)"
  shows "emits (callback_field ht l tag ps (Some f)) (if which = tag then rs else [])"
  using callback_field_wire [OF assms(1-4), of f] assms(5) not_extension [of l] assms(2)
    type_parts(3) [of PB_ATYPE_CALLBACK ht l] assms(1)
  by (auto simp: emits_def callback_field_def simp del: wire_field.simps put_record.simps)

lemma callback_null_emits:
  assumes "ht \<in> {PB_HTYPE_OPTIONAL, PB_HTYPE_REPEATED, PB_HTYPE_ONEOF}"
    "l \<in> {PB_LTYPE_STRING, PB_LTYPE_BYTES, PB_LTYPE_SUBMESSAGE}"
  shows "emits (callback_field ht l tag ps None) []"
  using type_parts [of PB_ATYPE_CALLBACK ht l] assms not_extension [of l]
  by (auto simp: emits_def callback_field_def wire_callback_field_def)

end
