(* ===== verification/EncodeEvent.thy ===== *)
theory EncodeEvent
  imports IngestWire TelemetryProps SignalFrame "HOL-Library.Signed_Division"
begin

text \<open>
  From queue items to the bytes of an upload (\<open>aetus.c\<close>, lines 96-124, 357-413 and 882-1067): the runtime
  context, the three encoder callbacks, and the functions that fill an \<open>IngestEvent\<close> and encode it.

  A function that fills a buffer and an encoded size returns \<open>Some\<close> of the bytes the buffer holds up
  to that size, and \<open>None\<close> where the code returns false. The heap is an argument wherever the code reads
  through a pointer. \<open>esp_timer_get_time()\<close> is the argument \<open>now_us\<close>, an \<open>int64_t\<close> of microseconds.
\<close>

section \<open>The runtime context\<close>

text \<open>
  \<open>aetus_ctx_t\<close>. A handle is the address FreeRTOS returned, 0 for \<open>NULL\<close>.
\<close>

record aetus_ctx =
  cx_config :: aetus_config
  cx_queue :: addr
  cx_events :: addr
  cx_upload_timer :: addr
  cx_sequence :: u64
  cx_boot_id :: "byte list"
  cx_wifi_started :: bool
  cx_wifi_reconfiguring :: bool
  cx_signal_pool_stats :: aetus_signal_sample_pool_stats

section \<open>Encoder callbacks\<close>

text \<open>The argument of a callback is what its \<open>arg\<close> pointer points at, \<open>None\<close> for \<open>NULL\<close>.\<close>

definition encode_string_callback :: "byte list option \<Rightarrow> pb_cb" where
  "encode_string_callback arg field =
     (let v = (case arg of None \<Rightarrow> [] | Some v \<Rightarrow> v) in
      seqw (pb_encode_tag_for_field field) (\<lambda>s. pb_encode_string s v (of_nat (strlen v))))"

record aetus_bytes_arg =
  ba_data :: "byte list option"
  ba_size :: size_t

definition encode_bytes_callback :: "aetus_bytes_arg option \<Rightarrow> pb_cb" where
  "encode_bytes_callback arg field =
     (case arg of
        None \<Rightarrow> (\<lambda>s. (False, s))
      | Some a \<Rightarrow>
          (case ba_data a of
             None \<Rightarrow> (\<lambda>s. (False, s))
           | Some bs \<Rightarrow>
               seqw (pb_encode_tag_for_field field) (\<lambda>s. pb_encode_string s bs (ba_size a))))"

definition fill_channel :: "aetus_signal_channel \<Rightarrow> pb_signal_channel" where
  "fill_channel source =
     \<lparr>pc_key = copy_string (replicate 20 0) 20 (Some (ch_key source)),
      pc_unit = copy_string (replicate 8 0) 8 (Some (ch_unit source)),
      pc_has_scale = ch_has_scale source, pc_scale = ch_scale source,
      pc_has_offset = ch_has_offset source, pc_offset = ch_offset source\<rparr>"

fun encode_channels :: "pb_hdr \<Rightarrow> aetus_signal_channel list \<Rightarrow> writer" where
  "encode_channels field [] = (\<lambda>s. (True, s))"
| "encode_channels field (c # cs) =
     seqw (pb_encode_tag_for_field field)
       (seqw (pb_encode_submessage (pb_encode (SignalChannel_fields (fill_channel c))))
         (encode_channels field cs))"

definition encode_signal_channels_callback :: "aetus_signal_frame option \<Rightarrow> pb_cb" where
  "encode_signal_channels_callback arg field =
     (case arg of
        None \<Rightarrow> (\<lambda>s. (True, s))
      | Some frame \<Rightarrow>
          let channel_count =
                (if unat (fr_channel_count frame) > AETUS_SIGNAL_CHANNELS_MAX
                 then AETUS_SIGNAL_CHANNELS_MAX else unat (fr_channel_count frame))
          in encode_channels field (take channel_count (fr_channels frame)))"

section \<open>Filling the event\<close>

definition pb_metric_set_init_zero :: pb_metric_set where
  "pb_metric_set_init_zero = \<lparr>ps_metrics_count = 0, ps_metrics = replicate 32 pb_metric_init_zero\<rparr>"

definition pb_ingest_event_init_zero :: pb_ingest_event where
  "pb_ingest_event_init_zero =
     \<lparr>pe_schema_version = 0, pe_device_id = replicate 32 0, pe_sequence = 0, pe_event_type = 0,
      pe_boot_id = replicate 32 0, pe_firmware_version = 0, pe_uptime_ms = 0, pe_timestamp_ns = 0,
      pe_which_body = 0,
      pe_body = Event_telemetry
        \<lparr>pt_which_payload = 0, pt_payload = Payload_metric_set pb_metric_set_init_zero\<rparr>\<rparr>"

definition fill_event_header :: "aetus_ctx \<Rightarrow> int \<Rightarrow> pb_ingest_event \<Rightarrow> pb_ingest_event" where
  "fill_event_header ctx now_us event =
     event\<lparr>pe_schema_version := 1,
       pe_device_id := copy_string (pe_device_id event) 32 (device_id (cx_config ctx)),
       pe_sequence := cx_sequence ctx,
       pe_boot_id := copy_string (pe_boot_id event) 32 (Some (cx_boot_id ctx)),
       pe_firmware_version := firmware_version (cx_config ctx),
       pe_uptime_ms := of_int (now_us sdiv 1000)\<rparr>"

definition fill_metric :: "heap \<Rightarrow> pb_metric \<Rightarrow> aetus_metric \<Rightarrow> pb_metric" where
  "fill_metric h target source =
     (let target = target\<lparr>pm_key := copy_string (pm_key target) 20 (Some (m_key source)),
                          pm_unit := copy_string (pm_unit target) 8 (Some (m_unit source))\<rparr>;
          blob = (if blob_data source = 0 then None else Some (blob_at h (blob_data source)))
      in case m_type source of
           AETUS_METRIC_VALUE_INT64 \<Rightarrow>
             target\<lparr>pm_which_value := 2, pm_value := le_bytes 8 (unat (m_value source))\<rparr>
         | AETUS_METRIC_VALUE_BOOL \<Rightarrow>
             target\<lparr>pm_which_value := 4,
                    pm_value := (if bool_value source \<noteq> 0 then 1 else 0) # tl (pm_value target)\<rparr>
         | AETUS_METRIC_VALUE_STRING \<Rightarrow>
             target\<lparr>pm_which_value := 5, pm_callback := Some (encode_string_callback blob)\<rparr>
         | AETUS_METRIC_VALUE_BYTES \<Rightarrow>
             target\<lparr>pm_which_value := 6,
                    pm_callback := Some (encode_bytes_callback
                      (Some \<lparr>ba_data = blob, ba_size = m_blob_size source\<rparr>))\<rparr>
         | _ \<Rightarrow> target\<lparr>pm_which_value := 3, pm_value := le_bytes 8 (unat (m_value source))\<rparr>)"

text \<open>
  The common end of the three encoders: a stream over the buffer, \<open>pb_encode\<close>, and on success the
  bytes written.
\<close>

definition encode_event :: "pb_ingest_event \<Rightarrow> size_t \<Rightarrow> byte list option" where
  "encode_event event buffer_size =
     (case pb_encode (IngestEvent_fields event) (pb_ostream_from_buffer buffer_size) of
        (ok, stream) \<Rightarrow>
          if \<not> ok then None
          else Some (case os_sink stream of None \<Rightarrow> []
                     | Some buffer \<Rightarrow> take (unat (os_bytes_written stream)) buffer))"

definition telemetry_event :: "aetus_ctx \<Rightarrow> int \<Rightarrow> heap \<Rightarrow> aetus_telemetry \<Rightarrow> pb_ingest_event" where
  "telemetry_event ctx now_us h t =
     (let metric_count = (if unat (t_metric_count t) > AETUS_MAX_METRICS then AETUS_MAX_METRICS
                          else unat (t_metric_count t));
          metrics = map (\<lambda>i. fill_metric h pb_metric_init_zero (metric_at t h i)) [0 ..< metric_count]
      in (fill_event_header ctx now_us pb_ingest_event_init_zero)
           \<lparr>pe_event_type := 1, pe_timestamp_ns := t_timestamp_ns t, pe_which_body := 10,
            pe_body := Event_telemetry
              \<lparr>pt_which_payload = 1,
               pt_payload = Payload_metric_set
                 \<lparr>ps_metrics_count = of_nat metric_count,
                  ps_metrics = metrics @ replicate (32 - metric_count) pb_metric_init_zero\<rparr>\<rparr>\<rparr>)"

definition encode_telemetry ::
  "aetus_ctx \<Rightarrow> int \<Rightarrow> heap \<Rightarrow> aetus_telemetry \<Rightarrow> size_t \<Rightarrow> byte list option" where
  "encode_telemetry ctx now_us h telemetry buffer_size =
     encode_event (telemetry_event ctx now_us h telemetry) buffer_size"

definition signal_frame_event :: "aetus_ctx \<Rightarrow> int \<Rightarrow> heap \<Rightarrow> aetus_signal_frame \<Rightarrow> pb_ingest_event" where
  "signal_frame_event ctx now_us h frame =
     (fill_event_header ctx now_us pb_ingest_event_init_zero)
       \<lparr>pe_event_type := 1, pe_timestamp_ns := fr_timestamp_ns frame, pe_which_body := 10,
        pe_body := Event_telemetry
          \<lparr>pt_which_payload = 2,
           pt_payload = Payload_signal_frame
             \<lparr>pf_stream_key = copy_string (replicate 32 0) 32 (Some (fr_stream_key frame)),
              pf_sample_interval_ns = fr_sample_interval_ns frame,
              pf_sample_count = fr_sample_count frame,
              pf_encoding = map_signal_encoding (fr_encoding frame),
              pf_layout = map_signal_layout (fr_layout frame),
              pf_channels = Some (encode_signal_channels_callback (Some frame)),
              pf_samples = Some (encode_bytes_callback
                (Some \<lparr>ba_data = (if fr_samples frame = Samples_null then None
                                   else Some (samples_at h (fr_samples frame))),
                       ba_size = fr_samples_size frame\<rparr>))\<rparr>\<rparr>\<rparr>"

definition encode_signal_frame ::
  "aetus_ctx \<Rightarrow> int \<Rightarrow> heap \<Rightarrow> aetus_signal_frame \<Rightarrow> size_t \<Rightarrow> byte list option" where
  "encode_signal_frame ctx now_us h frame buffer_size =
     (if validate_signal_frame (Some frame) \<noteq> ESP_OK then None
      else encode_event (signal_frame_event ctx now_us h frame) buffer_size)"

definition status_event :: "aetus_ctx \<Rightarrow> int \<Rightarrow> aetus_status \<Rightarrow> pb_ingest_event" where
  "status_event ctx now_us status =
     (fill_event_header ctx now_us pb_ingest_event_init_zero)
       \<lparr>pe_event_type := 2, pe_timestamp_ns := st_timestamp_ns status, pe_which_body := 11,
        pe_body := Event_status
          \<lparr>psp_status = map_device_status (st_status status), psp_rssi = st_rssi status,
           psp_free_heap = st_free_heap status,
           psp_reboot_reason = copy_string (replicate 24 0) 24 (Some (st_reboot_reason status))\<rparr>\<rparr>"

definition encode_status :: "aetus_ctx \<Rightarrow> int \<Rightarrow> aetus_status \<Rightarrow> size_t \<Rightarrow> byte list option" where
  "encode_status ctx now_us status buffer_size = encode_event (status_event ctx now_us status) buffer_size"

text \<open>
  \<open>encode_queue_item\<close> reads the member of the union that the kind names; an item whose union holds
  another member than its kind says cannot arise from the enqueue functions and encodes to nothing here.
\<close>

definition encode_queue_item ::
  "aetus_ctx \<Rightarrow> int \<Rightarrow> heap \<Rightarrow> aetus_queue_item \<Rightarrow> size_t \<Rightarrow> byte list option" where
  "encode_queue_item ctx now_us h item buffer_size =
     (if qi_kind item = AETUS_QUEUE_ITEM_STATUS then
        (case qi_body item of Body_status s \<Rightarrow> encode_status ctx now_us s buffer_size | _ \<Rightarrow> None)
      else if qi_kind item = AETUS_QUEUE_ITEM_SIGNAL_FRAME then
        (case qi_body item of
           Body_signal_frame f \<Rightarrow> encode_signal_frame ctx now_us h f buffer_size | _ \<Rightarrow> None)
      else
        (case qi_body item of
           Body_telemetry t \<Rightarrow> encode_telemetry ctx now_us h t buffer_size | _ \<Rightarrow> None))"

end
