(* ===== verification/EncodeWire.thy ===== *)
theory EncodeWire
  imports EncodeEvent
begin

text \<open>
  What each message of an upload puts on the wire: the records of metrics, channels, payloads and of
  the event, with bounds on their sizes.
\<close>

section \<open>Sizes of records\<close>

lemma length_put_len:
  assumes "t < 16" "length bs < 128 ^ k" "0 < k"
  shows "length (put_record (t, WLen bs)) \<le> 1 + k + length bs"
  using assms length_varint_ref [of k "length bs"] length_varint_ref [of 1 "8 * t + 2"] by simp

lemma length_put_int:
  assumes "t < 16" "v < 128 ^ k" "0 < k"
  shows "length (put_record (t, WVarint v)) \<le> 1 + k"
  using assms length_varint_ref [of k v] length_varint_ref [of 1 "8 * t"] by simp

lemma length_put_fixed:
  assumes "t < 15" "val_ok v" "v = WI64 bs \<or> v = WI32 bs"
  shows "length (put_record (t, v)) \<le> 1 + length bs"
  using assms length_varint_ref [of 1 "8 * t + 1"] length_varint_ref [of 1 "8 * t + 5"] by auto

definition wlen :: "(nat \<times> wval) list \<Rightarrow> nat" where
  "wlen rs = length (concat (map put_record rs))"

lemma wlen_simps [simp]:
  "wlen [] = 0" "wlen (r # rs) = length (put_record r) + wlen rs" "wlen (rs @ rs') = wlen rs + wlen rs'"
  by (simp_all add: wlen_def)

lemma wlen_str_rec: "t < 16 \<Longrightarrow> length s < 128 \<Longrightarrow> wlen (str_rec t s) \<le> 2 + length s"
  using length_put_len [of t s 1] by (simp add: str_rec_def del: put_record.simps)

lemma wlen_int_rec: "t < 16 \<Longrightarrow> v < 128 ^ k \<Longrightarrow> 0 < k \<Longrightarrow> wlen (int_rec t v) \<le> 1 + k"
  using length_put_int [of t v k] by (simp add: int_rec_def del: put_record.simps)

section \<open>The callbacks\<close>

text \<open>A tag followed by a length-delimited value is one record, and a callback nanopb can run twice.\<close>

lemma len_record_callback:
  assumes "PB_LTYPE (h_type fh) \<in> {PB_LTYPE_STRING, PB_LTYPE_BYTES}" "unat (h_tag fh) < 16"
    "length bs < 2 ^ 31" "writes_wire w (put_val (WLen bs), True)"
  shows "cb_out (seqw (pb_encode_tag_for_field fh) w) = (put_record (unat (h_tag fh), WLen bs), True)"
    and "cb_good (seqw (pb_encode_tag_for_field fh) w)"
proof -
  have "wire_tag_for_field fh = (varint_ref (8 * unat (h_tag fh) + 2), True)"
    using wire_tag_ltype(3) [of fh] assms(1) by auto
  then have "byte_writer (seqw (pb_encode_tag_for_field fh) w) (put_record (unat (h_tag fh), WLen bs)) True"
    using writes_wire_seqw [OF writes_wire_tag_for_field [of fh] assms(4)]
    by (simp add: seqo_def writes_wire_def)
  moreover have "length (put_record (unat (h_tag fh), WLen bs)) < 4294967296"
    using length_put_len [OF assms(2), of bs 5] assms(3) by simp
  ultimately show "cb_out (seqw (pb_encode_tag_for_field fh) w) = (put_record (unat (h_tag fh), WLen bs), True)"
    and "cb_good (seqw (pb_encode_tag_for_field fh) w)"
    by (rule cb_out_byte_writer, rule cb_good_byte_writer)
qed

lemma string_callback_wire:
  assumes "PB_LTYPE (h_type fh) \<in> {PB_LTYPE_STRING, PB_LTYPE_BYTES}" "unat (h_tag fh) < 16"
    "length (cstr v) < 2 ^ 31"
  shows "cb_out (encode_string_callback (Some v) fh) = (put_record (unat (h_tag fh), WLen (cstr v)), True)"
    and "cb_good (encode_string_callback (Some v) fh)"
proof -
  have u: "unat (of_nat (strlen v) :: size_t) = strlen v"
    using assms(3) by (intro unat_of_nat_small32) (simp add: strlen_def)
  have "take (strlen v) v = cstr v" using take_strlen [of "strlen v" v] by (simp add: strlen_def)
  moreover have "strlen v \<le> length v" by (simp add: strlen_def length_cstr_le)
  ultimately have "writes_wire (\<lambda>s. pb_encode_string s v (of_nat (strlen v))) (put_val (WLen (cstr v)), True)"
    using writes_wire_string [of "of_nat (strlen v)" v] u by (simp add: strlen_def)
  from len_record_callback [OF assms this]
  show "cb_out (encode_string_callback (Some v) fh) = (put_record (unat (h_tag fh), WLen (cstr v)), True)"
    and "cb_good (encode_string_callback (Some v) fh)"
    by (simp_all add: encode_string_callback_def)
qed

lemma bytes_callback_wire:
  assumes "PB_LTYPE (h_type fh) \<in> {PB_LTYPE_STRING, PB_LTYPE_BYTES}" "unat (h_tag fh) < 16"
    "unat n < 2 ^ 31" "unat n \<le> length v"
  shows "cb_out (encode_bytes_callback (Some \<lparr>ba_data = Some v, ba_size = n\<rparr>) fh) =
      (put_record (unat (h_tag fh), WLen (take (unat n) v)), True)"
    and "cb_good (encode_bytes_callback (Some \<lparr>ba_data = Some v, ba_size = n\<rparr>) fh)"
proof -
  have "writes_wire (\<lambda>s. pb_encode_string s v n) (put_val (WLen (take (unat n) v)), True)"
    using writes_wire_string [OF assms(4)] assms(4) by simp
  from len_record_callback [OF assms(1,2) _ this]
  show "cb_out (encode_bytes_callback (Some \<lparr>ba_data = Some v, ba_size = n\<rparr>) fh) =
      (put_record (unat (h_tag fh), WLen (take (unat n) v)), True)"
    and "cb_good (encode_bytes_callback (Some \<lparr>ba_data = Some v, ba_size = n\<rparr>) fh)"
    using assms(3,4) by (simp_all add: encode_bytes_callback_def)
qed

text \<open>A bytes callback without data fails.\<close>

lemma bytes_callback_null:
  "cb_out (encode_bytes_callback (Some \<lparr>ba_data = None, ba_size = n\<rparr>) fh) = ([], False)"
  "cb_good (encode_bytes_callback (Some \<lparr>ba_data = None, ba_size = n\<rparr>) fh)"
  using cb_out_byte_writer [OF byte_writer_false] cb_good_byte_writer [OF byte_writer_false]
  by (simp_all add: encode_bytes_callback_def)

section \<open>Metrics\<close>

definition value_recs :: "heap \<Rightarrow> aetus_metric \<Rightarrow> (nat \<times> wval) list" where
  "value_recs h m =
     (case m_type m of
        AETUS_METRIC_VALUE_INT64 \<Rightarrow> sint_rec 2 (sint (m_value m))
      | AETUS_METRIC_VALUE_BOOL \<Rightarrow> [(4, WVarint (if bool_value m \<noteq> 0 then 1 else 0))]
      | AETUS_METRIC_VALUE_STRING \<Rightarrow> [(5, WLen (cstr (blob_at h (blob_data m))))]
      | AETUS_METRIC_VALUE_BYTES \<Rightarrow> [(6, WLen (take (unat (m_blob_size m)) (blob_at h (blob_data m))))]
      | _ \<Rightarrow> [(3, WI64 (le_bytes 8 (unat (m_value m))))])"

definition metric_recs :: "heap \<Rightarrow> aetus_metric \<Rightarrow> (nat \<times> wval) list" where
  "metric_recs h m = str_rec 1 (cstr (m_key m)) @ value_recs h m @ str_rec 7 (cstr (m_unit m))"

text \<open>The one kind of metric the encoder cannot write: bytes without data.\<close>

definition encodable :: "aetus_metric \<Rightarrow> bool" where
  "encodable m \<longleftrightarrow> \<not> (m_type m = AETUS_METRIC_VALUE_BYTES \<and> blob_data m = 0)"

lemma metric_fields_alt:
  "Metric_fields m =
     [string_field True 1 20 (pm_key m),
      oneof_field PB_ATYPE_STATIC PB_LTYPE_SVARINT True 2 8 (pm_which_value m) (PRaw (pm_value m)),
      oneof_field PB_ATYPE_STATIC PB_LTYPE_FIXED64 True 3 8 (pm_which_value m) (PRaw (pm_value m)),
      oneof_field PB_ATYPE_STATIC PB_LTYPE_BOOL True 4 1 (pm_which_value m) (PRaw (take 1 (pm_value m))),
      callback_field PB_HTYPE_ONEOF PB_LTYPE_STRING 5 (SCount (pm_which_value m)) (pm_callback m),
      callback_field PB_HTYPE_ONEOF PB_LTYPE_BYTES 6 (SCount (pm_which_value m)) (pm_callback m),
      string_field True 7 8 (pm_unit m)]"
  by (simp add: Metric_fields_def oneof_field_def callback_field_def)

lemma copy_string_emits:
  assumes "length s = unat n" "length t = unat n" "strlen s < unat n" "n \<noteq> 0"
  shows "emits (string_field cb tag n (copy_string t (unat n) (Some s))) (str_rec (unat tag) (cstr s))"
proof -
  have n: "0 < unat n" using assms(4) by (simp add: unat_gt_0)
  have c: "cstr (copy_string t (unat n) (Some s)) = cstr s"
    using cstr_copy_string [OF n assms(2), of "Some s"] assms(3) by (simp add: strlen_def)
  show ?thesis
    using string_field_emits [of "copy_string t (unat n) (Some s)" n cb tag] assms c by (simp add: strlen_def)
qed

lemma oneof_absent_emits:
  assumes "l \<in> {PB_LTYPE_BOOL, PB_LTYPE_SVARINT, PB_LTYPE_FIXED64}" "which \<noteq> tag"
  shows "emits (oneof_field PB_ATYPE_STATIC l cb tag n which (PRaw m)) []"
proof -
  let ?h = "mk_hdr PB_ATYPE_STATIC PB_HTYPE_ONEOF l tag n 1 cb"
  have tp: "PB_ATYPE (h_type ?h) = PB_ATYPE_STATIC" "PB_HTYPE (h_type ?h) = PB_HTYPE_ONEOF"
    "PB_LTYPE (h_type ?h) = l"
    using type_parts [of PB_ATYPE_STATIC PB_HTYPE_ONEOF l] assms(1) by auto
  show ?thesis
    using oneof_absent [of l cb tag n which "PRaw m"] assms tp wire_static [of ?h "SCount which" m]
      not_extension [of l]
    by (auto simp: emits_def oneof_field_def simp del: wire_field.simps)
qed

lemma oneof_callback_emits:
  assumes "l \<in> {PB_LTYPE_STRING, PB_LTYPE_BYTES}"
    "which = tag \<Longrightarrow> \<exists>f. cb = Some f \<and>
       cb_out (f (mk_hdr PB_ATYPE_CALLBACK PB_HTYPE_ONEOF l tag 8 1 True)) = (put_record r, True)"
  shows "emits (callback_field PB_HTYPE_ONEOF l tag (SCount which) cb) (if which = tag then [r] else [])"
proof (cases cb)
  case None
  then show ?thesis using assms callback_null_emits [of PB_HTYPE_ONEOF l tag "SCount which"] by auto
next
  case (Some f)
  have "emits (callback_field PB_HTYPE_ONEOF l tag (SCount which) (Some f)) (if which = tag then [r] else [])"
    by (rule callback_field_emits) (use assms Some in \<open>auto simp del: put_record.simps\<close>)
  then show ?thesis by (simp add: Some)
qed

lemma callback_ltype:
  "l \<in> {PB_LTYPE_STRING, PB_LTYPE_BYTES, PB_LTYPE_SUBMESSAGE} \<Longrightarrow>
   ht \<in> {PB_HTYPE_OPTIONAL, PB_HTYPE_REPEATED, PB_HTYPE_ONEOF} \<Longrightarrow>
   PB_LTYPE (h_type (mk_hdr PB_ATYPE_CALLBACK ht l tag 8 1 True)) = l"
  using type_parts(3) [of PB_ATYPE_CALLBACK ht l] by auto

lemma metric_msg_wire:
  assumes "emits (string_field True 1 20 (pm_key pm)) ks" "emits (string_field True 7 8 (pm_unit pm)) us"
    and "length (pm_value pm) = 8" "pm_which_value pm \<in> {2, 3, 4, 5, 6}"
    and "pm_which_value pm = 2 \<Longrightarrow> pm_value pm = le_bytes 8 (unat (v :: u64))"
    and "pm_which_value pm = 5 \<Longrightarrow> \<exists>f. pm_callback pm = Some f \<and>
      cb_out (f (mk_hdr PB_ATYPE_CALLBACK PB_HTYPE_ONEOF PB_LTYPE_STRING 5 8 1 True)) = (put_record r, True)"
    and "pm_which_value pm = 6 \<Longrightarrow> \<exists>f. pm_callback pm = Some f \<and>
      cb_out (f (mk_hdr PB_ATYPE_CALLBACK PB_HTYPE_ONEOF PB_LTYPE_BYTES 6 8 1 True)) = (put_record r, True)"
  shows "wire_msg (Metric_fields pm) = (concat (map put_record (ks @
      (if pm_which_value pm = 2 then sint_rec 2 (sint v)
       else if pm_which_value pm = 3 then [(3, WI64 (pm_value pm))]
       else if pm_which_value pm = 4 then
         [(4, WVarint (if safe_read_bool (take 1 (pm_value pm)) then 1 else 0))]
       else [r]) @ us)), True)"
proof -
  let ?w = "pm_which_value pm"
  have "list_all2 emits (Metric_fields pm)
     [ks, if ?w = 2 then sint_rec 2 (sint v) else [], if ?w = 3 then [(3, WI64 (pm_value pm))] else [],
      if ?w = 4 then [(4, WVarint (if safe_read_bool (take 1 (pm_value pm)) then 1 else 0))] else [],
      if ?w = 5 then [r] else [], if ?w = 6 then [r] else [], us]"
    unfolding metric_fields_alt list_all2_Cons
    using assms oneof_int_emits [of True 2 ?w v] oneof_double_emits [OF assms(3), of True 3 ?w]
      oneof_bool_emits [of True 4 ?w "take 1 (pm_value pm)"]
      oneof_callback_emits [of PB_LTYPE_STRING ?w 5 "pm_callback pm" r]
      oneof_callback_emits [of PB_LTYPE_BYTES ?w 6 "pm_callback pm" r]
      oneof_absent_emits [of PB_LTYPE_SVARINT ?w 2 True 8 "pm_value pm"]
    by (cases "?w = 2") auto
  from emits_msg [OF this] show ?thesis
    using assms(4) by (auto simp del: put_record.simps)
qed

lemma string_blob:
  assumes "metric_ok h m" "m_type m = AETUS_METRIC_VALUE_STRING"
  obtains bs where "blocks h (blob_data m) = Some (Blob bs)" "blob_data m \<noteq> 0"
    "length (cstr bs) \<le> unat (m_blob_size m)"
proof -
  obtain bs where bs: "blocks h (blob_data m) = Some (Blob bs)" "length bs = Suc (unat (m_blob_size m))"
      "bs ! unat (m_blob_size m) = 0" "blob_data m \<noteq> 0"
    using assms by (auto simp: metric_ok_def split: option.splits block.splits)
  have "length (cstr bs) \<le> unat (m_blob_size m)"
    using bs takeWhile_nth [of "unat (m_blob_size m)" "\<lambda>b. b \<noteq> 0" bs] nth_length_takeWhile
    by (metis (mono_tags, lifting) cstr_def linorder_not_le nth_mem set_takeWhileD)
  with bs that show thesis by blast
qed

lemma metric_wire:
  assumes "metric_ok h m" "encodable m" "unat (m_blob_size m) < 2 ^ 31"
  shows "wire_msg (Metric_fields (fill_metric h pb_metric_init_zero m)) =
    (concat (map put_record (metric_recs h m)), True)"
proof -
  let ?pm = "fill_metric h pb_metric_init_zero m"
  have k: "emits (string_field True 1 20 (pm_key ?pm)) (str_rec 1 (cstr (m_key m)))"
    and u: "emits (string_field True 7 8 (pm_unit ?pm)) (str_rec 7 (cstr (m_unit m)))"
    using copy_string_emits [of "m_key m" 20 "replicate 20 0" True 1]
      copy_string_emits [of "m_unit m" 8 "replicate 8 0" True 7] assms(1)
    by (simp_all add: metric_ok_def fill_metric_def pb_metric_init_zero_def c_defs Let_def
        split: aetus_metric_value_type.split)
  have f5: "cb_out (encode_string_callback (Some v) (mk_hdr PB_ATYPE_CALLBACK PB_HTYPE_ONEOF PB_LTYPE_STRING 5 8 1 True))
      = (put_record (5, WLen (cstr v)), True)" if "length (cstr v) < 2 ^ 31" for v
    using string_callback_wire(1) [OF _ _ that] callback_ltype [of PB_LTYPE_STRING PB_HTYPE_ONEOF 5] by simp
  have f6: "cb_out (encode_bytes_callback (Some \<lparr>ba_data = Some v, ba_size = n\<rparr>)
        (mk_hdr PB_ATYPE_CALLBACK PB_HTYPE_ONEOF PB_LTYPE_BYTES 6 8 1 True))
      = (put_record (6, WLen (take (unat n) v)), True)" if "unat n < 2 ^ 31" "unat n \<le> length v" for v n
    using bytes_callback_wire(1) [OF _ _ that] callback_ltype [of PB_LTYPE_BYTES PB_HTYPE_ONEOF 6] by simp
  show ?thesis
  proof (cases "m_type m")
    case AETUS_METRIC_VALUE_INT64
    then show ?thesis
      using metric_msg_wire [OF k u, of "m_value m" undefined]
      by (simp add: fill_metric_def Let_def metric_recs_def value_recs_def del: put_record.simps)
  next
    case AETUS_METRIC_VALUE_DOUBLE
    then show ?thesis
      using metric_msg_wire [OF k u, of "m_value m" undefined]
      by (simp add: fill_metric_def Let_def metric_recs_def value_recs_def del: put_record.simps)
  next
    case AETUS_METRIC_VALUE_BOOL
    then show ?thesis
      using metric_msg_wire [OF k u, of "m_value m" undefined]
      by (simp add: fill_metric_def Let_def metric_recs_def value_recs_def pb_metric_init_zero_def
          safe_read_bool_def del: put_record.simps)
  next
    case AETUS_METRIC_VALUE_STRING
    then obtain bs where bs: "blocks h (blob_data m) = Some (Blob bs)" "blob_data m \<noteq> 0"
        "length (cstr bs) \<le> unat (m_blob_size m)"
      using string_blob [OF assms(1)] by blast
    then have "length (cstr bs) < 2 ^ 31" using assms(3) by linarith
    with bs AETUS_METRIC_VALUE_STRING show ?thesis
      using metric_msg_wire [OF k u, of "m_value m" "(5, WLen (cstr bs))"] f5 [of bs]
      by (simp add: fill_metric_def Let_def metric_recs_def value_recs_def pb_metric_init_zero_def
          blob_at_def del: put_record.simps)
  next
    case AETUS_METRIC_VALUE_BYTES
    then obtain bs where bs: "blocks h (blob_data m) = Some (Blob bs)" "length bs = unat (m_blob_size m)"
        "blob_data m \<noteq> 0"
      using assms(1,2) by (auto simp: metric_ok_def encodable_def split: option.splits block.splits)
    with AETUS_METRIC_VALUE_BYTES show ?thesis
      using metric_msg_wire [OF k u, of "m_value m" "(6, WLen bs)"] f6 [of "m_blob_size m" bs] assms(3)
      by (simp add: fill_metric_def Let_def metric_recs_def value_recs_def pb_metric_init_zero_def
          blob_at_def del: put_record.simps)
  next
    case (METRIC_VALUE_OTHER x)
    then show ?thesis
      using metric_msg_wire [OF k u, of "m_value m" undefined]
      by (simp add: fill_metric_def Let_def metric_recs_def value_recs_def del: put_record.simps)
  qed
qed

section \<open>Well-formed messages\<close>

lemma wf_field_simps [simp]:
  "wf_field (string_field cb tag n s) \<longleftrightarrow> length s = unat n"
  "wf_field (uint_field cb tag n v)" "wf_field (sint_field cb tag n v)"
  "wf_field (opt_float_field tag has fv)"
  "wf_field (oneof_field PB_ATYPE_STATIC PB_LTYPE_SVARINT cb tag n which (PRaw m)) \<longleftrightarrow> length m = unat n"
  "wf_field (oneof_field PB_ATYPE_STATIC PB_LTYPE_FIXED64 cb tag n which (PRaw m)) \<longleftrightarrow> length m = unat n"
  "wf_field (oneof_field PB_ATYPE_STATIC PB_LTYPE_BOOL cb tag n which (PRaw m)) \<longleftrightarrow> length m = unat n"
  "wf_field (oneof_field PB_ATYPE_STATIC PB_LTYPE_SUBMESSAGE cb tag n which (PSub None fs)) \<longleftrightarrow> wf_fields fs"
  "wf_field (oneof_field PB_ATYPE_STATIC PB_LTYPE_SUBMESSAGE cb tag n which PNull)"
  "wf_field (callback_field ht l tag ps None)"
  "wf_field (callback_field ht l tag ps (Some f)) \<longleftrightarrow> cb_good (f (mk_hdr PB_ATYPE_CALLBACK ht l tag 8 1 True))"
  using type_parts(1) [of PB_ATYPE_STATIC PB_HTYPE_ONEOF PB_LTYPE_SVARINT]
    type_parts(1) [of PB_ATYPE_STATIC PB_HTYPE_ONEOF PB_LTYPE_FIXED64]
    type_parts(1) [of PB_ATYPE_STATIC PB_HTYPE_ONEOF PB_LTYPE_BOOL]
  by (simp_all add: string_field_def uint_field_def sint_field_def opt_float_field_def oneof_field_def
    callback_field_def static_optional_string)

lemma wf_submsg_array [simp]:
  "wf_field (submsg_array tag n asize count (map (PSub None) fss)) \<longleftrightarrow>
     unat asize \<le> length fss \<and> (\<forall>fs \<in> set fss. wf_fields fs)"
proof -
  note tp = type_parts [of PB_ATYPE_STATIC PB_HTYPE_REPEATED PB_LTYPE_SUBMESSAGE, simplified]
  have "\<not> PB_LTYPE_SUBMESSAGE \<le> PB_LTYPE_LAST_PACKABLE" by (simp add: pb_type_defs)
  moreover have "wf_entries h (map (PSub None) fss) \<longleftrightarrow> (\<forall>fs \<in> set fss. wf_fields fs)" for h
    by (induction fss) auto
  ultimately show ?thesis by (auto simp: submsg_array_def tp)
qed

lemma zero_metric_wf: "wf_fields (Metric_fields pb_metric_init_zero)"
  by (simp add: metric_fields_alt pb_metric_init_zero_def)

lemma fill_metric_wf:
  assumes "metric_ok h m" "unat (m_blob_size m) < 2 ^ 31"
  shows "wf_fields (Metric_fields (fill_metric h pb_metric_init_zero m))"
proof -
  have lk: "length (m_key m) = 20" "length (m_unit m) = 8"
    using assms(1) by (simp_all add: metric_ok_def c_defs)
  note cl = callback_ltype [of _ PB_HTYPE_ONEOF, simplified]
  have s: "cb_good (encode_string_callback (Some v) (mk_hdr PB_ATYPE_CALLBACK PB_HTYPE_ONEOF PB_LTYPE_STRING 5 8 1 True))"
    "cb_good (encode_string_callback (Some v) (mk_hdr PB_ATYPE_CALLBACK PB_HTYPE_ONEOF PB_LTYPE_BYTES 6 8 1 True))"
    if "length (cstr v) < 2 ^ 31" for v
    using string_callback_wire(2) [OF _ _ that] cl by simp_all
  have b: "cb_good (encode_bytes_callback (Some \<lparr>ba_data = Some v, ba_size = n\<rparr>)
        (mk_hdr PB_ATYPE_CALLBACK PB_HTYPE_ONEOF PB_LTYPE_STRING 5 8 1 True))"
    "cb_good (encode_bytes_callback (Some \<lparr>ba_data = Some v, ba_size = n\<rparr>)
        (mk_hdr PB_ATYPE_CALLBACK PB_HTYPE_ONEOF PB_LTYPE_BYTES 6 8 1 True))"
    if "unat n < 2 ^ 31" "unat n \<le> length v" for v n
    using bytes_callback_wire(2) [OF _ _ that] cl by simp_all
  show ?thesis
  proof (cases "m_type m")
    case AETUS_METRIC_VALUE_STRING
    then obtain bs where bs: "blocks h (blob_data m) = Some (Blob bs)" "blob_data m \<noteq> 0"
        "length (cstr bs) \<le> unat (m_blob_size m)"
      using string_blob [OF assms(1)] by blast
    then have "length (cstr bs) < 2 ^ 31" using assms(2) by linarith
    note s = s [OF this]
    with bs AETUS_METRIC_VALUE_STRING show ?thesis
      by (simp add: metric_fields_alt fill_metric_def Let_def pb_metric_init_zero_def
          blob_at_def lk)
  next
    case AETUS_METRIC_VALUE_BYTES
    show ?thesis
    proof (cases "blob_data m = 0")
      case True
      with AETUS_METRIC_VALUE_BYTES show ?thesis
        by (simp add: metric_fields_alt fill_metric_def Let_def pb_metric_init_zero_def lk bytes_callback_null)
    next
      case False
      then obtain bs where bs: "blocks h (blob_data m) = Some (Blob bs)" "length bs = unat (m_blob_size m)"
        using assms(1) AETUS_METRIC_VALUE_BYTES
        by (auto simp: metric_ok_def split: option.splits block.splits)
      with AETUS_METRIC_VALUE_BYTES False show ?thesis
        using b [of "m_blob_size m" bs] assms(2)
        by (simp add: metric_fields_alt fill_metric_def Let_def pb_metric_init_zero_def blob_at_def lk)
    qed
  qed (simp_all add: metric_fields_alt fill_metric_def Let_def pb_metric_init_zero_def lk)
qed

section \<open>The event\<close>

lemma wire_msg_append: "wire_msg (fs @ gs) = seqo (wire_msg fs) (wire_msg gs)"
  by (induction fs) (auto simp: seqo_def)

lemma wf_fields_append: "wf_fields (fs @ gs) \<longleftrightarrow> wf_fields fs \<and> wf_fields gs"
  by (induction fs) auto

definition header_fields :: "pb_ingest_event \<Rightarrow> pb_field list" where
  "header_fields e =
     [uint_field False 1 4 (unat (pe_schema_version e)),
      string_field False 2 32 (pe_device_id e),
      uint_field False 3 8 (unat (pe_sequence e)),
      uint_field False 4 4 (unat (pe_event_type e)),
      string_field False 5 32 (pe_boot_id e),
      uint_field False 6 4 (unat (pe_firmware_version e)),
      uint_field False 7 8 (unat (pe_uptime_ms e)),
      uint_field False 8 8 (unat (pe_timestamp_ns e))]"

definition header_recs :: "pb_ingest_event \<Rightarrow> (nat \<times> wval) list" where
  "header_recs e =
     int_rec 1 (unat (pe_schema_version e)) @ str_rec 2 (cstr (pe_device_id e)) @
     int_rec 3 (unat (pe_sequence e)) @ int_rec 4 (unat (pe_event_type e)) @
     str_rec 5 (cstr (pe_boot_id e)) @ int_rec 6 (unat (pe_firmware_version e)) @
     int_rec 7 (unat (pe_uptime_ms e)) @ int_rec 8 (unat (pe_timestamp_ns e))"

text \<open>An event whose header strings are terminated and whose selector names the body it holds.\<close>

definition header_ok :: "pb_ingest_event \<Rightarrow> bool" where
  "header_ok e \<longleftrightarrow>
     length (pe_device_id e) = 32 \<and> strlen (pe_device_id e) < 32 \<and>
     length (pe_boot_id e) = 32 \<and> strlen (pe_boot_id e) < 32"

definition body_fields :: "pb_body \<Rightarrow> pb_field list" where
  "body_fields b = (case b of Event_telemetry t \<Rightarrow> TelemetryPayload_fields t
     | Event_status s \<Rightarrow> StatusPayload_fields s | Event_alert a \<Rightarrow> AlertPayload_fields a)"

definition body_tag :: "pb_body \<Rightarrow> u16" where
  "body_tag b = (case b of Event_telemetry t \<Rightarrow> 10 | Event_status s \<Rightarrow> 11 | Event_alert a \<Rightarrow> 12)"

lemma unat_u64_256: "unat (v :: u64) < 256 ^ 8"
  using unsigned_less [of v, where 'a = nat] by simp

lemma uint_word_emits:
  "unat tag = k \<Longrightarrow> emits (uint_field cb tag 4 (unat (v :: u32))) (int_rec k (unat v))"
  "unat tag = k \<Longrightarrow> emits (uint_field cb tag 8 (unat (u :: u64))) (int_rec k (unat u))"
  using uint_field_emits [of 4 "unat v" cb tag] uint_field_emits [of 8 "unat u" cb tag] unat_u64_256 [of u]
  by auto

lemma header_wire:
  assumes "header_ok e"
  shows "wire_msg (header_fields e) = (concat (map put_record (header_recs e)), True)"
proof -
  have "list_all2 emits (header_fields e)
     [int_rec 1 (unat (pe_schema_version e)), str_rec 2 (cstr (pe_device_id e)),
      int_rec 3 (unat (pe_sequence e)), int_rec 4 (unat (pe_event_type e)),
      str_rec 5 (cstr (pe_boot_id e)), int_rec 6 (unat (pe_firmware_version e)),
      int_rec 7 (unat (pe_uptime_ms e)), int_rec 8 (unat (pe_timestamp_ns e))]"
    using assms string_field_emits [of "pe_device_id e" 32 False 2]
      string_field_emits [of "pe_boot_id e" 32 False 5]
    by (simp add: header_fields_def header_ok_def uint_word_emits)
  from emits_msg [OF this] show ?thesis by (simp add: header_recs_def)
qed

lemma oneof_submsg_not_extension:
  "PB_LTYPE (h_type (fld_hdr (oneof_field PB_ATYPE_STATIC PB_LTYPE_SUBMESSAGE cb tag n which d))) \<noteq> PB_LTYPE_EXTENSION"
  using not_extension [of PB_LTYPE_SUBMESSAGE]
    type_parts(3) [of PB_ATYPE_STATIC PB_HTYPE_ONEOF PB_LTYPE_SUBMESSAGE] by (simp add: oneof_field_def)

lemma wire_msg_field:
  "PB_LTYPE (h_type (fld_hdr f)) \<noteq> PB_LTYPE_EXTENSION \<Longrightarrow> wire_msg (f # fs) = seqo (wire_field f) (wire_msg fs)"
  by (cases f) (simp del: wire_field.simps)

lemma seqo_ok_right [simp]: "seqo w ([], True) = w" "seqo ([], True) w = w"
  by (cases w; simp add: seqo_def)+

lemma body_wire:
  assumes "pe_which_body e = body_tag (pe_body e)"
  shows "wire_msg (IngestEvent_fields e) = seqo (wire_msg (header_fields e))
    (seqo (varint_ref (8 * unat (body_tag (pe_body e)) + 2), True)
      (wire_submsg (wire_msg (body_fields (pe_body e)))))"
proof -
  have split: "IngestEvent_fields e = header_fields e @
     [oneof_field PB_ATYPE_STATIC PB_LTYPE_SUBMESSAGE False 10 1296 (pe_which_body e)
        (case pe_body e of Event_telemetry t \<Rightarrow> PSub None (TelemetryPayload_fields t) | _ \<Rightarrow> PNull),
      oneof_field PB_ATYPE_STATIC PB_LTYPE_SUBMESSAGE False 11 36 (pe_which_body e)
        (case pe_body e of Event_status s \<Rightarrow> PSub None (StatusPayload_fields s) | _ \<Rightarrow> PNull),
      oneof_field PB_ATYPE_STATIC PB_LTYPE_SUBMESSAGE False 12 108 (pe_which_body e)
        (case pe_body e of Event_alert a \<Rightarrow> PSub None (AlertPayload_fields a) | _ \<Rightarrow> PNull)]"
    by (simp add: IngestEvent_fields_def header_fields_def)
  show ?thesis
    unfolding split wire_msg_append wire_msg_field [OF oneof_submsg_not_extension]
    using assms by (cases "pe_body e") (simp_all add: oneof_submsg body_tag_def body_fields_def)
qed

lemma body_wf:
  assumes "header_ok e" "wf_fields (body_fields (pe_body e))"
  shows "wf_fields (IngestEvent_fields e)"
  using assms by (cases "pe_body e") (simp_all add: IngestEvent_fields_def header_ok_def body_fields_def)

lemma event_wire:
  assumes "header_ok e" "pe_which_body e = body_tag (pe_body e)"
    "wire_msg (body_fields (pe_body e)) = (bs, True)" "length bs < 4294967296"
  shows "wire_msg (IngestEvent_fields e) =
    (concat (map put_record (header_recs e @ [(unat (body_tag (pe_body e)), WLen bs)])), True)"
  using body_wire [OF assms(2)] header_wire [OF assms(1)] assms(3,4)
  by (simp add: wire_submsg_ok seqo_def)

lemma event_fails:
  assumes "pe_which_body e = body_tag (pe_body e)" "\<not> snd (wire_msg (body_fields (pe_body e)))"
  shows "\<not> snd (wire_msg (IngestEvent_fields e))"
  using body_wire [OF assms(1)] assms(2) by (auto simp: seqo_def wire_submsg_def)

text \<open>The header takes at most 109 bytes.\<close>

lemma header_size:
  assumes "header_ok e" "pe_schema_version e = 1" "unat (pe_event_type e) < 128"
  shows "wlen (header_recs e) \<le> 109"
proof -
  have w: "unat (v :: u32) < 128 ^ 5" "unat (u :: u64) < 128 ^ 10" for v u
    by (rule order_less_trans [OF unat_u32_lt], simp) (rule order_less_trans [OF unat_u64_256], simp)
  note str = wlen_str_rec [of 2 "cstr (pe_device_id e)"] wlen_str_rec [of 5 "cstr (pe_boot_id e)"]
  note int = wlen_int_rec [of 1 "unat (pe_schema_version e)" 1] wlen_int_rec [of 4 "unat (pe_event_type e)" 1]
    wlen_int_rec [of 3 "unat (pe_sequence e)" 10] wlen_int_rec [of 6 "unat (pe_firmware_version e)" 5]
    wlen_int_rec [of 7 "unat (pe_uptime_ms e)" 10] wlen_int_rec [of 8 "unat (pe_timestamp_ns e)" 10]
  have "wlen (str_rec 2 (cstr (pe_device_id e))) \<le> 33" "wlen (str_rec 5 (cstr (pe_boot_id e))) \<le> 33"
    using str assms(1) by (simp_all add: header_ok_def strlen_def)
  moreover have "wlen (int_rec 1 (unat (pe_schema_version e))) \<le> 2" "wlen (int_rec 4 (unat (pe_event_type e))) \<le> 2"
    "wlen (int_rec 3 (unat (pe_sequence e))) \<le> 11" "wlen (int_rec 6 (unat (pe_firmware_version e))) \<le> 6"
    "wlen (int_rec 7 (unat (pe_uptime_ms e))) \<le> 11" "wlen (int_rec 8 (unat (pe_timestamp_ns e))) \<le> 11"
    using int w assms(2,3) by simp_all
  ultimately show ?thesis by (simp add: header_recs_def)
qed

section \<open>Running the encoder\<close>

lemma encode_event_result:
  assumes "wf_fields (IngestEvent_fields e)" "length (fst (wire_msg (IngestEvent_fields e))) < 4294967296"
  shows "encode_event e n =
    (if snd (wire_msg (IngestEvent_fields e)) \<and> length (fst (wire_msg (IngestEvent_fields e))) \<le> unat n
     then Some (fst (wire_msg (IngestEvent_fields e))) else None)"
proof -
  note enc = encode_byte_writer [OF assms(1)]
  show ?thesis
  proof (cases "length (fst (wire_msg (IngestEvent_fields e))) \<le> unat n")
    case True
    from byte_writer.fresh_buffer_ok [OF enc True] show ?thesis
      using True assms(2) by (auto simp: encode_event_def unat_of_nat_small32 split: prod.split)
  next
    case False
    from byte_writer.fresh_buffer_full [OF enc, of n] show ?thesis
      using False assms(2) by (auto simp: encode_event_def not_le split: prod.split)
  qed
qed

end
