(* ===== verification/EventDecode.thy ===== *)
theory EventDecode
  imports EncodeWire
begin

text \<open>
  A reader of ingest events, written from the protobuf wire format: the last record of a tag counts, a
  missing one is the default, repeated submessages are collected in order. It is the specification of
  what the bytes of an upload say, independent of how the firmware produces them.
\<close>

section \<open>Fields of a record list\<close>

definition field_of :: "nat \<Rightarrow> (nat \<times> wval) list \<Rightarrow> wval option" where
  "field_of tag rs =
     (let xs = filter (\<lambda>r. fst r = tag) rs in if xs = [] then None else Some (snd (last xs)))"

definition get_str :: "nat \<Rightarrow> (nat \<times> wval) list \<Rightarrow> byte list" where
  "get_str tag rs = (case field_of tag rs of Some (WLen bs) \<Rightarrow> bs | _ \<Rightarrow> [])"

definition get_uint :: "nat \<Rightarrow> (nat \<times> wval) list \<Rightarrow> nat" where
  "get_uint tag rs = (case field_of tag rs of Some (WVarint n) \<Rightarrow> n | _ \<Rightarrow> 0)"

definition get_float :: "nat \<Rightarrow> (nat \<times> wval) list \<Rightarrow> u32 option" where
  "get_float tag rs = (case field_of tag rs of Some (WI32 bs) \<Rightarrow> Some (of_nat (of_le bs)) | _ \<Rightarrow> None)"

definition get_subs :: "nat \<Rightarrow> (nat \<times> wval) list \<Rightarrow> byte list list" where
  "get_subs tag rs = concat (map (\<lambda>(t, v). if t = tag then (case v of WLen bs \<Rightarrow> [bs] | _ \<Rightarrow> []) else []) rs)"

section \<open>Messages\<close>

definition decode_value :: "(nat \<times> wval) list \<Rightarrow> metric_value option" where
  "decode_value rs =
     (case filter (\<lambda>r. fst r \<in> {2, 3, 4, 5, 6}) rs of
        [] \<Rightarrow> None
      | xs \<Rightarrow>
          (case last xs of (t, v) \<Rightarrow>
             (case v of
                WVarint n \<Rightarrow> if t = 2 then Some (Int_value (of_int (unzigzag_ref (int n))))
                             else if t = 4 then Some (Bool_value (n \<noteq> 0)) else None
              | WI64 bs \<Rightarrow> if t = 3 then Some (Double_value (of_nat (of_le bs))) else None
              | WLen bs \<Rightarrow> if t = 5 then Some (String_value bs)
                           else if t = 6 then Some (Bytes_value bs) else None
              | WI32 bs \<Rightarrow> None)))"

definition decode_metric :: "byte list \<Rightarrow> (byte list \<times> byte list \<times> metric_value) option" where
  "decode_metric bs =
     (case get_records bs of None \<Rightarrow> None
      | Some rs \<Rightarrow>
          (case decode_value rs of None \<Rightarrow> None | Some v \<Rightarrow> Some (get_str 1 rs, get_str 7 rs, v)))"

record decoded_channel =
  dc_key :: "byte list"
  dc_unit :: "byte list"
  dc_scale :: "u32 option"
  dc_offset :: "u32 option"

definition decode_channel :: "byte list \<Rightarrow> decoded_channel option" where
  "decode_channel bs =
     (case get_records bs of None \<Rightarrow> None
      | Some rs \<Rightarrow> Some \<lparr>dc_key = get_str 1 rs, dc_unit = get_str 2 rs, dc_scale = get_float 3 rs,
                         dc_offset = get_float 4 rs\<rparr>)"

datatype decoded_body =
    Metrics "(byte list \<times> byte list \<times> metric_value) list"
  | Signal "byte list" nat nat nat nat "decoded_channel list" "byte list"
  | Status nat int nat "byte list"

record decoded_event =
  de_schema_version :: nat
  de_device_id :: "byte list"
  de_sequence :: nat
  de_event_type :: nat
  de_boot_id :: "byte list"
  de_firmware_version :: nat
  de_uptime_ms :: nat
  de_timestamp_ns :: nat
  de_body :: decoded_body

definition decode_metric_set :: "byte list \<Rightarrow> decoded_body option" where
  "decode_metric_set bs =
     (case get_records bs of None \<Rightarrow> None
      | Some rs \<Rightarrow> map_option Metrics (those (map decode_metric (get_subs 1 rs))))"

definition decode_signal :: "byte list \<Rightarrow> decoded_body option" where
  "decode_signal bs =
     (case get_records bs of None \<Rightarrow> None
      | Some rs \<Rightarrow>
          map_option
            (\<lambda>cs. Signal (get_str 1 rs) (get_uint 2 rs) (get_uint 3 rs) (get_uint 4 rs) (get_uint 5 rs)
                    cs (get_str 7 rs))
            (those (map decode_channel (get_subs 6 rs))))"

definition decode_payload :: "byte list \<Rightarrow> decoded_body option" where
  "decode_payload bs =
     (case get_records bs of None \<Rightarrow> None
      | Some rs \<Rightarrow>
          (case field_of 1 rs of Some (WLen b) \<Rightarrow> decode_metric_set b
           | _ \<Rightarrow> (case field_of 2 rs of Some (WLen b) \<Rightarrow> decode_signal b | _ \<Rightarrow> None)))"

definition decode_status :: "byte list \<Rightarrow> decoded_body option" where
  "decode_status bs =
     (case get_records bs of None \<Rightarrow> None
      | Some rs \<Rightarrow> Some (Status (get_uint 1 rs) (unzigzag_ref (int (get_uint 2 rs))) (get_uint 3 rs)
                                (get_str 4 rs)))"

definition decode_event :: "byte list \<Rightarrow> decoded_event option" where
  "decode_event bs =
     (case get_records bs of None \<Rightarrow> None
      | Some rs \<Rightarrow>
          map_option
            (\<lambda>b. \<lparr>de_schema_version = get_uint 1 rs, de_device_id = get_str 2 rs,
                  de_sequence = get_uint 3 rs, de_event_type = get_uint 4 rs,
                  de_boot_id = get_str 5 rs, de_firmware_version = get_uint 6 rs,
                  de_uptime_ms = get_uint 7 rs, de_timestamp_ns = get_uint 8 rs, de_body = b\<rparr>)
            (case field_of 10 rs of Some (WLen b) \<Rightarrow> decode_payload b
             | _ \<Rightarrow> (case field_of 11 rs of Some (WLen b) \<Rightarrow> decode_status b | _ \<Rightarrow> None)))"

section \<open>Reading what was written\<close>

lemma filter_rec [simp]:
  "filter (\<lambda>r. fst r = t) (str_rec k s) = (if t = k then str_rec k s else [])"
  "filter (\<lambda>r. fst r = t) (int_rec k v) = (if t = k then int_rec k v else [])"
  "filter (\<lambda>r. fst r = t) (opt_rec k b f) = (if t = k then opt_rec k b f else [])"
  "filter (\<lambda>r. fst r = t) (sint_rec k i) = (if t = k then sint_rec k i else [])"
  by (auto simp: str_rec_def int_rec_def opt_rec_def sint_rec_def)

lemma field_of_append:
  "field_of t (rs @ rs') = (case field_of t rs' of None \<Rightarrow> field_of t rs | Some v \<Rightarrow> Some v)"
  by (simp add: field_of_def Let_def)

lemma field_of_rec [simp]:
  "field_of t [] = None"
  "field_of t (str_rec k s) = (if t = k \<and> s \<noteq> [] then Some (WLen s) else None)"
  "field_of t (int_rec k v) = (if t = k \<and> v \<noteq> 0 then Some (WVarint v) else None)"
  "field_of t (opt_rec k b f) = (if t = k \<and> b then Some (WI32 (le_bytes 4 (unat f))) else None)"
  "field_of t (sint_rec k i) = (if t = k then Some (WVarint (nat (zigzag_ref i))) else None)"
  "field_of t [(k, w)] = (if t = k then Some w else None)"
  by (auto simp: field_of_def str_rec_def int_rec_def opt_rec_def sint_rec_def)

definition recs_ok :: "(nat \<times> wval) list \<Rightarrow> bool" where
  "recs_ok rs \<longleftrightarrow> (\<forall>(t, v) \<in> set rs. 0 < t \<and> val_ok v)"

lemma recs_ok_simps [simp]:
  "recs_ok []" "recs_ok (rs @ rs') \<longleftrightarrow> recs_ok rs \<and> recs_ok rs'"
  "recs_ok ((t, w) # rs) \<longleftrightarrow> 0 < t \<and> val_ok w \<and> recs_ok rs"
  "0 < k \<Longrightarrow> recs_ok (str_rec k s)" "0 < k \<Longrightarrow> recs_ok (int_rec k v)"
  "0 < k \<Longrightarrow> recs_ok (opt_rec k b f)" "0 < k \<Longrightarrow> recs_ok (sint_rec k i)"
  by (auto simp: recs_ok_def str_rec_def int_rec_def opt_rec_def sint_rec_def)

lemma read_back: "recs_ok rs \<Longrightarrow> get_records (concat (map put_record rs)) = Some rs"
  using get_put_records [of rs "[]"] by (simp add: recs_ok_def)

lemma get_subs_simps [simp]:
  "get_subs t [] = []" "get_subs t (rs @ rs') = get_subs t rs @ get_subs t rs'"
  "get_subs t (map (\<lambda>b. (k, WLen b)) bs) = (if t = k then bs else [])"
  "get_subs t [(k, WLen b)] = (if t = k then [b] else [])"
  "t \<noteq> k \<Longrightarrow> get_subs t (str_rec k s) = []" "get_subs t (int_rec k v) = []"
  by (induction bs) (auto simp: get_subs_def str_rec_def int_rec_def)

lemma those_map_Some: "(\<And>x. x \<in> set xs \<Longrightarrow> f x = Some (g x)) \<Longrightarrow> those (map f xs) = Some (map g xs)"
  by (induction xs) auto

lemma get_uint_header: "get_uint t rs = n" if "field_of t rs = (if n \<noteq> 0 then Some (WVarint n) else None)"
  using that by (auto simp: get_uint_def split: if_splits)

lemma get_str_header: "get_str t rs = s" if "field_of t rs = (if s \<noteq> [] then Some (WLen s) else None)"
  using that by (auto simp: get_str_def split: if_splits)

text \<open>The header of an event reads back from its records.\<close>

definition decoded_header :: "pb_ingest_event \<Rightarrow> decoded_body \<Rightarrow> decoded_event" where
  "decoded_header e b =
     \<lparr>de_schema_version = unat (pe_schema_version e), de_device_id = cstr (pe_device_id e),
      de_sequence = unat (pe_sequence e), de_event_type = unat (pe_event_type e),
      de_boot_id = cstr (pe_boot_id e), de_firmware_version = unat (pe_firmware_version e),
      de_uptime_ms = unat (pe_uptime_ms e), de_timestamp_ns = unat (pe_timestamp_ns e), de_body = b\<rparr>"

lemma header_recs_ok [simp]: "recs_ok (header_recs e)"
  by (simp add: header_recs_def)

lemma decode_event_wire:
  assumes "tag \<in> {10, 11}" "(if tag = 10 then decode_payload bs else decode_status bs) = Some b"
  shows "decode_event (concat (map put_record (header_recs e @ [(tag, WLen bs)]))) = Some (decoded_header e b)"
proof -
  let ?rs = "header_recs e @ [(tag, WLen bs)]"
  have r: "get_records (concat (map put_record ?rs)) = Some ?rs"
    using assms(1) by (intro read_back) auto
  have f: "field_of 1 ?rs = (if unat (pe_schema_version e) \<noteq> 0 then Some (WVarint (unat (pe_schema_version e))) else None)"
    "field_of 2 ?rs = (if cstr (pe_device_id e) \<noteq> [] then Some (WLen (cstr (pe_device_id e))) else None)"
    "field_of 3 ?rs = (if unat (pe_sequence e) \<noteq> 0 then Some (WVarint (unat (pe_sequence e))) else None)"
    "field_of 4 ?rs = (if unat (pe_event_type e) \<noteq> 0 then Some (WVarint (unat (pe_event_type e))) else None)"
    "field_of 5 ?rs = (if cstr (pe_boot_id e) \<noteq> [] then Some (WLen (cstr (pe_boot_id e))) else None)"
    "field_of 6 ?rs = (if unat (pe_firmware_version e) \<noteq> 0 then Some (WVarint (unat (pe_firmware_version e))) else None)"
    "field_of 7 ?rs = (if unat (pe_uptime_ms e) \<noteq> 0 then Some (WVarint (unat (pe_uptime_ms e))) else None)"
    "field_of 8 ?rs = (if unat (pe_timestamp_ns e) \<noteq> 0 then Some (WVarint (unat (pe_timestamp_ns e))) else None)"
    "field_of 10 ?rs = (if tag = 10 then Some (WLen bs) else None)"
    "field_of 11 ?rs = (if tag = 11 then Some (WLen bs) else None)"
    using assms(1) unfolding header_recs_def by (auto simp: field_of_append)
  show ?thesis
    using assms unfolding decode_event_def r
    by (auto simp: f decoded_header_def get_uint_header [OF f(1)] get_str_header [OF f(2)]
        get_uint_header [OF f(3)] get_uint_header [OF f(4)] get_str_header [OF f(5)]
        get_uint_header [OF f(6)] get_uint_header [OF f(7)] get_uint_header [OF f(8)]
        simp del: append_assoc One_nat_def)
qed

end
