(* ===== verification/EncodeProps.thy ===== *)
theory EncodeProps
  imports EventDecode QueueItemProps SamplePool
begin

text \<open>
  The properties of the event encoders of \<open>aetus.c\<close>: what they write reads back as what the caller
  enqueued, which items they refuse, and that status and signal events always fit the buffer.
\<close>

section \<open>Telemetry\<close>

text \<open>The blobs of an object fit the address space with room to spare.\<close>

definition blob_bytes :: "heap \<Rightarrow> aetus_telemetry \<Rightarrow> nat" where
  "blob_bytes h t = sum_list (map (\<lambda>m. unat (m_blob_size m)) (metrics_of h t))"

definition metric_bytes :: "heap \<Rightarrow> aetus_metric \<Rightarrow> byte list" where
  "metric_bytes h m = concat (map put_record (metric_recs h m))"

definition metrics_recs :: "heap \<Rightarrow> aetus_telemetry \<Rightarrow> (nat \<times> wval) list" where
  "metrics_recs h t = map (\<lambda>m. (1, WLen (metric_bytes h m))) (metrics_of h t)"

lemma telemetry_metrics:
  assumes "shape h t"
  shows "map (\<lambda>i. metric_at t h i) [0 ..< unat (t_metric_count t)] = metrics_of h t"
    and "unat (t_metric_count t) \<le> 32"
proof -
  have "length (slots h t) \<le> 32" by (rule length_slots_le [OF assms])
  then show "unat (t_metric_count t) \<le> 32" using assms by (simp add: shape_def)
  show "map (\<lambda>i. metric_at t h i) [0 ..< unat (t_metric_count t)] = metrics_of h t"
    using assms by (intro nth_equalityI) (auto simp: metrics_of_def metric_at_slots shape_def)
qed

lemma telemetry_event_eq:
  assumes "shape h t"
  shows "telemetry_event ctx now h t = (fill_event_header ctx now pb_ingest_event_init_zero)
     \<lparr>pe_event_type := 1, pe_timestamp_ns := t_timestamp_ns t, pe_which_body := 10,
      pe_body := Event_telemetry \<lparr>pt_which_payload = 1, pt_payload = Payload_metric_set
        \<lparr>ps_metrics_count = of_nat (length (metrics_of h t)),
         ps_metrics = map (fill_metric h pb_metric_init_zero) (metrics_of h t) @
           replicate (32 - length (metrics_of h t)) pb_metric_init_zero\<rparr>\<rparr>\<rparr>"
proof -
  note tm = telemetry_metrics [OF assms]
  have l: "length (metrics_of h t) = unat (t_metric_count t)"
    using arg_cong [OF tm(1), of length] by simp
  have "map (\<lambda>i. fill_metric h pb_metric_init_zero (metric_at t h i)) [0 ..< unat (t_metric_count t)] =
      map (fill_metric h pb_metric_init_zero) (metrics_of h t)"
    unfolding tm(1) [symmetric] by simp
  then show ?thesis using tm(2) l by (simp add: telemetry_event_def Let_def)
qed

lemma payload_wire:
  "wire_msg (TelemetryPayload_fields \<lparr>pt_which_payload = 1, pt_payload = Payload_metric_set s\<rparr>) =
     seqo (varint_ref 10, True) (wire_submsg (wire_msg (MetricSet_fields s)))"
  "wire_msg (TelemetryPayload_fields \<lparr>pt_which_payload = 2, pt_payload = Payload_signal_frame f\<rparr>) =
     seqo (varint_ref 18, True) (wire_submsg (wire_msg (SignalFrame_fields f)))"
  unfolding TelemetryPayload_fields_def wire_msg_field [OF oneof_submsg_not_extension]
  by (simp_all add: oneof_submsg)

lemma metric_set_fields:
  "MetricSet_fields \<lparr>ps_metrics_count = n, ps_metrics = ms\<rparr> =
     [submsg_array 1 40 32 n (map (PSub None) (map Metric_fields ms))]"
  by (simp add: MetricSet_fields_def submsg_array_def comp_def)

lemma metric_recs_size:
  assumes "metric_ok h m" "unat (m_blob_size m) < 2 ^ 31"
  shows "length (metric_bytes h m) \<le> 41 + unat (m_blob_size m)"
proof -
  have k: "wlen (str_rec 1 (cstr (m_key m))) \<le> 21" "wlen (str_rec 7 (cstr (m_unit m))) \<le> 9"
    using assms(1) wlen_str_rec [of 1 "cstr (m_key m)"] wlen_str_rec [of 7 "cstr (m_unit m)"]
    by (simp_all add: metric_ok_def strlen_def c_defs)
  have "wlen (value_recs h m) \<le> 11 + unat (m_blob_size m)"
  proof (cases "m_type m")
    case AETUS_METRIC_VALUE_INT64
    have "nat (zigzag_ref (sint (m_value m))) = unat (zigzag (m_value m))"
      by (simp add: unat_eq_nat_uint zigzag_correct)
    moreover have "unat (zigzag (m_value m)) < 128 ^ 10"
      by (rule order_less_trans [OF unat_u64_256]) simp
    ultimately show ?thesis
      using length_put_int [of 2 "nat (zigzag_ref (sint (m_value m)))" 10] AETUS_METRIC_VALUE_INT64
      by (simp add: value_recs_def sint_rec_def del: put_record.simps)
  next
    case AETUS_METRIC_VALUE_STRING
    from string_blob [OF assms(1) this] obtain bs where
      bs: "blocks h (blob_data m) = Some (Blob bs)" "length (cstr bs) \<le> unat (m_blob_size m)" by blast
    then have "length (cstr bs) < 128 ^ 5" using assms(2) by simp
    with bs AETUS_METRIC_VALUE_STRING length_put_len [of 5 "cstr bs" 5] show ?thesis
      by (simp add: value_recs_def blob_at_def del: put_record.simps)
  next
    case AETUS_METRIC_VALUE_BYTES
    let ?b = "take (unat (m_blob_size m)) (blob_at h (blob_data m))"
    have l: "length ?b \<le> unat (m_blob_size m)" by simp
    then have "length ?b < 128 ^ 5" using assms(2) by simp
    with l AETUS_METRIC_VALUE_BYTES length_put_len [of 6 ?b 5] show ?thesis
      by (simp add: value_recs_def del: put_record.simps length_take)
  next
    case AETUS_METRIC_VALUE_BOOL
    with length_put_int [of 4 0 1] length_put_int [of 4 1 1] show ?thesis
      by (simp add: value_recs_def del: put_record.simps)
  next
    case AETUS_METRIC_VALUE_DOUBLE
    with length_put_fixed [of 3 "WI64 (le_bytes 8 (unat (m_value m)))" "le_bytes 8 (unat (m_value m))"]
    show ?thesis by (simp add: value_recs_def del: put_record.simps)
  next
    case (METRIC_VALUE_OTHER x)
    with length_put_fixed [of 3 "WI64 (le_bytes 8 (unat (m_value m)))" "le_bytes 8 (unat (m_value m))"]
    show ?thesis by (simp add: value_recs_def del: put_record.simps)
  qed
  with k show ?thesis by (simp add: metric_bytes_def metric_recs_def flip: wlen_def)
qed

lemma blob_bytes_member: "m \<in> set (metrics_of h t) \<Longrightarrow> unat (m_blob_size m) \<le> blob_bytes h t"
  unfolding blob_bytes_def by (rule member_le_sum_list) auto

lemma metrics_recs_size:
  assumes "wf_telemetry h t" "blob_bytes h t < 2 ^ 31"
  shows "wlen (metrics_recs h t) \<le> 1504 + blob_bytes h t"
proof -
  have l: "length (metrics_of h t) \<le> 32"
    using telemetry_metrics [of h t] assms(1) by (simp add: wf_telemetry_def metrics_of_def)
  have "length (put_record (1, WLen (metric_bytes h m))) \<le> 47 + unat (m_blob_size m)"
    if "m \<in> set (metrics_of h t)" for m
  proof -
    have "unat (m_blob_size m) < 2 ^ 31" using blob_bytes_member [OF that] assms(2) by linarith
    moreover have "metric_ok h m" using assms(1) that by (simp add: wf_telemetry_def)
    ultimately have "length (metric_bytes h m) \<le> 41 + unat (m_blob_size m)" "length (metric_bytes h m) < 128 ^ 5"
      using metric_recs_size [of h m] by auto
    then show ?thesis using length_put_len [of 1 "metric_bytes h m" 5] by simp
  qed
  then have "sum_list (map (\<lambda>m. length (put_record (1, WLen (metric_bytes h m)))) (metrics_of h t)) \<le>
      sum_list (map (\<lambda>m. 47 + unat (m_blob_size m)) (metrics_of h t))"
    by (intro sum_list_mono) auto
  also have "\<dots> = 47 * length (metrics_of h t) + blob_bytes h t"
    by (simp add: sum_list_addf sum_list_triv blob_bytes_def)
  finally show ?thesis
    using l by (simp add: wlen_def metrics_recs_def length_concat comp_def del: put_record.simps)
qed

definition telemetry_payload :: "heap \<Rightarrow> aetus_telemetry \<Rightarrow> byte list" where
  "telemetry_payload h t = put_record (1, WLen (concat (map put_record (metrics_recs h t))))"

lemma fill_header_ok [simp]:
  "header_ok (fill_event_header ctx now pb_ingest_event_init_zero)"
  by (simp add: header_ok_def fill_event_header_def pb_ingest_event_init_zero_def cstr_copy_string strlen_def
      min_less_iff_disj)

lemma header_ok_update [simp]:
  "header_ok (e\<lparr>pe_event_type := a\<rparr>) = header_ok e" "header_ok (e\<lparr>pe_timestamp_ns := b\<rparr>) = header_ok e"
  "header_ok (e\<lparr>pe_which_body := c\<rparr>) = header_ok e" "header_ok (e\<lparr>pe_body := d\<rparr>) = header_ok e"
  by (simp_all add: header_ok_def)

lemma wire_msg_fails:
  assumes "f \<in> set fs" "PB_LTYPE (h_type (fld_hdr f)) \<noteq> PB_LTYPE_EXTENSION" "\<not> snd (wire_field f)"
  shows "\<not> snd (wire_msg fs)"
  using assms(1)
proof (induction fs)
  case (Cons g gs)
  show ?case
  proof (cases "f = g")
    case True
    then show ?thesis using wire_msg_field [OF assms(2)] assms(3) by (simp add: seqo_def del: wire_msg.simps)
  next
    case False
    then show ?thesis using Cons by (auto simp: seqo_def)
  qed
qed simp

lemma unencodable_fails:
  assumes "\<not> encodable m"
  shows "\<not> snd (wire_msg (Metric_fields (fill_metric h pb_metric_init_zero m)))"
proof -
  let ?f = "callback_field PB_HTYPE_ONEOF PB_LTYPE_BYTES 6 (SCount 6)
    (Some (encode_bytes_callback (Some \<lparr>ba_data = None, ba_size = m_blob_size m\<rparr>)))"
  have "?f \<in> set (Metric_fields (fill_metric h pb_metric_init_zero m))"
    using assms by (simp add: encodable_def metric_fields_alt fill_metric_def Let_def)
  moreover have "PB_LTYPE (h_type (fld_hdr ?f)) \<noteq> PB_LTYPE_EXTENSION"
    using callback_ltype [of PB_LTYPE_BYTES PB_HTYPE_ONEOF 6] not_extension [of PB_LTYPE_BYTES]
    by (simp add: callback_field_def)
  moreover have "\<not> snd (wire_field ?f)"
    using callback_field_wire [of PB_HTYPE_ONEOF PB_LTYPE_BYTES "SCount 6" 6 6]
    by (simp add: bytes_callback_null del: wire_field.simps)
  ultimately show ?thesis by (rule wire_msg_fails)
qed

lemma metric_set_wire:
  assumes "wf_telemetry h t" "blob_bytes h t < 2 ^ 31" "n = length (metrics_of h t)"
    and s: "s = \<lparr>ps_metrics_count = of_nat n,
       ps_metrics = map (fill_metric h pb_metric_init_zero) (metrics_of h t) @
         replicate (32 - n) pb_metric_init_zero\<rparr>"
  shows "list_all encodable (metrics_of h t) \<Longrightarrow>
      wire_msg (MetricSet_fields s) = (concat (map put_record (metrics_recs h t)), True)"
    and "\<not> list_all encodable (metrics_of h t) \<Longrightarrow> \<not> snd (wire_msg (MetricSet_fields s))"
    and "wf_fields (MetricSet_fields s)"
proof -
  let ?ms = "metrics_of h t" and ?fm = "\<lambda>m. Metric_fields (fill_metric h pb_metric_init_zero m)"
  let ?rest = "map (PSub None) (map Metric_fields (replicate (32 - n) pb_metric_init_zero))"
  have n: "n \<le> 32" using telemetry_metrics [of h t] assms(1,3) by (simp add: wf_telemetry_def metrics_of_def)
  then have u: "unat (of_nat n :: u16) = n" by (simp add: unat_of_nat take_bit_eq_mod)
  have ok: "metric_ok h m" "unat (m_blob_size m) < 2 ^ 31" if "m \<in> set ?ms" for m
    using assms(1,2) that blob_bytes_member [OF that] by (auto simp: wf_telemetry_def)
  have fs: "MetricSet_fields s = [submsg_array 1 40 32 (of_nat n) (map (PSub None) (map ?fm ?ms) @ ?rest)]"
    by (simp add: s metric_set_fields comp_def)
  show "wf_fields (MetricSet_fields s)"
    unfolding s metric_set_fields
    using ok n assms(3) zero_metric_wf by (auto simp: fill_metric_wf simp del: map_append map_map)
  show "wire_msg (MetricSet_fields s) = (concat (map put_record (metrics_recs h t)), True)"
    if enc: "list_all encodable ?ms"
  proof -
    have "list_all2 (\<lambda>fs bs. wire_msg fs = (bs, True) \<and> length bs < 4294967296)
        (map ?fm ?ms) (map (metric_bytes h) ?ms)"
    proof (simp add: list_all2_map1 list_all2_map2 list_all2_same, intro ballI)
      fix m assume m: "m \<in> set ?ms"
      have "length (metric_bytes h m) < 4294967296"
        using metric_recs_size [OF ok [OF m]] ok(2) [OF m] by simp
      then show "wire_msg (?fm m) = (metric_bytes h m, True) \<and> length (metric_bytes h m) < 4294967296"
        using metric_wire [OF ok(1) [OF m] _ ok(2) [OF m]] enc m by (simp add: metric_bytes_def list_all_iff)
    qed
    from submsg_array_emits [OF _ _ this, of "of_nat n" 32 1 40 ?rest]
    have "emits (submsg_array 1 40 32 (of_nat n) (map (PSub None) (map ?fm ?ms) @ ?rest)) (metrics_recs h t)"
      using u n assms(3) by (simp add: metrics_recs_def comp_def)
    then have "list_all2 emits (MetricSet_fields s) [metrics_recs h t]" by (simp add: fs)
    from emits_msg [OF this] show ?thesis by simp
  qed
  show "\<not> snd (wire_msg (MetricSet_fields s))" if enc: "\<not> list_all encodable ?ms"
  proof -
    note tp = type_parts [of PB_ATYPE_STATIC PB_HTYPE_REPEATED PB_LTYPE_SUBMESSAGE, simplified]
    let ?f = "submsg_array 1 40 32 (of_nat n) (map (PSub None) (map ?fm ?ms) @ ?rest)"
    have "\<exists>fs \<in> set (map ?fm ?ms). \<not> snd (wire_msg fs)"
      using enc unencodable_fails by (auto simp: list_all_iff)
    then have "\<not> snd (wire_field ?f)"
      using submsg_array_wire [of "of_nat n" 32 1 40] u n assms(3)
        unpacked_submsg_fails [of "mk_hdr PB_ATYPE_STATIC PB_HTYPE_REPEATED PB_LTYPE_SUBMESSAGE 1 40 32 False"
          "map ?fm ?ms" "SCount (of_nat n)" ?rest]
      by (simp add: tp del: wire_field.simps map_map)
    moreover have "PB_LTYPE (h_type (fld_hdr ?f)) \<noteq> PB_LTYPE_EXTENSION"
      using not_extension [of PB_LTYPE_SUBMESSAGE] by (simp add: submsg_array_def tp)
    ultimately show ?thesis unfolding fs by (intro wire_msg_fails [of ?f]) simp_all
  qed
qed

text \<open>
  What the wire can say of a value: a string ends at its first zero byte, because the encoder
  measures it with \<open>strlen\<close>.
\<close>

definition wire_value :: "metric_value \<Rightarrow> metric_value" where
  "wire_value v = (case v of String_value s \<Rightarrow> String_value (cstr s) | _ \<Rightarrow> v)"

lemma zigzag_ref_nonneg: "0 \<le> zigzag_ref i"
  by (simp add: zigzag_ref_def)

lemma decode_value_recs:
  assumes "metric_ok h m"
  shows "decode_value (metric_recs h m) = Some (wire_value (value_of h m))"
    and "recs_ok (metric_recs h m)" and "field_of 1 (value_recs h m) = None" "field_of 7 (value_recs h m) = None"
proof -
  have f: "filter (\<lambda>r. fst r \<in> {2, 3, 4, 5, 6}) (str_rec 1 s) = []"
    "filter (\<lambda>r. fst r \<in> {2, 3, 4, 5, 6}) (str_rec 7 s) = []" for s
    by (auto simp: str_rec_def)
  have "of_le (le_bytes 8 (unat (m_value m))) = unat (m_value m)"
    using unat_u64_256 [of "m_value m"] by (simp add: of_le_le_bytes)
  moreover have "cstr (take (unat (m_blob_size m)) (blob_at h (blob_data m))) = cstr (blob_at h (blob_data m))"
    if "m_type m = AETUS_METRIC_VALUE_STRING"
  proof -
    from string_blob [OF assms that] obtain bs where "blocks h (blob_data m) = Some (Blob bs)"
      "length (cstr bs) \<le> unat (m_blob_size m)" by blast
    then show ?thesis by (simp add: blob_at_def cstr_take strlen_def)
  qed
  ultimately show "decode_value (metric_recs h m) = Some (wire_value (value_of h m))"
    unfolding metric_recs_def decode_value_def filter_append f
    by (cases "m_type m")
      (simp_all add: value_recs_def sint_rec_def value_of_def wire_value_def zigzag_ref_nonneg unzigzag_zigzag_ref)
  show "recs_ok (metric_recs h m)"
    by (cases "m_type m") (simp_all add: metric_recs_def value_recs_def)
  show "field_of 1 (value_recs h m) = None" "field_of 7 (value_recs h m) = None"
    by (cases "m_type m"; simp add: value_recs_def)+
qed

lemma decode_metric_bytes:
  assumes "metric_ok h m"
  shows "decode_metric (metric_bytes h m) = Some (cstr (m_key m), cstr (m_unit m), wire_value (value_of h m))"
proof -
  note d = decode_value_recs [OF assms]
  have "get_str 1 (metric_recs h m) = cstr (m_key m)" "get_str 7 (metric_recs h m) = cstr (m_unit m)"
    using d(3,4) by (auto simp: metric_recs_def get_str_def field_of_append split: option.split)
  then show ?thesis
    using d read_back [OF d(2)] by (simp add: decode_metric_def metric_bytes_def)
qed

lemma decode_telemetry_payload:
  assumes "wf_telemetry h t"
  shows "decode_payload (telemetry_payload h t) =
    Some (Metrics (map (\<lambda>(k, u, v). (k, u, wire_value v)) (contents h t)))"
proof -
  let ?bs = "concat (map put_record (metrics_recs h t))"
  have "recs_ok (metrics_recs h t)" by (auto simp: recs_ok_def metrics_recs_def)
  note r = read_back [OF this]
  have "get_subs 1 (metrics_recs h t) = map (metric_bytes h) (metrics_of h t)"
    using get_subs_simps(3) [of 1 1 "map (metric_bytes h) (metrics_of h t)"]
    by (simp add: metrics_recs_def comp_def)
  moreover have "those (map decode_metric (map (metric_bytes h) (metrics_of h t))) =
      Some (map (\<lambda>m. (cstr (m_key m), cstr (m_unit m), wire_value (value_of h m))) (metrics_of h t))"
    unfolding map_map
    by (rule those_map_Some) (use assms in \<open>simp add: decode_metric_bytes wf_telemetry_def\<close>)
  ultimately have "decode_metric_set ?bs = Some (Metrics (map (\<lambda>(k, u, v). (k, u, wire_value v)) (contents h t)))"
    by (simp add: decode_metric_set_def r contents_def abs_metric_def comp_def)
  moreover have "get_records (telemetry_payload h t) = Some [(1, WLen ?bs)]"
    using read_back [of "[(1, WLen ?bs)]"] by (simp add: telemetry_payload_def del: put_record.simps)
  ultimately show ?thesis by (simp add: decode_payload_def)
qed

lemma telemetry_wire:
  assumes "wf_telemetry h t" "blob_bytes h t < 2 ^ 31"
  shows "wf_fields (IngestEvent_fields (telemetry_event ctx now h t))"
    and "\<not> list_all encodable (metrics_of h t) \<Longrightarrow>
       \<not> snd (wire_msg (body_fields (pe_body (telemetry_event ctx now h t))))"
    and "list_all encodable (metrics_of h t) \<Longrightarrow>
       wire_msg (IngestEvent_fields (telemetry_event ctx now h t)) =
         (concat (map put_record (header_recs (telemetry_event ctx now h t) @
            [(10, WLen (telemetry_payload h t))])), True)"
    and "length (telemetry_payload h t) < 2 ^ 32 - 200"
    and "header_ok (telemetry_event ctx now h t)"
proof -
  let ?e = "telemetry_event ctx now h t"
  have sh: "shape h t" using assms(1) by (simp add: wf_telemetry_def)
  note e = telemetry_event_eq [OF sh, of ctx now]
  note w = metric_set_wire [OF assms refl refl]
  have b: "pe_which_body ?e = body_tag (pe_body ?e)" "body_tag (pe_body ?e) = 10"
    by (simp_all add: e body_tag_def)
  show hd: "header_ok ?e" by (simp add: e)
  have ms: "length (concat (map put_record (metrics_recs h t))) < 2 ^ 31 + 1600"
    using metrics_recs_size [OF assms] assms(2) unfolding wlen_def by simp
  then have "length (telemetry_payload h t) \<le> 6 + (2 ^ 31 + 1600)"
    unfolding telemetry_payload_def
    by (intro order_trans [OF length_put_len [where k = 5]]) simp_all
  then show pl: "length (telemetry_payload h t) < 2 ^ 32 - 200" by simp
  show "wf_fields (IngestEvent_fields ?e)"
    by (rule body_wf [OF hd]) (simp add: e body_fields_def TelemetryPayload_fields_def w(3))
  show "\<not> snd (wire_msg (body_fields (pe_body ?e)))" if "\<not> list_all encodable (metrics_of h t)"
    using w(2) [OF that] by (simp add: e body_fields_def payload_wire seqo_def wire_submsg_def)
  show "wire_msg (IngestEvent_fields ?e) = (concat (map put_record (header_recs ?e @
      [(10, WLen (telemetry_payload h t))])), True)" if enc: "list_all encodable (metrics_of h t)"
  proof -
    have "wire_msg (body_fields (pe_body ?e)) = (telemetry_payload h t, True)"
      using w(1) [OF enc] ms
      by (simp add: e body_fields_def payload_wire wire_submsg_ok seqo_def telemetry_payload_def)
    from event_wire [OF hd b(1) this] show ?thesis using pl b(2) by simp
  qed
qed

lemma encode_event_fails:
  assumes "wf_fields (IngestEvent_fields e)" "header_ok e" "pe_schema_version e = 1"
    "unat (pe_event_type e) < 128" "pe_which_body e = body_tag (pe_body e)"
    "\<not> snd (wire_msg (body_fields (pe_body e)))"
  shows "encode_event e n = None"
proof -
  have t: "8 * unat (body_tag (pe_body e)) + 2 < 128" by (simp add: body_tag_def split: pb_body.split)
  have "wire_msg (IngestEvent_fields e) = (concat (map put_record (header_recs e)) @
      varint_ref (8 * unat (body_tag (pe_body e)) + 2), False)"
    using body_wire [OF assms(5)] header_wire [OF assms(2)] assms(6) by (simp add: seqo_def wire_submsg_def)
  moreover have "length (concat (map put_record (header_recs e)) @
      varint_ref (8 * unat (body_tag (pe_body e)) + 2)) \<le> 110"
    using header_size [OF assms(2-4)] varint_ref_small [OF t] by (simp add: wlen_def)
  ultimately show ?thesis using encode_event_result [OF assms(1), of n] by simp
qed

lemma encode_telemetry_result:
  assumes "wf_telemetry h t" "blob_bytes h t < 2 ^ 31"
  shows "encode_telemetry ctx now h t n =
    (let e = telemetry_event ctx now h t;
         bytes = concat (map put_record (header_recs e @ [(10, WLen (telemetry_payload h t))]))
     in if list_all encodable (metrics_of h t) \<and> length bytes \<le> unat n then Some bytes else None)"
    and "list_all encodable (metrics_of h t) \<Longrightarrow>
     length (concat (map put_record (header_recs (telemetry_event ctx now h t) @
       [(10, WLen (telemetry_payload h t))]))) \<le> 109 + (6 + length (telemetry_payload h t))"
proof -
  let ?e = "telemetry_event ctx now h t"
  let ?bytes = "concat (map put_record (header_recs ?e @ [(10, WLen (telemetry_payload h t))]))"
  note w = telemetry_wire(1,2,3,5) [OF assms, of ctx now] and pl = telemetry_wire(4) [OF assms]
  have sh: "shape h t" using assms(1) by (simp add: wf_telemetry_def)
  have "wlen (header_recs ?e) \<le> 109"
    by (rule header_size [OF w(4)]) (simp_all add: telemetry_event_eq [OF sh] fill_event_header_def)
  moreover have "length (put_record (10, WLen (telemetry_payload h t))) \<le> 1 + 5 + length (telemetry_payload h t)"
    using pl by (intro length_put_len) simp_all
  ultimately show len: "length ?bytes \<le> 109 + (6 + length (telemetry_payload h t))"
    by (simp add: wlen_def del: put_record.simps)
  then have lt: "length ?bytes < 4294967296" using pl by simp
  show "encode_telemetry ctx now h t n = (let e = ?e;
      bytes = concat (map put_record (header_recs e @ [(10, WLen (telemetry_payload h t))]))
     in if list_all encodable (metrics_of h t) \<and> length bytes \<le> unat n then Some bytes else None)"
  proof (cases "list_all encodable (metrics_of h t)")
    case True
    then show ?thesis
      using encode_event_result [OF w(1), of n] lt w(3) [OF True] unfolding encode_telemetry_def Let_def
      by (simp del: put_record.simps)
  next
    case False
    have "encode_event ?e n = None"
      by (rule encode_event_fails [OF w(1) w(4)])
        (use False w(2) in \<open>simp_all add: telemetry_event_eq [OF sh] fill_event_header_def body_tag_def del: wire_msg.simps\<close>)
    with False show ?thesis unfolding encode_telemetry_def Let_def by simp
  qed
qed

lemma encode_telemetry_decodes:
  assumes "wf_telemetry h t" "blob_bytes h t < 2 ^ 31" "encode_telemetry ctx now h t n = Some bytes"
  shows "length bytes \<le> unat n \<and> decode_event bytes = Some
    \<lparr>de_schema_version = 1, de_device_id = take 31 (ostr (device_id (cx_config ctx))),
     de_sequence = unat (cx_sequence ctx), de_event_type = 1, de_boot_id = take 31 (cstr (cx_boot_id ctx)),
     de_firmware_version = unat (firmware_version (cx_config ctx)),
     de_uptime_ms = unat (of_int (now sdiv 1000) :: u64), de_timestamp_ns = unat (t_timestamp_ns t),
     de_body = Metrics (map (\<lambda>(k, u, v). (k, u, wire_value v)) (contents h t))\<rparr>"
proof -
  let ?e = "telemetry_event ctx now h t"
  have sh: "shape h t" using assms(1) by (simp add: wf_telemetry_def)
  have bytes: "bytes = concat (map put_record (header_recs ?e @ [(10, WLen (telemetry_payload h t))]))"
    "length bytes \<le> unat n"
    using assms(3) encode_telemetry_result(1) [OF assms(1,2), of ctx now n]
    by (auto simp: Let_def simp del: put_record.simps split: if_splits)
  have "decode_event bytes =
      Some (decoded_header ?e (Metrics (map (\<lambda>(k, u, v). (k, u, wire_value v)) (contents h t))))"
    unfolding bytes by (rule decode_event_wire) (simp_all add: decode_telemetry_payload [OF assms(1)])
  then show ?thesis
    using bytes(2) by (simp add: decoded_header_def telemetry_event_eq [OF sh] fill_event_header_def
        pb_ingest_event_init_zero_def cstr_copy_string)
qed

text \<open>
  C22. What \<open>encode_telemetry\<close> writes reads back as what the object holds: the bytes fit the buffer, and a
  protobuf reader finds the header of the context (the device id cut to 31 bytes) and exactly the metrics of the
  object, in order, with their keys, units and values; only a string value is cut at a zero byte
  inside it.
\<close>

theorem encode_telemetry_roundtrip:
  assumes "wf_telemetry h t" "blob_bytes h t < 2 ^ 31" "encode_telemetry ctx now h t n = Some bytes"
  shows "length bytes \<le> unat n \<and> decode_event bytes = Some
    \<lparr>de_schema_version = 1, de_device_id = take 31 (ostr (device_id (cx_config ctx))),
     de_sequence = unat (cx_sequence ctx), de_event_type = 1, de_boot_id = take 31 (cstr (cx_boot_id ctx)),
     de_firmware_version = unat (firmware_version (cx_config ctx)),
     de_uptime_ms = unat (of_int (now sdiv 1000) :: u64), de_timestamp_ns = unat (t_timestamp_ns t),
     de_body = Metrics (map (\<lambda>(k, u, v). (k, u, wire_value v)) (contents h t))\<rparr>"
  by (rule encode_telemetry_decodes [OF assms])

definition demo_config :: aetus_config where
  "demo_config = \<lparr>wifi_ssid = Some [110, 0], wifi_password = Some [0], wifi_auth = AETUS_WIFI_AUTH_PSK,
     wifi_identity = None, ingest_url = Some [104, 0], time_url = None, device_id = Some [100, 49, 0],
     device_token = Some [116, 0], auth_mode = AETUS_AUTH_BEARER, firmware_version = 3,
     upload_interval_ms = 1000, queue_depth = 8, connected_led_enabled = False, connected_led_gpio = 0\<rparr>"

definition demo_ctx :: aetus_ctx where
  "demo_ctx = \<lparr>cx_config = demo_config, cx_queue = 1, cx_events = 2, cx_upload_timer = 3, cx_sequence = 7,
     cx_boot_id = [98, 0], cx_wifi_started = True, cx_wifi_reconfiguring = False,
     cx_signal_pool_stats = zero_pool_stats\<rparr>"

lemma demo_blob_bytes: "blob_bytes demo_heap demo_telemetry = 1"
  by (simp add: blob_bytes_def demo_metrics demo_metric_def)

lemma demo_contents: "contents demo_heap demo_telemetry = [([65], [], String_value [66])]"
proof -
  have "abs_metric demo_heap demo_metric = ([65], [], String_value [66])" by code_simp
  then show ?thesis by (simp add: contents_def demo_metrics)
qed

lemma demo_encodes: "\<exists>bytes. encode_telemetry demo_ctx 5000 demo_heap demo_telemetry 4096 = Some bytes"
proof -
  have "encodable demo_metric" by (simp add: encodable_def demo_metric_def)
  moreover have "length (telemetry_payload demo_heap demo_telemetry) \<le> 1600"
    using metrics_recs_size [OF demo_wf] length_put_len [of 1 "concat (map put_record (metrics_recs demo_heap demo_telemetry))" 5]
    by (simp add: demo_blob_bytes telemetry_payload_def wlen_def del: put_record.simps)
  ultimately show ?thesis
    using encode_telemetry_result [OF demo_wf, of demo_ctx 5000]
    by (simp add: demo_blob_bytes demo_metrics Let_def del: put_record.simps)
qed

theorem encode_telemetry_roundtrip_witness:
  "\<exists>bytes. encode_telemetry demo_ctx 5000 demo_heap demo_telemetry 4096 = Some bytes \<and> length bytes \<le> 4096 \<and>
     map_option de_body (decode_event bytes) = Some (Metrics [([65], [], String_value [66])]) \<and>
     map_option de_sequence (decode_event bytes) = Some 7"
proof -
  obtain bytes where b: "encode_telemetry demo_ctx 5000 demo_heap demo_telemetry 4096 = Some bytes"
    using demo_encodes by blast
  from encode_telemetry_roundtrip [OF demo_wf _ b] b show ?thesis
    by (simp add: demo_blob_bytes demo_contents wire_value_def demo_ctx_def)
qed

lemma unencodable_contents:
  assumes "wf_telemetry h t"
  shows "list_all encodable (metrics_of h t) \<longleftrightarrow> \<not> (\<exists>k u. (k, u, Bytes_value []) \<in> set (contents h t))"
proof -
  have "\<not> list_all encodable (metrics_of h t) \<longleftrightarrow> (\<exists>m \<in> set (metrics_of h t). \<not> encodable m)"
    by (auto simp: list_all_iff)
  also have "\<dots> \<longleftrightarrow> (\<exists>m \<in> set (metrics_of h t). value_of h m = Bytes_value [])"
  proof (rule bex_cong [OF refl])
    fix m assume "m \<in> set (metrics_of h t)"
    then have "metric_ok h m" using assms by (simp add: wf_telemetry_def)
    then show "\<not> encodable m \<longleftrightarrow> value_of h m = Bytes_value []"
      by (auto simp: encodable_def metric_ok_def value_of_def blob_at_def unat_eq_zero
          split: aetus_metric_value_type.splits if_splits option.splits block.splits)
  qed
  also have "\<dots> \<longleftrightarrow> (\<exists>k u. (k, u, Bytes_value []) \<in> set (contents h t))"
    by (force simp: contents_def abs_metric_def)
  finally show ?thesis by blast
qed

lemma telemetry_payload_size:
  assumes "wf_telemetry h t" "blob_bytes h t < 2 ^ 31"
  shows "109 + (6 + length (telemetry_payload h t)) \<le> 1625 + blob_bytes h t"
proof -
  have "length (telemetry_payload h t) \<le> 1 + 5 + wlen (metrics_recs h t)"
    unfolding telemetry_payload_def wlen_def
    by (rule length_put_len) (use metrics_recs_size [OF assms] assms(2) in \<open>simp_all add: wlen_def\<close>)
  then show ?thesis using metrics_recs_size [OF assms] by linarith
qed

text \<open>
  C23. For a well-formed object there is one event of at most 1625 bytes more than its blobs, such that
  \<open>encode_telemetry\<close> fails on a buffer of any size exactly when the object holds an empty bytes metric or the buffer is
  shorter than the event, and otherwise writes that event.
\<close>

theorem encode_telemetry_succeeds_iff:
  assumes "wf_telemetry h t" "blob_bytes h t < 2 ^ 31"
  shows "\<exists>event. length event \<le> 1625 + blob_bytes h t \<and>
    (\<forall>n. encode_telemetry ctx now h t n =
      (if (\<exists>k u. (k, u, Bytes_value []) \<in> set (contents h t)) \<or> unat n < length event then None else Some event))"
proof (cases "list_all encodable (metrics_of h t)")
  case True
  let ?event = "concat (map put_record (header_recs (telemetry_event ctx now h t) @ [(10, WLen (telemetry_payload h t))]))"
  have "length ?event \<le> 1625 + blob_bytes h t"
    using encode_telemetry_result(2) [OF assms True, of ctx now] telemetry_payload_size [OF assms] by linarith
  moreover have "encode_telemetry ctx now h t n = (if unat n < length ?event then None else Some ?event)" for n
    using encode_telemetry_result(1) [OF assms, of ctx now n] True
    by (simp add: Let_def not_less [symmetric] del: put_record.simps)
  ultimately show ?thesis
    using True unencodable_contents [OF assms(1)] by (intro exI [of _ ?event]) simp
next
  case False
  then have "encode_telemetry ctx now h t n = None" for n
    using encode_telemetry_result(1) [OF assms, of ctx now n] by (simp add: Let_def del: put_record.simps)
  then show ?thesis using False unencodable_contents [OF assms(1)] by (intro exI [of _ "[]"]) simp
qed

theorem encode_telemetry_succeeds_iff_witness:
  "encode_telemetry demo_ctx 5000 demo_heap demo_telemetry 4096 \<noteq> None \<and>
   encode_telemetry demo_ctx 5000 demo_heap demo_telemetry 0 = None"
proof -
  obtain event where e: "length event \<le> 1625 + 1"
    "\<And>n. encode_telemetry demo_ctx 5000 demo_heap demo_telemetry n = (if unat n < length event then None else Some event)"
    using encode_telemetry_succeeds_iff [OF demo_wf, of demo_ctx 5000] by (auto simp: demo_blob_bytes demo_contents)
  obtain bytes where b: "encode_telemetry demo_ctx 5000 demo_heap demo_telemetry 4096 = Some bytes"
    using demo_encodes by blast
  then have "decode_event event \<noteq> None"
    using e(2) [of 4096] encode_telemetry_decodes [OF demo_wf _ b] by (auto simp: demo_blob_bytes split: if_splits)
  then have "event \<noteq> []" by (auto simp: decode_event_def)
  then show ?thesis using e by simp
qed

end
