(* ===== verification/SignalEncodeProps.thy ===== *)
theory SignalEncodeProps
  imports EncodeProps
begin

text \<open>
  Status and signal-frame events: both always fit the encode buffer and read back as what was enqueued.
\<close>

section \<open>Status events\<close>

definition status_recs :: "aetus_status \<Rightarrow> (nat \<times> wval) list" where
  "status_recs s = int_rec 1 (unat (map_device_status (st_status s))) @
     (if st_rssi s = 0 then [] else sint_rec 2 (sint (st_rssi s))) @
     int_rec 3 (unat (st_free_heap s)) @ str_rec 4 (take 23 (cstr (st_reboot_reason s)))"

lemma status_body_wire:
  "wire_msg (body_fields (pe_body (status_event ctx now s))) = (concat (map put_record (status_recs s)), True)"
  "wf_fields (body_fields (pe_body (status_event ctx now s)))"
proof -
  let ?r = "copy_string (replicate 24 0) 24 (Some (st_reboot_reason s))"
  have c: "cstr ?r = take 23 (cstr (st_reboot_reason s))" by (simp add: cstr_copy_string)
  have "emits (string_field False 4 24 ?r) (str_rec 4 (take 23 (cstr (st_reboot_reason s))))"
    using string_field_emits [of ?r 24 False 4] by (simp add: c strlen_def min_less_iff_disj)
  then have "list_all2 emits (body_fields (pe_body (status_event ctx now s)))
     [int_rec 1 (unat (map_device_status (st_status s))),
      if st_rssi s = 0 then [] else sint_rec 2 (sint (st_rssi s)),
      int_rec 3 (unat (st_free_heap s)), str_rec 4 (take 23 (cstr (st_reboot_reason s)))]"
    using sint_field_emits [of False 2 "st_rssi s"]
    by (cases "st_rssi s = 0") (simp_all add: status_event_def body_fields_def StatusPayload_fields_def uint_word_emits)
  from emits_msg [OF this]
  show "wire_msg (body_fields (pe_body (status_event ctx now s))) = (concat (map put_record (status_recs s)), True)"
    by (simp add: status_recs_def)
  show "wf_fields (body_fields (pe_body (status_event ctx now s)))"
    by (simp add: status_event_def body_fields_def StatusPayload_fields_def)
qed

lemma status_recs_size: "wlen (status_recs s) \<le> 39"
proof -
  have w: "unat (v :: u32) < 128 ^ 5" for v
    by (rule order_less_trans [OF unat_u32_lt]) simp
  have "unat (map_device_status (st_status s)) < 128 ^ 1"
    by (simp add: map_device_status_def split: aetus_device_status.split)
  then have "wlen (int_rec 1 (unat (map_device_status (st_status s)))) \<le> 2"
    using wlen_int_rec [of 1 "unat (map_device_status (st_status s))" 1] by simp
  moreover have "wlen (int_rec 3 (unat (st_free_heap s))) \<le> 6"
    using wlen_int_rec [of 3 _ 5] w by simp
  moreover have "wlen (str_rec 4 (take 23 (cstr (st_reboot_reason s)))) \<le> 25"
    by (rule order_trans [OF wlen_str_rec]) (auto simp: min_def)
  moreover have "wlen (sint_rec 2 (sint (st_rssi s))) \<le> 6"
  proof -
    have "- 2147483648 \<le> sint (st_rssi s)" "sint (st_rssi s) < 2147483648"
      using sint_ge [of "st_rssi s"] sint_lt [of "st_rssi s"] by simp_all
    then have "nat (zigzag_ref (sint (st_rssi s))) < 128 ^ 5" by (auto simp: zigzag_ref_def nat_less_iff)
    from length_put_int [OF _ this, of 2] show ?thesis by (simp add: sint_rec_def del: put_record.simps)
  qed
  ultimately show ?thesis by (simp add: status_recs_def)
qed

text \<open>The body of an event as one more record behind its header.\<close>

lemma encode_event_body:
  assumes "wf_fields (body_fields (pe_body e))" "header_ok e" "pe_schema_version e = 1"
    "unat (pe_event_type e) < 128" "pe_which_body e = body_tag (pe_body e)"
    "wire_msg (body_fields (pe_body e)) = (bs, True)" "length bs < 128 ^ k" "0 < k" "k \<le> 4"
    "110 + k + length bs \<le> unat n"
  shows "encode_event e n =
    Some (concat (map put_record (header_recs e @ [(unat (body_tag (pe_body e)), WLen bs)])))"
proof -
  have "(128 :: nat) ^ k \<le> 128 ^ 4" using assms(9) by (intro power_increasing) simp_all
  then have small: "length bs < 268435456" using assms(7) by simp
  note w = event_wire [OF assms(2,5,6)]
  have "unat (body_tag (pe_body e)) < 16" by (simp add: body_tag_def split: pb_body.split)
  from length_put_len [OF this assms(7,8)]
  have "length (concat (map put_record (header_recs e @ [(unat (body_tag (pe_body e)), WLen bs)])))
      \<le> 110 + k + length bs"
    using header_size [OF assms(2-4)] by (simp add: wlen_def del: put_record.simps)
  then show ?thesis
    using encode_event_result [OF body_wf [OF assms(2,1)], of n] w small assms(9,10)
    by (simp del: put_record.simps)
qed

lemma encode_status_decodes:
  assumes "150 \<le> unat n"
  shows "\<exists>bytes. encode_status ctx now s n = Some bytes \<and> length bytes \<le> 150 \<and>
    decode_event bytes = Some
     \<lparr>de_schema_version = 1, de_device_id = take 31 (ostr (device_id (cx_config ctx))),
      de_sequence = unat (cx_sequence ctx), de_event_type = 2, de_boot_id = take 31 (cstr (cx_boot_id ctx)),
      de_firmware_version = unat (firmware_version (cx_config ctx)),
      de_uptime_ms = unat (of_int (now sdiv 1000) :: u64), de_timestamp_ns = unat (st_timestamp_ns s),
      de_body = Status (unat (map_device_status (st_status s))) (sint (st_rssi s)) (unat (st_free_heap s))
                  (take 23 (cstr (st_reboot_reason s)))\<rparr>"
proof -
  let ?e = "status_event ctx now s" and ?bs = "concat (map put_record (status_recs s))"
  note b = status_body_wire [of ctx now s]
  have l: "length ?bs \<le> 39" using status_recs_size by (simp add: wlen_def)
  have e: "header_ok ?e" "pe_schema_version ?e = 1" "unat (pe_event_type ?e) < 128"
    "pe_which_body ?e = body_tag (pe_body ?e)" "body_tag (pe_body ?e) = 11"
    by (simp add: status_event_def) (simp_all add: status_event_def fill_event_header_def body_tag_def)
  let ?bytes = "concat (map put_record (header_recs ?e @ [(11, WLen ?bs)]))"
  have enc: "encode_status ctx now s n = Some ?bytes"
    using encode_event_body [OF b(2) e(1-4) b(1), of 1 n] l e(5) assms
    by (simp add: encode_status_def del: put_record.simps)
  have len: "length ?bytes \<le> 150"
    using header_size [OF e(1-3)] length_put_len [of 11 ?bs 1] l by (simp add: wlen_def del: put_record.simps)
  have ok: "recs_ok (status_recs s)" by (simp add: status_recs_def)
  have "get_uint 2 (status_recs s) = (if st_rssi s = 0 then 0 else nat (zigzag_ref (sint (st_rssi s))))"
    "get_uint 1 (status_recs s) = unat (map_device_status (st_status s))"
    "get_uint 3 (status_recs s) = unat (st_free_heap s)"
    "get_str 4 (status_recs s) = take 23 (cstr (st_reboot_reason s))"
    by (auto simp: get_uint_def get_str_def status_recs_def field_of_append split: option.split)
  then have "decode_status ?bs = Some (Status (unat (map_device_status (st_status s))) (sint (st_rssi s))
      (unat (st_free_heap s)) (take 23 (cstr (st_reboot_reason s))))"
    using read_back [OF ok]
    by (simp add: decode_status_def zigzag_ref_nonneg unzigzag_zigzag_ref) (simp add: unzigzag_ref_def)
  then have "decode_event ?bytes = Some (decoded_header ?e (Status (unat (map_device_status (st_status s)))
      (sint (st_rssi s)) (unat (st_free_heap s)) (take 23 (cstr (st_reboot_reason s)))))"
    by (intro decode_event_wire) simp_all
  with enc len show ?thesis
    by (simp add: decoded_header_def status_event_def fill_event_header_def
        pb_ingest_event_init_zero_def cstr_copy_string del: put_record.simps)
qed

text \<open>
  C25. \<open>encode_status\<close> never fails on a buffer of 150 bytes or more, so never in the uploader, and its bytes
  read back as the status, the signal strength with its sign, the free heap and the reboot reason.
\<close>

theorem encode_status_roundtrip:
  assumes "150 \<le> unat n"
  shows "\<exists>bytes. encode_status ctx now s n = Some bytes \<and> length bytes \<le> 150 \<and>
    decode_event bytes = Some
     \<lparr>de_schema_version = 1, de_device_id = take 31 (ostr (device_id (cx_config ctx))),
      de_sequence = unat (cx_sequence ctx), de_event_type = 2, de_boot_id = take 31 (cstr (cx_boot_id ctx)),
      de_firmware_version = unat (firmware_version (cx_config ctx)),
      de_uptime_ms = unat (of_int (now sdiv 1000) :: u64), de_timestamp_ns = unat (st_timestamp_ns s),
      de_body = Status (unat (map_device_status (st_status s))) (sint (st_rssi s)) (unat (st_free_heap s))
                  (take 23 (cstr (st_reboot_reason s)))\<rparr>"
  by (rule encode_status_decodes [OF assms])

theorem encode_status_roundtrip_witness:
  "\<exists>bytes. encode_status demo_ctx 5000 (zero_status\<lparr>st_rssi := - 60\<rparr>) 4096 = Some bytes \<and>
     map_option de_body (decode_event bytes) = Some (Status 1 (- 60) 0 [])"
proof -
  have "unat (map_device_status (st_status zero_status)) = 1" "sint (- 60 :: u32) = - 60"
      "cstr (st_reboot_reason zero_status) = []" "st_free_heap zero_status = 0"
    by code_simp+
  then show ?thesis
    using encode_status_roundtrip [of 4096 demo_ctx 5000 "zero_status\<lparr>st_rssi := - 60\<rparr>"] by auto
qed

section \<open>Signal frames\<close>

definition channel_recs :: "aetus_signal_channel \<Rightarrow> (nat \<times> wval) list" where
  "channel_recs c = str_rec 1 (cstr (ch_key c)) @ str_rec 2 (cstr (ch_unit c)) @
     opt_rec 3 (ch_has_scale c) (ch_scale c) @ opt_rec 4 (ch_has_offset c) (ch_offset c)"

definition channel_bytes :: "aetus_signal_channel \<Rightarrow> byte list" where
  "channel_bytes c = concat (map put_record (channel_recs c))"

lemma channel_wire:
  assumes "channel_ok c"
  shows "wire_msg (SignalChannel_fields (fill_channel c)) = (channel_bytes c, True)"
    and "wf_fields (SignalChannel_fields (fill_channel c))"
proof -
  have "list_all2 emits (SignalChannel_fields (fill_channel c))
     [str_rec 1 (cstr (ch_key c)), str_rec 2 (cstr (ch_unit c)),
      opt_rec 3 (ch_has_scale c) (ch_scale c), opt_rec 4 (ch_has_offset c) (ch_offset c)]"
    using assms copy_string_emits [of "ch_key c" 20 "replicate 20 0" False 1]
      copy_string_emits [of "ch_unit c" 8 "replicate 8 0" False 2]
      opt_float_field_emits [of 3] opt_float_field_emits [of 4]
    by (simp add: SignalChannel_fields_def fill_channel_def channel_ok_def)
  from emits_msg [OF this] show "wire_msg (SignalChannel_fields (fill_channel c)) = (channel_bytes c, True)"
    by (simp add: channel_bytes_def channel_recs_def)
  show "wf_fields (SignalChannel_fields (fill_channel c))"
    by (simp add: SignalChannel_fields_def fill_channel_def)
qed

lemma channel_size:
  assumes "channel_ok c"
  shows "length (channel_bytes c) \<le> 40"
proof -
  have "wlen (opt_rec 3 b v) \<le> 5" "wlen (opt_rec 4 b v) \<le> 5" for b v
    using length_put_fixed [of 3 "WI32 (le_bytes 4 (unat v))" "le_bytes 4 (unat v)"]
      length_put_fixed [of 4 "WI32 (le_bytes 4 (unat v))" "le_bytes 4 (unat v)"]
    by (simp_all add: opt_rec_def del: put_record.simps)
  moreover have "wlen (str_rec 1 (cstr (ch_key c))) \<le> 21" "wlen (str_rec 2 (cstr (ch_unit c))) \<le> 9"
    using assms wlen_str_rec [of 1 "cstr (ch_key c)"] wlen_str_rec [of 2 "cstr (ch_unit c)"]
    by (simp_all add: channel_ok_def strlen_def)
  ultimately have "wlen (channel_recs c) \<le> 21 + (9 + (5 + 5))"
    unfolding channel_recs_def wlen_simps by (intro add_mono)
  then show ?thesis by (simp add: channel_bytes_def wlen_def)
qed

definition channels_recs :: "aetus_signal_channel list \<Rightarrow> (nat \<times> wval) list" where
  "channels_recs cs = map (\<lambda>c. (6, WLen (channel_bytes c))) cs"

lemma channels_writer:
  assumes "\<forall>c \<in> set cs. channel_ok c"
    and fh: "fh = mk_hdr PB_ATYPE_CALLBACK PB_HTYPE_REPEATED PB_LTYPE_SUBMESSAGE 6 8 1 True"
  shows "writes_wire (encode_channels fh cs) (concat (map put_record (channels_recs cs)), True)"
  using assms(1)
proof (induction cs)
  case Nil
  then show ?case using writes_wire_return by (simp add: channels_recs_def)
next
  case (Cons c cs)
  then have c: "channel_ok c" by simp
  have "PB_LTYPE (h_type fh) = PB_LTYPE_SUBMESSAGE"
    using callback_ltype [of PB_LTYPE_SUBMESSAGE PB_HTYPE_REPEATED 6] by (simp add: fh)
  then have t: "wire_tag_for_field fh = (varint_ref 50, True)"
    using wire_tag_ltype(3) [of fh] by (simp add: fh)
  have s: "wire_submsg (wire_msg (SignalChannel_fields (fill_channel c))) = (put_val (WLen (channel_bytes c)), True)"
    using channel_wire(1) [OF c] channel_size [OF c] by (simp add: wire_submsg_ok)
  have "writes_wire (encode_channels fh (c # cs)) (seqo (wire_tag_for_field fh)
      (seqo (wire_submsg (wire_msg (SignalChannel_fields (fill_channel c))))
        (concat (map put_record (channels_recs cs)), True)))"
    using Cons writes_wire_encode(1) [OF channel_wire(2) [OF c]]
    by (auto intro!: writes_wire_seqw writes_wire_submessage writes_wire_tag_for_field)
  then show ?case unfolding t s by (simp add: seqo_def channels_recs_def)
qed

lemma channels_size:
  assumes "\<forall>c \<in> set cs. channel_ok c" "length cs \<le> 4"
  shows "wlen (channels_recs cs) \<le> 168"
proof -
  have "length (put_record (6, WLen (channel_bytes c))) \<le> 42" if "c \<in> set cs" for c
    using length_put_len [of 6 "channel_bytes c" 1] channel_size [of c] assms(1) that by simp
  then have "sum_list (map (\<lambda>c. length (put_record (6, WLen (channel_bytes c)))) cs) \<le> sum_list (map (\<lambda>c. 42) cs)"
    by (intro sum_list_mono) auto
  then show ?thesis
    using assms(2) by (simp add: wlen_def channels_recs_def length_concat comp_def sum_list_triv del: put_record.simps)
qed

definition frame_samples :: "heap \<Rightarrow> aetus_signal_frame \<Rightarrow> byte list" where
  "frame_samples h f = take (unat (fr_samples_size f)) (samples_at h (fr_samples f))"

definition frame_recs :: "heap \<Rightarrow> aetus_signal_frame \<Rightarrow> (nat \<times> wval) list" where
  "frame_recs h f = str_rec 1 (cstr (fr_stream_key f)) @ int_rec 2 (unat (fr_sample_interval_ns f)) @
     int_rec 3 (unat (fr_sample_count f)) @ int_rec 4 (unat (map_signal_encoding (fr_encoding f))) @
     int_rec 5 (unat (map_signal_layout (fr_layout f))) @ channels_recs (frame_channels f) @
     [(7, WLen (frame_samples h f))]"

lemma signal_fields_alt:
  "SignalFrame_fields f =
     [string_field True 1 32 (pf_stream_key f),
      uint_field True 2 8 (unat (pf_sample_interval_ns f)),
      uint_field True 3 4 (unat (pf_sample_count f)),
      uint_field True 4 4 (unat (pf_encoding f)),
      uint_field True 5 4 (unat (pf_layout f)),
      callback_field PB_HTYPE_REPEATED PB_LTYPE_SUBMESSAGE 6 SNull (pf_channels f),
      callback_field PB_HTYPE_OPTIONAL PB_LTYPE_BYTES 7 SNull (pf_samples f)]"
  by (simp add: SignalFrame_fields_def callback_field_def)

lemma channels_callback:
  assumes "wf_frame f"
  shows "cb_out (encode_signal_channels_callback (Some f)
        (mk_hdr PB_ATYPE_CALLBACK PB_HTYPE_REPEATED PB_LTYPE_SUBMESSAGE 6 8 1 True)) =
      (concat (map put_record (channels_recs (frame_channels f))), True)"
    and "cb_good (encode_signal_channels_callback (Some f)
        (mk_hdr PB_ATYPE_CALLBACK PB_HTYPE_REPEATED PB_LTYPE_SUBMESSAGE 6 8 1 True))"
proof -
  let ?h = "mk_hdr PB_ATYPE_CALLBACK PB_HTYPE_REPEATED PB_LTYPE_SUBMESSAGE 6 8 1 True"
  have ok: "\<forall>c \<in> set (frame_channels f). channel_ok c" "length (frame_channels f) \<le> 4"
    using assms by (auto simp: frame_channels_def wf_frame_def dest: in_set_takeD)
  have "encode_signal_channels_callback (Some f) ?h = encode_channels ?h (frame_channels f)"
    using assms by (simp add: encode_signal_channels_callback_def frame_channels_def wf_frame_def c_defs)
  then have "byte_writer (encode_signal_channels_callback (Some f) ?h)
      (concat (map put_record (channels_recs (frame_channels f)))) True"
    using channels_writer [OF ok(1) refl] by (simp add: writes_wire_def)
  moreover have "length (concat (map put_record (channels_recs (frame_channels f)))) < 4294967296"
    using channels_size [OF ok] by (simp add: wlen_def)
  ultimately show "cb_out (encode_signal_channels_callback (Some f) ?h) =
      (concat (map put_record (channels_recs (frame_channels f))), True)"
    and "cb_good (encode_signal_channels_callback (Some f) ?h)"
    by (rule cb_out_byte_writer, rule cb_good_byte_writer)
qed

lemma frame_wire:
  assumes "wf_frame f" "fr_samples f \<noteq> Samples_null" "unat (fr_samples_size f) \<le> length (samples_at h (fr_samples f))"
    "unat (fr_samples_size f) \<le> 2400"
    and s: "pe_body (signal_frame_event ctx now h f) =
      Event_telemetry \<lparr>pt_which_payload = 2, pt_payload = Payload_signal_frame s\<rparr>"
  shows "wire_msg (SignalFrame_fields s) = (concat (map put_record (frame_recs h f)), True)"
    and "wf_fields (SignalFrame_fields s)"
proof -
  let ?hc = "mk_hdr PB_ATYPE_CALLBACK PB_HTYPE_REPEATED PB_LTYPE_SUBMESSAGE 6 8 1 True"
  let ?hb = "mk_hdr PB_ATYPE_CALLBACK PB_HTYPE_OPTIONAL PB_LTYPE_BYTES 7 8 1 True"
  let ?arg = "Some \<lparr>ba_data = Some (samples_at h (fr_samples f)), ba_size = fr_samples_size f\<rparr>"
  have b: "cb_out (encode_bytes_callback ?arg ?hb) = (concat (map put_record [(7, WLen (frame_samples h f))]), True)"
    "cb_good (encode_bytes_callback ?arg ?hb)"
    using bytes_callback_wire [of ?hb "fr_samples_size f" "samples_at h (fr_samples f)"] assms(3,4)
      callback_ltype [of PB_LTYPE_BYTES PB_HTYPE_OPTIONAL 7]
    by (simp_all add: frame_samples_def)
  have e7: "emits (callback_field PB_HTYPE_OPTIONAL PB_LTYPE_BYTES 7 SNull (Some (encode_bytes_callback ?arg)))
      [(7, WLen (frame_samples h f))]"
    using callback_field_emits [of PB_HTYPE_OPTIONAL PB_LTYPE_BYTES SNull 7 7 "encode_bytes_callback ?arg"
        "[(7, WLen (frame_samples h f))]"] b(1) by (simp del: put_record.simps)
  have e6: "emits (callback_field PB_HTYPE_REPEATED PB_LTYPE_SUBMESSAGE 6 SNull
      (Some (encode_signal_channels_callback (Some f)))) (channels_recs (frame_channels f))"
    using callback_field_emits [of PB_HTYPE_REPEATED PB_LTYPE_SUBMESSAGE SNull 6 6
        "encode_signal_channels_callback (Some f)" "channels_recs (frame_channels f)"]
      channels_callback(1) [OF assms(1)] by (simp del: put_record.simps)
  have k: "emits (string_field True 1 32 (copy_string (replicate 32 0) 32 (Some (fr_stream_key f))))
      (str_rec 1 (cstr (fr_stream_key f)))"
    using copy_string_emits [of "fr_stream_key f" 32 "replicate 32 0" True 1] assms(1) by (simp add: wf_frame_def)
  have "list_all2 emits (SignalFrame_fields s)
     [str_rec 1 (cstr (fr_stream_key f)), int_rec 2 (unat (fr_sample_interval_ns f)),
      int_rec 3 (unat (fr_sample_count f)), int_rec 4 (unat (map_signal_encoding (fr_encoding f))),
      int_rec 5 (unat (map_signal_layout (fr_layout f))), channels_recs (frame_channels f),
      [(7, WLen (frame_samples h f))]]"
    using s assms(2) k e6 e7 by (auto simp: signal_frame_event_def signal_fields_alt uint_word_emits)
  from emits_msg [OF this] show "wire_msg (SignalFrame_fields s) = (concat (map put_record (frame_recs h f)), True)"
    by (simp add: frame_recs_def)
  show "wf_fields (SignalFrame_fields s)"
    using s assms(2) b(2) channels_callback(2) [OF assms(1)]
    by (auto simp: signal_frame_event_def signal_fields_alt)
qed

lemma frame_recs_size:
  assumes "wf_frame f" "unat (fr_samples_size f) \<le> 2400"
  shows "wlen (frame_recs h f) \<le> 2625"
proof -
  have w: "unat (v :: u32) < 128 ^ 5" "unat (u :: u64) < 128 ^ 10" for v u
    by (rule order_less_trans [OF unat_u32_lt], simp) (rule order_less_trans [OF unat_u64_256], simp)
  have m: "unat (map_signal_encoding (fr_encoding f)) < 128 ^ 1" "unat (map_signal_layout (fr_layout f)) < 128 ^ 1"
    by (simp_all add: map_signal_encoding_def map_signal_layout_def
        split: aetus_signal_encoding.split aetus_signal_layout.split)
  have "length (frame_samples h f) \<le> 2400" using assms(2) by (simp add: frame_samples_def)
  then have "length (put_record (7, WLen (frame_samples h f))) \<le> 2403"
    using length_put_len [of 7 "frame_samples h f" 2] by simp
  moreover have "wlen (channels_recs (frame_channels f)) \<le> 168"
    using assms(1) by (intro channels_size) (auto simp: wf_frame_def frame_channels_def dest: in_set_takeD)
  moreover have "wlen (str_rec 1 (cstr (fr_stream_key f))) \<le> 33"
    using wlen_str_rec [of 1 "cstr (fr_stream_key f)"] assms(1) by (simp add: wf_frame_def strlen_def)
  moreover have "wlen (int_rec 2 (unat (fr_sample_interval_ns f))) \<le> 11"
    "wlen (int_rec 3 (unat (fr_sample_count f))) \<le> 6"
    "wlen (int_rec 4 (unat (map_signal_encoding (fr_encoding f)))) \<le> 2"
    "wlen (int_rec 5 (unat (map_signal_layout (fr_layout f)))) \<le> 2"
    using wlen_int_rec [of 2 "unat (fr_sample_interval_ns f)" 10] wlen_int_rec [of 3 "unat (fr_sample_count f)" 5]
      wlen_int_rec [of 4 "unat (map_signal_encoding (fr_encoding f))" 1]
      wlen_int_rec [of 5 "unat (map_signal_layout (fr_layout f))" 1] w m by simp_all
  ultimately show ?thesis by (simp add: frame_recs_def del: put_record.simps)
qed

lemma validated_samples:
  "validate_signal_frame (Some f) = ESP_OK \<Longrightarrow>
     fr_samples f \<noteq> Samples_null \<and> unat (fr_samples_size f) \<le> 2400"
  by (auto simp: validate_signal_frame_def c_defs split: if_splits sum.splits)

definition decoded_of :: "aetus_signal_channel \<Rightarrow> decoded_channel" where
  "decoded_of c = \<lparr>dc_key = cstr (ch_key c), dc_unit = cstr (ch_unit c),
     dc_scale = (if ch_has_scale c then Some (ch_scale c) else None),
     dc_offset = (if ch_has_offset c then Some (ch_offset c) else None)\<rparr>"

lemma decode_channel_bytes: "decode_channel (channel_bytes c) = Some (decoded_of c)"
proof -
  have "recs_ok (channel_recs c)" by (simp add: channel_recs_def)
  note r = read_back [OF this]
  have "of_le (le_bytes 4 (unat (v :: u32))) = unat v" for v by (simp add: of_le_le_bytes)
  then show ?thesis
    unfolding decode_channel_def channel_bytes_def r
    by (auto simp: channel_recs_def decoded_of_def get_str_def get_float_def field_of_append split: option.split)
qed

lemma decode_signal_bytes:
  "decode_signal (concat (map put_record (frame_recs h f))) =
     Some (Signal (cstr (fr_stream_key f)) (unat (fr_sample_interval_ns f)) (unat (fr_sample_count f))
       (unat (map_signal_encoding (fr_encoding f))) (unat (map_signal_layout (fr_layout f)))
       (map decoded_of (frame_channels f)) (frame_samples h f))"
proof -
  have c: "recs_ok (channels_recs cs)" "t \<noteq> 6 \<Longrightarrow> field_of t (channels_recs cs) = None"
    "get_subs 6 (channels_recs cs) = map channel_bytes cs" for cs t
    using get_subs_simps(3) [of 6 6 "map channel_bytes cs"]
    by (auto simp: recs_ok_def channels_recs_def field_of_def comp_def filter_empty_conv)
  then have "recs_ok (frame_recs h f)" by (simp add: frame_recs_def)
  note r = read_back [OF this]
  have "those (map decode_channel (map channel_bytes (frame_channels f))) = Some (map decoded_of (frame_channels f))"
    unfolding map_map by (rule those_map_Some) (simp add: decode_channel_bytes)
  moreover have "get_subs 6 (frame_recs h f) = map channel_bytes (frame_channels f)"
    by (simp add: frame_recs_def c)
  moreover have "get_str 1 (frame_recs h f) = cstr (fr_stream_key f)"
    "get_uint 2 (frame_recs h f) = unat (fr_sample_interval_ns f)"
    "get_uint 3 (frame_recs h f) = unat (fr_sample_count f)"
    "get_uint 4 (frame_recs h f) = unat (map_signal_encoding (fr_encoding f))"
    "get_uint 5 (frame_recs h f) = unat (map_signal_layout (fr_layout f))"
    "get_str 7 (frame_recs h f) = frame_samples h f"
    by (auto simp: frame_recs_def get_str_def get_uint_def field_of_append c split: option.split)
  ultimately show ?thesis by (simp add: decode_signal_def r)
qed

lemma encode_signal_frame_decodes:
  assumes "wf_frame f" "validate_signal_frame (Some f) = ESP_OK"
    "unat (fr_samples_size f) \<le> length (samples_at h (fr_samples f))" "2912 \<le> unat n"
  shows "\<exists>bytes. encode_signal_frame ctx now h f n = Some bytes \<and> length bytes \<le> 2912 \<and>
    decode_event bytes = Some
     \<lparr>de_schema_version = 1, de_device_id = take 31 (ostr (device_id (cx_config ctx))),
      de_sequence = unat (cx_sequence ctx), de_event_type = 1, de_boot_id = take 31 (cstr (cx_boot_id ctx)),
      de_firmware_version = unat (firmware_version (cx_config ctx)),
      de_uptime_ms = unat (of_int (now sdiv 1000) :: u64), de_timestamp_ns = unat (fr_timestamp_ns f),
      de_body = Signal (cstr (fr_stream_key f)) (unat (fr_sample_interval_ns f)) (unat (fr_sample_count f))
        (unat (map_signal_encoding (fr_encoding f))) (unat (map_signal_layout (fr_layout f)))
        (map decoded_of (frame_channels f)) (frame_samples h f)\<rparr>"
proof -
  let ?e = "signal_frame_event ctx now h f" and ?fb = "concat (map put_record (frame_recs h f))"
  have v: "fr_samples f \<noteq> Samples_null" "unat (fr_samples_size f) \<le> 2400"
    using assms(2) validated_samples by auto
  obtain s where s: "pe_body ?e = Event_telemetry \<lparr>pt_which_payload = 2, pt_payload = Payload_signal_frame s\<rparr>"
    by (simp add: signal_frame_event_def)
  note fw = frame_wire [OF assms(1) v(1) assms(3) v(2) s]
  have fl: "length ?fb \<le> 2625" using frame_recs_size [OF assms(1) v(2)] by (simp add: wlen_def)
  let ?bs = "put_record (2, WLen ?fb)"
  have bl: "length ?bs \<le> 2628" using length_put_len [of 2 ?fb 2] fl by (simp del: put_record.simps)
  have b: "wire_msg (body_fields (pe_body ?e)) = (?bs, True)"
    using fw(1) fl by (simp add: s body_fields_def payload_wire wire_submsg_ok seqo_def)
  have bw: "wf_fields (body_fields (pe_body ?e))"
    using fw(2) by (simp add: s body_fields_def TelemetryPayload_fields_def)
  have e: "header_ok ?e" "pe_schema_version ?e = 1" "unat (pe_event_type ?e) < 128"
    "pe_which_body ?e = body_tag (pe_body ?e)" "body_tag (pe_body ?e) = 10"
    by (simp add: signal_frame_event_def) (simp_all add: signal_frame_event_def fill_event_header_def body_tag_def)
  let ?bytes = "concat (map put_record (header_recs ?e @ [(10, WLen ?bs)]))"
  have enc: "encode_signal_frame ctx now h f n = Some ?bytes"
    using encode_event_body [OF bw e(1-4) b, of 2 n] bl e(5) assms(2,4)
    by (simp add: encode_signal_frame_def del: put_record.simps)
  have len: "length ?bytes \<le> 2912"
    using header_size [OF e(1-3)] length_put_len [of 10 ?bs 2] bl by (simp add: wlen_def del: put_record.simps)
  have "get_records ?bs = Some [(2, WLen ?fb)]"
    using read_back [of "[(2, WLen ?fb)]"] by (simp del: put_record.simps)
  then have "decode_event ?bytes = Some (decoded_header ?e (Signal (cstr (fr_stream_key f))
      (unat (fr_sample_interval_ns f)) (unat (fr_sample_count f))
        (unat (map_signal_encoding (fr_encoding f))) (unat (map_signal_layout (fr_layout f)))
        (map decoded_of (frame_channels f)) (frame_samples h f)))"
    by (intro decode_event_wire) (simp_all add: decode_payload_def decode_signal_bytes del: put_record.simps)
  with enc len show ?thesis
    by (simp add: decoded_header_def signal_frame_event_def fill_event_header_def
        pb_ingest_event_init_zero_def cstr_copy_string del: put_record.simps)
qed

text \<open>
  C24. Every well-formed frame that passes validation encodes in 2912 bytes, the maximum of 2400 sample bytes and
  the 512 bytes that \<open>AETUS_SIGNAL_FRAME_ENCODE_OVERHEAD_BYTES\<close> reserves, so never fails in the uploader; a
  reader finds the stream key, timing, encoding, layout, every channel with its optional scale and offset, and
  exactly the sample bytes.
\<close>

theorem encode_signal_frame_roundtrip:
  assumes "wf_frame f" "validate_signal_frame (Some f) = ESP_OK"
    "unat (fr_samples_size f) \<le> length (samples_at h (fr_samples f))" "2912 \<le> unat n"
  shows "\<exists>bytes. encode_signal_frame ctx now h f n = Some bytes \<and> length bytes \<le> 2912 \<and>
    decode_event bytes = Some
     \<lparr>de_schema_version = 1, de_device_id = take 31 (ostr (device_id (cx_config ctx))),
      de_sequence = unat (cx_sequence ctx), de_event_type = 1, de_boot_id = take 31 (cstr (cx_boot_id ctx)),
      de_firmware_version = unat (firmware_version (cx_config ctx)),
      de_uptime_ms = unat (of_int (now sdiv 1000) :: u64), de_timestamp_ns = unat (fr_timestamp_ns f),
      de_body = Signal (cstr (fr_stream_key f)) (unat (fr_sample_interval_ns f)) (unat (fr_sample_count f))
        (unat (map_signal_encoding (fr_encoding f))) (unat (map_signal_layout (fr_layout f)))
        (map decoded_of (frame_channels f)) (frame_samples h f)\<rparr>"
  by (rule encode_signal_frame_decodes [OF assms])

definition demo_channel_frame :: aetus_signal_frame where
  "demo_channel_frame = demo_frame\<lparr>fr_channel_count := 1,
     fr_channels := zero_channel\<lparr>ch_key := 65 # replicate 19 0\<rparr> # replicate 3 zero_channel\<rparr>"

theorem encode_signal_frame_roundtrip_witness:
  "\<exists>bytes. encode_signal_frame demo_ctx 5000 demo_heap demo_channel_frame 4096 = Some bytes \<and>
     length bytes \<le> 2912 \<and> map_option de_sequence (decode_event bytes) = Some 7"
proof -
  have "wf_frame demo_channel_frame" by code_simp
  moreover have "validate_signal_frame (Some demo_channel_frame) = ESP_OK" by code_simp
  moreover have "unat (fr_samples_size demo_channel_frame) \<le> length (samples_at demo_heap (fr_samples demo_channel_frame))"
    by (simp add: demo_channel_frame_def demo_frame_def samples_at_def)
  ultimately show ?thesis
    using encode_signal_frame_roundtrip [of demo_channel_frame demo_heap 4096 demo_ctx 5000]
    by (auto simp: demo_ctx_def)
qed

end
