(* ===== verification/Auth.thy ===== *)
theory Auth
  imports EncodeEvent
begin

text \<open>
  Request signing (\<open>aetus.c\<close>, lines 197-355): SHA-256 over parts, HMAC-SHA256 built on it, and the signature
  header. The digest itself is mbedTLS, code outside the sources: its five calls are the record \<open>md_api\<close>, a
  parameter of every definition. What the code relies on is the locale \<open>message_digest\<close>: updates append to
  what is hashed, a finished digest is the hash of all of it, and has 32 bytes.

  A function that fills an output array returns \<open>Inr\<close> of it, and \<open>Inl\<close> of the error code where it returns
  one. A \<open>char\<close> array is given with its terminator.
\<close>

section \<open>Formatted output\<close>

text \<open>
  \<open>snprintf(buffer, n, ...)\<close> for a formatted text without zero bytes: the array it leaves (its
  written part) and the length of the whole text.
\<close>

definition snprintf :: "nat \<Rightarrow> byte list \<Rightarrow> byte list \<times> nat" where
  "snprintf n text = (if n = 0 then [] else take (n - 1) text @ [0], length text)"

section \<open>The digest\<close>

record 'c md_api =
  md_info_available :: bool
  md_setup :: "int \<times> 'c"
  md_starts :: "'c \<Rightarrow> int \<times> 'c"
  md_update :: "'c \<Rightarrow> byte list \<Rightarrow> int \<times> 'c"
  md_finish :: "'c \<Rightarrow> int \<times> byte list"

text \<open>A part is a pointer with a size; an absent or empty part is skipped.\<close>

type_synonym part = "byte list option \<times> nat"

definition update_part :: "'c md_api \<Rightarrow> part \<Rightarrow> int \<times> 'c \<Rightarrow> int \<times> 'c" where
  "update_part md p st =
     (case st of (rc, c) \<Rightarrow>
        (case p of
           (Some bs, n) \<Rightarrow> if rc = 0 \<and> n > 0 then md_update md c (take n bs) else (rc, c)
         | (None, n) \<Rightarrow> (rc, c)))"

definition sha256_digest_parts ::
  "'c md_api \<Rightarrow> part \<Rightarrow> part \<Rightarrow> part \<Rightarrow> esp_err + byte list" where
  "sha256_digest_parts md part0 part1 part2 =
     (if \<not> md_info_available md then Inl ESP_FAIL
      else
        let (rc, c) = md_setup md;
            (rc, c) = (if rc = 0 then md_starts md c else (rc, c));
            (rc, c) = update_part md part2 (update_part md part1 (update_part md part0 (rc, c)));
            (rc, digest) = (if rc = 0 then md_finish md c else (rc, []))
        in if rc = 0 then Inr digest else Inl ESP_FAIL)"

definition sha256_hex :: "'c md_api \<Rightarrow> byte list \<Rightarrow> nat \<Rightarrow> byte list \<Rightarrow> esp_err + byte list" where
  "sha256_hex md payload payload_size hex =
     (case sha256_digest_parts md (Some payload, payload_size) (None, 0) (None, 0) of
        Inl err \<Rightarrow> Inl err
      | Inr digest \<Rightarrow> Inr (bytes_to_hex digest 32 hex (length hex)))"

definition hmac_sha256_digest ::
  "'c md_api \<Rightarrow> byte list \<Rightarrow> nat \<Rightarrow> part \<Rightarrow> part \<Rightarrow> esp_err + byte list" where
  "hmac_sha256_digest md key key_size message0 message1 =
     (let key_block =
            (if key_size > 64 then
               (case sha256_digest_parts md (Some key, key_size) (None, 0) (None, 0) of
                  Inl err \<Rightarrow> Inl err
                | Inr d \<Rightarrow> Inr (d @ replicate (64 - length d) 0))
             else Inr (take key_size key @ replicate (64 - key_size) 0))
      in case key_block of
           Inl err \<Rightarrow> Inl err
         | Inr kb \<Rightarrow>
             let ipad = map (\<lambda>b. b XOR 0x36) kb; opad = map (\<lambda>b. b XOR 0x5C) kb
             in (case sha256_digest_parts md (Some ipad, 64) message0 message1 of
                   Inl err \<Rightarrow> Inl err
                 | Inr inner_digest \<Rightarrow>
                     sha256_digest_parts md (Some opad, 64) (Some inner_digest, 32) (None, 0)))"

definition AETUS_HMAC_SCHEME :: "byte list" where
  "AETUS_HMAC_SCHEME = str ''hmac-sha256-v1''"

definition AETUS_HMAC_PREFIX :: "byte list" where
  "AETUS_HMAC_PREFIX = str ''AETUS-HMAC-SHA256-V1'' @ [10] @ str ''POST'' @ [10] @ str ''/v1/ingest'' @ [10]"

text \<open>
  The configuration passed the checks of \<open>aetus_start\<close>, so the strings of the context are not \<open>NULL\<close>;
  \<open>ostr\<close> reads them.
\<close>

definition hmac_signature_header ::
  "'c md_api \<Rightarrow> aetus_ctx \<Rightarrow> byte list \<Rightarrow> nat \<Rightarrow> nat \<Rightarrow> esp_err + byte list" where
  "hmac_signature_header md ctx payload payload_size header_size =
     (case sha256_hex md payload payload_size (replicate 65 0) of
        Inl err \<Rightarrow> Inl err
      | Inr body_sha256_hex \<Rightarrow>
          let (signing_prefix, prefix_len) =
                snprintf 128 (AETUS_HMAC_PREFIX @ ostr (device_id (cx_config ctx)) @ [10])
          in if \<not> (prefix_len > 0 \<and> prefix_len < 128) then Inl ESP_ERR_INVALID_SIZE
             else
               (case hmac_sha256_digest md (ostr (device_token (cx_config ctx)))
                       (length (ostr (device_token (cx_config ctx))))
                       (Some signing_prefix, prefix_len)
                       (Some body_sha256_hex, strlen body_sha256_hex) of
                  Inl err \<Rightarrow> Inl err
                | Inr digest \<Rightarrow>
                    let signature_hex = bytes_to_hex digest 32 (replicate 65 0) 65;
                        (header, written) =
                          snprintf header_size (AETUS_HMAC_SCHEME @ str ''='' @ cstr signature_hex)
                    in if written > 0 \<and> written < header_size then Inr header
                       else Inl ESP_ERR_INVALID_SIZE))"

section \<open>HMAC as RFC 2104 defines it\<close>

definition hmac_key_block :: "(byte list \<Rightarrow> byte list) \<Rightarrow> byte list \<Rightarrow> byte list" where
  "hmac_key_block H key =
     (let k = (if length key > 64 then H key else key) in k @ replicate (64 - length k) 0)"

definition hmac_ref :: "(byte list \<Rightarrow> byte list) \<Rightarrow> byte list \<Rightarrow> byte list \<Rightarrow> byte list" where
  "hmac_ref H key msg =
     H (map (\<lambda>b. b XOR 0x5C) (hmac_key_block H key) @
        H (map (\<lambda>b. b XOR 0x36) (hmac_key_block H key) @ msg))"

text \<open>The bytes of a part.\<close>

definition part_bytes :: "part \<Rightarrow> byte list" where
  "part_bytes p = (case fst p of None \<Rightarrow> [] | Some bs \<Rightarrow> take (snd p) bs)"

text \<open>
  The contract of the digest: \<open>hashed c\<close> is what a context has been fed, \<open>H\<close> the hash function. No
  call is assumed to succeed.
\<close>

locale message_digest =
  fixes md :: "'c md_api" and hashed :: "'c \<Rightarrow> byte list" and H :: "byte list \<Rightarrow> byte list"
  assumes starts: "md_starts md c = (0, c') \<Longrightarrow> hashed c' = []"
    and update: "md_update md c bs = (0, c') \<Longrightarrow> hashed c' = hashed c @ bs"
    and finish: "md_finish md c = (0, d) \<Longrightarrow> d = H (hashed c)"
    and digest_size: "length (H bs) = 32"
begin

lemma update_part_hashed:
  assumes "update_part md p (rc, c) = (0, c')"
  shows "rc = 0 \<and> hashed c' = hashed c @ part_bytes p"
proof -
  obtain q n where p: "p = (q, n)" by (cases p)
  show ?thesis
    using assms by (cases q) (auto simp: p update_part_def part_bytes_def dest: update split: if_splits)
qed

lemma digest_parts:
  assumes "sha256_digest_parts md p0 p1 p2 = Inr d"
  shows "d = H (part_bytes p0 @ part_bytes p1 @ part_bytes p2)"
proof -
  obtain rc0 c0 where s: "md_setup md = (rc0, c0)" by (cases "md_setup md")
  obtain rc1 c1 where s1: "(if rc0 = 0 then md_starts md c0 else (rc0, c0)) = (rc1, c1)"
    by (cases "if rc0 = 0 then md_starts md c0 else (rc0, c0)")
  obtain rc2 c2 where u0: "update_part md p0 (rc1, c1) = (rc2, c2)" by (cases "update_part md p0 (rc1, c1)")
  obtain rc3 c3 where u1: "update_part md p1 (rc2, c2) = (rc3, c3)" by (cases "update_part md p1 (rc2, c2)")
  obtain rc4 c4 where u2: "update_part md p2 (rc3, c3) = (rc4, c4)" by (cases "update_part md p2 (rc3, c3)")
  have f: "rc4 = 0" "md_finish md c4 = (0, d)"
    using assms s s1 u0 u1 u2 by (auto simp: sha256_digest_parts_def Let_def split: if_splits prod.splits)
  have h2: "rc3 = 0" "hashed c4 = hashed c3 @ part_bytes p2" using update_part_hashed u2 f(1) by auto
  have h1: "rc2 = 0" "hashed c3 = hashed c2 @ part_bytes p1" using update_part_hashed u1 h2(1) by auto
  have h0: "rc1 = 0" "hashed c2 = hashed c1 @ part_bytes p0" using update_part_hashed u0 h1(1) by auto
  have "rc0 = 0" "md_starts md c0 = (0, c1)" using s1 h0(1) by (auto split: if_splits)
  then show ?thesis using finish [OF f(2)] starts h0 h1 h2 by simp
qed

lemma hmac_digest:
  assumes "hmac_sha256_digest md key (length key) m0 m1 = Inr d"
  shows "d = hmac_ref H key (part_bytes m0 @ part_bytes m1)"
proof -
  have "\<exists>kb. kb = hmac_key_block H key \<and> length kb = 64 \<and>
      (case sha256_digest_parts md (Some (map (\<lambda>b. b XOR 0x36) kb), 64) m0 m1 of
         Inl err \<Rightarrow> Inl err
       | Inr i \<Rightarrow> sha256_digest_parts md (Some (map (\<lambda>b. b XOR 0x5C) kb), 64) (Some i, 32) (None, 0)) = Inr d"
  proof (cases "length key > 64")
    case True
    then obtain k where k: "sha256_digest_parts md (Some key, length key) (None, 0) (None, 0) = Inr k"
      using assms by (auto simp: hmac_sha256_digest_def Let_def split: sum.splits)
    then have "k = H key" using digest_parts by (fastforce simp: part_bytes_def)
    with True assms k show ?thesis
      by (simp add: hmac_sha256_digest_def hmac_key_block_def Let_def digest_size del: map_append split: sum.splits)
  next
    case False
    with assms show ?thesis
      by (simp add: hmac_sha256_digest_def hmac_key_block_def Let_def del: map_append split: sum.splits)
  qed
  then obtain kb i where kb: "kb = hmac_key_block H key" "length kb = 64"
    and i: "sha256_digest_parts md (Some (map (\<lambda>b. b XOR 0x36) kb), 64) m0 m1 = Inr i"
    and d: "sha256_digest_parts md (Some (map (\<lambda>b. b XOR 0x5C) kb), 64) (Some i, 32) (None, 0) = Inr d"
    by (auto split: sum.splits)
  have "i = H (map (\<lambda>b. b XOR 0x36) kb @ part_bytes m0 @ part_bytes m1)"
    using digest_parts [OF i] kb(2) by (simp add: part_bytes_def)
  moreover have "length i = 32" using digest_parts [OF i] digest_size by simp
  ultimately show ?thesis
    using digest_parts [OF d] kb by (simp add: part_bytes_def hmac_ref_def)
qed

text \<open>The value of the signature header of a payload.\<close>

lemma signature_header:
  assumes "length (ostr (device_id (cx_config ctx))) \<le> 63"
    and "hmac_signature_header md ctx payload (length payload) 96 = Inr header"
  shows "header = AETUS_HMAC_SCHEME @ str ''='' @ hex_of (hmac_ref H (ostr (device_token (cx_config ctx)))
      (AETUS_HMAC_PREFIX @ ostr (device_id (cx_config ctx)) @ [10] @ hex_of (H payload))) @ [0]"
proof -
  let ?id = "ostr (device_id (cx_config ctx))" and ?tok = "ostr (device_token (cx_config ctx))"
  let ?pre = "AETUS_HMAC_PREFIX @ ?id @ [10]"
  have pl: "length ?pre < 128" "0 < length ?pre" using assms(1) by (simp_all add: AETUS_HMAC_PREFIX_def)
  obtain hx where hx: "sha256_hex md payload (length payload) (replicate 65 0) = Inr hx"
    using assms(2) by (auto simp: hmac_signature_header_def split: sum.splits)
  then obtain bd where bd: "sha256_digest_parts md (Some payload, length payload) (None, 0) (None, 0) = Inr bd"
      "hx = bytes_to_hex bd 32 (replicate 65 0) 65"
    by (auto simp: sha256_hex_def split: sum.splits)
  have bdH: "bd = H payload" "length bd = 32"
    using digest_parts [OF bd(1)] digest_size by (simp_all add: part_bytes_def)
  have hex: "bytes_to_hex d 32 (replicate 65 0) 65 = hex_of d @ [0]" "cstr (hex_of d @ [0]) = hex_of d"
    if "length d = 32" for d
    using bytes_to_hex_ok [OF that, of "replicate 65 0"] hex_of_no_zero [of d]
    by (simp_all add: cstr_append_zero)
  have hx': "hx = hex_of (H payload) @ [0]" "strlen hx = 64"
    using bd(2) bdH hex [of bd] by (simp_all add: strlen_def)
  obtain d where d: "hmac_sha256_digest md ?tok (length ?tok) (Some (?pre @ [0]), length ?pre) (Some hx, 64) = Inr d"
    and hd: "header = fst (snprintf 96 (AETUS_HMAC_SCHEME @ str ''='' @ cstr (bytes_to_hex d 32 (replicate 65 0) 65)))"
    using assms(2) hx hx'(2) pl
    by (auto simp: hmac_signature_header_def snprintf_def Let_def split: sum.splits if_splits)
  have "d = hmac_ref H ?tok (?pre @ hex_of (H payload))"
    using hmac_digest [OF d] hx'(1) bdH(2) by (simp add: part_bytes_def bdH(1) [symmetric])
  moreover have "length d = 32" using calculation digest_size by (simp add: hmac_ref_def)
  ultimately show ?thesis
    using hd hex [of d] by (simp add: snprintf_def AETUS_HMAC_SCHEME_def)
qed

end

section \<open>Properties\<close>

lemma length_bytes_to_hex: "length (bytes_to_hex bytes n hex m) = length hex"
proof -
  have "length (foldl (\<lambda>hex i. hex[i * 2 := f i, i * 2 + 1 := g i]) hex is) = length hex"
    for f g :: "nat \<Rightarrow> byte" and hex "is"
    by (induction "is" arbitrary: hex) simp_all
  then show ?thesis by (simp add: bytes_to_hex_def)
qed

text \<open>A digest none of whose calls fails.\<close>

definition md_reliable :: "'c md_api \<Rightarrow> bool" where
  "md_reliable md \<longleftrightarrow> md_info_available md \<and> fst (md_setup md) = 0 \<and> (\<forall>c. fst (md_starts md c) = 0) \<and>
     (\<forall>c bs. fst (md_update md c bs) = 0) \<and> (\<forall>c. fst (md_finish md c) = 0)"

lemma update_part_reliable:
  assumes "md_reliable md"
  shows "fst (update_part md p (0, c)) = 0"
  using assms by (auto simp: update_part_def md_reliable_def split: prod.split option.split)

lemma digest_parts_reliable:
  assumes "md_reliable md"
  shows "\<exists>d. sha256_digest_parts md p0 p1 p2 = Inr d"
proof -
  obtain c0 where s: "md_setup md = (0, c0)" using assms by (metis md_reliable_def prod.collapse)
  obtain c1 where s1: "md_starts md c0 = (0, c1)" using assms by (metis md_reliable_def prod.collapse)
  have up: "\<exists>c'. update_part md p (0, c) = (0, c')" for p c
    using update_part_reliable [OF assms, of p c] by (metis prod.collapse)
  obtain c2 c3 c4 where u: "update_part md p0 (0, c1) = (0, c2)" "update_part md p1 (0, c2) = (0, c3)"
      "update_part md p2 (0, c3) = (0, c4)"
    using up by metis
  obtain d where f: "md_finish md c4 = (0, d)"
    using assms by (metis md_reliable_def prod.collapse)
  show ?thesis
    using assms s s1 u f by (simp add: sha256_digest_parts_def md_reliable_def)
qed

lemma hmac_reliable:
  assumes "md_reliable md"
  shows "\<exists>d. hmac_sha256_digest md key n m0 m1 = Inr d"
proof -
  obtain k where k: "sha256_digest_parts md (Some key, n) (None, 0) (None, 0) = Inr k"
    using digest_parts_reliable [OF assms] by blast
  have "\<exists>d. (case sha256_digest_parts md p m0 m1 of Inl err \<Rightarrow> Inl err
      | Inr i \<Rightarrow> sha256_digest_parts md q (Some i, 32) (None, 0)) = Inr d" for p q
    using digest_parts_reliable [OF assms] by (metis sum.case(2))
  then show ?thesis by (simp add: hmac_sha256_digest_def Let_def k)
qed

text \<open>A digest that collects its input; with it the contract is met for every hash of 32 bytes.\<close>

definition buffering_md :: "(byte list \<Rightarrow> byte list) \<Rightarrow> byte list md_api" where
  "buffering_md H = \<lparr>md_info_available = True, md_setup = (0, []), md_starts = (\<lambda>c. (0, [])),
     md_update = (\<lambda>c bs. (0, c @ bs)), md_finish = (\<lambda>c. (0, H c))\<rparr>"

definition pad32 :: "byte list \<Rightarrow> byte list" where
  "pad32 bs = take 32 (bs @ replicate 32 0)"

interpretation buffering: message_digest "buffering_md pad32" "\<lambda>c. c" pad32
  by unfold_locales (auto simp: buffering_md_def pad32_def)

lemma buffering_reliable: "md_reliable (buffering_md H)"
  by (simp add: md_reliable_def buffering_md_def)

text \<open>A reliable digest signs every payload.\<close>

lemma signature_produced:
  assumes r: "md_reliable md" and id: "length (ostr (device_id (cx_config ctx))) \<le> 63"
  shows "\<exists>header. hmac_signature_header md ctx payload (length payload) 96 = Inr header"
proof -
  let ?pre = "AETUS_HMAC_PREFIX @ ostr (device_id (cx_config ctx)) @ [10]"
  have pl: "length ?pre < 128" "0 < length ?pre" using id by (simp_all add: AETUS_HMAC_PREFIX_def)
  obtain bd where bd: "sha256_digest_parts md (Some payload, length payload) (None, 0) (None, 0) = Inr bd"
    using digest_parts_reliable [OF r] by blast
  let ?hx = "bytes_to_hex bd 32 (replicate 65 0) 65"
  obtain d where d: "hmac_sha256_digest md (ostr (device_token (cx_config ctx)))
      (length (ostr (device_token (cx_config ctx)))) (Some (?pre @ [0]), length ?pre) (Some ?hx, strlen ?hx) = Inr d"
    using hmac_reliable [OF r] by blast
  have "length (cstr (bytes_to_hex d 32 (replicate 65 0) 65)) \<le> 65"
    using length_cstr_le [of "bytes_to_hex d 32 (replicate 65 0) 65"] by (simp add: length_bytes_to_hex)
  then show ?thesis
    using pl bd d by (simp add: hmac_signature_header_def sha256_hex_def snprintf_def Let_def AETUS_HMAC_SCHEME_def)
qed

text \<open>
  C26. \<open>hmac_signature_header\<close> computes the documented signature: for a device id within its limit the header is
  \<open>hmac-sha256-v1=\<close> followed by the lowercase hex of the RFC 2104 HMAC, under the device token, of the
  signing prefix, the device id, a newline and the hex SHA-256 of the payload. It never reports
  another value, and reports this one whenever no digest call fails.
\<close>

theorem signature_header_correct:
  assumes "message_digest md hashed H" "length (ostr (device_id (cx_config ctx))) \<le> 63"
    and "result = hmac_signature_header md ctx payload (length payload) 96"
    and "signature = AETUS_HMAC_SCHEME @ str ''='' @ hex_of (hmac_ref H (ostr (device_token (cx_config ctx)))
      (AETUS_HMAC_PREFIX @ ostr (device_id (cx_config ctx)) @ [10] @ hex_of (H payload)))"
  shows "(\<forall>header. result = Inr header \<longrightarrow> header = signature @ [0]) \<and>
    (md_reliable md \<longrightarrow> result = Inr (signature @ [0]))"
proof -
  have ok: "header = signature @ [0]" if "result = Inr header" for header
    using message_digest.signature_header [OF assms(1,2)] that assms(3,4) by simp
  have "\<exists>header. result = Inr header" if "md_reliable md"
    using signature_produced [OF that assms(2)] assms(3) by simp
  with ok show ?thesis by blast
qed

definition sign_ctx :: aetus_ctx where
  "sign_ctx = \<lparr>cx_config = \<lparr>wifi_ssid = None, wifi_password = None, wifi_auth = AETUS_WIFI_AUTH_PSK,
       wifi_identity = None, ingest_url = None, time_url = None, device_id = Some [100, 49, 0],
       device_token = Some [116, 0], auth_mode = AETUS_AUTH_HMAC_SHA256, firmware_version = 3,
       upload_interval_ms = 1000, queue_depth = 8, connected_led_enabled = False, connected_led_gpio = 0\<rparr>,
     cx_queue = 1, cx_events = 2, cx_upload_timer = 3, cx_sequence = 7, cx_boot_id = [98, 0],
     cx_wifi_started = True, cx_wifi_reconfiguring = False, cx_signal_pool_stats = undefined\<rparr>"

theorem signature_header_correct_witness:
  "hmac_signature_header (buffering_md pad32) sign_ctx [1, 2, 3] 3 96 =
     Inr (AETUS_HMAC_SCHEME @ str ''='' @ hex_of (hmac_ref pad32 [116]
      (AETUS_HMAC_PREFIX @ [100, 49] @ [10] @ hex_of (pad32 [1, 2, 3]))) @ [0])"
proof -
  have id: "ostr (device_id (cx_config sign_ctx)) = [100, 49]" "ostr (device_token (cx_config sign_ctx)) = [116]"
    by (simp_all add: sign_ctx_def)
  then have "length (ostr (device_id (cx_config sign_ctx))) \<le> 63" by simp
  from signature_header_correct [OF buffering.message_digest_axioms this refl refl, of "[1, 2, 3]"]
  have "hmac_signature_header (buffering_md pad32) sign_ctx [1, 2, 3] (length [1, 2, 3 :: byte]) 96 =
     Inr ((AETUS_HMAC_SCHEME @ str ''='' @ hex_of (hmac_ref pad32 [116]
      (AETUS_HMAC_PREFIX @ [100, 49] @ [10] @ hex_of (pad32 [1, 2, 3])))) @ [0])"
    using buffering_reliable unfolding id by blast
  moreover have "length [1, 2, 3 :: byte] = 3" by simp
  ultimately show ?thesis by (simp only: append_assoc)
qed

end
