(* ===== verification/Platform.thy ===== *)
theory Platform
  imports EncodeEvent QueueItem SamplePool "HOL-Library.State_Monad"
begin

text \<open>
  What the runtime of \<open>aetus.c\<close> runs on. FreeRTOS, the Wi-Fi and GPIO drivers, the HTTP client and the C
  library's clock are code outside the sources: their calls are the fields of \<open>platform\<close>, functions on an
  unspecified world \<open>'w\<close>. The program's own state is the record \<open>sys\<close>: the static context, the heap, the test
  hooks and statistics, the static item of the interrupt path, and the world.

  Code that runs on this state is written in the state monad. \<open>CONFIG_AETUS_TEST_HOOKS\<close> and
  \<open>CONFIG_AETUS_ISR_SAFE_ENQUEUE\<close> are set and \<open>CONFIG_AETUS_TEST_NO_NETWORK\<close> is not: with all hooks cleared
  this is the production build. Log output is left out.
\<close>

section \<open>The calls\<close>

text \<open>An HTTP exchange: what \<open>esp_http_client\<close> was configured with, and the events it raises.\<close>

record http_request =
  rq_url :: "byte list"
  rq_post :: bool
  rq_headers :: "(string \<times> byte list) list"
  rq_body :: "byte list"

datatype http_event = HTTP_EVENT_ON_DATA "byte list option" | HTTP_EVENT_OTHER

text \<open>\<open>struct timeval\<close>.\<close>

record timeval =
  tv_sec :: int
  tv_usec :: int

text \<open>\<open>wifi_config_t\<close>, the station fields the code sets.\<close>

datatype wifi_threshold = WIFI_AUTH_OPEN | WIFI_AUTH_WPA2_PSK | WIFI_AUTH_WPA2_ENTERPRISE

record wifi_config =
  wc_ssid :: "byte list"
  wc_password :: "byte list"
  wc_authmode :: wifi_threshold
  wc_sae_pwe_both :: bool

datatype event_base = WIFI_EVENT | IP_EVENT | EVENT_BASE_OTHER

datatype event_id = WIFI_EVENT_STA_START | WIFI_EVENT_STA_DISCONNECTED | IP_EVENT_STA_GOT_IP | EVENT_ID_OTHER int

type_synonym bits = "24 word"

record 'w platform =
  pf_malloc :: malloc
  pdMS_TO_TICKS :: "u32 \<Rightarrow> u32"
  esp_timer_get_time :: "'w \<Rightarrow> int \<times> 'w"
  esp_random :: "'w \<Rightarrow> u32 \<times> 'w"
  gettimeofday :: "'w \<Rightarrow> (int \<times> timeval) \<times> 'w"
  settimeofday :: "timeval \<Rightarrow> 'w \<Rightarrow> int \<times> 'w"
  xQueueCreate :: "u32 \<Rightarrow> 'w \<Rightarrow> addr \<times> 'w"
  xQueueSend :: "addr \<Rightarrow> aetus_queue_item \<Rightarrow> u32 \<Rightarrow> 'w \<Rightarrow> bool \<times> 'w"
  xQueueSendToFront :: "addr \<Rightarrow> aetus_queue_item \<Rightarrow> u32 \<Rightarrow> 'w \<Rightarrow> bool \<times> 'w"
  xQueueSendFromISR :: "addr \<Rightarrow> aetus_queue_item \<Rightarrow> 'w \<Rightarrow> bool \<times> 'w"
  xQueueReceive :: "addr \<Rightarrow> u32 \<Rightarrow> 'w \<Rightarrow> aetus_queue_item option \<times> 'w"
  xEventGroupCreate :: "'w \<Rightarrow> addr \<times> 'w"
  xEventGroupSetBits :: "addr \<Rightarrow> bits \<Rightarrow> 'w \<Rightarrow> unit \<times> 'w"
  xEventGroupClearBits :: "addr \<Rightarrow> bits \<Rightarrow> 'w \<Rightarrow> unit \<times> 'w"
  xEventGroupGetBits :: "addr \<Rightarrow> 'w \<Rightarrow> bits \<times> 'w"
  xEventGroupWaitBits :: "addr \<Rightarrow> bits \<Rightarrow> bool \<Rightarrow> bool \<Rightarrow> u32 \<Rightarrow> 'w \<Rightarrow> bits \<times> 'w"
  xTimerCreate :: "u32 \<Rightarrow> 'w \<Rightarrow> addr \<times> 'w"
  xTimerStart :: "addr \<Rightarrow> 'w \<Rightarrow> bool \<times> 'w"
  xTimerChangePeriod :: "addr \<Rightarrow> u32 \<Rightarrow> 'w \<Rightarrow> bool \<times> 'w"
  xTaskCreate :: "'w \<Rightarrow> bool \<times> 'w"
  vTaskDelay :: "u32 \<Rightarrow> 'w \<Rightarrow> unit \<times> 'w"
  gpio_config :: "u64 \<Rightarrow> 'w \<Rightarrow> esp_err \<times> 'w"
  gpio_set_level :: "u32 \<Rightarrow> bool \<Rightarrow> 'w \<Rightarrow> unit \<times> 'w"
  nvs_flash_init :: "'w \<Rightarrow> esp_err \<times> 'w"
  nvs_flash_erase :: "'w \<Rightarrow> esp_err \<times> 'w"
  esp_netif_init :: "'w \<Rightarrow> esp_err \<times> 'w"
  esp_event_loop_create_default :: "'w \<Rightarrow> esp_err \<times> 'w"
  esp_netif_create_default_wifi_sta :: "'w \<Rightarrow> unit \<times> 'w"
  esp_event_handler_instance_register :: "event_base \<Rightarrow> 'w \<Rightarrow> esp_err \<times> 'w"
  esp_wifi_init :: "'w \<Rightarrow> esp_err \<times> 'w"
  esp_wifi_set_mode :: "'w \<Rightarrow> esp_err \<times> 'w"
  esp_wifi_set_storage :: "'w \<Rightarrow> esp_err \<times> 'w"
  esp_wifi_set_config :: "wifi_config \<Rightarrow> 'w \<Rightarrow> esp_err \<times> 'w"
  esp_wifi_start :: "'w \<Rightarrow> esp_err \<times> 'w"
  esp_wifi_connect :: "'w \<Rightarrow> esp_err \<times> 'w"
  esp_wifi_disconnect :: "'w \<Rightarrow> esp_err \<times> 'w"
  esp_wifi_sta_enterprise_disable :: "'w \<Rightarrow> esp_err \<times> 'w"
  esp_wifi_sta_enterprise_enable :: "'w \<Rightarrow> esp_err \<times> 'w"
  esp_eap_client_set_identity :: "byte list \<Rightarrow> 'w \<Rightarrow> esp_err \<times> 'w"
  esp_eap_client_set_username :: "byte list \<Rightarrow> 'w \<Rightarrow> esp_err \<times> 'w"
  esp_eap_client_set_password :: "byte list \<Rightarrow> 'w \<Rightarrow> esp_err \<times> 'w"
  esp_eap_client_set_eap_methods :: "'w \<Rightarrow> esp_err \<times> 'w"
  esp_http_client_init :: "byte list \<Rightarrow> 'w \<Rightarrow> bool \<times> 'w"
  esp_http_client_perform :: "http_request \<Rightarrow> 'w \<Rightarrow> (http_event list \<times> esp_err \<times> int) \<times> 'w"
  esp_http_client_cleanup :: "'w \<Rightarrow> unit \<times> 'w"

section \<open>The program state\<close>

text \<open>\<open>aetus_test_runtime_hooks_t\<close>.\<close>

record aetus_test_runtime_hooks =
  bypass_wifi :: bool
  fake_post :: bool
  fake_post_result :: esp_err
  fake_time :: bool
  fake_time_result :: esp_err
  fake_time_ns :: u64
  fake_post_count :: u32

definition zero_hooks :: aetus_test_runtime_hooks where
  "zero_hooks = \<lparr>bypass_wifi = False, fake_post = False, fake_post_result = ESP_OK, fake_time = False,
     fake_time_result = ESP_OK, fake_time_ns = 0, fake_post_count = 0\<rparr>"

record 'w sys =
  s_ctx :: aetus_ctx
  s_heap :: heap
  s_test_runtime_hooks :: aetus_test_runtime_hooks
  s_test_release_stats :: aetus_test_release_stats
  s_isr_item :: aetus_queue_item
  s_world :: 'w

type_synonym ('w, 'a) prog = "('w sys, 'a) state"

section \<open>Steps\<close>

named_theorems run_simps \<open>execution of monadic code\<close>

text \<open>A platform call.\<close>

definition call :: "('w \<Rightarrow> 'a \<times> 'w) \<Rightarrow> ('w, 'a) prog" where
  "call f = State (\<lambda>s. let (a, w) = f (s_world s) in (a, s\<lparr>s_world := w\<rparr>))"

definition get_sys :: "('w sys \<Rightarrow> 'a) \<Rightarrow> ('w, 'a) prog" where
  "get_sys f = State (\<lambda>s. (f s, s))"

definition get_ctx :: "(aetus_ctx \<Rightarrow> 'a) \<Rightarrow> ('w, 'a) prog" where
  "get_ctx f = get_sys (\<lambda>s. f (s_ctx s))"

definition upd_sys :: "('w sys \<Rightarrow> 'w sys) \<Rightarrow> ('w, unit) prog" where
  "upd_sys f = State (\<lambda>s. ((), f s))"

definition upd_ctx :: "(aetus_ctx \<Rightarrow> aetus_ctx) \<Rightarrow> ('w, unit) prog" where
  "upd_ctx f = upd_sys (\<lambda>s. s\<lparr>s_ctx := f (s_ctx s)\<rparr>)"

abbreviation ret :: "'a \<Rightarrow> ('w, 'a) prog" where
  "ret \<equiv> State_Monad.return"

text \<open>The macros \<open>ESP_RETURN_ON_FALSE\<close> and \<open>ESP_RETURN_ON_ERROR\<close>, with the rest of the function.\<close>

definition ESP_RETURN_ON_FALSE :: "bool \<Rightarrow> esp_err \<Rightarrow> ('w, esp_err) prog \<Rightarrow> ('w, esp_err) prog" where
  "ESP_RETURN_ON_FALSE c err rest = (if c then rest else ret err)"

definition ESP_RETURN_ON_ERROR :: "('w, esp_err) prog \<Rightarrow> ('w, esp_err) prog \<Rightarrow> ('w, esp_err) prog" where
  "ESP_RETURN_ON_ERROR m rest = do { err \<leftarrow> m; if err = ESP_OK then rest else ret err }"

definition whenm :: "bool \<Rightarrow> ('w, unit) prog \<Rightarrow> ('w, unit) prog" where
  "whenm c m = (if c then m else ret ())"

lemma run_bind [run_simps]:
  "run_state (State_Monad.bind m f) s = (case run_state m s of (a, s') \<Rightarrow> run_state (f a) s')"
  by (simp add: State_Monad.bind_def)

lemma run_steps [run_simps]:
  "run_state (ret a) s = (a, s)"
  "run_state (call f) s = (let (a, w) = f (s_world s) in (a, s\<lparr>s_world := w\<rparr>))"
  "run_state (get_sys g) s = (g s, s)"
  "run_state (get_ctx k) s = (k (s_ctx s), s)"
  "run_state (upd_sys u) s = ((), u s)"
  "run_state (upd_ctx v) s = ((), s\<lparr>s_ctx := v (s_ctx s)\<rparr>)"
  by (simp_all add: call_def get_sys_def get_ctx_def upd_sys_def upd_ctx_def)

lemma run_return_on [run_simps]:
  "run_state (ESP_RETURN_ON_FALSE c err rest) s = (if c then run_state rest s else (err, s))"
  "run_state (ESP_RETURN_ON_ERROR m rest) s =
     (case run_state m s of (e, s') \<Rightarrow> if e = ESP_OK then run_state rest s' else (e, s'))"
  "run_state (whenm c k) s = (if c then run_state k s else ((), s))"
  by (auto simp: ESP_RETURN_ON_FALSE_def ESP_RETURN_ON_ERROR_def whenm_def run_bind split: prod.split)

lemma run_if [run_simps]: "run_state (if c then m else n) s = (if c then run_state m s else run_state n s)"
  by simp

end
