(* ===== verification/TimeSync.thy ===== *)
theory TimeSync
  imports Platform
begin

text \<open>
  Clock synchronisation (\<open>aetus.c\<close>, lines 728-880 and 1280-1313): collecting
  an HTTP body into a fixed buffer, deriving the time URL, reading \<open>unix_time_ns\<close> from the response and setting and
  reading the clock. The string functions of the C library are modelled on the bytes before the terminator.
\<close>

section \<open>The response body\<close>

text \<open>
  \<open>aetus_http_body_t\<close>. Its sizes are far from the range of \<open>size_t\<close>: the capacity is 512 and \<open>data_len\<close> a
  non-negative \<open>int\<close>, so their sums do not wrap.
\<close>

record aetus_http_body =
  hb_data :: "byte list"
  hb_capacity :: nat
  hb_length :: nat
  hb_overflow :: bool

definition collect_http_body :: "http_event \<Rightarrow> aetus_http_body \<Rightarrow> aetus_http_body" where
  "collect_http_body event body =
     (case event of
        HTTP_EVENT_ON_DATA (Some data) \<Rightarrow>
          let incoming = length data;
              over = (hb_length body + incoming \<ge> hb_capacity body);
              body = (if over then body\<lparr>hb_overflow := True\<rparr> else body);
              incoming = (if over then hb_capacity body - hb_length body - 1 else incoming)
          in if incoming > 0 then
               let n = hb_length body + incoming;
                   buf = take (hb_length body) (hb_data body) @ take incoming data @ drop n (hb_data body)
               in body\<lparr>hb_data := buf[n := 0], hb_length := n\<rparr>
             else body
      | _ \<Rightarrow> body)"

definition AETUS_TIME_RESPONSE_BUFFER_BYTES :: nat where
  "AETUS_TIME_RESPONSE_BUFFER_BYTES = 512"

definition empty_body :: aetus_http_body where
  "empty_body = \<lparr>hb_data = replicate AETUS_TIME_RESPONSE_BUFFER_BYTES 0,
     hb_capacity = AETUS_TIME_RESPONSE_BUFFER_BYTES, hb_length = 0, hb_overflow = False\<rparr>"

section \<open>The time URL\<close>

definition AETUS_INGEST_PATH :: "byte list" where "AETUS_INGEST_PATH = str ''/v1/ingest''"
definition AETUS_TIME_PATH :: "byte list" where "AETUS_TIME_PATH = str ''/v1/time''"

definition resolve_time_url :: "aetus_ctx option \<Rightarrow> nat \<Rightarrow> esp_err + byte list" where
  "resolve_time_url ctx buffer_size =
     (case ctx of
        None \<Rightarrow> Inl ESP_ERR_INVALID_ARG
      | Some c \<Rightarrow>
          if ostr (time_url (cx_config c)) \<noteq> [] then Inr (ostr (time_url (cx_config c)))
          else
            let ingest = ingest_url (cx_config c) in
            if \<not> ends_with ingest (Some AETUS_INGEST_PATH) then Inl ESP_ERR_INVALID_STATE
            else
              let prefix_len = length (ostr ingest) - length AETUS_INGEST_PATH;
                  required = prefix_len + length AETUS_TIME_PATH + 1
              in if required > buffer_size then Inl ESP_ERR_NO_MEM
                 else Inr (take prefix_len (ostr ingest) @ AETUS_TIME_PATH))"

section \<open>Parsing the response\<close>

fun strstr :: "byte list \<Rightarrow> byte list \<Rightarrow> byte list option" where
  "strstr [] key = (if key = [] then Some [] else None)"
| "strstr (b # s) key = (if prefix key (b # s) then Some (b # s) else strstr s key)"

definition strchr :: "byte list \<Rightarrow> byte \<Rightarrow> byte list option" where
  "strchr s c = (case dropWhile (\<lambda>b. b \<noteq> c) s of [] \<Rightarrow> None | r \<Rightarrow> Some r)"

definition is_digit :: "byte \<Rightarrow> bool" where "is_digit b \<longleftrightarrow> 48 \<le> b \<and> b \<le> 57"
definition is_space :: "byte \<Rightarrow> bool" where "is_space b \<longleftrightarrow> b = 32 \<or> 9 \<le> b \<and> b \<le> 13"

definition dec_val :: "byte list \<Rightarrow> nat" where
  "dec_val ds = foldl (\<lambda>v d. 10 * v + (unat d - 48)) 0 ds"

text \<open>
  \<open>strtoull(s, &end, 10)\<close>: \<open>None\<close> where it converts nothing (\<open>end\<close> is \<open>s\<close>), and otherwise the value with
  whether it set \<open>errno\<close> to \<open>ERANGE\<close>. A minus sign negates the value modulo \<open>2^64\<close>.
\<close>

definition strtoull :: "byte list \<Rightarrow> (u64 \<times> bool) option" where
  "strtoull s =
     (let s = dropWhile is_space s;
          negative = (s \<noteq> [] \<and> hd s = 45);
          s = (if s \<noteq> [] \<and> (hd s = 45 \<or> hd s = 43) then tl s else s);
          ds = takeWhile is_digit s;
          v = dec_val ds
      in if ds = [] then None
         else if v \<ge> 2 ^ 64 then Some (- 1, True)
         else Some (if negative then - of_nat v else of_nat v, False))"

definition time_key :: "byte list" where
  "time_key = [34] @ str ''unix_time_ns'' @ [34]"

text \<open>\<open>out\<close> says whether the output pointer is not \<open>NULL\<close>.\<close>

definition parse_unix_time_ns :: "byte list option \<Rightarrow> bool \<Rightarrow> esp_err + u64" where
  "parse_unix_time_ns body out =
     (if body = None then Inl ESP_ERR_INVALID_ARG
      else if \<not> out then Inl ESP_ERR_INVALID_ARG
      else
        (case strstr (ostr body) time_key of
           None \<Rightarrow> Inl ESP_ERR_INVALID_RESPONSE
         | Some cursor \<Rightarrow>
             (case strchr (drop (length time_key) cursor) 58 of
                None \<Rightarrow> Inl ESP_ERR_INVALID_RESPONSE
              | Some cursor \<Rightarrow>
                  let cursor = dropWhile (\<lambda>b. b \<in> {32, 9, 13, 10}) (tl cursor);
                      cursor = (if cursor \<noteq> [] \<and> hd cursor = 34 then tl cursor else cursor)
                  in (case strtoull cursor of
                        None \<Rightarrow> Inl ESP_ERR_INVALID_RESPONSE
                      | Some (parsed, erange) \<Rightarrow>
                          if erange then Inl ESP_ERR_INVALID_RESPONSE else Inr parsed))))"

section \<open>Fetching and setting the time\<close>

definition bearer_header :: "aetus_ctx \<Rightarrow> byte list" where
  "bearer_header ctx = take 127 (str ''Bearer '' @ ostr (device_token (cx_config ctx)))"

definition fetch_server_time_ns :: "'w platform \<Rightarrow> ('w, esp_err + u64) prog" where
  "fetch_server_time_ns P = do {
     hooks \<leftarrow> get_sys s_test_runtime_hooks;
     if fake_time hooks then
       ret (if fake_time_result hooks = ESP_OK then Inr (fake_time_ns hooks) else Inl (fake_time_result hooks))
     else do {
       ctx \<leftarrow> get_ctx (\<lambda>c. c);
       (case resolve_time_url (Some ctx) 160 of
          Inl err \<Rightarrow> ret (Inl err)
        | Inr url \<Rightarrow> do {
            client \<leftarrow> call (esp_http_client_init P url);
            if \<not> client then ret (Inl ESP_FAIL)
            else do {
              r \<leftarrow> call (esp_http_client_perform P
                \<lparr>rq_url = url, rq_post = False,
                 rq_headers = [(''X-Device-Id'', ostr (device_id (cx_config ctx))),
                               (''Authorization'', bearer_header ctx)],
                 rq_body = []\<rparr>);
              _ \<leftarrow> call (esp_http_client_cleanup P);
              (case r of (events, err, status) \<Rightarrow>
                 let body = foldl (\<lambda>b e. collect_http_body e b) empty_body events in
                 if err \<noteq> ESP_OK then ret (Inl err)
                 else if status < 200 \<or> status \<ge> 300 then ret (Inl ESP_FAIL)
                 else if hb_overflow body then ret (Inl ESP_ERR_NO_MEM)
                 else ret (parse_unix_time_ns (Some (hb_data body)) True))
            }
          })
     }
   }"

definition set_rtc_from_unix_time_ns :: "'w platform \<Rightarrow> u64 \<Rightarrow> ('w, esp_err) prog" where
  "set_rtc_from_unix_time_ns P unix_time_ns =
     (let unix_time_s = unix_time_ns div 1000000000 in
      ESP_RETURN_ON_FALSE (unix_time_s \<ge> AETUS_RTC_VALID_AFTER_UNIX_S) ESP_ERR_INVALID_RESPONSE (do {
        rc \<leftarrow> call (settimeofday P
          \<lparr>tv_sec = sint unix_time_s, tv_usec = sint ((unix_time_ns mod 1000000000) div 1000)\<rparr>);
        ESP_RETURN_ON_FALSE (rc = 0) ESP_FAIL (ret ESP_OK)
      }))"

definition aetus_rtc_timestamp_ns :: "'w platform \<Rightarrow> bool \<Rightarrow> ('w, esp_err + u64) prog" where
  "aetus_rtc_timestamp_ns P out =
     (if \<not> out then ret (Inl ESP_ERR_INVALID_ARG)
      else do {
        (rc, now) \<leftarrow> call (gettimeofday P);
        if rc \<noteq> 0 then ret (Inl ESP_FAIL)
        else if (of_int (tv_sec now) :: u64) < AETUS_RTC_VALID_AFTER_UNIX_S then ret (Inl ESP_ERR_INVALID_STATE)
        else ret (Inr (of_int (tv_sec now) * 1000000000 + of_int (tv_usec now) * 1000))
      })"

definition stamp_result :: "esp_err + u64 \<Rightarrow> (u64 \<Rightarrow> 'b \<Rightarrow> 'b) \<Rightarrow> 'b \<Rightarrow> esp_err \<times> 'b option" where
  "stamp_result r put x = (case r of Inl err \<Rightarrow> (err, Some x) | Inr ts \<Rightarrow> (ESP_OK, Some (put ts x)))"

definition aetus_telemetry_set_timestamp_rtc ::
  "'w platform \<Rightarrow> aetus_telemetry option \<Rightarrow> ('w, esp_err \<times> aetus_telemetry option) prog" where
  "aetus_telemetry_set_timestamp_rtc P telemetry =
     (case telemetry of
        None \<Rightarrow> ret (ESP_ERR_INVALID_ARG, None)
      | Some t \<Rightarrow> do {
          r \<leftarrow> aetus_rtc_timestamp_ns P True;
          ret (stamp_result r (\<lambda>ts t. t\<lparr>t_timestamp_ns := ts\<rparr>) t)
        })"

definition aetus_signal_frame_set_timestamp_rtc ::
  "'w platform \<Rightarrow> aetus_signal_frame option \<Rightarrow> ('w, esp_err \<times> aetus_signal_frame option) prog" where
  "aetus_signal_frame_set_timestamp_rtc P frame =
     (case frame of
        None \<Rightarrow> ret (ESP_ERR_INVALID_ARG, None)
      | Some f \<Rightarrow> do {
          r \<leftarrow> aetus_rtc_timestamp_ns P True;
          ret (stamp_result r (\<lambda>ts f. f\<lparr>fr_timestamp_ns := ts\<rparr>) f)
        })"

definition aetus_status_set_timestamp_rtc ::
  "'w platform \<Rightarrow> aetus_status option \<Rightarrow> ('w, esp_err \<times> aetus_status option) prog" where
  "aetus_status_set_timestamp_rtc P status =
     (case status of
        None \<Rightarrow> ret (ESP_ERR_INVALID_ARG, None)
      | Some s \<Rightarrow> do {
          r \<leftarrow> aetus_rtc_timestamp_ns P True;
          ret (stamp_result r (\<lambda>ts s. s\<lparr>st_timestamp_ns := ts\<rparr>) s)
        })"

end
