(* ===== verification/TimeProps.thy ===== *)
theory TimeProps
  imports TimeSync
begin

text \<open>
  Properties of the clock synchronisation: the response buffer holds the longest prefix of the data that fits and
  knows when it is not all, the parser reads back a printed time, the derived time URL, and the round trip
  of a time through the clock.
\<close>

section \<open>Collecting a response\<close>

definition http_data :: "http_event list \<Rightarrow> byte list" where
  "http_data events = concat (map (\<lambda>e. case e of HTTP_EVENT_ON_DATA (Some d) \<Rightarrow> d | _ \<Rightarrow> []) events)"

text \<open>A zeroed buffer of the given capacity that has received \<open>data\<close>.\<close>

definition collected :: "nat \<Rightarrow> byte list \<Rightarrow> aetus_http_body" where
  "collected cap data =
     \<lparr>hb_data = take (cap - 1) data @ replicate (cap - min (cap - 1) (length data)) 0, hb_capacity = cap,
      hb_length = min (cap - 1) (length data), hb_overflow = (cap \<le> length data)\<rparr>"

lemma zeros_update: "(replicate k 0)[i := 0] = replicate k 0"
  by (cases "i < k") (simp_all add: list_update_same_conv list_update_beyond)

lemma collect_step:
  assumes "0 < cap"
  shows "collect_http_body (HTTP_EVENT_ON_DATA (Some d)) (collected cap data) = collected cap (data @ d)"
proof (cases "cap - 1 \<le> length data")
  case True
  then have m: "min (cap - 1) (length data) = cap - 1" "min (cap - 1) (length (data @ d)) = cap - 1" by simp_all
  have t: "take (cap - 1) (data @ d) = take (cap - 1) data" using True by simp
  have c: "cap - (cap - 1) = 1" using assms by simp
  have b: "collected cap data = \<lparr>hb_data = take (cap - 1) data @ [0], hb_capacity = cap, hb_length = cap - 1,
      hb_overflow = (cap \<le> length data)\<rparr>"
    "collected cap (data @ d) = \<lparr>hb_data = take (cap - 1) data @ [0], hb_capacity = cap, hb_length = cap - 1,
      hb_overflow = (cap \<le> length data + length d)\<rparr>"
    unfolding collected_def m t c by simp_all
  show ?thesis
  proof (cases "d = []")
    case True
    moreover have "\<not> cap \<le> cap - 1" using assms by simp
    ultimately show ?thesis unfolding b collect_http_body_def by (simp add: Let_def)
  next
    case False
    then have o: "cap \<le> cap - 1 + length d" "cap \<le> length data + length d" using True by (cases d; simp)+
    have "collect_http_body (HTTP_EVENT_ON_DATA (Some d)) (collected cap data) =
        (collected cap data)\<lparr>hb_overflow := True\<rparr>"
      unfolding b collect_http_body_def using o(1) c by (simp add: Let_def)
    then show ?thesis using o(2) unfolding b by simp
  qed
next
  case False
  then have full: "take (cap - 1) data = data" and L: "min (cap - 1) (length data) = length data" by simp_all
  define inc where "inc = (if length data + length d \<ge> cap then cap - length data - 1 else length d)"
  have buf: "(take (length data) (data @ replicate (cap - length data) 0) @ take inc d @
      drop (length data + inc) (data @ replicate (cap - length data) 0))[length data + inc := 0]
      = take (cap - 1) (data @ d) @ replicate (cap - min (cap - 1) (length (data @ d))) 0"
    using False assms by (auto simp: inc_def list_update_append zeros_update min_def)
  have n: "length data + inc = min (cap - 1) (length (data @ d))"
    using False assms by (auto simp: inc_def min_def)
  have z: "collected cap (data @ d) = collected cap data" if "inc = 0"
    using that False by (auto simp: inc_def split: if_splits)
  show ?thesis
  proof (cases "inc = 0")
    case True
    with False z show ?thesis by (auto simp: collect_http_body_def collected_def L full inc_def Let_def split: if_splits)
  next
    case inc: False
    let ?b = "collected cap data"
    have "collect_http_body (HTTP_EVENT_ON_DATA (Some d)) ?b =
      ?b\<lparr>hb_overflow := (cap \<le> length data + length d),
         hb_data := (take (length data) (hb_data ?b) @ take inc d @ drop (length data + inc) (hb_data ?b))
           [length data + inc := 0],
         hb_length := length data + inc\<rparr>"
      using inc False by (auto simp: collect_http_body_def collected_def L full inc_def Let_def split: if_splits)
    then show ?thesis using buf n by (simp add: collected_def L full)
  qed
qed

lemma collect_events:
  "foldl (\<lambda>b e. collect_http_body e b) empty_body events = collected 512 (http_data events)"
proof -
  have e: "empty_body = collected 512 []"
    by (simp add: empty_body_def collected_def AETUS_TIME_RESPONSE_BUFFER_BYTES_def)
  have "foldl (\<lambda>b e. collect_http_body e b) (collected 512 data) events = collected 512 (data @ http_data events)"
    for data
  proof (induction events arbitrary: data)
    case Nil
    then show ?case by (simp add: http_data_def)
  next
    case (Cons e events)
    have "collect_http_body e (collected 512 data) = collected 512 (data @ http_data [e])"
      using collect_step [of 512 _ data]
      by (auto simp: http_data_def collect_http_body_def split: http_event.split option.split)
    with Cons show ?case by (simp add: http_data_def)
  qed
  from this [of "[]"] e show ?thesis by simp
qed

text \<open>
  C27. Over a whole response \<open>collect_http_body\<close> leaves in the 512-byte buffer the first 511 bytes of the body,
  zero-terminated, and sets \<open>overflow\<close> exactly when the body is longer: no sequence of events writes outside
  the buffer or loses a byte silently.
\<close>

theorem collect_http_body_exact:
  "foldl (\<lambda>b e. collect_http_body e b) empty_body events = collected 512 (http_data events)"
  by (rule collect_events)

section \<open>Parsing\<close>

text \<open>The decimal digits of a number.\<close>

fun dec_of :: "nat \<Rightarrow> byte list" where
  "dec_of n = (if n < 10 then [48 + of_nat n] else dec_of (n div 10) @ [48 + of_nat (n mod 10)])"

declare dec_of.simps [simp del]

lemma unat_digit: "k < 10 \<Longrightarrow> unat (48 + of_nat k :: byte) = 48 + k"
  by (simp add: unat_word_ariths unat_of_nat)

lemma dec_val_append: "dec_val (ds @ [d]) = 10 * dec_val ds + (unat d - 48)"
  by (simp add: dec_val_def)

lemma dec_val_dec_of: "dec_val (dec_of n) = n"
proof (induction n rule: dec_of.induct)
  case (1 n)
  show ?case
  proof (cases "n < 10")
    case True
    then show ?thesis by (simp add: dec_of.simps [of n] dec_val_def unat_digit)
  next
    case False
    with 1 show ?thesis by (simp add: dec_of.simps [of n] dec_val_append unat_digit)
  qed
qed

lemma is_digit_iff: "is_digit b \<longleftrightarrow> 48 \<le> unat b \<and> unat b \<le> 57"
  by (simp add: is_digit_def word_le_nat_alt)

lemma dec_of_digits: "dec_of n \<noteq> [] \<and> list_all is_digit (dec_of n)"
proof (induction n rule: dec_of.induct)
  case (1 n)
  have "is_digit (48 + of_nat (n mod 10))" "n < 10 \<Longrightarrow> is_digit (48 + of_nat n)"
    by (simp_all add: is_digit_iff unat_digit)
  with 1 show ?case by (subst dec_of.simps, subst (2) dec_of.simps) simp
qed

lemma digit_not: "is_digit b \<Longrightarrow> \<not> is_space b \<and> b \<noteq> 45 \<and> b \<noteq> 43 \<and> b \<noteq> 34 \<and> b \<notin> {32, 9, 13, 10}"
  by (auto simp: is_digit_iff is_space_def word_le_nat_alt)

definition no_digit_ahead :: "byte list \<Rightarrow> bool" where
  "no_digit_ahead rest = (case rest of [] \<Rightarrow> True | b # _ \<Rightarrow> \<not> is_digit b)"

lemma takeWhile_no_digit: "no_digit_ahead rest \<Longrightarrow> takeWhile is_digit rest = []"
  by (cases rest) (simp_all add: no_digit_ahead_def)

lemma strtoull_dec_of:
  assumes "no_digit_ahead rest"
  shows "strtoull (dec_of n @ rest) = Some (if n < 2 ^ 64 then (of_nat n, False) else (- 1, True))"
proof -
  obtain d ds where d: "dec_of n = d # ds" "is_digit d"
    using dec_of_digits [of n] by (cases "dec_of n") auto
  have tw: "takeWhile is_digit (dec_of n @ rest) = dec_of n"
    using dec_of_digits [of n] takeWhile_no_digit [OF assms] by (simp add: takeWhile_append2 list_all_iff)
  have "dropWhile is_space (dec_of n @ rest) = dec_of n @ rest" using d digit_not by simp
  moreover have "hd (dec_of n @ rest) \<noteq> 45" "hd (dec_of n @ rest) \<noteq> 43" using d digit_not by auto
  ultimately show ?thesis
    using tw dec_val_dec_of [of n] d by (simp add: strtoull_def Let_def)
qed

text \<open>
  C28. Parsing inverts printing: where the first \<open>"unix_time_ns"\<close> of the response is followed by a colon, any
  white space, an optional quote and the decimal digits of \<open>n\<close>, the parser returns \<open>n\<close>, and refuses every
  number of more than 64 bits.
\<close>

theorem parse_time_roundtrip:
  assumes "strstr (cstr body) time_key = Some (time_key @ mid @ [58] @ ws @ quote @ dec_of n @ rest)"
    and "58 \<notin> set mid" "set ws \<subseteq> {32, 9, 13, 10}" "quote \<in> {[], [34]}" "no_digit_ahead rest"
  shows "parse_unix_time_ns (Some body) True =
    (if n < 2 ^ 64 then Inr (of_nat n) else Inl ESP_ERR_INVALID_RESPONSE)"
proof -
  let ?tail = "quote @ dec_of n @ rest"
  have c: "strchr (mid @ [58] @ ws @ ?tail) 58 = Some ([58] @ ws @ ?tail)"
  proof -
    have "dropWhile (\<lambda>b. b \<noteq> 58) (mid @ 58 # ws @ ?tail) = 58 # ws @ ?tail"
      by (subst dropWhile_append2) (use assms(2) in auto)
    then show ?thesis by (simp add: strchr_def)
  qed
  obtain d ds where d: "dec_of n = d # ds" "is_digit d"
    using dec_of_digits [of n] by (cases "dec_of n") auto
  have "hd ?tail \<notin> {32, 9, 13, 10}" "?tail \<noteq> []"
    using assms(4) d digit_not by auto
  then have w: "dropWhile (\<lambda>b. b \<in> {32, 9, 13, 10}) (ws @ ?tail) = ?tail"
    using assms(3) by (cases ?tail) (auto simp: dropWhile_append2 subset_iff)
  have q: "(if ?tail \<noteq> [] \<and> hd ?tail = 34 then tl ?tail else ?tail) = dec_of n @ rest"
    using assms(4) d digit_not by auto
  have "parse_unix_time_ns (Some body) True =
    (case strtoull (dec_of n @ rest) of None \<Rightarrow> Inl ESP_ERR_INVALID_RESPONSE
     | Some (parsed, erange) \<Rightarrow> if erange then Inl ESP_ERR_INVALID_RESPONSE else Inr parsed)"
    unfolding parse_unix_time_ns_def using assms(1) c w q by (simp add: Let_def)
  then show ?thesis using strtoull_dec_of [OF assms(5), of n] by simp
qed

theorem parse_time_roundtrip_witness:
  "parse_unix_time_ns (Some ([123] @ time_key @ [58, 32, 49, 55, 125])) True = Inr 17"
proof -
  have s: "strstr (cstr ([123] @ time_key @ [58, 32, 49, 55, 125])) time_key =
      Some (time_key @ [] @ [58] @ [32] @ [] @ dec_of 17 @ [125])"
    by (simp add: time_key_def dec_of.simps)
  show ?thesis using parse_time_roundtrip [OF s] by (simp add: no_digit_ahead_def is_digit_def)
qed

section \<open>The time URL\<close>

text \<open>
  C29. Without an explicit time URL, the address asked for the time is the ingest URL with its \<open>/v1/ingest\<close>
  replaced by \<open>/v1/time\<close>; every ingest URL that passed the length check of the configuration fits the buffer. An explicit
  URL is used as it is, and any other ingest URL is refused.
\<close>

theorem resolve_time_url_derives:
  assumes "length (ostr (ingest_url (cx_config ctx))) \<le> AETUS_URL_MAX"
  shows "resolve_time_url (Some ctx) 160 =
    (if ostr (time_url (cx_config ctx)) \<noteq> [] then Inr (ostr (time_url (cx_config ctx)))
     else if suffix AETUS_INGEST_PATH (ostr (ingest_url (cx_config ctx)))
     then Inr (take (length (ostr (ingest_url (cx_config ctx))) - 10) (ostr (ingest_url (cx_config ctx))) @
            AETUS_TIME_PATH)
     else Inl ESP_ERR_INVALID_STATE)"
proof -
  have l: "length AETUS_INGEST_PATH = 10" "length AETUS_TIME_PATH = 8"
    by (simp_all add: AETUS_INGEST_PATH_def AETUS_TIME_PATH_def)
  have "cstr AETUS_INGEST_PATH = AETUS_INGEST_PATH" by code_simp
  then have e: "ends_with (ingest_url (cx_config ctx)) (Some AETUS_INGEST_PATH) =
      suffix AETUS_INGEST_PATH (ostr (ingest_url (cx_config ctx)))"
  proof (cases "ingest_url (cx_config ctx)")
    case None
    have "AETUS_INGEST_PATH \<noteq> []" using l by auto
    with None show ?thesis by (simp add: ends_with_def suffix_def)
  qed (simp add: ends_with_iff)
  show ?thesis
    using assms l by (auto simp: resolve_time_url_def e Let_def c_defs)
qed

text \<open>A configuration that names an ingest URL and no time URL.\<close>

definition url_ctx :: aetus_ctx where
  "url_ctx = \<lparr>cx_config = \<lparr>wifi_ssid = None, wifi_password = None, wifi_auth = AETUS_WIFI_AUTH_PSK,
       wifi_identity = None, ingest_url = Some (str ''h/v1/ingest'' @ [0]), time_url = None, device_id = None,
       device_token = None, auth_mode = AETUS_AUTH_BEARER, firmware_version = 3,
       upload_interval_ms = 1000, queue_depth = 8, connected_led_enabled = False, connected_led_gpio = 0\<rparr>,
     cx_queue = 0, cx_events = 0, cx_upload_timer = 0, cx_sequence = 0, cx_boot_id = [],
     cx_wifi_started = False, cx_wifi_reconfiguring = False, cx_signal_pool_stats = zero_pool_stats\<rparr>"

theorem resolve_time_url_derives_witness:
  "resolve_time_url (Some url_ctx) 160 = Inr (str ''h/v1/time'')"
proof -
  have o: "ostr (ingest_url (cx_config url_ctx)) = str ''h/v1/ingest''" "ostr (time_url (cx_config url_ctx)) = []"
    by (simp_all add: url_ctx_def)
  have "length (ostr (ingest_url (cx_config url_ctx))) \<le> AETUS_URL_MAX" by (simp add: o c_defs)
  moreover have "suffix AETUS_INGEST_PATH (str ''h/v1/ingest'')"
    by (simp add: AETUS_INGEST_PATH_def suffix_def)
  ultimately show ?thesis
    using resolve_time_url_derives [of url_ctx] unfolding o by (simp add: AETUS_TIME_PATH_def)
qed

section \<open>The clock\<close>

text \<open>The contract of the C library's clock: a time that was set is the time read next.\<close>

definition clock_ok :: "'w platform \<Rightarrow> bool" where
  "clock_ok P \<longleftrightarrow> (\<forall>tv w w'. settimeofday P tv w = (0, w') \<longrightarrow> fst (gettimeofday P w') = (0, tv))"

lemma split_micros: "a div (1000 * m) * (1000 * m) + a mod (1000 * m) div 1000 * 1000 = a div 1000 * (1000 :: nat)"
proof -
  define b where "b = a div 1000"
  have "b div m * (1000 * m) + b mod m * 1000 = (b div m * m + b mod m) * 1000"
    by (simp only: distrib_right mult.assoc mult.commute [of 1000 m])
  moreover have "a mod (1000 * m) div 1000 = b mod m" by (simp add: mod_mult2_eq b_def)
  moreover have "a div (1000 * m) = b div m" by (simp add: div_mult2_eq b_def)
  ultimately show ?thesis by (simp only: div_mult_mod_eq b_def)
qed

lemma rtc_reads_back:
  assumes "clock_ok P" and "run_state (set_rtc_from_unix_time_ns P ns) s = (err, s')"
  shows "if unat ns div 1000000000 < 1577836800 then err = ESP_ERR_INVALID_RESPONSE \<and> s' = s
    else if err = ESP_OK
    then fst (run_state (aetus_rtc_timestamp_ns P True) s') = Inr (of_nat (unat ns div 1000 * 1000))
    else err = ESP_FAIL"
proof -
  let ?sec = "ns div 1000000000 :: u64" and ?us = "(ns mod 1000000000) div 1000 :: u64"
  let ?tv = "\<lparr>tv_sec = sint ?sec, tv_usec = sint ?us\<rparr>"
  have us: "unat ?sec = unat ns div 1000000000" "unat ?us = unat ns mod 1000000000 div 1000"
    by (simp_all add: unat_div unat_mod)
  have early: "AETUS_RTC_VALID_AFTER_UNIX_S \<le> ?sec \<longleftrightarrow> \<not> unat ns div 1000000000 < 1577836800"
    by (simp add: word_le_nat_alt us c_defs not_less)
  have bk: "of_int (sint ?sec) = ?sec" "of_int (sint ?us) = ?us" by simp_all
  have val: "?sec * 1000000000 + ?us * 1000 = of_nat (unat ns div 1000 * 1000)"
  proof -
    have "unat ns div 1000000000 * 1000000000 + unat ns mod 1000000000 div 1000 * 1000 = unat ns div 1000 * 1000"
      using split_micros [of "unat ns" 1000000] by simp
    then have "of_nat (unat ?sec * 1000000000 + unat ?us * 1000) = (of_nat (unat ns div 1000 * 1000) :: u64)"
      unfolding us by (simp only:)
    then show ?thesis by simp
  qed
  obtain rc w' where st: "settimeofday P ?tv (s_world s) = (rc, w')" by (cases "settimeofday P ?tv (s_world s)")
  show ?thesis
  proof (cases "AETUS_RTC_VALID_AFTER_UNIX_S \<le> ?sec")
    case False
    then show ?thesis using assms(2) early by (simp add: set_rtc_from_unix_time_ns_def Let_def run_simps)
  next
    case True
    show ?thesis
    proof (cases "rc = 0")
      case False
      then show ?thesis using assms(2) True early st
        by (auto simp: set_rtc_from_unix_time_ns_def Let_def run_simps)
    next
      case rc: True
      then have s': "err = ESP_OK" "s_world s' = w'" using assms(2) True st
        by (auto simp: set_rtc_from_unix_time_ns_def Let_def run_simps)
      obtain w2 where "gettimeofday P w' = ((0, ?tv), w2)"
        using assms(1) st rc unfolding clock_ok_def by (metis prod.collapse)
      then show ?thesis using s' True early bk val
        by (simp add: aetus_rtc_timestamp_ns_def run_simps)
    qed
  qed
qed

text \<open>
  A server time that \<open>set_rtc_from_unix_time_ns\<close> accepts is read back by \<open>aetus_rtc_timestamp_ns\<close>, rounded
  down to the microsecond; one before 2020 is refused without touching the clock.
\<close>

theorem rtc_roundtrip:
  assumes "clock_ok P" and "run_state (set_rtc_from_unix_time_ns P ns) s = (err, s')"
  shows "if unat ns div 1000000000 < 1577836800 then err = ESP_ERR_INVALID_RESPONSE \<and> s' = s
    else if err = ESP_OK
    then fst (run_state (aetus_rtc_timestamp_ns P True) s') = Inr (of_nat (unat ns div 1000 * 1000))
    else err = ESP_FAIL"
  using rtc_reads_back [OF assms] .

end
