(* ===== verification/Wifi.thy ===== *)
theory Wifi
  imports Platform
begin

text \<open>
  The Wi-Fi side of the runtime (\<open>aetus.c\<close>, lines 512-683 and 704-725): the event handler, the station
  configuration, the one-time start and the wait for a connection. Each function is a program over the platform
  calls, in the order of the code.
\<close>

section \<open>Event bits\<close>

definition AETUS_WIFI_CONNECTED_BIT :: bits where "AETUS_WIFI_CONNECTED_BIT = 1"
definition AETUS_UPLOAD_DUE_BIT :: bits where "AETUS_UPLOAD_DUE_BIT = 2"
definition AETUS_UPLOAD_FLUSH_BIT :: bits where "AETUS_UPLOAD_FLUSH_BIT = 4"
definition AETUS_UPLOAD_DONE_BIT :: bits where "AETUS_UPLOAD_DONE_BIT = 8"
definition AETUS_WIFI_CONNECT_TIMEOUT_MS :: u32 where "AETUS_WIFI_CONNECT_TIMEOUT_MS = 15000"

lemmas bit_defs = AETUS_WIFI_CONNECTED_BIT_def AETUS_UPLOAD_DUE_BIT_def AETUS_UPLOAD_FLUSH_BIT_def
  AETUS_UPLOAD_DONE_BIT_def

section \<open>The event handler\<close>

definition wifi_event_handler :: "'w platform \<Rightarrow> event_base \<Rightarrow> event_id \<Rightarrow> ('w, unit) prog" where
  "wifi_event_handler P base ev = do {
     ctx \<leftarrow> get_ctx (\<lambda>c. c);
     if base = WIFI_EVENT \<and> ev = WIFI_EVENT_STA_START then do {
       _ \<leftarrow> call (esp_wifi_connect P);
       ret ()
     }
     else if base = WIFI_EVENT \<and> ev = WIFI_EVENT_STA_DISCONNECTED then do {
       _ \<leftarrow> call (xEventGroupClearBits P (cx_events ctx) AETUS_WIFI_CONNECTED_BIT);
       _ \<leftarrow> whenm (connected_led_enabled (cx_config ctx))
              (call (gpio_set_level P (connected_led_gpio (cx_config ctx)) False));
       if cx_wifi_reconfiguring ctx then ret ()
       else do {
         _ \<leftarrow> call (esp_wifi_connect P);
         ret ()
       }
     }
     else if base = IP_EVENT \<and> ev = IP_EVENT_STA_GOT_IP then do {
       _ \<leftarrow> call (xEventGroupSetBits P (cx_events ctx) AETUS_WIFI_CONNECTED_BIT);
       whenm (connected_led_enabled (cx_config ctx))
         (call (gpio_set_level P (connected_led_gpio (cx_config ctx)) True))
     }
     else ret ()
   }"

section \<open>Configuration\<close>

definition ok_if_already_initialized :: "esp_err \<Rightarrow> esp_err" where
  "ok_if_already_initialized err = (if err = ESP_ERR_INVALID_STATE then ESP_OK else err)"

definition wifi_configure_peap :: "'w platform \<Rightarrow> aetus_config \<Rightarrow> ('w, esp_err) prog" where
  "wifi_configure_peap P config =
     ESP_RETURN_ON_ERROR (call (esp_eap_client_set_identity P (ostr (wifi_identity config))))
     (ESP_RETURN_ON_ERROR (call (esp_eap_client_set_username P (ostr (wifi_identity config))))
     (ESP_RETURN_ON_ERROR (call (esp_eap_client_set_password P (ostr (wifi_password config))))
     (ESP_RETURN_ON_ERROR (call (esp_eap_client_set_eap_methods P))
     (ESP_RETURN_ON_ERROR (call (esp_wifi_sta_enterprise_enable P))
     (ret ESP_OK)))))"

text \<open>The mask \<open>1ULL << gpio\<close> is 0 here for a number outside 0 to 63, where the C shift is undefined.\<close>

definition configure_connected_led :: "'w platform \<Rightarrow> ('w, esp_err) prog" where
  "configure_connected_led P = do {
     ctx \<leftarrow> get_ctx (\<lambda>c. c);
     if \<not> connected_led_enabled (cx_config ctx) then ret ESP_OK
     else ESP_RETURN_ON_ERROR (call (gpio_config P (push_bit (unat (connected_led_gpio (cx_config ctx))) 1))) (do {
       bits \<leftarrow> (if cx_events ctx \<noteq> 0 then call (xEventGroupGetBits P (cx_events ctx)) else ret 0);
       _ \<leftarrow> call (gpio_set_level P (connected_led_gpio (cx_config ctx)) (bits AND AETUS_WIFI_CONNECTED_BIT \<noteq> 0));
       ret ESP_OK
     })
   }"

definition zero_wifi_config :: wifi_config where
  "zero_wifi_config = \<lparr>wc_ssid = replicate 32 0, wc_password = replicate 64 0, wc_authmode = WIFI_AUTH_OPEN,
     wc_sae_pwe_both = False\<rparr>"

definition wifi_apply_sta_config :: "'w platform \<Rightarrow> ('w, esp_err) prog" where
  "wifi_apply_sta_config P = do {
     config \<leftarrow> get_ctx cx_config;
     let wc = zero_wifi_config\<lparr>wc_ssid := copy_string (wc_ssid zero_wifi_config) 32 (wifi_ssid config)\<rparr>;
     wc \<leftarrow> (if wifi_auth config = AETUS_WIFI_AUTH_PSK then do {
         _ \<leftarrow> call (esp_wifi_sta_enterprise_disable P);
         ret (wc\<lparr>wc_password := copy_string (wc_password wc) 64 (wifi_password config),
                 wc_authmode := WIFI_AUTH_WPA2_PSK, wc_sae_pwe_both := True\<rparr>)
       }
       else if wifi_auth config = AETUS_WIFI_AUTH_PEAP
       then ret (wc\<lparr>wc_authmode := WIFI_AUTH_WPA2_ENTERPRISE\<rparr>)
       else ret wc);
     ESP_RETURN_ON_ERROR (call (esp_wifi_set_config P wc))
       (if wifi_auth config = AETUS_WIFI_AUTH_PEAP
        then ESP_RETURN_ON_ERROR (wifi_configure_peap P config) (ret ESP_OK)
        else ret ESP_OK)
   }"

section \<open>Start and wait\<close>

text \<open>\<open>nvs_flash_init\<close> with the erase and retry.\<close>

definition wifi_nvs_init :: "'w platform \<Rightarrow> ('w, esp_err) prog" where
  "wifi_nvs_init P = do {
     nvs_err \<leftarrow> call (nvs_flash_init P);
     if nvs_err = ESP_ERR_NVS_NO_FREE_PAGES \<or> nvs_err = ESP_ERR_NVS_NEW_VERSION_FOUND
     then ESP_RETURN_ON_ERROR (call (nvs_flash_erase P)) (call (nvs_flash_init P))
     else ret nvs_err
   }"

definition wifi_start :: "'w platform \<Rightarrow> ('w, esp_err) prog" where
  "wifi_start P = do {
     started \<leftarrow> get_ctx cx_wifi_started;
     if started then ret ESP_OK
     else
       ESP_RETURN_ON_ERROR (wifi_nvs_init P)
       (ESP_RETURN_ON_ERROR (do { e \<leftarrow> call (esp_netif_init P); ret (ok_if_already_initialized e) })
       (ESP_RETURN_ON_ERROR
          (do { e \<leftarrow> call (esp_event_loop_create_default P); ret (ok_if_already_initialized e) }) (do {
         _ \<leftarrow> call (esp_netif_create_default_wifi_sta P);
         ESP_RETURN_ON_ERROR (call (esp_wifi_init P))
         (ESP_RETURN_ON_ERROR (call (esp_event_handler_instance_register P WIFI_EVENT))
         (ESP_RETURN_ON_ERROR (call (esp_event_handler_instance_register P IP_EVENT))
         (ESP_RETURN_ON_ERROR (call (esp_wifi_set_mode P))
         (ESP_RETURN_ON_ERROR (call (esp_wifi_set_storage P))
         (ESP_RETURN_ON_ERROR (wifi_apply_sta_config P)
         (ESP_RETURN_ON_ERROR (call (esp_wifi_start P)) (do {
           _ \<leftarrow> upd_ctx (\<lambda>c. c\<lparr>cx_wifi_started := True\<rparr>);
           ret ESP_OK
         })))))))
       })))
   }"

definition wifi_wait_connected_for :: "'w platform \<Rightarrow> u32 \<Rightarrow> ('w, esp_err) prog" where
  "wifi_wait_connected_for P timeout = do {
     hooks \<leftarrow> get_sys s_test_runtime_hooks;
     if bypass_wifi hooks then ret ESP_OK
     else ESP_RETURN_ON_ERROR (wifi_start P) (do {
       events \<leftarrow> get_ctx cx_events;
       bits \<leftarrow> call (xEventGroupWaitBits P events AETUS_WIFI_CONNECTED_BIT False True timeout);
       ret (if bits AND AETUS_WIFI_CONNECTED_BIT \<noteq> 0 then ESP_OK else ESP_ERR_TIMEOUT)
     })
   }"

definition wifi_wait_connected :: "'w platform \<Rightarrow> ('w, esp_err) prog" where
  "wifi_wait_connected P = wifi_wait_connected_for P (pdMS_TO_TICKS P AETUS_WIFI_CONNECT_TIMEOUT_MS)"

end
