(* ===== verification/Uploader.thy ===== *)
theory Uploader
  imports Wifi TimeSync Auth
begin

text \<open>
  Uploading (\<open>aetus.c\<close>, lines 174-195 and 1069-1208): the release of a queue item, the POST of one payload, the
  drain of the queue, the timer callback and the body of the uploader task. The loop of \<open>drain_queue\<close> ends only
  when the queue is empty or a POST fails, so it is a partial function: \<open>None\<close> means that it does not return.
\<close>

section \<open>Releasing an item\<close>

text \<open>The item after the call is returned as well: the code clears its pointers.\<close>

definition body_signal_frame :: "aetus_queue_item \<Rightarrow> aetus_signal_frame option" where
  "body_signal_frame item = (case qi_body item of Body_signal_frame f \<Rightarrow> Some f | _ \<Rightarrow> None)"

definition release_queue_item :: "aetus_queue_item option \<Rightarrow> ('w, aetus_queue_item option) prog" where
  "release_queue_item item =
     (case item of
        None \<Rightarrow> ret None
      | Some it \<Rightarrow>
          if qi_kind it = AETUS_QUEUE_ITEM_TELEMETRY then
            State (\<lambda>s.
              case aetus_internal_release_telemetry_queue_item (Some it) (s_heap s) (s_test_release_stats s) of
                (it', h, st) \<Rightarrow> (it', s\<lparr>s_heap := h, s_test_release_stats := st\<rparr>))
          else if qi_kind it = AETUS_QUEUE_ITEM_SIGNAL_FRAME then
            State (\<lambda>s.
              case aetus_signal_sample_pool_release (Some (cx_signal_pool_stats (s_ctx s)))
                     (qi_signal_sample_owner it) (s_heap s) of
                (st, h) \<Rightarrow>
                  (Some (it\<lparr>qi_signal_sample_owner := 0,
                      qi_body := (case qi_body it of
                        Body_signal_frame f \<Rightarrow>
                          Body_signal_frame (f\<lparr>fr_samples := Samples_null, fr_samples_size := 0\<rparr>)
                      | b \<Rightarrow> b)\<rparr>),
                   s\<lparr>s_heap := h, s_ctx := (s_ctx s)\<lparr>cx_signal_pool_stats := the st\<rparr>\<rparr>))
          else ret (Some it))"

text \<open>The counters of the pool, bumped through the pointer in the context.\<close>

definition note_pool ::
  "(aetus_signal_sample_pool_stats option \<Rightarrow> aetus_signal_sample_pool_stats option) \<Rightarrow> ('w, unit) prog" where
  "note_pool note =
     upd_ctx (\<lambda>c. c\<lparr>cx_signal_pool_stats := the (note (Some (cx_signal_pool_stats c)))\<rparr>)"

section \<open>One POST\<close>

definition post_payload :: "'w platform \<Rightarrow> 'm md_api \<Rightarrow> byte list \<Rightarrow> ('w, esp_err) prog" where
  "post_payload P md payload = do {
     hooks \<leftarrow> get_sys s_test_runtime_hooks;
     ctx \<leftarrow> get_ctx (\<lambda>c. c);
     if fake_post hooks then do {
       _ \<leftarrow> upd_sys (\<lambda>s. s\<lparr>s_test_runtime_hooks := (s_test_runtime_hooks s)
              \<lparr>fake_post_count := fake_post_count (s_test_runtime_hooks s) + 1\<rparr>\<rparr>);
       ret (fake_post_result hooks)
     }
     else do {
       client \<leftarrow> call (esp_http_client_init P (ostr (ingest_url (cx_config ctx))));
       if \<not> client then ret ESP_FAIL
       else
         (case (if auth_mode (cx_config ctx) = AETUS_AUTH_HMAC_SHA256
                then (case hmac_signature_header md ctx payload (length payload) 96 of
                        Inl err \<Rightarrow> Inl err
                      | Inr header \<Rightarrow> Inr (''X-Aetus-Signature'', cstr header))
                else Inr (''Authorization'', bearer_header ctx)) of
            Inl sign_err \<Rightarrow> do {
              _ \<leftarrow> call (esp_http_client_cleanup P);
              ret sign_err
            }
          | Inr auth \<Rightarrow> do {
              (events, err, status) \<leftarrow> call (esp_http_client_perform P
                \<lparr>rq_url = ostr (ingest_url (cx_config ctx)), rq_post = True,
                 rq_headers = [(''Content-Type'', str ''application/x-protobuf''),
                               (''X-Device-Id'', ostr (device_id (cx_config ctx))), auth],
                 rq_body = payload\<rparr>);
              _ \<leftarrow> call (esp_http_client_cleanup P);
              if err \<noteq> ESP_OK then ret err
              else if status < 200 \<or> status \<ge> 300 then ret ESP_FAIL
              else ret ESP_OK
            })
     }
   }"

section \<open>Draining the queue\<close>

text \<open>
  One round of the loop: whether the loop goes on, and whether an item was uploaded. A failed POST puts the
  item back at the front; when that fails too the item is dropped. Either way the loop stops.
\<close>

datatype drain_result = Drain_stop | Drain_continue bool

definition is_signal_item :: "aetus_queue_item \<Rightarrow> bool" where
  "is_signal_item item \<longleftrightarrow> qi_kind item = AETUS_QUEUE_ITEM_SIGNAL_FRAME"

definition drain_item :: "'w platform \<Rightarrow> 'm md_api \<Rightarrow> aetus_queue_item \<Rightarrow> ('w, drain_result) prog" where
  "drain_item P md item = do {
     now_us \<leftarrow> call (esp_timer_get_time P);
     payload \<leftarrow> get_sys (\<lambda>s. encode_queue_item (s_ctx s) now_us (s_heap s) item AETUS_ENCODE_BUFFER_BYTES);
     (case payload of
        None \<Rightarrow> do {
          _ \<leftarrow> whenm (is_signal_item item) (note_pool aetus_signal_sample_pool_note_validation_failure);
          _ \<leftarrow> release_queue_item (Some item);
          ret (Drain_continue False)
        }
      | Some payload \<Rightarrow> do {
          err \<leftarrow> post_payload P md payload;
          if err = ESP_OK then do {
            _ \<leftarrow> upd_ctx (\<lambda>c. c\<lparr>cx_sequence := cx_sequence c + 1\<rparr>);
            _ \<leftarrow> whenm (is_signal_item item) (note_pool aetus_signal_sample_pool_note_upload_success);
            _ \<leftarrow> release_queue_item (Some item);
            ret (Drain_continue True)
          }
          else do {
            queue \<leftarrow> get_ctx cx_queue;
            ok \<leftarrow> call (xQueueSendToFront P queue item 0);
            if ok then ret Drain_stop
            else do {
              _ \<leftarrow> whenm (is_signal_item item) (note_pool aetus_signal_sample_pool_note_final_drop);
              _ \<leftarrow> release_queue_item (Some item);
              ret Drain_stop
            }
          }
        })
   }"

definition drain_round :: "'w platform \<Rightarrow> 'm md_api \<Rightarrow> ('w, drain_result) prog" where
  "drain_round P md = do {
     queue \<leftarrow> get_ctx cx_queue;
     r \<leftarrow> call (xQueueReceive P queue 0);
     (case r of None \<Rightarrow> ret Drain_stop | Some item \<Rightarrow> drain_item P md item)
   }"

partial_function (option) drain_loop :: "'w platform \<Rightarrow> 'm md_api \<Rightarrow> u32 \<Rightarrow> 'w sys \<Rightarrow> (u32 \<times> 'w sys) option" where
  "drain_loop P md uploaded s =
     (case run_state (drain_round P md) s of
        (r, s') \<Rightarrow>
          (case r of
             Drain_stop \<Rightarrow> Some (uploaded, s')
           | Drain_continue up \<Rightarrow> drain_loop P md (if up then uploaded + 1 else uploaded) s'))"

definition set_done :: "'w platform \<Rightarrow> 'w sys \<Rightarrow> 'w sys" where
  "set_done P s =
     s\<lparr>s_world := snd (xEventGroupSetBits P (cx_events (s_ctx s)) AETUS_UPLOAD_DONE_BIT (s_world s))\<rparr>"

definition drain_queue :: "'w platform \<Rightarrow> 'm md_api \<Rightarrow> 'w sys \<Rightarrow> 'w sys option" where
  "drain_queue P md s =
     (case run_state (wifi_wait_connected P) s of
        (err, s) \<Rightarrow>
          if err \<noteq> ESP_OK then Some (set_done P s)
          else (case drain_loop P md 0 s of None \<Rightarrow> None | Some (uploaded, s) \<Rightarrow> Some (set_done P s)))"

section \<open>The timer and the task\<close>

definition upload_timer_callback :: "'w platform \<Rightarrow> ('w, unit) prog" where
  "upload_timer_callback P = do {
     events \<leftarrow> get_ctx cx_events;
     call (xEventGroupSetBits P events AETUS_UPLOAD_DUE_BIT)
   }"

text \<open>\<open>portMAX_DELAY\<close> is the largest tick count.\<close>

definition portMAX_DELAY :: u32 where "portMAX_DELAY = - 1"

text \<open>One turn of the endless loop of \<open>uploader_task\<close>.\<close>

definition uploader_task :: "'w platform \<Rightarrow> 'm md_api \<Rightarrow> 'w sys \<Rightarrow> 'w sys option" where
  "uploader_task P md s =
     (case run_state (call (xEventGroupWaitBits P (cx_events (s_ctx s))
             (AETUS_UPLOAD_DUE_BIT OR AETUS_UPLOAD_FLUSH_BIT) True False portMAX_DELAY)) s of
        (bits, s) \<Rightarrow>
          if bits AND (AETUS_UPLOAD_DUE_BIT OR AETUS_UPLOAD_FLUSH_BIT) \<noteq> 0 then drain_queue P md s
          else Some s)"

end
