(* ===== verification/Api.thy ===== *)
theory Api
  imports Uploader
begin

text \<open>
  The public functions of the runtime (\<open>aetus.c\<close>, lines 1525-1868): start, configuration updates, the clock
  synchronisation, the enqueue functions of tasks and interrupts, the test hooks and flush.

  A configuration has the texts its string pointers point at. \<open>aetus_start\<close> and \<open>aetus_update_config\<close> store the
  pointers of the caller's struct, not copies: what they store here are the texts at the time of the call, and the
  caller may rewrite them later, which is the step \<open>caller_strings\<close> of theory \<open>Runtime\<close> (and, with the buffers themselves, the
  aliases of theory \<open>Provisioning\<close>).
\<close>

section \<open>Start\<close>

text \<open>Checks in a row: the first that fails gives the result.\<close>

definition ESP_RETURN_ON_FALSES ::
  "(bool \<times> esp_err) list \<Rightarrow> ('w, esp_err) prog \<Rightarrow> ('w, esp_err) prog" where
  "ESP_RETURN_ON_FALSES checks rest = foldr (\<lambda>(c, err) k. ESP_RETURN_ON_FALSE c err k) checks rest"

definition zero_config :: aetus_config where
  "zero_config = \<lparr>wifi_ssid = None, wifi_password = None, wifi_auth = AETUS_WIFI_AUTH_PSK,
     wifi_identity = None, ingest_url = None, time_url = None, device_id = None, device_token = None,
     auth_mode = AETUS_AUTH_BEARER, firmware_version = 0, upload_interval_ms = 0, queue_depth = 0,
     connected_led_enabled = False, connected_led_gpio = 0\<rparr>"

definition zero_ctx :: aetus_ctx where
  "zero_ctx = \<lparr>cx_config = zero_config, cx_queue = 0, cx_events = 0, cx_upload_timer = 0, cx_sequence = 0,
     cx_boot_id = replicate 32 0, cx_wifi_started = False, cx_wifi_reconfiguring = False,
     cx_signal_pool_stats = zero_pool_stats\<rparr>"

text \<open>\<open>snprintf(boot_id, 32, "boot-%08lx", random)\<close>; bytes after the terminator keep their zeros.\<close>

definition hex8 :: "u32 \<Rightarrow> byte list" where
  "hex8 r = map (\<lambda>i. hex_digit (ucast (drop_bit (4 * i) r) AND 0x0F)) [7, 6, 5, 4, 3, 2, 1, 0]"

definition boot_id_of :: "u32 \<Rightarrow> byte list" where
  "boot_id_of r = (let t = str ''boot-'' @ hex8 r in t @ replicate (32 - length t) 0)"

definition start_checks :: "aetus_config \<Rightarrow> addr \<Rightarrow> (bool \<times> esp_err) list" where
  "start_checks config queue =
     [(string_required_fits (wifi_ssid config) AETUS_WIFI_SSID_MAX, ESP_ERR_INVALID_ARG),
      (string_required_fits (wifi_password config) AETUS_WIFI_PASSWORD_MAX, ESP_ERR_INVALID_ARG),
      (wifi_auth config = AETUS_WIFI_AUTH_PSK \<or> wifi_auth config = AETUS_WIFI_AUTH_PEAP, ESP_ERR_INVALID_ARG),
      (auth_mode config = AETUS_AUTH_BEARER \<or> auth_mode config = AETUS_AUTH_HMAC_SHA256, ESP_ERR_INVALID_ARG)] @
     (if wifi_auth config = AETUS_WIFI_AUTH_PEAP then
       [(string_required_fits (wifi_identity config) AETUS_WIFI_IDENTITY_MAX, ESP_ERR_INVALID_ARG),
        (ostr (wifi_password config) \<noteq> [], ESP_ERR_INVALID_ARG)] else []) @
     [(string_required_fits (ingest_url config) AETUS_URL_MAX, ESP_ERR_INVALID_ARG),
      (string_fits (time_url config) (AETUS_URL_MAX + 1), ESP_ERR_INVALID_ARG),
      (string_required_fits (device_id config) AETUS_DEVICE_ID_MAX, ESP_ERR_INVALID_ARG),
      (string_required_fits (device_token config) AETUS_DEVICE_TOKEN_MAX, ESP_ERR_INVALID_ARG),
      (queue = 0, ESP_ERR_INVALID_STATE)]"

text \<open>The context that the start fills before its first allocation.\<close>

definition start_ctx :: "aetus_config \<Rightarrow> u32 \<Rightarrow> aetus_ctx" where
  "start_ctx config r =
     (let config = (if upload_interval_ms config = 0
                    then config\<lparr>upload_interval_ms := AETUS_UPLOAD_DEFAULT_INTERVAL_MS\<rparr> else config);
          config = (if queue_depth config = 0 then config\<lparr>queue_depth := 16\<rparr> else config)
      in zero_ctx\<lparr>cx_config := config,
           cx_signal_pool_stats := the (aetus_signal_sample_pool_reset (Some (cx_signal_pool_stats zero_ctx))),
           cx_boot_id := boot_id_of r\<rparr>)"

text \<open>The objects the start creates: queue, event group, LED, timer and task.\<close>

definition start_objects :: "'w platform \<Rightarrow> ('w, esp_err) prog" where
  "start_objects P = do {
     config \<leftarrow> get_ctx cx_config;
     queue \<leftarrow> call (xQueueCreate P (queue_depth config));
     _ \<leftarrow> upd_ctx (\<lambda>c. c\<lparr>cx_queue := queue\<rparr>);
     ESP_RETURN_ON_FALSE (queue \<noteq> 0) ESP_ERR_NO_MEM (do {
       events \<leftarrow> call (xEventGroupCreate P);
       _ \<leftarrow> upd_ctx (\<lambda>c. c\<lparr>cx_events := events\<rparr>);
       ESP_RETURN_ON_FALSE (events \<noteq> 0) ESP_ERR_NO_MEM
       (ESP_RETURN_ON_ERROR (configure_connected_led P) (do {
         timer \<leftarrow> call (xTimerCreate P (pdMS_TO_TICKS P (upload_interval_ms config)));
         _ \<leftarrow> upd_ctx (\<lambda>c. c\<lparr>cx_upload_timer := timer\<rparr>);
         ESP_RETURN_ON_FALSE (timer \<noteq> 0) ESP_ERR_NO_MEM (do {
           task_created \<leftarrow> call (xTaskCreate P);
           ESP_RETURN_ON_FALSE task_created ESP_ERR_NO_MEM (do {
             started \<leftarrow> call (xTimerStart P timer);
             ESP_RETURN_ON_FALSE started ESP_FAIL (ret ESP_OK)
           })
         })
       }))
     })
   }"

definition aetus_start :: "'w platform \<Rightarrow> aetus_config option \<Rightarrow> ('w, esp_err) prog" where
  "aetus_start P config =
     (case config of
        None \<Rightarrow> ret ESP_ERR_INVALID_ARG
      | Some config \<Rightarrow> do {
          queue \<leftarrow> get_ctx cx_queue;
          ESP_RETURN_ON_FALSES (start_checks config queue) (do {
            r \<leftarrow> call (esp_random P);
            _ \<leftarrow> upd_ctx (\<lambda>_. start_ctx config r);
            start_objects P
          })
        })"

section \<open>Configuration updates and getters\<close>

definition update_checks :: "aetus_config \<Rightarrow> (bool \<times> esp_err) list" where
  "update_checks next =
     [(string_required_fits (wifi_ssid next) AETUS_WIFI_SSID_MAX, ESP_ERR_INVALID_ARG),
      (string_required_fits (wifi_password next) AETUS_WIFI_PASSWORD_MAX, ESP_ERR_INVALID_ARG),
      (wifi_auth next = AETUS_WIFI_AUTH_PSK \<or> wifi_auth next = AETUS_WIFI_AUTH_PEAP, ESP_ERR_INVALID_ARG),
      (auth_mode next = AETUS_AUTH_BEARER \<or> auth_mode next = AETUS_AUTH_HMAC_SHA256, ESP_ERR_INVALID_ARG)] @
     (if wifi_auth next = AETUS_WIFI_AUTH_PEAP then
       [(string_required_fits (wifi_identity next) AETUS_WIFI_IDENTITY_MAX, ESP_ERR_INVALID_ARG)] else []) @
     [(string_required_fits (ingest_url next) AETUS_URL_MAX, ESP_ERR_INVALID_ARG),
      (string_fits (time_url next) (AETUS_URL_MAX + 1), ESP_ERR_INVALID_ARG),
      (string_required_fits (device_id next) AETUS_DEVICE_ID_MAX, ESP_ERR_INVALID_ARG),
      (string_required_fits (device_token next) AETUS_DEVICE_TOKEN_MAX, ESP_ERR_INVALID_ARG)]"

definition update_config_next :: "aetus_ctx \<Rightarrow> aetus_config \<Rightarrow> aetus_config" where
  "update_config_next ctx config =
     (let next = (if upload_interval_ms config = 0
                  then config\<lparr>upload_interval_ms := AETUS_UPLOAD_DEFAULT_INTERVAL_MS\<rparr> else config)
      in if queue_depth next = 0 then next\<lparr>queue_depth := queue_depth (cx_config ctx)\<rparr> else next)"

text \<open>The reconnect of a Wi-Fi that runs.\<close>

definition update_wifi :: "'w platform \<Rightarrow> ('w, esp_err) prog" where
  "update_wifi P = do {
     ctx \<leftarrow> get_ctx (\<lambda>c. c);
     _ \<leftarrow> call (xEventGroupClearBits P (cx_events ctx) AETUS_WIFI_CONNECTED_BIT);
     _ \<leftarrow> whenm (connected_led_enabled (cx_config ctx))
            (call (gpio_set_level P (connected_led_gpio (cx_config ctx)) False));
     _ \<leftarrow> upd_ctx (\<lambda>c. c\<lparr>cx_wifi_reconfiguring := True\<rparr>);
     _ \<leftarrow> call (esp_wifi_disconnect P);
     _ \<leftarrow> call (vTaskDelay P (pdMS_TO_TICKS P 250));
     err \<leftarrow> wifi_apply_sta_config P;
     _ \<leftarrow> upd_ctx (\<lambda>c. c\<lparr>cx_wifi_reconfiguring := False\<rparr>);
     ESP_RETURN_ON_ERROR (ret err) (ESP_RETURN_ON_ERROR (call (esp_wifi_connect P)) (ret ESP_OK))
   }"

definition aetus_update_config :: "'w platform \<Rightarrow> aetus_config option \<Rightarrow> ('w, esp_err) prog" where
  "aetus_update_config P config = do {
     ctx \<leftarrow> get_ctx (\<lambda>c. c);
     ESP_RETURN_ON_FALSE (cx_queue ctx \<noteq> 0) ESP_ERR_INVALID_STATE
       (case config of
          None \<Rightarrow> ret ESP_ERR_INVALID_ARG
        | Some config \<Rightarrow>
            let next = update_config_next ctx config in
            ESP_RETURN_ON_FALSES (update_checks next) (do {
              _ \<leftarrow> upd_ctx (\<lambda>c. c\<lparr>cx_config := next\<rparr>);
              ESP_RETURN_ON_ERROR (configure_connected_led P) (do {
                _ \<leftarrow> whenm (cx_upload_timer ctx \<noteq> 0) (do {
                  _ \<leftarrow> call (xTimerChangePeriod P (cx_upload_timer ctx)
                    (pdMS_TO_TICKS P (upload_interval_ms next)));
                  ret ()
                });
                if cx_wifi_started ctx then update_wifi P else ret ESP_OK
              })
            }))
   }"

text \<open>A getter returns what it wrote through its output pointer; \<open>out\<close> says whether that is not \<open>NULL\<close>.\<close>

definition aetus_get_config :: "bool \<Rightarrow> ('w, esp_err + aetus_config) prog" where
  "aetus_get_config out = do {
     ctx \<leftarrow> get_ctx (\<lambda>c. c);
     ret (if \<not> out then Inl ESP_ERR_INVALID_ARG
          else if cx_queue ctx = 0 then Inl ESP_ERR_INVALID_STATE else Inr (cx_config ctx))
   }"

definition aetus_get_signal_sample_pool_stats ::
  "aetus_signal_sample_pool_stats option \<Rightarrow> ('w, esp_err \<times> aetus_signal_sample_pool_stats option) prog" where
  "aetus_get_signal_sample_pool_stats stats = do {
     ctx \<leftarrow> get_ctx (\<lambda>c. c);
     ret (if stats = None then (ESP_ERR_INVALID_ARG, stats)
          else if cx_queue ctx = 0 then (ESP_ERR_INVALID_STATE, stats)
          else (ESP_OK, aetus_signal_sample_pool_copy_stats stats (Some (cx_signal_pool_stats ctx))))
   }"

definition aetus_sync_rtc :: "'w platform \<Rightarrow> u32 \<Rightarrow> ('w, esp_err) prog" where
  "aetus_sync_rtc P timeout = do {
     queue \<leftarrow> get_ctx cx_queue;
     ESP_RETURN_ON_FALSE (queue \<noteq> 0) ESP_ERR_INVALID_STATE
     (ESP_RETURN_ON_ERROR (wifi_wait_connected_for P timeout) (do {
       r \<leftarrow> fetch_server_time_ns P;
       (case r of
          Inl err \<Rightarrow> ret err
        | Inr unix_time_ns \<Rightarrow> ESP_RETURN_ON_ERROR (set_rtc_from_unix_time_ns P unix_time_ns) (ret ESP_OK))
     }))
   }"

section \<open>Enqueueing from tasks\<close>

text \<open>The uninitialised item on the stack: every field is written before the copy succeeds.\<close>

definition stack_item :: aetus_queue_item where
  "stack_item = telemetry_item zero_telemetry"

definition aetus_enqueue_telemetry :: "'w platform \<Rightarrow> aetus_telemetry option \<Rightarrow> u32 \<Rightarrow> ('w, esp_err) prog" where
  "aetus_enqueue_telemetry P telemetry timeout = do {
     queue \<leftarrow> get_ctx cx_queue;
     ESP_RETURN_ON_FALSE (telemetry \<noteq> None) ESP_ERR_INVALID_ARG
     (ESP_RETURN_ON_FALSE (queue \<noteq> 0) ESP_ERR_INVALID_STATE (do {
       (err, item) \<leftarrow> State (\<lambda>s.
         case aetus_internal_copy_telemetry_to_queue_item (pf_malloc P) telemetry (Some stack_item)
                (s_heap s) (s_test_release_stats s) of
           (err, item, h, st) \<Rightarrow> ((err, item), s\<lparr>s_heap := h, s_test_release_stats := st\<rparr>));
       ESP_RETURN_ON_ERROR (ret err) (do {
         ok \<leftarrow> call (xQueueSend P queue (the item) timeout);
         if ok then ret ESP_OK
         else do {
           _ \<leftarrow> release_queue_item item;
           ret ESP_ERR_TIMEOUT
         }
       })
     }))
   }"

text \<open>The samples copied into a block of the pool.\<close>

definition fill_samples :: "sample_ptr \<Rightarrow> byte list \<Rightarrow> heap \<Rightarrow> heap" where
  "fill_samples samples bs h =
     (case samples of
        Samples_block p \<Rightarrow>
          (case blocks h p of
             Some (Sample_block n old) \<Rightarrow> h\<lparr>blocks := (blocks h)(p \<mapsto> Sample_block n (bs @ drop (length bs) old))\<rparr>
           | _ \<Rightarrow> h\<lparr>heap_corrupt := True\<rparr>)
      | _ \<Rightarrow> h)"

definition signal_item :: "aetus_signal_frame \<Rightarrow> addr \<Rightarrow> sample_ptr \<Rightarrow> aetus_queue_item" where
  "signal_item frame owner samples =
     \<lparr>qi_kind = AETUS_QUEUE_ITEM_SIGNAL_FRAME, qi_signal_sample_owner = owner,
      qi_body = Body_signal_frame (frame\<lparr>fr_samples := samples\<rparr>)\<rparr>"

definition aetus_enqueue_signal_frame ::
  "'w platform \<Rightarrow> aetus_signal_frame option \<Rightarrow> u32 \<Rightarrow> ('w, esp_err) prog" where
  "aetus_enqueue_signal_frame P frame timeout = do {
     queue \<leftarrow> get_ctx cx_queue;
     (case frame of
        None \<Rightarrow> ret ESP_ERR_INVALID_ARG
      | Some f \<Rightarrow>
          ESP_RETURN_ON_FALSE (queue \<noteq> 0) ESP_ERR_INVALID_STATE
          (ESP_RETURN_ON_ERROR (ret (validate_signal_frame frame)) (do {
            (samples, owner) \<leftarrow> State (\<lambda>s.
              case aetus_signal_sample_pool_alloc (pf_malloc P) (Some (cx_signal_pool_stats (s_ctx s)))
                     (fr_samples_size f) (Some 0) (s_heap s) of
                (samples, owner, st, h) \<Rightarrow>
                  ((samples, the owner),
                   s\<lparr>s_heap := h, s_ctx := (s_ctx s)\<lparr>cx_signal_pool_stats := the st\<rparr>\<rparr>));
            ESP_RETURN_ON_FALSE (samples \<noteq> Samples_null) ESP_ERR_NO_MEM (do {
              _ \<leftarrow> upd_sys (\<lambda>s. s\<lparr>s_heap := fill_samples samples
                     (take (unat (fr_samples_size f)) (samples_at (s_heap s) (fr_samples f))) (s_heap s)\<rparr>);
              let item = signal_item f owner samples;
              ok \<leftarrow> call (xQueueSend P queue item timeout);
              if ok then ret ESP_OK
              else do {
                _ \<leftarrow> note_pool aetus_signal_sample_pool_note_queue_send_failure;
                _ \<leftarrow> release_queue_item (Some item);
                ret ESP_ERR_TIMEOUT
              }
            })
          })))
   }"

definition status_item :: "aetus_status \<Rightarrow> aetus_queue_item" where
  "status_item status =
     \<lparr>qi_kind = AETUS_QUEUE_ITEM_STATUS, qi_signal_sample_owner = 0, qi_body = Body_status status\<rparr>"

definition aetus_enqueue_status :: "'w platform \<Rightarrow> aetus_status option \<Rightarrow> u32 \<Rightarrow> ('w, esp_err) prog" where
  "aetus_enqueue_status P status timeout = do {
     queue \<leftarrow> get_ctx cx_queue;
     (case status of
        None \<Rightarrow> ret ESP_ERR_INVALID_ARG
      | Some st \<Rightarrow>
          ESP_RETURN_ON_FALSE (queue \<noteq> 0) ESP_ERR_INVALID_STATE (do {
            ok \<leftarrow> call (xQueueSend P queue (status_item st) timeout);
            ret (if ok then ESP_OK else ESP_ERR_TIMEOUT)
          }))
   }"

section \<open>Enqueueing from interrupts\<close>

text \<open>
  The critical section around the static item makes its fill and the send one step. The telemetry struct is
  copied as it is, its pointer to further metrics included.
\<close>

definition aetus_enqueue_telemetry_from_isr :: "'w platform \<Rightarrow> aetus_telemetry option \<Rightarrow> ('w, esp_err) prog" where
  "aetus_enqueue_telemetry_from_isr P telemetry = do {
     queue \<leftarrow> get_ctx cx_queue;
     (case telemetry of
        None \<Rightarrow> ret ESP_ERR_INVALID_ARG
      | Some t \<Rightarrow>
          if queue = 0 then ret ESP_ERR_INVALID_ARG
          else if unat (t_metric_count t) > AETUS_TELEMETRY_INLINE_METRICS then ret ESP_ERR_INVALID_ARG
          else if list_ex (\<lambda>m. m_type m = AETUS_METRIC_VALUE_STRING \<or> m_type m = AETUS_METRIC_VALUE_BYTES)
                    (take (unat (t_metric_count t)) (t_inline_metrics t))
          then ret ESP_ERR_INVALID_ARG
          else do {
            _ \<leftarrow> upd_sys (\<lambda>s. s\<lparr>s_isr_item := (s_isr_item s)\<lparr>qi_kind := AETUS_QUEUE_ITEM_TELEMETRY,
                   qi_signal_sample_owner := 0, qi_body := Body_telemetry t\<rparr>\<rparr>);
            item \<leftarrow> get_sys s_isr_item;
            ok \<leftarrow> call (xQueueSendFromISR P queue item);
            ret (if ok then ESP_OK else ESP_ERR_TIMEOUT)
          })
   }"

definition aetus_enqueue_status_from_isr :: "'w platform \<Rightarrow> aetus_status option \<Rightarrow> ('w, esp_err) prog" where
  "aetus_enqueue_status_from_isr P status = do {
     queue \<leftarrow> get_ctx cx_queue;
     (case status of
        None \<Rightarrow> ret ESP_ERR_INVALID_ARG
      | Some st \<Rightarrow>
          if queue = 0 then ret ESP_ERR_INVALID_ARG
          else do {
            _ \<leftarrow> upd_sys (\<lambda>s. s\<lparr>s_isr_item := (s_isr_item s)\<lparr>qi_kind := AETUS_QUEUE_ITEM_STATUS,
                   qi_signal_sample_owner := 0, qi_body := Body_status st\<rparr>\<rparr>);
            item \<leftarrow> get_sys s_isr_item;
            ok \<leftarrow> call (xQueueSendFromISR P queue item);
            ret (if ok then ESP_OK else ESP_ERR_TIMEOUT)
          })
   }"

section \<open>Hooks and flush\<close>

definition aetus_test_set_runtime_hooks :: "aetus_test_runtime_hooks option \<Rightarrow> ('w, unit) prog" where
  "aetus_test_set_runtime_hooks hooks =
     upd_sys (\<lambda>s. s\<lparr>s_test_runtime_hooks := (case hooks of None \<Rightarrow> zero_hooks | Some k \<Rightarrow> k)\<rparr>)"

definition aetus_test_get_runtime_hooks ::
  "aetus_test_runtime_hooks option \<Rightarrow> ('w, aetus_test_runtime_hooks option) prog" where
  "aetus_test_get_runtime_hooks hooks =
     get_sys (\<lambda>s. case hooks of None \<Rightarrow> None | Some _ \<Rightarrow> Some (s_test_runtime_hooks s))"

definition aetus_flush :: "'w platform \<Rightarrow> u32 \<Rightarrow> ('w, esp_err) prog" where
  "aetus_flush P timeout = do {
     events \<leftarrow> get_ctx cx_events;
     ESP_RETURN_ON_FALSE (events \<noteq> 0) ESP_ERR_INVALID_STATE (do {
       _ \<leftarrow> call (xEventGroupClearBits P events AETUS_UPLOAD_DONE_BIT);
       _ \<leftarrow> call (xEventGroupSetBits P events AETUS_UPLOAD_FLUSH_BIT);
       bits \<leftarrow> call (xEventGroupWaitBits P events AETUS_UPLOAD_DONE_BIT True True timeout);
       ret (if bits AND AETUS_UPLOAD_DONE_BIT \<noteq> 0 then ESP_OK else ESP_ERR_TIMEOUT)
     })
   }"

end
