(* ===== verification/RuntimeFrame.thy ===== *)
theory RuntimeFrame
  imports Api QueueItemProps
begin

text \<open>
  What the runtime's functions leave alone. A program that only moves the state along a reflexive and
  transitive relation is built from parts that do; the relation here is \<open>quiet\<close> (heap, queue and context stay,
  but for the flag that Wi-Fi was started). The platform's side is \<open>quiet_platform\<close>: no call other than the queue's own
  changes the queue.
\<close>

section \<open>Programs that respect a relation\<close>

named_theorems steps_intros \<open>rules for programs that respect a relation\<close>

definition steps :: "('w sys \<Rightarrow> 'w sys \<Rightarrow> bool) \<Rightarrow> ('w, 'a) prog \<Rightarrow> bool" where
  "steps R m \<longleftrightarrow> (\<forall>s. R s (snd (run_state m s)))"

lemma stepsD: "steps R m \<Longrightarrow> run_state m s = (a, s') \<Longrightarrow> R s s'"
  by (metis snd_conv steps_def)

locale step_relation =
  fixes R :: "'w sys \<Rightarrow> 'w sys \<Rightarrow> bool"
  assumes refl: "R s s" and trans: "R s s' \<Longrightarrow> R s' s'' \<Longrightarrow> R s s''"
begin

lemma ret: "steps R (ret a)"
  by (simp add: steps_def run_steps refl)

lemma get: "steps R (get_sys f)" "steps R (get_ctx g)"
  by (simp_all add: steps_def run_steps refl)

lemma bind: "steps R m \<Longrightarrow> (\<And>a. steps R (f a)) \<Longrightarrow> steps R (State_Monad.bind m f)"
  unfolding steps_def run_bind by (auto split: prod.split) (metis snd_conv trans)

lemma cond: "steps R m \<Longrightarrow> steps R n \<Longrightarrow> steps R (if c then m else n)"
  by simp

lemma on_false: "steps R m \<Longrightarrow> steps R (ESP_RETURN_ON_FALSE c e m)"
  by (simp add: ESP_RETURN_ON_FALSE_def ret)

lemma on_error: "steps R m \<Longrightarrow> steps R n \<Longrightarrow> steps R (ESP_RETURN_ON_ERROR m n)"
  unfolding ESP_RETURN_ON_ERROR_def by (intro bind) (simp_all add: ret)

lemma on_when: "steps R m \<Longrightarrow> steps R (whenm c m)"
  by (simp add: whenm_def ret)

lemmas rules = ret get bind cond on_false on_error on_when

end

section \<open>Calls that keep the queue\<close>

definition keeps :: "('w \<Rightarrow> 'i) \<Rightarrow> ('w \<Rightarrow> 'a \<times> 'w) \<Rightarrow> bool" where
  "keeps items f \<longleftrightarrow> (\<forall>w. items (snd (f w)) = items w)"

text \<open>Every call but those of the queue and the HTTP exchange itself.\<close>

definition local_calls :: "'w platform \<Rightarrow> ('w \<Rightarrow> 'i) \<Rightarrow> bool" where
  "local_calls P items \<longleftrightarrow>
     keeps items (esp_timer_get_time P) \<and> keeps items (gettimeofday P) \<and>
     (\<forall>tv. keeps items (settimeofday P tv)) \<and>
     (\<forall>e b. keeps items (xEventGroupSetBits P e b)) \<and> (\<forall>e b. keeps items (xEventGroupClearBits P e b)) \<and>
     (\<forall>e. keeps items (xEventGroupGetBits P e)) \<and>
     (\<forall>e b c d t. keeps items (xEventGroupWaitBits P e b c d t)) \<and>
     (\<forall>t p. keeps items (xTimerChangePeriod P t p)) \<and> (\<forall>t. keeps items (vTaskDelay P t)) \<and>
     (\<forall>m. keeps items (gpio_config P m)) \<and> (\<forall>g l. keeps items (gpio_set_level P g l)) \<and>
     keeps items (nvs_flash_init P) \<and> keeps items (nvs_flash_erase P) \<and> keeps items (esp_netif_init P) \<and>
     keeps items (esp_event_loop_create_default P) \<and> keeps items (esp_netif_create_default_wifi_sta P) \<and>
     (\<forall>b. keeps items (esp_event_handler_instance_register P b)) \<and> keeps items (esp_wifi_init P) \<and>
     keeps items (esp_wifi_set_mode P) \<and> keeps items (esp_wifi_set_storage P) \<and>
     (\<forall>c. keeps items (esp_wifi_set_config P c)) \<and> keeps items (esp_wifi_start P) \<and>
     keeps items (esp_wifi_connect P) \<and> keeps items (esp_wifi_disconnect P) \<and>
     keeps items (esp_wifi_sta_enterprise_disable P) \<and> keeps items (esp_wifi_sta_enterprise_enable P) \<and>
     (\<forall>x. keeps items (esp_eap_client_set_identity P x)) \<and> (\<forall>x. keeps items (esp_eap_client_set_username P x)) \<and>
     (\<forall>x. keeps items (esp_eap_client_set_password P x)) \<and> keeps items (esp_eap_client_set_eap_methods P) \<and>
     (\<forall>u. keeps items (esp_http_client_init P u)) \<and>
     keeps items (esp_http_client_cleanup P)"

text \<open>The test hooks stay, but for their count of posts.\<close>

definition same_hooks :: "'w sys \<Rightarrow> 'w sys \<Rightarrow> bool" where
  "same_hooks s s' \<longleftrightarrow>
     (\<exists>n. s_test_runtime_hooks s' = (s_test_runtime_hooks s)\<lparr>fake_post_count := n\<rparr>)"

lemma same_hooks_refl: "s_test_runtime_hooks s' = s_test_runtime_hooks s \<Longrightarrow> same_hooks s s'"
  by (auto simp: same_hooks_def intro!: exI [of _ "fake_post_count (s_test_runtime_hooks s)"])

lemma same_hooks_trans: "same_hooks s s' \<Longrightarrow> same_hooks s' s'' \<Longrightarrow> same_hooks s s''"
  by (auto simp: same_hooks_def)

lemma same_hooks_post: "same_hooks s s' \<Longrightarrow> fake_post (s_test_runtime_hooks s') = fake_post (s_test_runtime_hooks s)"
  by (auto simp: same_hooks_def)

text \<open>Heap, queue and context stay, but for the flag that Wi-Fi was started.\<close>

definition quiet :: "('w \<Rightarrow> 'i) \<Rightarrow> 'w sys \<Rightarrow> 'w sys \<Rightarrow> bool" where
  "quiet items s s' \<longleftrightarrow>
     items (s_world s') = items (s_world s) \<and> s_heap s' = s_heap s \<and>
     s_test_release_stats s' = s_test_release_stats s \<and> s_isr_item s' = s_isr_item s \<and> same_hooks s s' \<and>
     (\<exists>b. s_ctx s' = (s_ctx s)\<lparr>cx_wifi_started := b\<rparr>)"

lemma quiet_refl: "quiet items s s"
  by (auto simp: quiet_def same_hooks_refl intro!: exI [of _ "cx_wifi_started (s_ctx s)"])

lemma quiet_trans: "quiet items s s' \<Longrightarrow> quiet items s' s'' \<Longrightarrow> quiet items s s''"
  by (auto simp: quiet_def intro: same_hooks_trans)

interpretation quiet: step_relation "quiet items" for items
  by unfold_locales (rule quiet_refl, erule (1) quiet_trans)

lemma quiet_call: "keeps items f \<Longrightarrow> steps (quiet items) (call f)"
  unfolding steps_def
proof
  fix s :: "'a sys"
  assume "keeps items f"
  then have "items (snd (f (s_world s))) = items (s_world s)" by (simp add: keeps_def)
  then show "quiet items s (snd (run_state (call f) s))"
    using quiet_refl [of items s] by (auto simp: run_steps quiet_def same_hooks_refl split: prod.split)
qed

lemma quiet_started: "steps (quiet items) (upd_ctx (\<lambda>c. c\<lparr>cx_wifi_started := b\<rparr>))"
  by (auto simp: steps_def run_steps quiet_def same_hooks_refl)

lemma quiet_hooks:
  "steps (quiet items) (upd_sys (\<lambda>s. s\<lparr>s_test_runtime_hooks := (s_test_runtime_hooks s)\<lparr>fake_post_count := k s\<rparr>\<rparr>))"
  using quiet_refl by (auto simp: steps_def run_steps quiet_def same_hooks_def)

locale local_platform =
  fixes P :: "'w platform" and items :: "'w \<Rightarrow> 'i"
  assumes calls: "local_calls P items"
begin

lemma quiet_calls_steps:
  "steps (quiet items) (call (esp_timer_get_time P))" "steps (quiet items) (call (gettimeofday P))"
  "steps (quiet items) (call (settimeofday P tv))" "steps (quiet items) (call (xEventGroupSetBits P e b))"
  "steps (quiet items) (call (xEventGroupClearBits P e b))" "steps (quiet items) (call (xEventGroupGetBits P e))"
  "steps (quiet items) (call (xEventGroupWaitBits P e b c1 c2 t))"
  "steps (quiet items) (call (xTimerChangePeriod P tm p))" "steps (quiet items) (call (vTaskDelay P t))"
  "steps (quiet items) (call (gpio_config P m))" "steps (quiet items) (call (gpio_set_level P g l))"
  "steps (quiet items) (call (nvs_flash_init P))" "steps (quiet items) (call (nvs_flash_erase P))"
  "steps (quiet items) (call (esp_netif_init P))" "steps (quiet items) (call (esp_event_loop_create_default P))"
  "steps (quiet items) (call (esp_netif_create_default_wifi_sta P))"
  "steps (quiet items) (call (esp_event_handler_instance_register P eb))"
  "steps (quiet items) (call (esp_wifi_init P))" "steps (quiet items) (call (esp_wifi_set_mode P))"
  "steps (quiet items) (call (esp_wifi_set_storage P))" "steps (quiet items) (call (esp_wifi_set_config P wc))"
  "steps (quiet items) (call (esp_wifi_start P))" "steps (quiet items) (call (esp_wifi_connect P))"
  "steps (quiet items) (call (esp_wifi_disconnect P))" "steps (quiet items) (call (esp_wifi_sta_enterprise_disable P))"
  "steps (quiet items) (call (esp_wifi_sta_enterprise_enable P))"
  "steps (quiet items) (call (esp_eap_client_set_identity P x))"
  "steps (quiet items) (call (esp_eap_client_set_username P x))"
  "steps (quiet items) (call (esp_eap_client_set_password P x))"
  "steps (quiet items) (call (esp_eap_client_set_eap_methods P))"
  "steps (quiet items) (call (esp_http_client_init P u))"
  "steps (quiet items) (call (esp_http_client_cleanup P))"
  by (rule quiet_call, simp add: calls [unfolded local_calls_def])+

lemmas quiet_rules = quiet.rules quiet_calls_steps quiet_started quiet_hooks

lemma quiet_nvs_init: "steps (quiet items) (wifi_nvs_init P)"
  unfolding wifi_nvs_init_def by (intro quiet_rules)

lemma quiet_peap: "steps (quiet items) (wifi_configure_peap P config)"
  unfolding wifi_configure_peap_def by (intro quiet_rules)

lemma quiet_apply: "steps (quiet items) (wifi_apply_sta_config P)"
  unfolding wifi_apply_sta_config_def Let_def by (intro quiet_rules quiet_peap)

lemma quiet_wifi_start: "steps (quiet items) (wifi_start P)"
  unfolding wifi_start_def by (intro quiet_rules quiet_nvs_init quiet_apply)

lemma quiet_wait: "steps (quiet items) (wifi_wait_connected_for P timeout)"
  unfolding wifi_wait_connected_for_def by (intro quiet_rules quiet_wifi_start)

lemma quiet_led: "steps (quiet items) (configure_connected_led P)"
  unfolding configure_connected_led_def by (intro quiet_rules)

lemma quiet_event_handler: "steps (quiet items) (wifi_event_handler P base ev)"
  unfolding wifi_event_handler_def by (intro quiet_rules)

lemma quiet_timer_callback: "steps (quiet items) (upload_timer_callback P)"
  unfolding upload_timer_callback_def by (intro quiet_rules)

lemma quiet_set_rtc: "steps (quiet items) (set_rtc_from_unix_time_ns P ns)"
  unfolding set_rtc_from_unix_time_ns_def Let_def by (intro quiet_rules)

lemma quiet_flush: "steps (quiet items) (aetus_flush P timeout)"
  unfolding aetus_flush_def by (intro quiet_rules)

end

locale quiet_platform = local_platform P items
  for P :: "'w platform" and items :: "'w \<Rightarrow> 'i" +
  assumes perform: "keeps items (esp_http_client_perform P rq)"
begin

lemmas perform_quiet = quiet_call [OF perform]

lemma quiet_post: "steps (quiet items) (post_payload P md payload)"
  unfolding post_payload_def
  by (intro quiet_rules) (auto split: sum.split prod.split intro!: quiet_rules perform_quiet)

lemma quiet_fetch: "steps (quiet items) (fetch_server_time_ns P)"
  unfolding fetch_server_time_ns_def Let_def
  by (intro quiet_rules) (auto split: sum.split prod.split intro!: quiet_rules perform_quiet)

lemma quiet_sync: "steps (quiet items) (aetus_sync_rtc P timeout)"
  unfolding aetus_sync_rtc_def
  by (intro quiet_rules quiet_wait quiet_fetch) (auto split: sum.split intro!: quiet_rules perform_quiet quiet_set_rtc)

end

end
