(* ===== verification/RuntimeInv.thy ===== *)
theory RuntimeInv
  imports RuntimeFrame
begin

text \<open>
  Who owns which memory. An item in the queue owns the blocks of its telemetry object or its sample block; the items
  of a queue own disjoint blocks, and the pool's statistics count exactly the sample blocks in the queue.
  \<open>owns L s\<close> says this of the state for a list \<open>L\<close> of items, those in the queue and the one the uploader holds.
\<close>

section \<open>Ownership\<close>

definition item_owned :: "heap \<Rightarrow> aetus_queue_item \<Rightarrow> addr list" where
  "item_owned h it =
     (case qi_body it of
        Body_telemetry t \<Rightarrow> owned h t
      | Body_status s \<Rightarrow> []
      | Body_signal_frame f \<Rightarrow> [qi_signal_sample_owner it])"

definition item_ok :: "heap \<Rightarrow> aetus_queue_item \<Rightarrow> bool" where
  "item_ok h it =
     (case qi_body it of
        Body_telemetry t \<Rightarrow> it = telemetry_item t \<and> wf_telemetry h t
      | Body_status s \<Rightarrow> it = status_item s
      | Body_signal_frame f \<Rightarrow>
          it = signal_item f (qi_signal_sample_owner it) (Samples_block (qi_signal_sample_owner it)) \<and>
          is_sample_block h (qi_signal_sample_owner it) \<and>
          sample_block_size h (qi_signal_sample_owner it) = fr_samples_size f)"

definition item_samples :: "aetus_queue_item \<Rightarrow> addr list" where
  "item_samples it = (case qi_body it of Body_signal_frame f \<Rightarrow> [qi_signal_sample_owner it] | _ \<Rightarrow> [])"

definition queue_owned :: "heap \<Rightarrow> aetus_queue_item list \<Rightarrow> addr list" where
  "queue_owned h L = concat (map (item_owned h) L)"

definition queue_samples :: "aetus_queue_item list \<Rightarrow> addr list" where
  "queue_samples L = concat (map item_samples L)"

definition owns :: "aetus_queue_item list \<Rightarrow> 'w sys \<Rightarrow> bool" where
  "owns L s \<longleftrightarrow>
     (\<forall>it \<in> set L. item_ok (s_heap s) it) \<and> distinct (queue_owned (s_heap s) L) \<and> blocks (s_heap s) 0 = None \<and>
     pool_inv (s_heap s) (queue_samples L) (cx_signal_pool_stats (s_ctx s)) \<and> \<not> heap_corrupt (s_heap s)"

lemma queue_simps [simp]:
  "queue_owned h [] = []" "queue_owned h (it # L) = item_owned h it @ queue_owned h L"
  "queue_owned h (L @ L') = queue_owned h L @ queue_owned h L'"
  "queue_samples [] = []" "queue_samples (it # L) = item_samples it @ queue_samples L"
  "queue_samples (L @ L') = queue_samples L @ queue_samples L'"
  by (simp_all add: queue_owned_def queue_samples_def)

section \<open>Frames\<close>

lemma item_same:
  assumes "item_ok h it" "\<forall>a \<in> set (item_owned h it). blocks h' a = blocks h a" "blocks h' 0 = blocks h 0"
  shows "item_ok h' it" "item_owned h' it = item_owned h it"
proof -
  have "item_ok h' it \<and> item_owned h' it = item_owned h it"
  proof (cases "qi_body it")
    case (Body_telemetry t)
    with assms have "wf_telemetry h t" "\<forall>a \<in> set (owned h t). blocks h' a = blocks h a"
      by (simp_all add: item_ok_def item_owned_def)
    from wf_same(3,5) [OF this assms(3)] Body_telemetry assms(1) show ?thesis
      by (simp add: item_ok_def item_owned_def)
  next
    case (Body_signal_frame f)
    with assms have "blocks h' (qi_signal_sample_owner it) = blocks h (qi_signal_sample_owner it)"
      by (simp add: item_owned_def)
    with Body_signal_frame assms(1) show ?thesis
      by (simp add: item_ok_def item_owned_def is_sample_block_def sample_block_size_def)
  qed (use assms(1) in \<open>simp add: item_ok_def item_owned_def\<close>)
  then show "item_ok h' it" "item_owned h' it = item_owned h it" by blast+
qed

lemma queue_same:
  assumes "\<forall>it \<in> set L. item_ok h it" "\<forall>a \<in> set (queue_owned h L). blocks h' a = blocks h a"
    "blocks h' 0 = blocks h 0"
  shows "(\<forall>it \<in> set L. item_ok h' it) \<and> queue_owned h' L = queue_owned h L"
  using assms
proof (induction L)
  case (Cons it L)
  then have "item_ok h' it" "item_owned h' it = item_owned h it" using item_same [of h it h'] by simp_all
  with Cons show ?case by simp
qed simp

lemma item_samples_owned: "set (item_samples it) \<subseteq> set (item_owned h it)"
  by (auto simp: item_samples_def item_owned_def split: queue_body.splits)

lemma queue_samples_owned: "set (queue_samples L) \<subseteq> set (queue_owned h L)"
  using item_samples_owned by (induction L) fastforce+

lemma item_owned_live:
  assumes "item_ok h it" "a \<in> set (item_owned h it)"
  shows "a \<noteq> 0 \<or> blocks h 0 \<noteq> None" "blocks h a \<noteq> None"
proof -
  show "blocks h a \<noteq> None"
    using assms wf_owned_live(2) is_sample_block_live
    by (auto simp: item_ok_def item_owned_def split: queue_body.splits)
  then show "a \<noteq> 0 \<or> blocks h 0 \<noteq> None" by auto
qed

lemma queue_owned_live:
  assumes "owns L s" "a \<in> set (queue_owned (s_heap s) L)"
  shows "blocks (s_heap s) a \<noteq> None" "a \<noteq> 0"
proof -
  obtain it where "it \<in> set L" "a \<in> set (item_owned (s_heap s) it)"
    using assms(2) by (auto simp: queue_owned_def)
  then show l: "blocks (s_heap s) a \<noteq> None" using assms(1) item_owned_live by (auto simp: owns_def)
  then show "a \<noteq> 0" using assms(1) by (auto simp: owns_def)
qed

lemma pool_inv_same:
  assumes "pool_inv h owners st" "\<forall>p \<in> set owners. blocks h' p = blocks h p"
  shows "pool_inv h' owners st"
  using assms pool_bytes_cong [of owners h' h] by (auto simp: pool_inv_def is_sample_block_def)

text \<open>Changes outside the blocks of the list keep it.\<close>

lemma owns_frame:
  assumes o: "owns L s" and c: "cx_signal_pool_stats (s_ctx s') = cx_signal_pool_stats (s_ctx s)"
    and h: "\<forall>a \<in> set (queue_owned (s_heap s) L). blocks (s_heap s') a = blocks (s_heap s) a"
      "blocks (s_heap s') 0 = None" "\<not> heap_corrupt (s_heap s')"
  shows "owns L s'"
proof -
  have "blocks (s_heap s') 0 = blocks (s_heap s) 0" using o h by (simp add: owns_def)
  from queue_same [OF _ h(1) this] o
  have q: "(\<forall>it \<in> set L. item_ok (s_heap s') it) \<and> queue_owned (s_heap s') L = queue_owned (s_heap s) L"
    by (simp add: owns_def)
  have "pool_inv (s_heap s') (queue_samples L) (cx_signal_pool_stats (s_ctx s))"
    by (rule pool_inv_same [of "s_heap s"]) (use o h queue_samples_owned [of L "s_heap s"] in \<open>auto simp: owns_def\<close>)
  with q o h c show ?thesis by (simp add: owns_def)
qed

lemma quietD:
  assumes "quiet items s s'"
  shows "items (s_world s') = items (s_world s)" "s_heap s' = s_heap s" "cx_queue (s_ctx s') = cx_queue (s_ctx s)"
    "cx_events (s_ctx s') = cx_events (s_ctx s)" "cx_config (s_ctx s') = cx_config (s_ctx s)"
    "cx_sequence (s_ctx s') = cx_sequence (s_ctx s)"
    "cx_signal_pool_stats (s_ctx s') = cx_signal_pool_stats (s_ctx s)"
  using assms by (auto simp: quiet_def)

lemma owns_quiet: "quiet items s s' \<Longrightarrow> owns L s' \<longleftrightarrow> owns L s"
  by (auto simp: owns_def quiet_def)

section \<open>Release\<close>

definition freed :: "addr list \<Rightarrow> (addr \<rightharpoonup> block) \<Rightarrow> (addr \<rightharpoonup> block)" where
  "freed A b = (\<lambda>a. if a \<in> set A then None else b a)"

text \<open>What a release leaves of the state: the world, and the context but for the statistics of the pool.\<close>

definition same_run :: "'w sys \<Rightarrow> 'w sys \<Rightarrow> bool" where
  "same_run s s' \<longleftrightarrow> s_world s' = s_world s \<and> s_test_runtime_hooks s' = s_test_runtime_hooks s \<and>
     (\<exists>st. s_ctx s' = (s_ctx s)\<lparr>cx_signal_pool_stats := st\<rparr>)"

lemma release_owned:
  assumes o: "owns (it # L) s" and r: "run_state (release_queue_item (Some it)) s = (x, s')"
  shows "owns L s' \<and> blocks (s_heap s') = freed (item_owned (s_heap s) it) (blocks (s_heap s)) \<and> same_run s s'"
proof -
  let ?h = "s_heap s" and ?st = "cx_signal_pool_stats (s_ctx s)"
  have ok: "item_ok ?h it" and d: "set (item_owned ?h it) \<inter> set (queue_owned ?h L) = {}"
    and L: "\<forall>it \<in> set L. item_ok ?h it" "distinct (queue_owned ?h L)" "blocks ?h 0 = None"
    and p: "pool_inv ?h (item_samples it @ queue_samples L) ?st" and nc: "\<not> heap_corrupt ?h"
    using o by (auto simp: owns_def)
  have frame: "owns L s'"
    if b: "blocks (s_heap s') = freed (item_owned ?h it) (blocks ?h)" "heap_corrupt (s_heap s') = heap_corrupt ?h"
      and pi: "pool_inv (s_heap s') (queue_samples L) (cx_signal_pool_stats (s_ctx s'))"
  proof -
    have "\<forall>a \<in> set (queue_owned ?h L). blocks (s_heap s') a = blocks ?h a" using b d by (auto simp: freed_def)
    moreover have "blocks (s_heap s') 0 = blocks ?h 0" using b L by (simp add: freed_def)
    ultimately show ?thesis using queue_same [of L ?h "s_heap s'"] L b nc pi by (simp add: owns_def)
  qed
  have self: "same_run s s" unfolding same_run_def by (auto intro!: exI [of _ ?st])
  show ?thesis
  proof (cases "qi_body it")
    case (Body_telemetry t)
    then have it: "it = telemetry_item t" "wf_telemetry ?h t" "item_owned ?h it = owned ?h t" "item_samples it = []"
      using ok by (auto simp: item_ok_def item_owned_def item_samples_def)
    obtain item' st' where rel: "aetus_internal_release_telemetry_queue_item (Some it) ?h (s_test_release_stats s) =
        (Some item', free_owned ?h t, st')"
      using release_item_wf [OF it(2)] it(1) by blast
    have s': "s' = s\<lparr>s_heap := free_owned ?h t, s_test_release_stats := st'\<rparr>"
      using r rel it(1) by (simp add: release_queue_item_def telemetry_item_def)
    have b: "blocks (s_heap s') = freed (item_owned ?h it) (blocks ?h)"
      "heap_corrupt (s_heap s') = heap_corrupt ?h"
      using free_owned_wf [OF it(2)] by (simp_all add: s' it(3) freed_def)
    have "\<forall>q \<in> set (queue_samples L). blocks (s_heap s') q = blocks ?h q"
      using b(1) d queue_samples_owned [of L ?h] by (auto simp: freed_def)
    then have "pool_inv (s_heap s') (queue_samples L) (cx_signal_pool_stats (s_ctx s'))"
      using pool_inv_same [of ?h "queue_samples L" ?st "s_heap s'"] p it(4) by (simp add: s')
    with frame [OF b] b(1) self show ?thesis by (simp add: s' same_run_def)
  next
    case (Body_status st)
    then have it: "it = status_item st" "item_owned ?h it = []" "item_samples it = []"
      using ok by (auto simp: item_ok_def item_owned_def item_samples_def)
    then have "s' = s" using r by (simp add: release_queue_item_def status_item_def run_steps)
    with o it self show ?thesis by (simp add: freed_def owns_def)
  next
    case (Body_signal_frame f)
    let ?p = "qi_signal_sample_owner it"
    have it: "qi_kind it = AETUS_QUEUE_ITEM_SIGNAL_FRAME" "item_owned ?h it = [?p]" "item_samples it = [?p]"
      using ok Body_signal_frame
      by (auto simp: item_ok_def item_owned_def item_samples_def signal_item_def dest: arg_cong [of _ _ qi_kind])
    obtain st1 h1 where rel: "aetus_signal_sample_pool_release (Some ?st) ?p ?h = (st1, h1)"
      by (cases "aetus_signal_sample_pool_release (Some ?st) ?p ?h")
    obtain st2 where st2: "st1 = Some st2" "pool_inv h1 (queue_samples L) st2"
      "h1 = ?h\<lparr>blocks := (blocks ?h)(?p := None)\<rparr>"
      using release_pool_inv [OF p _ rel] it by auto
    have s': "s' = s\<lparr>s_heap := h1, s_ctx := (s_ctx s)\<lparr>cx_signal_pool_stats := st2\<rparr>\<rparr>"
      using r rel it st2 by (simp add: release_queue_item_def)
    have b: "blocks (s_heap s') = freed (item_owned ?h it) (blocks ?h)"
      "heap_corrupt (s_heap s') = heap_corrupt ?h"
      using st2(3) by (auto simp: s' it freed_def)
    with frame [OF b] st2(2) show ?thesis by (auto simp: s' same_run_def)
  qed
qed

section \<open>Counters\<close>

definition pool_notes ::
  "(aetus_signal_sample_pool_stats option \<Rightarrow> aetus_signal_sample_pool_stats option) set" where
  "pool_notes = {aetus_signal_sample_pool_note_queue_send_failure, aetus_signal_sample_pool_note_validation_failure,
     aetus_signal_sample_pool_note_upload_success, aetus_signal_sample_pool_note_final_drop}"

lemmas pool_note_defs = aetus_signal_sample_pool_note_queue_send_failure_def
  aetus_signal_sample_pool_note_validation_failure_def aetus_signal_sample_pool_note_upload_success_def
  aetus_signal_sample_pool_note_final_drop_def

lemma note_owned:
  assumes "owns L s" "note \<in> pool_notes" "run_state (whenm c (note_pool note)) s = (x, s')"
  shows "owns L s' \<and> s_heap s' = s_heap s \<and> same_run s s'"
proof -
  have self: "same_run s s" unfolding same_run_def by (auto intro!: exI [of _ "cx_signal_pool_stats (s_ctx s)"])
  have "s' = (if c then s\<lparr>s_ctx := (s_ctx s)\<lparr>cx_signal_pool_stats :=
      the (note (Some (cx_signal_pool_stats (s_ctx s))))\<rparr>\<rparr> else s)"
    using assms(3) by (auto simp: run_simps note_pool_def split: if_splits)
  then show ?thesis
    using assms(1,2) self by (auto simp: pool_notes_def pool_note_defs owns_def pool_inv_def same_run_def)
qed

end
