(* ===== verification/Drain.thy ===== *)
theory Drain
  imports RuntimeInv
begin

text \<open>
  Draining the queue. \<open>task_queue\<close> is the contract of the FreeRTOS queue the runtime holds: first in, first out,
  at most \<open>depth\<close> items, changed by its own calls only, and any send may be refused. Each item a drain takes meets
  one of four fates, which \<open>item_fate\<close> computes from the results of the calls; the drain goes on after the first two
  and stops after the others. Under the contract a drain ends and releases exactly the items whose fate is
  not to be put back.
\<close>

section \<open>The fate of an item\<close>

text \<open>
  Uploaded with success, not encodable, or its upload failed: then it is back at the front of the queue, or,
  when the queue has no room for it, dropped. The state is the one after the receive.
\<close>

datatype fate = Uploaded | Unencodable | Put_back | Dropped

definition item_fate :: "'w platform \<Rightarrow> 'm md_api \<Rightarrow> aetus_queue_item \<Rightarrow> 'w sys \<Rightarrow> fate" where
  "item_fate P md x s =
     (case run_state (call (esp_timer_get_time P)) s of
        (now, s) \<Rightarrow>
          (case encode_queue_item (s_ctx s) now (s_heap s) x AETUS_ENCODE_BUFFER_BYTES of
             None \<Rightarrow> Unencodable
           | Some payload \<Rightarrow>
               (case run_state (post_payload P md payload) s of
                  (err, s) \<Rightarrow>
                    if err = ESP_OK then Uploaded
                    else if fst (xQueueSendToFront P (cx_queue (s_ctx s)) x 0 (s_world s)) then Put_back
                    else Dropped)))"

definition goes_on :: "fate \<Rightarrow> bool" where
  "goes_on f \<longleftrightarrow> f = Uploaded \<or> f = Unencodable"

text \<open>The fates of the items of a queue, in the order in which a drain takes them, up to the one that stops it.\<close>

definition received :: "'w platform \<Rightarrow> 'w sys \<Rightarrow> 'w sys" where
  "received P s = s\<lparr>s_world := snd (xQueueReceive P (cx_queue (s_ctx s)) 0 (s_world s))\<rparr>"

fun drain_fates :: "'w platform \<Rightarrow> 'm md_api \<Rightarrow> aetus_queue_item list \<Rightarrow> 'w sys \<Rightarrow> fate list" where
  "drain_fates P md [] s = []"
| "drain_fates P md (x # xs) s =
     (let f = item_fate P md x (received P s)
      in f # (if goes_on f then drain_fates P md xs (snd (run_state (drain_round P md) s)) else []))"

definition queue_fates :: "'w platform \<Rightarrow> 'm md_api \<Rightarrow> aetus_queue_item list \<Rightarrow> 'w sys \<Rightarrow> fate list" where
  "queue_fates P md L s =
     (case run_state (wifi_wait_connected P) s of
        (err, s) \<Rightarrow> if err = ESP_OK then drain_fates P md L s else [])"

definition fates_of :: "fate \<Rightarrow> fate list \<Rightarrow> nat" where
  "fates_of f fs = length (filter (\<lambda>g. g = f) fs)"

text \<open>The items a drain is done with.\<close>

definition gone :: "fate list \<Rightarrow> nat" where
  "gone fs = length (filter (\<lambda>f. f \<noteq> Put_back) fs)"

text \<open>Only the last item of a drain can stop it, and a drain that nothing stops takes all items.\<close>

lemma drain_fates_length: "length (drain_fates P md L s) \<le> length L"
proof (induction L arbitrary: s)
  case (Cons x L)
  then show ?case
    by (cases "goes_on (item_fate P md x (received P s))") (simp_all add: Let_def)
qed simp

lemma drain_fates_all:
  "\<forall>f \<in> set (drain_fates P md L s). goes_on f \<Longrightarrow> length (drain_fates P md L s) = length L"
proof (induction L arbitrary: s)
  case (Cons x L)
  then show ?case
    by (cases "goes_on (item_fate P md x (received P s))") (simp_all add: Let_def)
qed simp

lemma drain_fates_last: "\<forall>f \<in> set (butlast (drain_fates P md L s)). goes_on f"
proof (induction L arbitrary: s)
  case (Cons x L)
  then show ?case
    by (cases "goes_on (item_fate P md x (received P s))") (simp_all add: Let_def)
qed simp

lemma queue_fates_shape:
  "length (queue_fates P md L s) \<le> length L" "\<forall>f \<in> set (butlast (queue_fates P md L s)). goes_on f"
  "fst (run_state (wifi_wait_connected P) s) = ESP_OK \<Longrightarrow> \<forall>f \<in> set (queue_fates P md L s). goes_on f \<Longrightarrow>
    length (queue_fates P md L s) = length L"
  by (auto simp: queue_fates_def drain_fates_length drain_fates_all drain_fates_last split: prod.splits if_splits)

lemma gone_all: "\<forall>f \<in> set fs. goes_on f \<Longrightarrow> gone fs = length fs"
  by (induction fs) (auto simp: gone_def goes_on_def)

lemma fate_counts [simp]:
  "gone [] = 0" "gone (f # fs) = (if f = Put_back then gone fs else Suc (gone fs))"
  "fates_of g [] = 0" "fates_of g (f # fs) = (if f = g then Suc (fates_of g fs) else fates_of g fs)"
  by (simp_all add: gone_def fates_of_def)

lemma gone_le: "gone fs \<le> length fs"
  by (simp add: gone_def)

section \<open>What a drain does\<close>

text \<open>
  The uploader holds \<open>x\<close>, taken from the queue. \<open>item_done\<close>: the item is done with, and all its memory is released.
\<close>

definition item_done :: "('w \<Rightarrow> aetus_queue_item list) \<Rightarrow> aetus_queue_item \<Rightarrow> bool \<Rightarrow> 'w sys \<Rightarrow> 'w sys \<Rightarrow> bool" where
  "item_done items x up s s' \<longleftrightarrow>
     items (s_world s') = items (s_world s) \<and> owns (items (s_world s)) s' \<and>
     blocks (s_heap s') = freed (item_owned (s_heap s) x) (blocks (s_heap s)) \<and>
     cx_queue (s_ctx s') = cx_queue (s_ctx s) \<and> cx_events (s_ctx s') = cx_events (s_ctx s) \<and>
     cx_config (s_ctx s') = cx_config (s_ctx s) \<and> same_hooks s s' \<and>
     cx_sequence (s_ctx s') = cx_sequence (s_ctx s) + (if up then 1 else 0)"

text \<open>The item is back at the front, the heap untouched.\<close>

definition item_back :: "('w \<Rightarrow> aetus_queue_item list) \<Rightarrow> aetus_queue_item \<Rightarrow> 'w sys \<Rightarrow> 'w sys \<Rightarrow> bool" where
  "item_back items x s s' \<longleftrightarrow>
     items (s_world s') = x # items (s_world s) \<and> owns (x # items (s_world s)) s' \<and> s_heap s' = s_heap s \<and>
     cx_queue (s_ctx s') = cx_queue (s_ctx s) \<and> cx_events (s_ctx s') = cx_events (s_ctx s) \<and>
     cx_config (s_ctx s') = cx_config (s_ctx s) \<and> cx_sequence (s_ctx s') = cx_sequence (s_ctx s)"

text \<open>What a drain with the fates \<open>fs\<close> does: the first \<open>gone fs\<close> items leave the queue and their memory is freed.\<close>

definition drained :: "('w \<Rightarrow> aetus_queue_item list) \<Rightarrow> fate list \<Rightarrow> 'w sys \<Rightarrow> 'w sys \<Rightarrow> bool" where
  "drained items fs s s' \<longleftrightarrow>
     items (s_world s') = drop (gone fs) (items (s_world s)) \<and> owns (items (s_world s')) s' \<and>
     blocks (s_heap s') = freed (queue_owned (s_heap s) (take (gone fs) (items (s_world s)))) (blocks (s_heap s)) \<and>
     cx_queue (s_ctx s') = cx_queue (s_ctx s) \<and> cx_events (s_ctx s') = cx_events (s_ctx s) \<and>
     cx_config (s_ctx s') = cx_config (s_ctx s) \<and>
     cx_sequence (s_ctx s') = cx_sequence (s_ctx s) + of_nat (fates_of Uploaded fs)"

lemma freed_append: "freed (A @ B) b = freed B (freed A b)"
  by (auto simp: freed_def fun_eq_iff)

lemma quiet_world: "items w = items (s_world s) \<Longrightarrow> quiet items s (s\<lparr>s_world := w\<rparr>)"
  by (auto simp: quiet_def same_hooks_refl intro!: exI [of _ "cx_wifi_started (s_ctx s)"])

section \<open>The queue contract\<close>

locale task_queue = quiet_platform P items
  for P :: "'w platform" and items :: "'w \<Rightarrow> aetus_queue_item list" +
  fixes q :: addr and depth :: nat
  assumes receive_empty: "items w = [] \<Longrightarrow> xQueueReceive P q 0 w = (r, w') \<Longrightarrow> r = None \<and> items w' = []"
    and receive: "items w = x # xs \<Longrightarrow> xQueueReceive P q 0 w = (r, w') \<Longrightarrow> r = Some x \<and> items w' = xs"
    and send: "xQueueSend P q x t w = (ok, w') \<Longrightarrow>
      items w' = items w @ (if ok then [x] else []) \<and> (ok \<longrightarrow> length (items w) < depth)"
    and send_isr: "xQueueSendFromISR P q x w = (ok, w') \<Longrightarrow>
      items w' = items w @ (if ok then [x] else []) \<and> (ok \<longrightarrow> length (items w) < depth)"
    and send_front: "xQueueSendToFront P q x 0 w = (ok, w') \<Longrightarrow>
      items w' = (if ok then [x] else []) @ items w \<and> (ok \<longrightarrow> length (items w) < depth)"
begin

section \<open>One item\<close>

lemma release_done:
  assumes o: "owns (x # L) s0" "L = items (s_world s)" and q0: "quiet items s s0"
    and n: "note \<in> pool_notes"
    and r: "run_state (whenm c (note_pool note)) s1 = (u, s2)" "run_state (release_queue_item (Some x)) s2 = (v, s3)"
    and s1: "s1 = (if up then s0\<lparr>s_ctx := (s_ctx s0)\<lparr>cx_sequence := cx_sequence (s_ctx s0) + 1\<rparr>\<rparr> else s0)"
  shows "item_done items x up s s3 \<and> s_world s3 = s_world s0"
proof -
  have o1: "owns (x # L) s1" using o(1) by (simp add: s1 owns_def)
  have n1: "owns (x # L) s2 \<and> s_heap s2 = s_heap s1 \<and> same_run s1 s2" by (rule note_owned [OF o1 n r(1)])
  have n2: "owns L s3 \<and> blocks (s_heap s3) = freed (item_owned (s_heap s2) x) (blocks (s_heap s2)) \<and> same_run s2 s3"
    by (rule release_owned [OF conjunct1 [OF n1] r(2)])
  have "same_hooks s0 s3" using n1 n2 by (intro same_hooks_refl) (auto simp: same_run_def s1)
  then have "same_hooks s s3" using q0 by (auto simp: quiet_def intro: same_hooks_trans)
  then show ?thesis using n1 n2 o(2) q0 by (auto simp: item_done_def same_run_def quiet_def s1)
qed

text \<open>The three ways in which the uploader is done with an item, each a note in the statistics and the release.\<close>

lemma drain_item_uploaded:
  assumes o: "owns (x # items (s_world s)) s" and a: "run_state (call (esp_timer_get_time P)) s = (now, sa)"
    and enc: "encode_queue_item (s_ctx sa) now (s_heap sa) x AETUS_ENCODE_BUFFER_BYTES = Some payload"
    and b: "run_state (post_payload P md payload) sa = (ESP_OK, sb)"
  shows "\<exists>s'. run_state (drain_item P md x) s = (Drain_continue True, s') \<and> item_done items x True s s' \<and>
    s_world s' = s_world sb"
proof -
  let ?n = aetus_signal_sample_pool_note_upload_success
  let ?sc = "sb\<lparr>s_ctx := (s_ctx sb)\<lparr>cx_sequence := cx_sequence (s_ctx sb) + 1\<rparr>\<rparr>"
  have qb: "quiet items s sb" using quiet_trans [OF stepsD [OF quiet_calls_steps(1) a] stepsD [OF quiet_post b]] .
  have ob: "owns (x # items (s_world s)) sb" using o owns_quiet [OF qb] by simp
  obtain u s2 where n: "run_state (whenm (is_signal_item x) (note_pool ?n)) ?sc = (u, s2)"
    by (cases "run_state (whenm (is_signal_item x) (note_pool ?n)) ?sc")
  obtain v s3 where v: "run_state (release_queue_item (Some x)) s2 = (v, s3)"
    by (cases "run_state (release_queue_item (Some x)) s2")
  have "run_state (drain_item P md x) s = (Drain_continue True, s3)"
    using enc by (simp add: drain_item_def run_bind run_steps(1,3-) a b n v)
  moreover have "item_done items x True s s3 \<and> s_world s3 = s_world sb"
    by (rule release_done [OF ob refl qb _ n v]) (simp_all add: pool_notes_def)
  ultimately show ?thesis by blast
qed

lemma drain_item_unencodable:
  assumes o: "owns (x # items (s_world s)) s" and a: "run_state (call (esp_timer_get_time P)) s = (now, sa)"
    and enc: "encode_queue_item (s_ctx sa) now (s_heap sa) x AETUS_ENCODE_BUFFER_BYTES = None"
  shows "\<exists>s'. run_state (drain_item P md x) s = (Drain_continue False, s') \<and> item_done items x False s s' \<and>
    s_world s' = s_world sa"
proof -
  let ?n = aetus_signal_sample_pool_note_validation_failure
  have qa: "quiet items s sa" using stepsD [OF quiet_calls_steps(1) a] .
  have oa: "owns (x # items (s_world s)) sa" using o owns_quiet [OF qa] by simp
  obtain u s2 where n: "run_state (whenm (is_signal_item x) (note_pool ?n)) sa = (u, s2)"
    by (cases "run_state (whenm (is_signal_item x) (note_pool ?n)) sa")
  obtain v s3 where v: "run_state (release_queue_item (Some x)) s2 = (v, s3)"
    by (cases "run_state (release_queue_item (Some x)) s2")
  have "run_state (drain_item P md x) s = (Drain_continue False, s3)"
    using enc by (simp add: drain_item_def run_bind run_steps(1,3-) a n v)
  moreover have "item_done items x False s s3 \<and> s_world s3 = s_world sa"
    by (rule release_done [OF oa refl qa _ n v]) (simp_all add: pool_notes_def)
  ultimately show ?thesis by blast
qed

lemma drain_item_dropped:
  assumes o: "owns (x # items (s_world s)) s" and a: "run_state (call (esp_timer_get_time P)) s = (now, sa)"
    and enc: "encode_queue_item (s_ctx sa) now (s_heap sa) x AETUS_ENCODE_BUFFER_BYTES = Some payload"
    and b: "run_state (post_payload P md payload) sa = (err, sb)" "err \<noteq> ESP_OK"
    and f: "run_state (call (xQueueSendToFront P (cx_queue (s_ctx sb)) x 0)) sb = (False, sc)" "quiet items sb sc"
  shows "\<exists>s'. run_state (drain_item P md x) s = (Drain_stop, s') \<and> item_done items x False s s'"
proof -
  let ?n = aetus_signal_sample_pool_note_final_drop
  have qc: "quiet items s sc"
    using quiet_trans [OF quiet_trans [OF stepsD [OF quiet_calls_steps(1) a] stepsD [OF quiet_post b(1)]] f(2)] .
  have oc: "owns (x # items (s_world s)) sc" using o owns_quiet [OF qc] by simp
  obtain u s2 where n: "run_state (whenm (is_signal_item x) (note_pool ?n)) sc = (u, s2)"
    by (cases "run_state (whenm (is_signal_item x) (note_pool ?n)) sc")
  obtain v s3 where v: "run_state (release_queue_item (Some x)) s2 = (v, s3)"
    by (cases "run_state (release_queue_item (Some x)) s2")
  have "run_state (drain_item P md x) s = (Drain_stop, s3)"
    using enc b(2) by (simp add: drain_item_def run_bind run_steps(1,3-) a b f n v)
  moreover have "item_done items x False s s3 \<and> s_world s3 = s_world sc"
    by (rule release_done [OF oc refl qc _ n v]) (simp_all add: pool_notes_def)
  ultimately show ?thesis by blast
qed

lemma drain_item_result:
  assumes o: "owns (x # items (s_world s)) s" and q: "cx_queue (s_ctx s) = q"
    and r: "run_state (drain_item P md x) s = (res, s')"
  shows "case item_fate P md x s of
      Uploaded \<Rightarrow> res = Drain_continue True \<and> item_done items x True s s'
    | Unencodable \<Rightarrow> res = Drain_continue False \<and> item_done items x False s s'
    | Put_back \<Rightarrow> res = Drain_stop \<and> item_back items x s s' \<and> length (items (s_world s)) < depth
    | Dropped \<Rightarrow> res = Drain_stop \<and> item_done items x False s s'"
proof -
  obtain now sa where a: "run_state (call (esp_timer_get_time P)) s = (now, sa)"
    by (cases "run_state (call (esp_timer_get_time P)) s")
  show ?thesis
  proof (cases "encode_queue_item (s_ctx sa) now (s_heap sa) x AETUS_ENCODE_BUFFER_BYTES")
    case None
    with drain_item_unencodable [OF o a None, of md] r show ?thesis by (simp add: item_fate_def a)
  next
    case (Some payload)
    obtain err sb where b: "run_state (post_payload P md payload) sa = (err, sb)"
      by (cases "run_state (post_payload P md payload) sa")
    have qb: "quiet items s sb" using quiet_trans [OF stepsD [OF quiet_calls_steps(1) a] stepsD [OF quiet_post b]] .
    then have cq: "cx_queue (s_ctx sb) = q" "items (s_world sb) = items (s_world s)" using q by (auto simp: quiet_def)
    have ob: "owns (x # items (s_world s)) sb" using o owns_quiet [OF qb] by simp
    obtain ok w where sf: "xQueueSendToFront P q x 0 (s_world sb) = (ok, w)"
      by (cases "xQueueSendToFront P q x 0 (s_world sb)")
    have c: "run_state (call (xQueueSendToFront P (cx_queue (s_ctx sb)) x 0)) sb = (ok, sb\<lparr>s_world := w\<rparr>)"
      by (simp add: run_steps(2) sf cq)
    note sends = send_front [OF sf]
    consider (posted) "err = ESP_OK" | (kept) "err \<noteq> ESP_OK" "ok" | (lost) "err \<noteq> ESP_OK" "\<not> ok" by blast
    then show ?thesis
    proof cases
      case posted
      with drain_item_uploaded [OF o a Some b [unfolded posted]] r show ?thesis by (simp add: item_fate_def a Some b)
    next
      case kept
      have "res = Drain_stop" "s' = sb\<lparr>s_world := w\<rparr>"
        using r Some kept c by (simp_all add: drain_item_def run_bind run_steps(1,3-) a b)
      then show ?thesis
        using kept sends ob qb cq
        by (auto simp: item_fate_def a Some b sf item_back_def owns_def quiet_def)
    next
      case lost
      have "quiet items sb (sb\<lparr>s_world := w\<rparr>)" using sends lost(2) cq by (simp add: quiet_world)
      with drain_item_dropped [OF o a Some b lost(1), of "sb\<lparr>s_world := w\<rparr>"] c lost r show ?thesis
        by (auto simp: item_fate_def a Some b sf cq)
    qed
  qed
qed

section \<open>The loop\<close>

lemma drained_quiet: "quiet items s s' \<Longrightarrow> drained items fs s' s'' \<Longrightarrow> drained items fs s s''"
  unfolding drained_def by (elim conjE) (simp add: quietD)

lemma drained_none: "quiet items s s' \<Longrightarrow> owns (items (s_world s)) s \<Longrightarrow> drained items [] s s'"
  unfolding drained_def using quietD [of items s s'] owns_quiet [of items s s'] by (auto simp: freed_def)

lemma drained_step:
  assumes o: "owns (x # items (s_world s)) s" and d: "item_done items x (f = Uploaded) s s1"
    and n: "drained items fs s1 s2" and f: "f \<noteq> Put_back"
    and i: "items (s_world s0) = x # items (s_world s)" "s_heap s0 = s_heap s" "s_ctx s0 = s_ctx s"
  shows "drained items (f # fs) s0 s2"
proof -
  let ?L = "items (s_world s)"
  have ok: "\<forall>it \<in> set ?L. item_ok (s_heap s) it" "set (item_owned (s_heap s) x) \<inter> set (queue_owned (s_heap s) ?L) = {}"
    "blocks (s_heap s) 0 = None"
    using o by (auto simp: owns_def)
  have h1: "blocks (s_heap s1) = freed (item_owned (s_heap s) x) (blocks (s_heap s))"
    using d by (simp add: item_done_def)
  have sub: "set (queue_owned (s_heap s) (take (gone fs) ?L)) \<subseteq> set (queue_owned (s_heap s) ?L)"
    by (auto simp: queue_owned_def dest: in_set_takeD)
  have "queue_owned (s_heap s1) (take (gone fs) ?L) = queue_owned (s_heap s) (take (gone fs) ?L)"
    by (rule queue_same [THEN conjunct2])
      (use ok h1 sub in \<open>auto simp: freed_def dest: in_set_takeD\<close>)
  then show ?thesis
    using d n i h1 f by (auto simp: drained_def item_done_def freed_append)
qed

text \<open>One round: the queue is empty, or its head meets its fate.\<close>

lemma drain_round_cases:
  assumes o: "owns (items (s_world s)) s" and q: "cx_queue (s_ctx s) = q"
    and r: "run_state (drain_round P md) s = (res, s')"
  obtains (no_item) "items (s_world s) = []" "res = Drain_stop" "drained items [] s s'"
  | (handled) x f where "items (s_world s) = x # items (s_world (received P s))" "f = item_fate P md x (received P s)"
      "f \<noteq> Put_back" "res = (if goes_on f then Drain_continue (f = Uploaded) else Drain_stop)"
      "owns (x # items (s_world (received P s))) (received P s)" "item_done items x (f = Uploaded) (received P s) s'"
  | (put_back) x where "items (s_world s) = x # items (s_world (received P s))"
      "item_fate P md x (received P s) = Put_back" "res = Drain_stop" "drained items [Put_back] s s'"
proof -
  obtain y w where rc: "xQueueReceive P q 0 (s_world s) = (y, w)"
    by (cases "xQueueReceive P q 0 (s_world s)")
  have rs: "received P s = s\<lparr>s_world := w\<rparr>" by (simp add: received_def rc q)
  show thesis
  proof (cases "items (s_world s)")
    case Nil
    have "y = None" "items w = []" using receive_empty [OF Nil rc] by simp_all
    then have "res = Drain_stop" "s' = s\<lparr>s_world := w\<rparr>"
      using r q rc by (simp_all add: drain_round_def run_bind run_steps)
    then show thesis
      using no_item o Nil \<open>items w = []\<close> by (auto simp: drained_def freed_def owns_def)
  next
    case (Cons x L)
    have rx: "y = Some x" "items w = L" using receive [OF Cons rc] by simp_all
    have it: "run_state (drain_item P md x) (received P s) = (res, s')"
      using r q rc rx by (simp add: drain_round_def run_bind run_steps rs)
    have ox: "owns (x # items (s_world (received P s))) (received P s)" using o Cons rx by (simp add: rs owns_def)
    have ix: "items (s_world s) = x # items (s_world (received P s))" using Cons rx by (simp add: rs)
    have res: "case item_fate P md x (received P s) of
        Uploaded \<Rightarrow> res = Drain_continue True \<and> item_done items x True (received P s) s'
      | Unencodable \<Rightarrow> res = Drain_continue False \<and> item_done items x False (received P s) s'
      | Put_back \<Rightarrow> res = Drain_stop \<and> item_back items x (received P s) s' \<and>
          length (items (s_world (received P s))) < depth
      | Dropped \<Rightarrow> res = Drain_stop \<and> item_done items x False (received P s) s'"
      by (rule drain_item_result [OF ox _ it]) (simp add: rs q)
    show thesis
    proof (cases "item_fate P md x (received P s) = Put_back")
      case True
      then have "drained items [Put_back] s s'"
        using res ix q by (auto simp: drained_def item_back_def freed_def rs)
      with put_back [OF ix True] res True show thesis by simp
    next
      case False
      then show thesis
        using handled [OF ix refl False _ ox] res by (cases "item_fate P md x (received P s)") (simp_all add: goes_on_def)
    qed
  qed
qed

lemma drain_loop_drains:
  assumes "owns (items (s_world s)) s" "cx_queue (s_ctx s) = q"
  shows "\<exists>up' s'. drain_loop P md up s = Some (up', s') \<and> drained items (drain_fates P md (items (s_world s)) s) s s'"
  using assms
proof (induction "length (items (s_world s))" arbitrary: s up rule: less_induct)
  case less
  obtain res s1 where rd: "run_state (drain_round P md) s = (res, s1)"
    by (cases "run_state (drain_round P md) s")
  show ?case
  proof (cases rule: drain_round_cases [OF less.prems rd])
    case 1
    then have "drain_loop P md up s = Some (up, s1)" by (subst drain_loop.simps) (simp add: rd)
    with 1 show ?thesis by simp
  next
    case (2 x f)
    note handled = 2
    let ?sr = "received P s"
    have i1: "items (s_world s1) = items (s_world ?sr)" "owns (items (s_world s1)) s1" "cx_queue (s_ctx s1) = q"
      using handled(6) less.prems by (simp_all add: item_done_def received_def)
    have i0: "s_heap s = s_heap ?sr" "s_ctx s = s_ctx ?sr" by (simp_all add: received_def)
    show ?thesis
    proof (cases "goes_on f")
      case True
      let ?up = "if f = Uploaded then up + 1 else up"
      obtain up' s' where ih: "drain_loop P md ?up s1 = Some (up', s')"
          "drained items (drain_fates P md (items (s_world s1)) s1) s1 s'"
        using less.hyps [of s1 ?up] i1 handled(1) by auto
      have "drain_loop P md up s = Some (up', s')" using True by (subst drain_loop.simps) (simp add: rd handled(4) ih(1))
      moreover have "drained items (f # drain_fates P md (items (s_world s1)) s1) s s'"
        by (rule drained_step [OF handled(5,6) ih(2) handled(3,1) i0])
      ultimately show ?thesis using handled(1,2) True i1(1) by (simp add: rd Let_def)
    next
      case False
      have "drain_loop P md up s = Some (up, s1)" using False by (subst drain_loop.simps) (simp add: rd handled(4))
      moreover have "drained items [f] s s1"
        by (rule drained_step [OF handled(5,6) drained_none [OF quiet_refl i1(2)] handled(3,1) i0])
      ultimately show ?thesis using handled(1,2) False by (simp add: Let_def)
    qed
  next
    case (3 x)
    then have "drain_loop P md up s = Some (up, s1)" by (subst drain_loop.simps) (simp add: rd)
    with 3 show ?thesis by (simp add: Let_def goes_on_def)
  qed
qed

lemma set_done_quiet: "quiet items s (set_done P s)"
proof -
  obtain x s' where "run_state (call (xEventGroupSetBits P (cx_events (s_ctx s)) AETUS_UPLOAD_DONE_BIT)) s = (x, s')"
    by (cases "run_state (call (xEventGroupSetBits P (cx_events (s_ctx s)) AETUS_UPLOAD_DONE_BIT)) s")
  moreover have "quiet items s s'" using stepsD [OF quiet_calls_steps(4) calculation] .
  ultimately show ?thesis by (auto simp: set_done_def run_steps split: prod.splits)
qed

lemma drained_quiet_after: "drained items fs s s' \<Longrightarrow> quiet items s' s'' \<Longrightarrow> drained items fs s s''"
  unfolding drained_def by (elim conjE) (simp add: quietD owns_quiet)

lemma drain_queue_drains:
  assumes o: "owns (items (s_world s)) s" and q: "cx_queue (s_ctx s) = q"
  shows "\<exists>s'. drain_queue P md s = Some (set_done P s') \<and>
    drained items (queue_fates P md (items (s_world s)) s) s (set_done P s')"
proof -
  obtain err sa where a: "run_state (wifi_wait_connected P) s = (err, sa)"
    by (cases "run_state (wifi_wait_connected P) s")
  have qa: "quiet items s sa" using stepsD [OF quiet_wait a [unfolded wifi_wait_connected_def]] .
  show ?thesis
  proof (cases "err = ESP_OK")
    case False
    then have "drain_queue P md s = Some (set_done P sa)" by (simp add: drain_queue_def a)
    moreover have "drained items [] s (set_done P sa)" using drained_none [OF quiet_trans [OF qa set_done_quiet] o] .
    ultimately show ?thesis using False by (intro exI [of _ sa]) (simp add: queue_fates_def a)
  next
    case True
    have "owns (items (s_world sa)) sa" "cx_queue (s_ctx sa) = q"
      using o q owns_quiet [OF qa] quietD [OF qa] by simp_all
    from drain_loop_drains [OF this] obtain up' s' where
      l: "drain_loop P md 0 sa = Some (up', s')" "drained items (drain_fates P md (items (s_world sa)) sa) sa s'" by blast
    then have "drain_queue P md s = Some (set_done P s')" by (simp add: drain_queue_def a True)
    moreover have "drained items (queue_fates P md (items (s_world s)) s) s (set_done P s')"
      using drained_quiet_after [OF drained_quiet [OF qa l(2)] set_done_quiet] quietD(1) [OF qa]
      by (simp add: queue_fates_def a True)
    ultimately show ?thesis by blast
  qed
qed

end

end
