(* ===== verification/Enqueue.thy ===== *)
theory Enqueue
  imports Drain "HOL-Library.Multiset"
begin

text \<open>
  The enqueue functions under the queue contract: what each puts into the queue, which memory the new item owns, and
  what an error leaves behind.
\<close>

section \<open>Adding an item\<close>

lemma owns_add:
  assumes o: "owns L s" and keep: "\<And>a. blocks (s_heap s) a \<noteq> None \<Longrightarrow> blocks (s_heap s') a = blocks (s_heap s) a"
    and it: "item_ok (s_heap s') it" "distinct (item_owned (s_heap s') it)"
      "\<And>a. a \<in> set (item_owned (s_heap s') it) \<Longrightarrow> blocks (s_heap s) a = None"
    and h: "blocks (s_heap s') 0 = None" "\<not> heap_corrupt (s_heap s')"
    and p: "pool_inv (s_heap s') (queue_samples (L @ [it])) (cx_signal_pool_stats (s_ctx s'))"
  shows "owns (L @ [it]) s'"
proof -
  have same: "\<forall>a \<in> set (queue_owned (s_heap s) L). blocks (s_heap s') a = blocks (s_heap s) a"
    using keep queue_owned_live(1) [OF o] by blast
  have q: "(\<forall>it \<in> set L. item_ok (s_heap s') it) \<and> queue_owned (s_heap s') L = queue_owned (s_heap s) L"
    by (rule queue_same [OF _ same]) (use o h in \<open>simp_all add: owns_def\<close>)
  have "set (item_owned (s_heap s') it) \<inter> set (queue_owned (s_heap s) L) = {}"
    using it(3) queue_owned_live(1) [OF o] by blast
  then show ?thesis using q it h p o by (auto simp: owns_def)
qed

lemma pool_inv_perm:
  assumes "pool_inv h owners st" "mset owners' = mset owners"
  shows "pool_inv h owners' st"
proof -
  have b: "pool_bytes h owners' = pool_bytes h owners"
    unfolding pool_bytes_def sum_mset_sum_list [symmetric] mset_map assms(2) ..
  have "set owners' = set owners" "length owners' = length owners" "distinct owners' = distinct owners"
    using assms(2) by (metis set_mset_mset, metis size_mset, metis mset_eq_imp_distinct_iff)
  with b assms(1) show ?thesis by (simp add: pool_inv_def)
qed

text \<open>The queue stays within its depth.\<close>

definition within :: "('w \<Rightarrow> aetus_queue_item list) \<Rightarrow> nat \<Rightarrow> 'w sys \<Rightarrow> 'w sys \<Rightarrow> bool" where
  "within items depth s s' \<longleftrightarrow> (length (items (s_world s)) \<le> depth \<longrightarrow> length (items (s_world s')) \<le> depth)"

text \<open>A failed copy changes no block but those of the caller's object.\<close>

lemma copy_failure_frame:
  assumes w: "wf_telemetry h t" and c: "copied h t j it h2" and nz: "blocks h 0 = None"
    and r: "aetus_internal_release_telemetry_queue_item (Some (telemetry_item it)) h2 st = (item, h', st')"
  shows "a \<notin> set (owned h t) \<Longrightarrow> blocks h' a = blocks h a" "heap_corrupt h' = heap_corrupt h" "blocks h' 0 = None"
proof -
  let ?ij = "it\<lparr>t_metric_count := of_nat j\<rparr>"
  have wf: "wf_telemetry h2 it" by (rule copied_wf(1) [OF w c])
  have ow: "owned h2 it = owned h2 ?ij @ concat (map blob_addrs (drop j (metrics_of h t)))"
    by (rule copied_wf(2) [OF w c])
  have b: "built h h2 ?ij" using c by (simp add: copied_def)
  have h': "h' = free_owned h2 it" using release_item_wf [OF wf, of st] r by auto
  have caller: "set (concat (map blob_addrs (drop j (metrics_of h t)))) \<subseteq> set (owned h t)"
    by (auto simp: owned_def dest: in_set_dropD)
  show "heap_corrupt h' = heap_corrupt h"
    using b by (simp add: h' free_owned_wf(2) [OF wf] built_def)
  show ab: "blocks h' a = blocks h a" if "a \<notin> set (owned h t)" for a
  proof (cases "a \<in> set (owned h2 ?ij)")
    case True
    then show ?thesis using b ow by (simp add: h' free_owned_wf(1) [OF wf] built_def)
  next
    case False
    then have "a \<notin> set (owned h2 it)" using ow caller that by auto
    then show ?thesis using b False by (simp add: h' free_owned_wf(1) [OF wf] built_def)
  qed
  have "0 \<notin> set (owned h t)" using wf_owned_live(2) [OF w, of 0] nz by blast
  then show "blocks h' 0 = None" using ab nz by simp
qed

section \<open>Telemetry\<close>

text \<open>
  The outcome of \<open>aetus_enqueue_telemetry\<close>: a new item at the end with the same contents in fresh blocks, or an
  unchanged queue; a timeout changes no memory, and a failed allocation none but the caller's own.
\<close>

definition enqueued_telemetry ::
  "('w \<Rightarrow> aetus_queue_item list) \<Rightarrow> aetus_telemetry \<Rightarrow> esp_err \<Rightarrow> 'w sys \<Rightarrow> 'w sys \<Rightarrow> bool" where
  "enqueued_telemetry items t err s s' =
     (if err = ESP_OK
      then (\<exists>t'. items (s_world s') = items (s_world s) @ [telemetry_item t'] \<and>
              contents (s_heap s') t' = contents (s_heap s) t \<and> built (s_heap s) (s_heap s') t')
      else items (s_world s') = items (s_world s) \<and>
        (if err = ESP_ERR_TIMEOUT then s_heap s' = s_heap s
         else err = ESP_ERR_NO_MEM \<and>
           (\<forall>a. a \<notin> set (owned (s_heap s) t) \<longrightarrow> blocks (s_heap s') a = blocks (s_heap s) a)))"

lemma telemetry_item_owns:
  assumes o: "owns L s" and w: "wf_telemetry (s_heap s) t" and b: "built (s_heap s) (s_heap s') t'"
    and c: "cx_signal_pool_stats (s_ctx s') = cx_signal_pool_stats (s_ctx s)"
  shows "owns (L @ [telemetry_item t']) s'"
proof (rule owns_add [OF o])
  note live = built_other(3) [OF w b]
  have wf: "wf_telemetry (s_heap s') t'" using b by (simp add: built_def)
  show "blocks (s_heap s') a = blocks (s_heap s) a" if "blocks (s_heap s) a \<noteq> None" for a
    using live that by simp
  show "item_ok (s_heap s') (telemetry_item t')" using wf by (simp add: item_ok_def telemetry_item_def)
  show "distinct (item_owned (s_heap s') (telemetry_item t'))"
    using wf by (simp add: item_owned_def telemetry_item_def wf_telemetry_def)
  show "blocks (s_heap s) a = None" if "a \<in> set (item_owned (s_heap s') (telemetry_item t'))" for a
    using b that by (simp add: item_owned_def telemetry_item_def built_def)
  show "blocks (s_heap s') 0 = None" using built_other(2) [OF w b] o by (simp add: owns_def)
  show "\<not> heap_corrupt (s_heap s')" using b o by (simp add: built_def owns_def)
  have "pool_inv (s_heap s') (queue_samples L) (cx_signal_pool_stats (s_ctx s))"
    by (rule pool_inv_same [of "s_heap s"])
      (use o live queue_owned_live(1) [OF o] queue_samples_owned [of L "s_heap s"] in \<open>auto simp: owns_def\<close>)
  then show "pool_inv (s_heap s') (queue_samples (L @ [telemetry_item t'])) (cx_signal_pool_stats (s_ctx s'))"
    by (simp add: c item_samples_def telemetry_item_def)
qed

context task_queue
begin

lemma enqueue_telemetry_owned:
  assumes M: "malloc_ok (pf_malloc P)" and o: "owns (items (s_world s)) s" and q: "cx_queue (s_ctx s) = q" "q \<noteq> 0"
    and w: "wf_telemetry (s_heap s) t" and d: "set (owned (s_heap s) t) \<inter> set (queue_owned (s_heap s) (items (s_world s))) = {}"
    and r: "run_state (aetus_enqueue_telemetry P (Some t) timeout) s = (err, s')"
  shows "enqueued_telemetry items t err s s' \<and> owns (items (s_world s')) s' \<and> s_ctx s' = s_ctx s \<and>
    within items depth s s'"
proof -
  let ?h = "s_heap s" and ?L = "items (s_world s)"
  let ?copy = "aetus_internal_copy_telemetry_to_queue_item (pf_malloc P) (Some t) (Some stack_item) ?h
    (s_test_release_stats s)"
  obtain e item h1 st1 where c: "?copy = (e, item, h1, st1)" by (cases ?copy)
  let ?s1 = "s\<lparr>s_heap := h1, s_test_release_stats := st1\<rparr>"
  note enq = aetus_enqueue_telemetry_def run_bind run_steps run_return_on
  show ?thesis
  proof (cases rule: copy_cases [OF M w c])
    case 1
    then have "err = ESP_ERR_NO_MEM" "s' = ?s1" using r q c by (simp_all add: enq)
    with 1 o show ?thesis by (simp add: owns_def enqueued_telemetry_def within_def)
  next
    case (2 it h2 j)
    then have s': "err = ESP_ERR_NO_MEM" "s' = ?s1" using r q c by (simp_all add: enq)
    have nz: "blocks ?h 0 = None" "\<not> heap_corrupt ?h" using o by (simp_all add: owns_def)
    note f = copy_failure_frame [OF w 2(2) nz(1) 2(5)]
    have "owns ?L s'" by (rule owns_frame [OF o]) (use f d nz in \<open>auto simp: s'\<close>)
    with f s' show ?thesis by (simp add: enqueued_telemetry_def within_def)
  next
    case (3 it)
    obtain ok w1 where sd: "xQueueSend P q (telemetry_item it) timeout (s_world s) = (ok, w1)"
      by (cases "xQueueSend P q (telemetry_item it) timeout (s_world s)")
    have it: "items w1 = ?L @ (if ok then [telemetry_item it] else [])" using send [OF sd] by simp
    show ?thesis
    proof (cases ok)
      case True
      then have s': "err = ESP_OK" "s' = ?s1\<lparr>s_world := w1\<rparr>" using r q c 3 sd by (simp_all add: enq)
      have "owns (?L @ [telemetry_item it]) s'" by (rule telemetry_item_owns [OF o w]) (use 3 s' in simp_all)
      with True it s' 3 send [OF sd] show ?thesis by (auto simp: enqueued_telemetry_def within_def)
    next
      case False
      have "wf_telemetry h1 it" using 3 by (simp add: built_def)
      then obtain item' st2 where "aetus_internal_release_telemetry_queue_item (Some (telemetry_item it)) h1 st1 =
          (Some item', free_owned h1 it, st2)"
        using release_item_wf by blast
      then have s': "err = ESP_ERR_TIMEOUT" "s_heap s' = ?h" "s_world s' = w1" "s_ctx s' = s_ctx s"
        using r q c 3 sd False built_free_owned [OF 3(4)]
        by (auto simp: enq release_queue_item_def telemetry_item_def)
      with False it o show ?thesis by (simp add: owns_def enqueued_telemetry_def within_def)
    qed
  qed
qed

end

section \<open>Signal frames\<close>

lemma queue_samples_length: "length (queue_samples L) \<le> length L"
  by (induction L) (auto simp: item_samples_def split: queue_body.split)

lemma pool_bytes_bound:
  assumes "pool_inv h owners st"
  shows "pool_bytes h owners \<le> 2400 * length owners"
proof -
  have "unat (sample_block_size h p) \<le> 2400" if "is_sample_block h p" for p
    using that by (auto simp: is_sample_block_def sample_block_size_def c_defs split: option.splits block.splits)
  then have "\<forall>p \<in> set owners. unat (sample_block_size h p) \<le> 2400" using assms by (simp add: pool_inv_def)
  then show ?thesis unfolding pool_bytes_def by (induction owners) auto
qed

text \<open>Writing the samples into the fresh block keeps its size, so the pool's accounting does not see it.\<close>

lemma fill_samples_block:
  assumes "blocks h p = Some (Sample_block n old)" "length old = unat n" "length bs \<le> unat n"
  shows "fill_samples (Samples_block p) bs h =
    h\<lparr>blocks := (blocks h)(p \<mapsto> Sample_block n (bs @ drop (length bs) old))\<rparr>"
  using assms by (simp add: fill_samples_def)

lemma pool_inv_refill:
  assumes i: "pool_inv h owners st" and p: "blocks h p = Some (Sample_block n old)" "length old = unat n"
    and new: "length new = unat n"
  shows "pool_inv (h\<lparr>blocks := (blocks h)(p \<mapsto> Sample_block n new)\<rparr>) owners st"
proof -
  let ?h = "h\<lparr>blocks := (blocks h)(p \<mapsto> Sample_block n new)\<rparr>"
  have sz: "sample_block_size ?h a = sample_block_size h a" for a using p by (simp add: sample_block_size_def)
  have bl: "is_sample_block ?h a = is_sample_block h a" for a using p new by (simp add: is_sample_block_def)
  have "pool_bytes ?h owners = pool_bytes h owners" by (simp add: pool_bytes_def sz)
  then show ?thesis using i unfolding pool_inv_def by (simp add: bl)
qed

text \<open>A signal item whose block is fresh joins the queue, at its end or in the hand of its sender.\<close>

lemma signal_item_owns:
  assumes o: "owns L s" and p: "p \<noteq> 0" "blocks (s_heap s) p = None"
    and h: "blocks (s_heap s2) = (blocks (s_heap s))(p \<mapsto> Sample_block (fr_samples_size f) bs)"
      "heap_corrupt (s_heap s2) = heap_corrupt (s_heap s)" "length bs = unat (fr_samples_size f)"
    and i: "pool_inv (s_heap s2) (p # queue_samples L) (cx_signal_pool_stats (s_ctx s2))"
    and item: "item = signal_item f p (Samples_block p)"
  shows "owns (L @ [item]) s2" "owns (item # L) s2"
proof -
  have sm: "item_samples item = [p]" "item_owned h item = [p]" for h
    by (simp_all add: item item_samples_def item_owned_def signal_item_def)
  show a: "owns (L @ [item]) s2"
  proof (rule owns_add [OF o])
    show "blocks (s_heap s2) a = blocks (s_heap s) a" if "blocks (s_heap s) a \<noteq> None" for a
      using that p by (auto simp: h)
    show "item_ok (s_heap s2) item"
      using i by (auto simp: item item_ok_def signal_item_def pool_inv_def sample_block_size_def h)
    show "pool_inv (s_heap s2) (queue_samples (L @ [item])) (cx_signal_pool_stats (s_ctx s2))"
      by (rule pool_inv_perm [OF i]) (simp add: sm)
  qed (use o p sm h in \<open>simp_all add: owns_def\<close>)
  have "pool_inv (s_heap s2) (queue_samples (item # L)) (cx_signal_pool_stats (s_ctx s2))"
    using i by (simp add: sm)
  then show "owns (item # L) s2" using a by (auto simp: owns_def)
qed

lemma failed_send_releases:
  assumes o: "owns (item # L) s"
    and r: "run_state (do { _ \<leftarrow> note_pool aetus_signal_sample_pool_note_queue_send_failure;
              _ \<leftarrow> release_queue_item (Some item); ret ESP_ERR_TIMEOUT }) s = (err, s')"
  shows "err = ESP_ERR_TIMEOUT \<and> owns L s' \<and> blocks (s_heap s') = freed (item_owned (s_heap s) item) (blocks (s_heap s)) \<and>
    same_run s s'"
proof -
  let ?note = aetus_signal_sample_pool_note_queue_send_failure
  obtain u s1 where n: "run_state (whenm True (note_pool ?note)) s = (u, s1)"
    by (cases "run_state (whenm True (note_pool ?note)) s")
  obtain v s2 where v: "run_state (release_queue_item (Some item)) s1 = (v, s2)"
    by (cases "run_state (release_queue_item (Some item)) s1")
  have e: "err = ESP_ERR_TIMEOUT" "s' = s2" using r n v by (simp_all add: run_bind run_steps(1) whenm_def)
  have a: "owns (item # L) s1 \<and> s_heap s1 = s_heap s \<and> same_run s s1"
    by (rule note_owned [OF o _ n]) (simp add: pool_notes_def)
  from release_owned [OF conjunct1 [OF a] v] a e show ?thesis by (auto simp: same_run_def)
qed

text \<open>The outcome of \<open>aetus_enqueue_signal_frame\<close>: a new item at the end with a copy of the samples, or nothing.\<close>

definition enqueued_frame :: "('w \<Rightarrow> aetus_queue_item list) \<Rightarrow> aetus_signal_frame \<Rightarrow> esp_err \<Rightarrow> 'w sys \<Rightarrow> 'w sys \<Rightarrow> bool" where
  "enqueued_frame items f err s s' =
     (if err = ESP_OK
      then validate_signal_frame (Some f) = ESP_OK \<and>
        (\<exists>p bs. items (s_world s') = items (s_world s) @ [signal_item f p (Samples_block p)] \<and>
           blocks (s_heap s) p = None \<and> length bs = unat (fr_samples_size f) \<and>
           blocks (s_heap s') = (blocks (s_heap s))(p \<mapsto> Sample_block (fr_samples_size f) bs) \<and>
           (\<forall>data. fr_samples f = Samples_mem data \<longrightarrow> unat (fr_samples_size f) \<le> length data \<longrightarrow>
              bs = take (unat (fr_samples_size f)) data))
      else items (s_world s') = items (s_world s) \<and> s_heap s' = s_heap s)"

context task_queue
begin

lemma pool_room:
  assumes o: "owns (items (s_world s)) s" and depth: "depth * 2400 + 2400 < 4294967296"
    and b: "length (items (s_world s)) \<le> depth" and n: "unat n \<le> 2400"
  shows "Suc (length (queue_samples (items (s_world s)))) < 4294967296"
    "pool_bytes (s_heap s) (queue_samples (items (s_world s))) + unat (n :: u32) < 4294967296"
proof -
  let ?q = "queue_samples (items (s_world s))"
  have l: "length ?q \<le> depth" using queue_samples_length [of "items (s_world s)"] b by simp
  have "pool_bytes (s_heap s) ?q \<le> 2400 * length ?q" using o pool_bytes_bound by (auto simp: owns_def)
  also have "\<dots> \<le> depth * 2400" using l by simp
  finally show "pool_bytes (s_heap s) ?q + unat n < 4294967296" using depth n by simp
  show "Suc (length ?q) < 4294967296" using l depth by simp
qed

lemma enqueue_signal_run:
  assumes q: "cx_queue (s_ctx s) = q" "q \<noteq> 0" and valid: "validate_signal_frame (Some f) = ESP_OK"
    and a: "aetus_signal_sample_pool_alloc (pf_malloc P) (Some (cx_signal_pool_stats (s_ctx s))) (fr_samples_size f)
      (Some 0) (s_heap s) = (Samples_block p, Some p, Some st, h1)"
    and h2: "h2 = fill_samples (Samples_block p) (take (unat (fr_samples_size f)) (samples_at h1 (fr_samples f))) h1"
    and item: "item = signal_item f p (Samples_block p)"
    and sd: "xQueueSend P q item timeout (s_world s) = (ok, w1)"
    and s2: "s2 = s\<lparr>s_ctx := (s_ctx s)\<lparr>cx_signal_pool_stats := st\<rparr>, s_heap := h2, s_world := w1\<rparr>"
  shows "run_state (aetus_enqueue_signal_frame P (Some f) timeout) s =
    (if ok then (ESP_OK, s2)
     else run_state (do { _ \<leftarrow> note_pool aetus_signal_sample_pool_note_queue_send_failure;
            _ \<leftarrow> release_queue_item (Some item); ret ESP_ERR_TIMEOUT }) s2)"
  using q valid a sd
  by (simp add: aetus_enqueue_signal_frame_def run_bind run_steps run_return_on Let_def h2 item s2)

lemma enqueue_signal_owned:
  assumes M: "malloc_ok (pf_malloc P)" and depth: "depth * 2400 + 2400 < 4294967296"
    and o: "owns (items (s_world s)) s" and b: "length (items (s_world s)) \<le> depth"
    and q: "cx_queue (s_ctx s) = q" "q \<noteq> 0"
    and r: "run_state (aetus_enqueue_signal_frame P (Some f) timeout) s = (err, s')"
  shows "enqueued_frame items f err s s' \<and> owns (items (s_world s')) s' \<and> within items depth s s' \<and>
    (\<exists>st. s_ctx s' = (s_ctx s)\<lparr>cx_signal_pool_stats := st\<rparr>)"
proof (cases "validate_signal_frame (Some f) = ESP_OK")
  case False
  then have "err \<noteq> ESP_OK" "s' = s"
    using r q by (auto simp: aetus_enqueue_signal_frame_def run_bind run_steps run_return_on)
  then show ?thesis using o by (auto simp: enqueued_frame_def within_def intro!: exI [of _ "cx_signal_pool_stats (s_ctx s)"])
next
  case valid: True
  let ?h = "s_heap s" and ?L = "items (s_world s)" and ?n = "fr_samples_size f" and ?st = "cx_signal_pool_stats (s_ctx s)"
  have pi: "pool_inv ?h (queue_samples ?L) ?st" and nz: "\<not> heap_corrupt ?h" using o by (simp_all add: owns_def)
  have n: "unat ?n \<le> 2400" using valid by (auto simp: validate_signal_frame_def c_defs split: if_splits)
  obtain sp ow st1 h1 where a: "aetus_signal_sample_pool_alloc (pf_malloc P) (Some ?st) ?n (Some 0) ?h = (sp, ow, st1, h1)"
    by (cases "aetus_signal_sample_pool_alloc (pf_malloc P) (Some ?st) ?n (Some 0) ?h")
  from allocator.alloc_pool_inv [OF malloc_ok_allocator [OF M] pi a pool_room [OF o depth b n]]
  consider (none) st2 where "sp = Samples_null" "ow = Some 0" "h1 = ?h" "st1 = Some st2" "pool_inv ?h (queue_samples ?L) st2"
    | (some) p st2 where "sp = Samples_block p" "ow = Some p" "st1 = Some st2" "p \<noteq> 0" "blocks ?h p = None"
        "h1 = ?h\<lparr>blocks := (blocks ?h)(p \<mapsto> Sample_block ?n (replicate (unat ?n) 0))\<rparr>"
        "pool_inv h1 (p # queue_samples ?L) st2"
    by blast
  then show ?thesis
  proof cases
    case none
    then have "err = ESP_ERR_NO_MEM" "s' = s\<lparr>s_heap := ?h, s_ctx := (s_ctx s)\<lparr>cx_signal_pool_stats := st2\<rparr>\<rparr>"
      using r q valid a by (simp_all add: aetus_enqueue_signal_frame_def run_bind run_steps run_return_on)
    then show ?thesis using o none by (auto simp: owns_def enqueued_frame_def within_def)
  next
    case some
    define src where "src = take (unat ?n) (samples_at h1 (fr_samples f))"
    define bs where "bs = src @ drop (length src) (replicate (unat ?n) 0)"
    define item where "item = signal_item f p (Samples_block p)"
    define h2 where "h2 = fill_samples (Samples_block p) src h1"
    obtain ok w1 where sd: "xQueueSend P q item timeout (s_world s) = (ok, w1)"
      by (cases "xQueueSend P q item timeout (s_world s)")
    define s2 where "s2 = s\<lparr>s_ctx := (s_ctx s)\<lparr>cx_signal_pool_stats := st2\<rparr>, s_heap := h2, s_world := w1\<rparr>"
    have lb: "length bs = unat ?n" by (simp add: bs_def src_def)
    have h2': "h2 = h1\<lparr>blocks := (blocks h1)(p \<mapsto> Sample_block ?n bs)\<rparr>"
      using fill_samples_block [of h1 p ?n "replicate (unat ?n) 0" src] some(6) by (simp add: h2_def bs_def src_def)
    have p2: "pool_inv h2 (p # queue_samples ?L) st2"
      unfolding h2' by (rule pool_inv_refill [OF some(7), of p ?n "replicate (unat ?n) 0" bs]) (use some(6) lb in simp_all)
    have b2: "blocks (s_heap s2) = (blocks ?h)(p \<mapsto> Sample_block ?n bs)" "heap_corrupt (s_heap s2) = heap_corrupt ?h"
      using some(6) by (simp_all add: s2_def h2')
    have own: "owns (?L @ [item]) s2" "owns (item # ?L) s2"
      using signal_item_owns [OF o some(4,5) b2 lb _ item_def] p2 by (simp_all add: s2_def)
    have it: "items w1 = ?L @ (if ok then [item] else [])" using send [OF sd] by simp
    note run = enqueue_signal_run [OF q valid a [unfolded some(1-3)] h2_def [unfolded src_def] item_def sd s2_def]
    show ?thesis
    proof (cases ok)
      case True
      then have s': "err = ESP_OK" "s' = s2" using run r by simp_all
      have "bs = take (unat ?n) data" if "fr_samples f = Samples_mem data" "unat ?n \<le> length data" for data
        using that by (simp add: bs_def src_def samples_at_def)
      then have "enqueued_frame items f err s s'"
        using True it valid some(5) lb b2 unfolding s' enqueued_frame_def item_def by (auto simp: s2_def)
      then show ?thesis using own True it send [OF sd] by (auto simp: s' s2_def within_def)
    next
      case False
      then have t: "err = ESP_ERR_TIMEOUT \<and> owns ?L s' \<and>
          blocks (s_heap s') = freed (item_owned (s_heap s2) item) (blocks (s_heap s2)) \<and> same_run s2 s'"
        using failed_send_releases [OF own(2), of err s'] run r by simp
      then have "blocks (s_heap s') = blocks ?h"
        using some(5) by (auto simp: freed_def item_owned_def item_def signal_item_def b2(1) fun_eq_iff)
      moreover have "heap_corrupt (s_heap s') = heap_corrupt ?h" using t nz by (simp add: owns_def)
      ultimately have "s_heap s' = ?h" by (simp add: heap.equality)
      then show ?thesis using t it False by (auto simp: enqueued_frame_def within_def same_run_def s2_def)
    qed
  qed
qed

end

section \<open>Status and interrupts\<close>

lemma owns_status:
  assumes "owns L s" "s_heap s' = s_heap s" "cx_signal_pool_stats (s_ctx s') = cx_signal_pool_stats (s_ctx s)"
  shows "owns (L @ [status_item st]) s'"
  using assms by (auto simp: owns_def item_ok_def item_owned_def item_samples_def status_item_def)

text \<open>
  The item of the interrupt path is the caller's object itself: it may join the queue when its blocks are not those of an
  item in the queue, and the queue is broken when they are.
\<close>

lemma telemetry_item_hands_over:
  assumes "owns L s" "wf_telemetry (s_heap s) t" "set (owned (s_heap s) t) \<inter> set (queue_owned (s_heap s) L) = {}"
    and "s_heap s' = s_heap s" "cx_signal_pool_stats (s_ctx s') = cx_signal_pool_stats (s_ctx s)"
  shows "owns (L @ [telemetry_item t]) s'"
  using assms by (auto simp: owns_def item_ok_def item_owned_def item_samples_def telemetry_item_def wf_telemetry_def)

lemma telemetry_item_shares:
  assumes "set (owned (s_heap s) t) \<inter> set (queue_owned (s_heap s) L) \<noteq> {}"
  shows "\<not> owns (L @ [telemetry_item t]) s"
  using assms by (auto simp: owns_def item_owned_def telemetry_item_def)

context task_queue
begin

lemma enqueue_status_owned:
  assumes o: "owns (items (s_world s)) s" and q: "cx_queue (s_ctx s) = q" "q \<noteq> 0"
    and r: "run_state (aetus_enqueue_status P (Some st) timeout) s = (err, s')"
  shows "items (s_world s') = items (s_world s) @ (if err = ESP_OK then [status_item st] else []) \<and>
    owns (items (s_world s')) s' \<and> s_ctx s' = s_ctx s \<and> s_heap s' = s_heap s \<and>
    within items depth s s'"
proof -
  obtain ok w1 where sd: "xQueueSend P q (status_item st) timeout (s_world s) = (ok, w1)"
    by (cases "xQueueSend P q (status_item st) timeout (s_world s)")
  have "err = (if ok then ESP_OK else ESP_ERR_TIMEOUT)" "s' = s\<lparr>s_world := w1\<rparr>"
    using r q sd by (simp_all add: aetus_enqueue_status_def run_bind run_steps run_return_on)
  then show ?thesis using send [OF sd] owns_status [OF o, of s' st] o by (auto simp: owns_def within_def)
qed

lemma enqueue_status_isr_owned:
  assumes o: "owns (items (s_world s)) s" and q: "cx_queue (s_ctx s) = q" "q \<noteq> 0"
    and r: "run_state (aetus_enqueue_status_from_isr P (Some st)) s = (err, s')"
  shows "items (s_world s') = items (s_world s) @ (if err = ESP_OK then [status_item st] else []) \<and>
    owns (items (s_world s')) s' \<and> s_ctx s' = s_ctx s \<and> s_heap s' = s_heap s \<and>
    within items depth s s'"
proof -
  let ?it = "(s_isr_item s)\<lparr>qi_kind := AETUS_QUEUE_ITEM_STATUS, qi_signal_sample_owner := 0, qi_body := Body_status st\<rparr>"
  have e: "?it = status_item st" by (cases "s_isr_item s") (simp add: status_item_def)
  obtain ok w1 where sd: "xQueueSendFromISR P q (status_item st) (s_world s) = (ok, w1)"
    by (cases "xQueueSendFromISR P q (status_item st) (s_world s)")
  have "err = (if ok then ESP_OK else ESP_ERR_TIMEOUT)" "s' = s\<lparr>s_isr_item := status_item st, s_world := w1\<rparr>"
    using r q sd by (simp_all add: aetus_enqueue_status_from_isr_def run_bind run_steps run_return_on e)
  then show ?thesis using send_isr [OF sd] owns_status [OF o, of s' st] o by (auto simp: owns_def within_def)
qed

lemma enqueue_telemetry_isr_owned:
  assumes o: "owns (items (s_world s)) s" and q: "cx_queue (s_ctx s) = q" "q \<noteq> 0" and r: "run_state (aetus_enqueue_telemetry_from_isr P (Some t)) s = (err, s')"
  shows "items (s_world s') = items (s_world s) @ (if err = ESP_OK then [telemetry_item t] else []) \<and>
    s_ctx s' = s_ctx s \<and> s_heap s' = s_heap s \<and> within items depth s s'"
    and "wf_telemetry (s_heap s) t \<Longrightarrow> set (owned (s_heap s) t) \<inter> set (queue_owned (s_heap s) (items (s_world s))) = {} \<Longrightarrow>
      owns (items (s_world s')) s'"
    and "err = ESP_OK \<Longrightarrow> set (owned (s_heap s) t) \<inter> set (queue_owned (s_heap s) (items (s_world s))) \<noteq> {} \<Longrightarrow>
      \<not> owns (items (s_world s')) s'"
proof -
  let ?it = "(s_isr_item s)\<lparr>qi_kind := AETUS_QUEUE_ITEM_TELEMETRY, qi_signal_sample_owner := 0,
    qi_body := Body_telemetry t\<rparr>"
  let ?blob = "\<lambda>m. m_type m = AETUS_METRIC_VALUE_STRING \<or> m_type m = AETUS_METRIC_VALUE_BYTES"
  let ?ms = "take (unat (t_metric_count t)) (t_inline_metrics t)"
  have e: "?it = telemetry_item t" by (cases "s_isr_item s") (simp add: telemetry_item_def)
  show add: "items (s_world s') = items (s_world s) @ (if err = ESP_OK then [telemetry_item t] else []) \<and>
    s_ctx s' = s_ctx s \<and> s_heap s' = s_heap s \<and> within items depth s s'"
  proof (cases "unat (t_metric_count t) \<le> 4 \<and> \<not> list_ex ?blob ?ms")
    case False
    then have "err = ESP_ERR_INVALID_ARG" "s' = s"
      using r q by (auto simp: aetus_enqueue_telemetry_from_isr_def run_bind run_steps split: if_splits)
    then show ?thesis by (simp add: within_def)
  next
    case True
    obtain ok w1 where sd: "xQueueSendFromISR P q (telemetry_item t) (s_world s) = (ok, w1)"
      by (cases "xQueueSendFromISR P q (telemetry_item t) (s_world s)")
    have "err = (if ok then ESP_OK else ESP_ERR_TIMEOUT)" "s' = s\<lparr>s_isr_item := telemetry_item t, s_world := w1\<rparr>"
      using r q sd True by (simp_all add: aetus_enqueue_telemetry_from_isr_def run_bind run_steps e)
    then show ?thesis using send_isr [OF sd] by (auto simp: within_def)
  qed
  show "owns (items (s_world s')) s'" if "wf_telemetry (s_heap s) t"
    "set (owned (s_heap s) t) \<inter> set (queue_owned (s_heap s) (items (s_world s))) = {}"
    using telemetry_item_hands_over [OF o that] add o by (auto simp: owns_def)
  show "\<not> owns (items (s_world s')) s'" if "err = ESP_OK"
    "set (owned (s_heap s) t) \<inter> set (queue_owned (s_heap s) (items (s_world s))) \<noteq> {}"
    using telemetry_item_shares [of s' t "items (s_world s)"] add that by simp
qed

end

end
