(* ===== verification/Runtime.thy ===== *)
theory Runtime
  imports Enqueue
begin

text \<open>
  The runtime as a state machine: producer tasks, interrupts, the uploader, the Wi-Fi and timer callbacks and the
  application interleave, one function or one round of the drain loop at a time. The invariant says
  that the queue is within its depth and owns its memory; every step keeps it.
\<close>

section \<open>Configuration updates\<close>

text \<open>What an update may change: the configuration and the Wi-Fi flags.\<close>

definition steady :: "('w \<Rightarrow> 'i) \<Rightarrow> 'w sys \<Rightarrow> 'w sys \<Rightarrow> bool" where
  "steady items s s' \<longleftrightarrow>
     items (s_world s') = items (s_world s) \<and> s_heap s' = s_heap s \<and> cx_queue (s_ctx s') = cx_queue (s_ctx s) \<and>
     cx_signal_pool_stats (s_ctx s') = cx_signal_pool_stats (s_ctx s)"

interpretation steady: step_relation "steady items" for items
  by unfold_locales (simp_all add: steady_def)

lemma quiet_steady: "steps (quiet items) m \<Longrightarrow> steps (steady items) m"
  by (auto simp: steps_def quiet_def steady_def) (metis aetus_ctx.select_convs aetus_ctx.update_convs aetus_ctx.surjective)+

lemma steady_upd:
  "steps (steady items) (upd_ctx (\<lambda>c. c\<lparr>cx_config := k\<rparr>))"
  "steps (steady items) (upd_ctx (\<lambda>c. c\<lparr>cx_wifi_reconfiguring := b\<rparr>))"
  by (simp_all add: steps_def steady_def run_steps)

lemma steady_checks: "steps (steady items) m \<Longrightarrow> steps (steady items) (ESP_RETURN_ON_FALSES cs m)"
  unfolding ESP_RETURN_ON_FALSES_def by (induction cs) (auto intro!: steady.on_false)

context quiet_platform
begin

lemma steady_update_config: "steps (steady items) (aetus_update_config P config)"
proof -
  note rules = steady.rules steady_upd steady_checks quiet_calls_steps [THEN quiet_steady]
    quiet_apply [THEN quiet_steady] quiet_led [THEN quiet_steady]
  have "steps (steady items) (update_wifi P)" unfolding update_wifi_def by (intro rules)
  then show ?thesis
    unfolding aetus_update_config_def Let_def by (intro rules) (auto split: option.split intro!: rules)
qed

end

section \<open>Steps\<close>

definition runtime_inv :: "('w \<Rightarrow> aetus_queue_item list) \<Rightarrow> addr \<Rightarrow> nat \<Rightarrow> 'w sys \<Rightarrow> bool" where
  "runtime_inv items q depth s \<longleftrightarrow>
     owns (items (s_world s)) s \<and> length (items (s_world s)) \<le> depth \<and> cx_queue (s_ctx s) = q"

text \<open>
  The configuration holds pointers to strings of the caller of \<open>aetus_start\<close> or \<open>aetus_update_config\<close>: the caller can
  rewrite the texts, but neither the pointers nor the other settings. The parameter \<open>writes\<close> of the steps says how
  the callers of a program do it.
\<close>

definition same_settings :: "aetus_config \<Rightarrow> aetus_config \<Rightarrow> bool" where
  "same_settings c c' \<longleftrightarrow>
     list_all2 (\<lambda>p p'. p = None \<longleftrightarrow> p' = None)
       [wifi_ssid c, wifi_password c, wifi_identity c, ingest_url c, time_url c, device_id c, device_token c]
       [wifi_ssid c', wifi_password c', wifi_identity c', ingest_url c', time_url c', device_id c', device_token c'] \<and>
     wifi_auth c' = wifi_auth c \<and> auth_mode c' = auth_mode c \<and> firmware_version c' = firmware_version c \<and>
     upload_interval_ms c' = upload_interval_ms c \<and> queue_depth c' = queue_depth c \<and>
     connected_led_enabled c' = connected_led_enabled c \<and> connected_led_gpio c' = connected_led_gpio c"

text \<open>
  A caller of \<open>aetus_enqueue_telemetry\<close> passes an object none of whose blocks an item of the queue owns. The interrupt path
  is under the same condition; as it does not copy, the blocks of an object it accepts belong to the queue from then
  on. The step \<open>application\<close> is any change the application makes to memory that is not the queue's.
\<close>

inductive runtime_step ::
  "'w platform \<Rightarrow> 'm md_api \<Rightarrow> ('w \<Rightarrow> aetus_queue_item list) \<Rightarrow> (aetus_config \<Rightarrow> aetus_config \<Rightarrow> bool) \<Rightarrow>
     'w sys \<Rightarrow> 'w sys \<Rightarrow> bool"
  for P md items writes
where
  telemetry: "wf_telemetry (s_heap s) t \<Longrightarrow>
    set (owned (s_heap s) t) \<inter> set (queue_owned (s_heap s) (items (s_world s))) = {} \<Longrightarrow>
    run_state (aetus_enqueue_telemetry P (Some t) timeout) s = (err, s') \<Longrightarrow> runtime_step P md items writes s s'"
| signal_frame: "run_state (aetus_enqueue_signal_frame P (Some f) timeout) s = (err, s') \<Longrightarrow>
    runtime_step P md items writes s s'"
| status: "run_state (aetus_enqueue_status P (Some st) timeout) s = (err, s') \<Longrightarrow> runtime_step P md items writes s s'"
| telemetry_isr: "wf_telemetry (s_heap s) t \<Longrightarrow>
    set (owned (s_heap s) t) \<inter> set (queue_owned (s_heap s) (items (s_world s))) = {} \<Longrightarrow>
    run_state (aetus_enqueue_telemetry_from_isr P (Some t)) s = (err, s') \<Longrightarrow> runtime_step P md items writes s s'"
| status_isr: "run_state (aetus_enqueue_status_from_isr P (Some st)) s = (err, s') \<Longrightarrow> runtime_step P md items writes s s'"
| upload_round: "run_state (drain_round P md) s = (r, s') \<Longrightarrow> runtime_step P md items writes s s'"
| upload_wait: "run_state (wifi_wait_connected_for P timeout) s = (err, s') \<Longrightarrow> runtime_step P md items writes s s'"
| update_config: "run_state (aetus_update_config P config) s = (err, s') \<Longrightarrow> runtime_step P md items writes s s'"
| wifi_event: "run_state (wifi_event_handler P base ev) s = (u, s') \<Longrightarrow> runtime_step P md items writes s s'"
| timer: "run_state (upload_timer_callback P) s = (u, s') \<Longrightarrow> runtime_step P md items writes s s'"
| sync: "run_state (aetus_sync_rtc P timeout) s = (err, s') \<Longrightarrow> runtime_step P md items writes s s'"
| flush: "run_state (aetus_flush P timeout) s = (err, s') \<Longrightarrow> runtime_step P md items writes s s'"
| application: "\<forall>a \<in> set (queue_owned (s_heap s) (items (s_world s))). blocks h a = blocks (s_heap s) a \<Longrightarrow>
    blocks h 0 = None \<Longrightarrow> \<not> heap_corrupt h \<Longrightarrow> runtime_step P md items writes s (s\<lparr>s_heap := h\<rparr>)"
| caller_strings: "same_settings (cx_config (s_ctx s)) c \<Longrightarrow> writes (cx_config (s_ctx s)) c \<Longrightarrow>
    runtime_step P md items writes s (s\<lparr>s_ctx := (s_ctx s)\<lparr>cx_config := c\<rparr>\<rparr>)"

inductive_simps runtime_step_simps: "runtime_step P md items writes s s'"

context task_queue
begin

lemma inv_steady: "steps (steady items) m \<Longrightarrow> run_state m s = (a, s') \<Longrightarrow> runtime_inv items q depth s \<Longrightarrow>
    runtime_inv items q depth s'"
  using stepsD [of "steady items" m s a s'] by (simp add: steady_def runtime_inv_def owns_def)

lemmas inv_quiet = inv_steady [OF quiet_steady]

lemma inv_round:
  assumes i: "runtime_inv items q depth s" and r: "run_state (drain_round P md) s = (res, s')"
  shows "runtime_inv items q depth s'"
proof -
  have a: "owns (items (s_world s)) s" "cx_queue (s_ctx s) = q" using i by (simp_all add: runtime_inv_def)
  have b: "length (items (s_world s)) \<le> depth" using i by (simp add: runtime_inv_def)
  show ?thesis
    by (cases rule: drain_round_cases [OF a r])
      (use a b in \<open>auto simp: runtime_inv_def drained_def item_done_def received_def\<close>)
qed

lemma step_keeps_inv:
  assumes M: "malloc_ok (pf_malloc P)" and depth: "depth * 2400 + 2400 < 4294967296" and nz: "q \<noteq> 0"
    and st: "runtime_step P md items writes s s'" and i: "runtime_inv items q depth s"
  shows "runtime_inv items q depth s'"
proof -
  have o: "owns (items (s_world s)) s" and b: "length (items (s_world s)) \<le> depth" and q: "cx_queue (s_ctx s) = q"
    using i by (simp_all add: runtime_inv_def)
  from st show ?thesis
  proof cases
    case (telemetry t timeout err)
    from enqueue_telemetry_owned [OF M o q nz telemetry] b q show ?thesis
      by (auto simp: runtime_inv_def within_def)
  next
    case (signal_frame f timeout err)
    from enqueue_signal_owned [OF M depth o b q nz signal_frame] b q show ?thesis
      by (auto simp: runtime_inv_def within_def)
  next
    case (status st timeout err)
    from enqueue_status_owned [OF o q nz status] b q show ?thesis by (auto simp: runtime_inv_def within_def)
  next
    case (telemetry_isr t err)
    from enqueue_telemetry_isr_owned(1,2) [OF o q nz telemetry_isr(3)] telemetry_isr(1,2) b q show ?thesis
      by (auto simp: runtime_inv_def within_def)
  next
    case (status_isr st err)
    from enqueue_status_isr_owned [OF o q nz status_isr] b q show ?thesis by (auto simp: runtime_inv_def within_def)
  next
    case (application h)
    then have "owns (items (s_world s)) s'" by (intro owns_frame [OF o]) simp_all
    with application b q show ?thesis by (simp add: runtime_inv_def)
  next
    case (caller_strings c)
    with o b q show ?thesis by (simp add: runtime_inv_def owns_def)
  qed (fact inv_round [OF i] inv_quiet [OF quiet_wait _ i] inv_steady [OF steady_update_config _ i]
      inv_quiet [OF quiet_event_handler _ i] inv_quiet [OF quiet_timer_callback _ i] inv_quiet [OF quiet_sync _ i]
      inv_quiet [OF quiet_flush _ i])+
qed

lemma reachable_inv:
  assumes "malloc_ok (pf_malloc P)" "depth * 2400 + 2400 < 4294967296" "q \<noteq> 0"
    and "(runtime_step P md items writes)\<^sup>*\<^sup>* s s'" "runtime_inv items q depth s"
  shows "runtime_inv items q depth s'"
  using assms(4,5) by (induction rule: rtranclp_induct) (auto intro: step_keeps_inv [OF assms(1-3)])

end

end
