(* ===== verification/SimPlatform.thy ===== *)
theory SimPlatform
  imports Runtime TimeProps
begin

text \<open>
  A platform that meets the contracts: a bounded queue, an event group, an LED, a clock, and a server that answers
  every request with status 200 and a fixed reply. It shows that the hypotheses of the theorems about the runtime can hold, and runs
  the programs on concrete inputs.
\<close>

record sim =
  sim_items :: "aetus_queue_item list"
  sim_bits :: bits
  sim_led :: bool
  sim_clock :: timeval
  sim_posts :: "http_request list"
  sim_reply :: "byte list"
  sim_connects :: nat

definition nop :: "'a \<Rightarrow> 'w \<Rightarrow> 'a \<times> 'w" where
  "nop a w = (a, w)"

definition sim_send :: "nat \<Rightarrow> aetus_queue_item \<Rightarrow> sim \<Rightarrow> bool \<times> sim" where
  "sim_send depth x w =
     (if length (sim_items w) < depth then (True, w\<lparr>sim_items := sim_items w @ [x]\<rparr>) else (False, w))"

definition sim_send_front :: "nat \<Rightarrow> aetus_queue_item \<Rightarrow> sim \<Rightarrow> bool \<times> sim" where
  "sim_send_front depth x w =
     (if length (sim_items w) < depth then (True, w\<lparr>sim_items := x # sim_items w\<rparr>) else (False, w))"

definition sim_receive :: "sim \<Rightarrow> aetus_queue_item option \<times> sim" where
  "sim_receive w = (case sim_items w of [] \<Rightarrow> (None, w) | x # xs \<Rightarrow> (Some x, w\<lparr>sim_items := xs\<rparr>))"

definition sim_wait :: "bits \<Rightarrow> bool \<Rightarrow> sim \<Rightarrow> bits \<times> sim" where
  "sim_wait b clear w = (sim_bits w, if clear then w\<lparr>sim_bits := sim_bits w AND NOT b\<rparr> else w)"

definition sim_perform :: "http_request \<Rightarrow> sim \<Rightarrow> (http_event list \<times> esp_err \<times> int) \<times> sim" where
  "sim_perform rq w = (([HTTP_EVENT_ON_DATA (Some (sim_reply w))], ESP_OK, 200),
     w\<lparr>sim_posts := sim_posts w @ [rq]\<rparr>)"

definition sim_platform :: "nat \<Rightarrow> nat \<Rightarrow> sim platform" where
  "sim_platform cells depth =
     \<lparr>pf_malloc = arena cells, pdMS_TO_TICKS = (\<lambda>ms. ms), esp_timer_get_time = nop 0, esp_random = nop 7,
      gettimeofday = (\<lambda>w. ((0, sim_clock w), w)), settimeofday = (\<lambda>tv w. (0, w\<lparr>sim_clock := tv\<rparr>)),
      xQueueCreate = (\<lambda>n. nop 1), xQueueSend = (\<lambda>q x t. sim_send depth x),
      xQueueSendToFront = (\<lambda>q x t. sim_send_front depth x), xQueueSendFromISR = (\<lambda>q. sim_send depth),
      xQueueReceive = (\<lambda>q t. sim_receive), xEventGroupCreate = nop 2,
      xEventGroupSetBits = (\<lambda>e b w. ((), w\<lparr>sim_bits := sim_bits w OR b\<rparr>)),
      xEventGroupClearBits = (\<lambda>e b w. ((), w\<lparr>sim_bits := sim_bits w AND NOT b\<rparr>)),
      xEventGroupGetBits = (\<lambda>e w. (sim_bits w, w)), xEventGroupWaitBits = (\<lambda>e b clear all t. sim_wait b clear),
      xTimerCreate = (\<lambda>p. nop 3), xTimerStart = (\<lambda>t. nop True), xTimerChangePeriod = (\<lambda>t p. nop True),
      xTaskCreate = nop True, vTaskDelay = (\<lambda>t. nop ()), gpio_config = (\<lambda>m. nop ESP_OK),
      gpio_set_level = (\<lambda>g l w. ((), w\<lparr>sim_led := l\<rparr>)), nvs_flash_init = nop ESP_OK, nvs_flash_erase = nop ESP_OK,
      esp_netif_init = nop ESP_OK, esp_event_loop_create_default = nop ESP_OK,
      esp_netif_create_default_wifi_sta = nop (), esp_event_handler_instance_register = (\<lambda>b. nop ESP_OK),
      esp_wifi_init = nop ESP_OK, esp_wifi_set_mode = nop ESP_OK, esp_wifi_set_storage = nop ESP_OK,
      esp_wifi_set_config = (\<lambda>c. nop ESP_OK), esp_wifi_start = nop ESP_OK,
      esp_wifi_connect = (\<lambda>w. (ESP_OK, w\<lparr>sim_connects := sim_connects w + 1\<rparr>)),
      esp_wifi_disconnect = nop ESP_OK, esp_wifi_sta_enterprise_disable = nop ESP_OK,
      esp_wifi_sta_enterprise_enable = nop ESP_OK, esp_eap_client_set_identity = (\<lambda>x. nop ESP_OK),
      esp_eap_client_set_username = (\<lambda>x. nop ESP_OK), esp_eap_client_set_password = (\<lambda>x. nop ESP_OK),
      esp_eap_client_set_eap_methods = nop ESP_OK, esp_http_client_init = (\<lambda>u. nop True),
      esp_http_client_perform = sim_perform, esp_http_client_cleanup = nop ()\<rparr>"

lemma sim_local: "local_calls (sim_platform cells depth) sim_items"
  by (simp add: local_calls_def sim_platform_def keeps_def nop_def sim_wait_def sim_perform_def)

interpretation sim: task_queue "sim_platform cells depth" sim_items q depth for cells depth q
proof
  show "local_calls (sim_platform cells depth) sim_items" by (rule sim_local)
qed (auto simp: keeps_def sim_perform_def sim_platform_def sim_send_def sim_send_front_def sim_receive_def split: if_splits list.splits)

lemma sim_clock_ok: "clock_ok (sim_platform cells depth)"
  by (simp add: clock_ok_def sim_platform_def)

lemma sim_malloc: "pf_malloc (sim_platform cells depth) = arena cells"
  by (simp add: sim_platform_def)

section \<open>A started runtime\<close>

definition sim_world :: sim where
  "sim_world = \<lparr>sim_items = [], sim_bits = 1, sim_led = False, sim_clock = \<lparr>tv_sec = 0, tv_usec = 0\<rparr>, sim_posts = [],
     sim_reply = [], sim_connects = 0\<rparr>"

definition sim_config :: aetus_config where
  "sim_config = \<lparr>wifi_ssid = Some [110, 0], wifi_password = Some [112, 0], wifi_auth = AETUS_WIFI_AUTH_PSK,
     wifi_identity = None, ingest_url = Some (str ''h/v1/ingest'' @ [0]), time_url = None, device_id = Some [100, 0],
     device_token = Some [116, 0], auth_mode = AETUS_AUTH_BEARER, firmware_version = 3, upload_interval_ms = 0,
     queue_depth = 0, connected_led_enabled = True, connected_led_gpio = 2\<rparr>"

definition sim_boot :: "sim sys" where
  "sim_boot = \<lparr>s_ctx = zero_ctx, s_heap = \<lparr>blocks = Map.empty, heap_corrupt = False\<rparr>, s_test_runtime_hooks = zero_hooks,
     s_test_release_stats = \<lparr>telemetry_heap_metrics_released = 0, telemetry_blobs_released = 0\<rparr>,
     s_isr_item = stack_item, s_world = sim_world\<rparr>"

definition sim_started :: "sim sys" where
  "sim_started = sim_boot\<lparr>s_ctx := zero_ctx\<lparr>cx_config := sim_config, cx_queue := 1, cx_events := 2, cx_upload_timer := 3\<rparr>\<rparr>"

lemma sim_started_inv: "runtime_inv sim_items 1 depth sim_started"
  by (simp add: runtime_inv_def owns_def sim_started_def sim_boot_def sim_world_def zero_ctx_def pool_inv_init)

end
