(* ===== verification/RuntimeProps.thy ===== *)
theory RuntimeProps
  imports SimPlatform SignalEncodeProps
begin

text \<open>
  Properties of the running system: memory safety of every interleaving, termination of the drain, and the outcome of
  the enqueue functions.
\<close>

section \<open>Memory safety\<close>

text \<open>
  C1. Take a started runtime and any sequence of enqueue calls from tasks and interrupts, upload rounds, configuration
  updates, rewrites of the callers' configuration strings, Wi-Fi and timer events, synchronisations, flushes and
  changes of the application's own memory. The callers are assumed to pass well-formed telemetry objects none of whose
  blocks an item of the queue owns, and not to touch blocks of the queue: an object that an interrupt enqueues is
  not copied, so the array of further metrics it may point to is the queue's from then on. Then the queue stays within its
  depth, every item in it is intact and owns its memory alone, the pool's statistics count exactly the sample
  blocks in the queue, and nothing is freed twice or used after its release. The code does not check that
  condition, and it is needed: whenever the interrupt path accepts an object that shares a block with an item of the
  queue, the queue is broken after the call.
\<close>

theorem runtime_memory_safe:
  assumes "task_queue P items q depth" "malloc_ok (pf_malloc P)" "depth * 2400 + 2400 < 4294967296" "q \<noteq> 0"
    and "runtime_inv items q depth s" and "(runtime_step P md items writes)\<^sup>*\<^sup>* s s'"
  shows "runtime_inv items q depth s' \<and>
    (\<forall>t s''. run_state (aetus_enqueue_telemetry_from_isr P (Some t)) s' = (ESP_OK, s'') \<and>
      set (owned (s_heap s') t) \<inter> set (queue_owned (s_heap s') (items (s_world s'))) \<noteq> {} \<longrightarrow>
      \<not> runtime_inv items q depth s'')"
proof -
  have i: "runtime_inv items q depth s'" by (rule task_queue.reachable_inv [OF assms(1-4,6,5)])
  then have "owns (items (s_world s')) s'" "cx_queue (s_ctx s') = q" by (simp_all add: runtime_inv_def)
  from task_queue.enqueue_telemetry_isr_owned(3) [OF assms(1) this assms(4)] i show ?thesis
    by (auto simp: runtime_inv_def)
qed

definition sim_status_item :: aetus_status where
  "sim_status_item = \<lparr>st_status = AETUS_DEVICE_STATUS_ONLINE, st_rssi = 5, st_free_heap = 9,
     st_reboot_reason = replicate 24 0, st_timestamp_ns = 11\<rparr>"

lemma sim_enqueue_status:
  "run_state (aetus_enqueue_status (sim_platform 9 4) (Some sim_status_item) 0) sim_started =
     (ESP_OK, sim_started\<lparr>s_world := sim_world\<lparr>sim_items := [status_item sim_status_item]\<rparr>\<rparr>)"
  by (simp add: aetus_enqueue_status_def run_bind run_steps run_return_on sim_platform_def sim_send_def
      sim_started_def sim_boot_def sim_world_def)

theorem runtime_memory_safe_witness:
  "runtime_inv sim_items 1 4 (sim_started\<lparr>s_world := sim_world\<lparr>sim_items := [status_item sim_status_item]\<rparr>\<rparr>)"
proof -
  have "runtime_step (sim_platform 9 4) (buffering_md pad32) sim_items (\<lambda>c c'. True) sim_started
      (sim_started\<lparr>s_world := sim_world\<lparr>sim_items := [status_item sim_status_item]\<rparr>\<rparr>)"
    by (rule runtime_step.status [OF sim_enqueue_status])
  with runtime_memory_safe [OF sim.task_queue_axioms [of 9 4 1], of sim_started "buffering_md pad32"]
  show ?thesis by (auto simp: sim_malloc arena_ok sim_started_inv)
qed

section \<open>The drain\<close>

text \<open>
  C3. A drain always ends and sets the done bit. It takes items off the front of the queue, in order; the fate of each is
  decided by the results of encoding it, of posting it and of putting it back (\<open>item_fate\<close>). An item whose
  upload failed is back at the front of the queue with its memory, followed by the items behind it; it is
  dropped only when the send to the front of the queue was refused. Exactly the other items taken have left the queue
  and exactly their memory is released. A failed upload ends the drain, so only the last fate can be one; without one and
  with Wi-Fi up, all items are taken. The sequence number advances by the number of uploads.
\<close>

theorem drain_queue_terminates:
  assumes "task_queue P items q depth" "runtime_inv items q depth s"
    and "fs = queue_fates P md (items (s_world s)) s" "k = length (filter (\<lambda>f. f \<noteq> Put_back) fs)"
  shows "\<exists>s1 s'. s' = set_done P s1 \<and> drain_queue P md s = Some s' \<and>
    items (s_world s') = drop k (items (s_world s)) \<and>
    blocks (s_heap s') = freed (queue_owned (s_heap s) (take k (items (s_world s)))) (blocks (s_heap s)) \<and>
    cx_sequence (s_ctx s') = cx_sequence (s_ctx s) + of_nat (length (filter (\<lambda>f. f = Uploaded) fs)) \<and>
    length fs \<le> length (items (s_world s)) \<and> (\<forall>f \<in> set (butlast fs). f = Uploaded \<or> f = Unencodable) \<and>
    (fst (run_state (wifi_wait_connected P) s) = ESP_OK \<and> (\<forall>f \<in> set fs. f = Uploaded \<or> f = Unencodable) \<longrightarrow>
       length fs = length (items (s_world s)) \<and> items (s_world s') = []) \<and>
    runtime_inv items q depth s'"
proof -
  have o: "owns (items (s_world s)) s" "cx_queue (s_ctx s) = q" "length (items (s_world s)) \<le> depth"
    using assms(2) by (simp_all add: runtime_inv_def)
  from task_queue.drain_queue_drains [OF assms(1) o(1,2), of md] obtain s1 where
    d: "drain_queue P md s = Some (set_done P s1)" "drained items fs s (set_done P s1)" using assms(3) by blast
  have k: "k = gone fs" by (simp add: assms(4) gone_def)
  note shape = queue_fates_shape [where P = P and md = md and L = "items (s_world s)" and s = s, folded assms(3), unfolded goes_on_def]
  have "items (s_world (set_done P s1)) = []"
    if "fst (run_state (wifi_wait_connected P) s) = ESP_OK" "\<forall>f \<in> set fs. f = Uploaded \<or> f = Unencodable"
    using that shape(3) d(2) gone_all [of fs] by (simp add: drained_def goes_on_def)
  with d shape o show ?thesis
    by (intro exI [of _ s1] exI [of _ "set_done P s1"]) (auto simp: drained_def runtime_inv_def k fates_of_def)
qed

text \<open>A queue with one status whose upload fails: after the drain it holds the same item.\<close>

definition sim_failing :: "sim sys" where
  "sim_failing = sim_started\<lparr>s_world := sim_world\<lparr>sim_items := [status_item zero_status]\<rparr>,
     s_test_runtime_hooks := zero_hooks\<lparr>fake_post := True, fake_post_result := ESP_FAIL\<rparr>\<rparr>"

lemma sim_failing_inv: "runtime_inv sim_items 1 4 sim_failing"
  using owns_status [of "[]" sim_started sim_failing zero_status] sim_started_inv [of 4]
  by (simp add: runtime_inv_def sim_failing_def sim_started_def sim_boot_def sim_world_def)

lemma sim_failing_fates:
  "queue_fates (sim_platform 9 4) md [status_item zero_status] sim_failing = [Put_back]"
proof -
  have "150 \<le> unat AETUS_ENCODE_BUFFER_BYTES" by (simp add: c_defs)
  from encode_status_decodes [OF this] have "\<exists>bytes. encode_queue_item ctx now h (status_item zero_status)
      AETUS_ENCODE_BUFFER_BYTES = Some bytes" for ctx now h
    by (fastforce simp: encode_queue_item_def status_item_def)
  then obtain enc where "\<And>ctx now h. encode_queue_item ctx now h (status_item zero_status) AETUS_ENCODE_BUFFER_BYTES =
      Some (enc ctx now h)" by metis
  then show ?thesis
    by (simp add: queue_fates_def item_fate_def received_def goes_on_def post_payload_def
      wifi_wait_connected_def wifi_wait_connected_for_def wifi_start_def wifi_nvs_init_def
      wifi_apply_sta_config_def wifi_configure_peap_def ok_if_already_initialized_def run_bind run_steps run_return_on
      sim_platform_def nop_def sim_wait_def sim_receive_def sim_send_front_def bit_defs sim_failing_def sim_started_def
      sim_boot_def sim_world_def zero_hooks_def sim_config_def zero_ctx_def Let_def)
qed

theorem drain_queue_terminates_witness:
  "\<exists>s'. drain_queue (sim_platform 9 4) (buffering_md pad32) sim_failing = Some s' \<and>
     sim_items (s_world s') = [status_item zero_status] \<and> blocks (s_heap s') = blocks (s_heap sim_failing)"
proof -
  have "sim_items (s_world sim_failing) = [status_item zero_status]" by (simp add: sim_failing_def)
  with drain_queue_terminates [OF sim.task_queue_axioms [of 9 4 1] sim_failing_inv refl refl, of "buffering_md pad32"]
  show ?thesis by (auto simp: sim_failing_fates freed_def)
qed

section \<open>Enqueueing\<close>

text \<open>
  C4. \<open>aetus_enqueue_telemetry\<close> of a well-formed object that is not the queue's either appends one item with the
  same contents in memory of its own, or leaves the queue as it was; after a full queue the heap is the
  one before the call, and after a failed allocation only the caller's blocks differ.
\<close>

theorem enqueue_telemetry_outcome:
  assumes "task_queue P items q depth" "malloc_ok (pf_malloc P)" "q \<noteq> 0" "runtime_inv items q depth s"
    and "wf_telemetry (s_heap s) t" "set (owned (s_heap s) t) \<inter> set (queue_owned (s_heap s) (items (s_world s))) = {}"
    and "run_state (aetus_enqueue_telemetry P (Some t) timeout) s = (err, s')"
  shows "(if err = ESP_OK
      then (\<exists>t'. items (s_world s') = items (s_world s) @ [telemetry_item t'] \<and>
              contents (s_heap s') t' = contents (s_heap s) t \<and> built (s_heap s) (s_heap s') t')
      else items (s_world s') = items (s_world s) \<and>
        (if err = ESP_ERR_TIMEOUT then s_heap s' = s_heap s
         else err = ESP_ERR_NO_MEM \<and>
           (\<forall>a. a \<notin> set (owned (s_heap s) t) \<longrightarrow> blocks (s_heap s') a = blocks (s_heap s) a))) \<and>
    runtime_inv items q depth s'"
proof -
  have "enqueued_telemetry items t err s s' \<and> owns (items (s_world s')) s' \<and> s_ctx s' = s_ctx s \<and>
      within items depth s s'"
    by (rule task_queue.enqueue_telemetry_owned [OF assms(1,2) _ _ assms(3,5-7)])
      (use assms(4) in \<open>simp_all add: runtime_inv_def\<close>)
  then show ?thesis using assms(4) by (simp add: enqueued_telemetry_def runtime_inv_def within_def)
qed

lemma empty_telemetry_wf: "wf_telemetry (s_heap sim_started) zero_telemetry"
  "owned (s_heap sim_started) zero_telemetry = []"
proof -
  have "metrics_of (s_heap sim_started) zero_telemetry = []" by (simp add: metrics_of_def zero_telemetry_def)
  then show "owned (s_heap sim_started) zero_telemetry = []" "wf_telemetry (s_heap sim_started) zero_telemetry"
    by (simp_all add: wf_telemetry_def owned_def shape_def zero_telemetry_def sim_started_def sim_boot_def)
qed

theorem enqueue_telemetry_outcome_witness:
  "\<exists>err s'. run_state (aetus_enqueue_telemetry (sim_platform 9 4) (Some zero_telemetry) 0) sim_started = (err, s') \<and>
     runtime_inv sim_items 1 4 s'"
proof -
  let ?r = "run_state (aetus_enqueue_telemetry (sim_platform 9 4) (Some zero_telemetry) 0) sim_started"
  obtain err s' where r: "?r = (err, s')" by (cases ?r)
  have "runtime_inv sim_items 1 4 s'"
    using enqueue_telemetry_outcome [OF sim.task_queue_axioms [of 9 4 1] _ _ sim_started_inv empty_telemetry_wf(1) _ r]
    by (simp add: sim_malloc arena_ok empty_telemetry_wf(2))
  with r show ?thesis by blast
qed

text \<open>
  C5. \<open>aetus_enqueue_signal_frame\<close> appends a frame only when it is valid, with a copy of the caller's samples in a
  block of its own; every failure, a full queue included, leaves queue and heap as they were.
\<close>

theorem enqueue_signal_frame_outcome:
  assumes "task_queue P items q depth" "malloc_ok (pf_malloc P)" "depth * 2400 + 2400 < 4294967296" "q \<noteq> 0"
    and "runtime_inv items q depth s" "fr_samples f = Samples_mem data" "unat (fr_samples_size f) \<le> length data"
    and "run_state (aetus_enqueue_signal_frame P (Some f) timeout) s = (err, s')"
  shows "(if err = ESP_OK
      then validate_signal_frame (Some f) = ESP_OK \<and>
        (\<exists>p. items (s_world s') = items (s_world s) @ [signal_item f p (Samples_block p)] \<and>
           blocks (s_heap s) p = None \<and>
           blocks (s_heap s') = (blocks (s_heap s))
             (p \<mapsto> Sample_block (fr_samples_size f) (take (unat (fr_samples_size f)) data)))
      else items (s_world s') = items (s_world s) \<and> s_heap s' = s_heap s) \<and>
    runtime_inv items q depth s'"
proof -
  have "enqueued_frame items f err s s' \<and> owns (items (s_world s')) s' \<and> within items depth s s' \<and>
      (\<exists>st. s_ctx s' = (s_ctx s)\<lparr>cx_signal_pool_stats := st\<rparr>)"
    by (rule task_queue.enqueue_signal_owned [OF assms(1-3) _ _ _ assms(4,8)])
      (use assms(5) in \<open>simp_all add: runtime_inv_def\<close>)
  then show ?thesis
    using assms(5-7) by (auto simp: enqueued_frame_def runtime_inv_def within_def)
qed

lemma demo_channel_valid: "validate_signal_frame (Some demo_channel_frame) = ESP_OK"
  by code_simp

lemma arena_empty: "arena 9 Map.empty n = 1"
  by (simp add: arena_def upt_rec numeral_eq_Suc)

lemma sim_enqueue_frame:
  "fst (run_state (aetus_enqueue_signal_frame (sim_platform 9 4) (Some demo_channel_frame) 0) sim_started) = ESP_OK"
proof -
  have d: "fr_samples_size demo_channel_frame = 2" "fr_samples demo_channel_frame = Samples_mem [1, 2]"
    by (simp_all add: demo_channel_frame_def demo_frame_def)
  show ?thesis
    by (simp add: aetus_enqueue_signal_frame_def run_bind run_steps run_return_on demo_channel_valid d
      aetus_signal_sample_pool_alloc_def pvPortMalloc_def arena_empty sim_platform_def sim_send_def sim_started_def
      sim_boot_def sim_world_def Let_def c_defs)
qed

theorem enqueue_signal_frame_outcome_witness:
  "\<exists>s' p. run_state (aetus_enqueue_signal_frame (sim_platform 9 4) (Some demo_channel_frame) 0) sim_started = (ESP_OK, s') \<and>
     sim_items (s_world s') = [signal_item demo_channel_frame p (Samples_block p)] \<and>
     blocks (s_heap s') p = Some (Sample_block 2 [1, 2]) \<and> runtime_inv sim_items 1 4 s'"
proof -
  let ?r = "run_state (aetus_enqueue_signal_frame (sim_platform 9 4) (Some demo_channel_frame) 0) sim_started"
  obtain s' where r: "?r = (ESP_OK, s')" using sim_enqueue_frame by (cases ?r) simp
  have d: "fr_samples demo_channel_frame = Samples_mem [1, 2]" "fr_samples_size demo_channel_frame = 2"
    by (simp_all add: demo_channel_frame_def demo_frame_def)
  have "unat (fr_samples_size demo_channel_frame) \<le> length [1, 2 :: byte]" "sim_items (s_world sim_started) = []"
    by (simp_all add: d sim_started_def sim_boot_def sim_world_def)
  with enqueue_signal_frame_outcome [OF sim.task_queue_axioms [of 9 4 1] _ _ _ sim_started_inv d(1) _ r] d
  show ?thesis using r by (auto simp: sim_malloc arena_ok)
qed

text \<open>
  The round trip of the clock, \<open>rtc_roundtrip\<close>, at a time of the year 2020 on this platform: the clock keeps the
  microseconds of the server's nanoseconds.
\<close>

theorem rtc_roundtrip_witness:
  "\<exists>s'. run_state (set_rtc_from_unix_time_ns (sim_platform 9 4) 1600000000123456789) sim_started = (ESP_OK, s') \<and>
     fst (run_state (aetus_rtc_timestamp_ns (sim_platform 9 4) True) s') = Inr 1600000000123456000"
proof -
  obtain err s' where r: "run_state (set_rtc_from_unix_time_ns (sim_platform 9 4) 1600000000123456789) sim_started = (err, s')"
    by (cases "run_state (set_rtc_from_unix_time_ns (sim_platform 9 4) 1600000000123456789) sim_started")
  moreover have "err = ESP_OK"
    using r by (auto simp: set_rtc_from_unix_time_ns_def sim_platform_def Let_def run_simps c_defs)
  ultimately show ?thesis
    using rtc_roundtrip [OF sim_clock_ok r] by (intro exI [of _ s']) simp
qed

end
