(* ===== verification/Deliver.thy ===== *)
theory Deliver
  imports SimPlatform SignalEncodeProps
begin

text \<open>
  Delivery, end to end: a drain over a working network posts one authenticated request per item it can encode, in the
  order of the queue, with consecutive sequence numbers, and a protobuf reader of the bodies finds exactly what was
  enqueued. \<open>delivery\<close> extends the queue contract by the record of the requests the HTTP client performs.
\<close>

section \<open>What an item says\<close>

definition item_body :: "heap \<Rightarrow> aetus_queue_item \<Rightarrow> decoded_body" where
  "item_body h it =
     (case qi_body it of
        Body_telemetry t \<Rightarrow> Metrics (map (\<lambda>(k, u, v). (k, u, wire_value v)) (contents h t))
      | Body_status s \<Rightarrow> Status (unat (map_device_status (st_status s))) (sint (st_rssi s)) (unat (st_free_heap s))
          (take 23 (cstr (st_reboot_reason s)))
      | Body_signal_frame f \<Rightarrow> Signal (cstr (fr_stream_key f)) (unat (fr_sample_interval_ns f))
          (unat (fr_sample_count f)) (unat (map_signal_encoding (fr_encoding f)))
          (unat (map_signal_layout (fr_layout f))) (map decoded_of (frame_channels f)) (frame_samples h f))"

text \<open>
  What the types of the code say of an item: the blobs of an object fit the memory (less than 2 GiB), the arrays of a
  frame have their sizes.
\<close>

definition item_sound :: "heap \<Rightarrow> aetus_queue_item \<Rightarrow> bool" where
  "item_sound h it =
     (case qi_body it of
        Body_telemetry t \<Rightarrow> blob_bytes h t < 2 ^ 31
      | Body_status s \<Rightarrow> True
      | Body_signal_frame f \<Rightarrow> wf_frame f)"

text \<open>
  Items the encoder can always write: telemetry without empty byte blobs whose metrics take at most 3981 bytes, so that
  they fit the buffer with any header; every status; every valid frame.
\<close>

definition sendable :: "heap \<Rightarrow> aetus_queue_item \<Rightarrow> bool" where
  "sendable h it =
     (case qi_body it of
        Body_telemetry t \<Rightarrow> list_all encodable (metrics_of h t) \<and> blob_bytes h t < 2 ^ 31 \<and>
          length (telemetry_payload h t) \<le> 3981
      | Body_status s \<Rightarrow> True
      | Body_signal_frame f \<Rightarrow> wf_frame f \<and> validate_signal_frame (Some f) = ESP_OK)"

lemma signal_item_facts:
  assumes ok: "item_ok h it" and b: "qi_body it = Body_signal_frame f" and p: "p = qi_signal_sample_owner it"
  shows "qi_kind it = AETUS_QUEUE_ITEM_SIGNAL_FRAME" "fr_samples f = Samples_block p"
    "is_sample_block h p" "sample_block_size h p = fr_samples_size f"
proof -
  have eq: "it = signal_item f p (Samples_block p)" using ok b p by (simp add: item_ok_def)
  then show "qi_kind it = AETUS_QUEUE_ITEM_SIGNAL_FRAME" by (simp add: signal_item_def)
  have "Body_signal_frame f = Body_signal_frame (f\<lparr>fr_samples := Samples_block p\<rparr>)"
    using b by (subst (asm) eq) (simp add: signal_item_def)
  then have "fr_samples f = fr_samples (f\<lparr>fr_samples := Samples_block p\<rparr>)" by (metis queue_body.inject(3))
  then show "fr_samples f = Samples_block p" by simp
qed (use ok b p in \<open>simp_all add: item_ok_def\<close>)

lemma sendable_sound: "sendable h it \<Longrightarrow> item_sound h it"
  by (auto simp: sendable_def item_sound_def split: queue_body.split)

text \<open>What is encoded says what the item says.\<close>

lemma encode_item_decodes:
  assumes ok: "item_ok h it" and s: "item_sound h it"
    and e: "encode_queue_item ctx now h it AETUS_ENCODE_BUFFER_BYTES = Some bytes"
  shows "\<exists>ev. decode_event bytes = Some ev \<and> de_sequence ev = unat (cx_sequence ctx) \<and> de_body ev = item_body h it"
proof (cases "qi_body it")
  case (Body_telemetry t)
  then have it: "it = telemetry_item t" "wf_telemetry h t" using ok by (simp_all add: item_ok_def)
  have "blob_bytes h t < 2 ^ 31" using s Body_telemetry by (simp add: item_sound_def)
  from encode_telemetry_decodes [OF it(2) this, of ctx now AETUS_ENCODE_BUFFER_BYTES bytes] e show ?thesis
    by (simp add: encode_queue_item_def it(1) telemetry_item_def item_body_def)
next
  case (Body_status st)
  then have it: "it = status_item st" using ok by (simp add: item_ok_def)
  have "150 \<le> unat AETUS_ENCODE_BUFFER_BYTES" by (simp add: c_defs)
  from encode_status_decodes [OF this, of ctx now st] e show ?thesis
    by (auto simp: encode_queue_item_def it status_item_def item_body_def)
next
  case (Body_signal_frame f)
  note it = signal_item_facts [OF ok Body_signal_frame refl]
  have "unat (fr_samples_size f) \<le> length (samples_at h (fr_samples f))"
    using it(3,4) by (auto simp: it(2) samples_at_def is_sample_block_def sample_block_size_def
        split: option.splits block.splits)
  moreover have "2912 \<le> unat AETUS_ENCODE_BUFFER_BYTES" by (simp add: c_defs)
  moreover have "wf_frame f" "encode_signal_frame ctx now h f AETUS_ENCODE_BUFFER_BYTES = Some bytes"
    using s e Body_signal_frame it(1) by (simp_all add: item_sound_def encode_queue_item_def)
  moreover have "validate_signal_frame (Some f) = ESP_OK"
    using calculation(4) by (simp add: encode_signal_frame_def split: if_splits)
  ultimately show ?thesis
    using encode_signal_frame_decodes [of f h AETUS_ENCODE_BUFFER_BYTES ctx now] Body_signal_frame
    by (auto simp: item_body_def)
qed

lemma encode_sendable:
  assumes ok: "item_ok h it" and s: "sendable h it"
  shows "encode_queue_item ctx now h it AETUS_ENCODE_BUFFER_BYTES \<noteq> None"
proof (cases "qi_body it")
  case (Body_telemetry t)
  then have it: "it = telemetry_item t" "wf_telemetry h t" using ok by (simp_all add: item_ok_def)
  have e: "list_all encodable (metrics_of h t)" "blob_bytes h t < 2 ^ 31" "length (telemetry_payload h t) \<le> 3981"
    using s Body_telemetry by (simp_all add: sendable_def)
  have "encode_telemetry ctx now h t AETUS_ENCODE_BUFFER_BYTES \<noteq> None"
    using encode_telemetry_result(1) [OF it(2) e(2), of ctx now AETUS_ENCODE_BUFFER_BYTES]
      encode_telemetry_result(2) [OF it(2) e(2,1), of ctx now] e(1,3)
    by (simp add: Let_def c_defs del: put_record.simps)
  then show ?thesis by (simp add: encode_queue_item_def it(1) telemetry_item_def)
next
  case (Body_status st)
  then have it: "it = status_item st" using ok by (simp add: item_ok_def)
  have "150 \<le> unat AETUS_ENCODE_BUFFER_BYTES" by (simp add: c_defs)
  from encode_status_decodes [OF this, of ctx now st] show ?thesis
    by (auto simp: encode_queue_item_def it status_item_def)
next
  case (Body_signal_frame f)
  note it = signal_item_facts [OF ok Body_signal_frame refl]
  have "unat (fr_samples_size f) \<le> length (samples_at h (fr_samples f))"
    using it(3,4) by (auto simp: it(2) samples_at_def is_sample_block_def sample_block_size_def
        split: option.splits block.splits)
  moreover have "2912 \<le> unat AETUS_ENCODE_BUFFER_BYTES" by (simp add: c_defs)
  ultimately show ?thesis
    using encode_signal_frame_decodes [of f h AETUS_ENCODE_BUFFER_BYTES ctx now] s Body_signal_frame it(1)
    by (auto simp: sendable_def encode_queue_item_def)
qed

section \<open>Frames\<close>

lemma value_recs_same:
  assumes "metric_ok h m" "encodable m" "\<And>a. a \<in> set (blob_addrs m) \<Longrightarrow> blocks h' a = blocks h a"
    "blocks h' 0 = blocks h 0"
  shows "metric_bytes h' m = metric_bytes h m"
proof -
  have "blob_at h' (blob_data m) = blob_at h (blob_data m)"
    if "m_type m = AETUS_METRIC_VALUE_STRING \<or> m_type m = AETUS_METRIC_VALUE_BYTES"
    using that assms(3,4) by (cases "blob_data m = 0") (auto simp: blob_at_def blob_addrs_def is_blob_def)
  then have "value_recs h' m = value_recs h m"
    by (auto simp: value_recs_def split: aetus_metric_value_type.split)
  then show ?thesis by (simp add: metric_bytes_def metric_recs_def)
qed

lemma item_says_same:
  assumes ok: "item_ok h it" and b: "\<forall>a \<in> set (item_owned h it). blocks h' a = blocks h a" "blocks h' 0 = blocks h 0"
  shows "sendable h it \<Longrightarrow> sendable h' it" "item_body h' it = item_body h it" "item_sound h' it = item_sound h it"
proof -
  have "(sendable h it \<longrightarrow> sendable h' it) \<and> item_body h' it = item_body h it \<and> item_sound h' it = item_sound h it"
  proof (cases "qi_body it")
    case (Body_telemetry t)
    then have w: "wf_telemetry h t" "\<forall>a \<in> set (owned h t). blocks h' a = blocks h a"
      using ok b by (simp_all add: item_ok_def item_owned_def)
    note same = wf_same [OF w b(2)]
    have mo: "metrics_of h' t = metrics_of h t" using same(1) by (simp add: metrics_of_def)
    have "metric_bytes h' m = metric_bytes h m" if "m \<in> set (metrics_of h t)" "encodable m" for m
      by (rule value_recs_same) (use w b(2) that in \<open>auto simp: wf_telemetry_def owned_def\<close>)
    then have "telemetry_payload h' t = telemetry_payload h t" if "list_all encodable (metrics_of h t)"
      using that by (auto simp: telemetry_payload_def metrics_recs_def mo list_all_iff simp del: put_record.simps
          intro!: arg_cong [of _ _ put_record] arg_cong [of _ _ concat])
    then show ?thesis
      using Body_telemetry same(4) by (simp add: sendable_def item_sound_def item_body_def blob_bytes_def mo)
  next
    case (Body_signal_frame f)
    let ?p = "qi_signal_sample_owner it"
    have "fr_samples f = Samples_block ?p" by (rule signal_item_facts(2) [OF ok Body_signal_frame refl])
    then have "frame_samples h' f = frame_samples h f"
      using Body_signal_frame b(1) by (simp add: frame_samples_def samples_at_def item_owned_def)
    then show ?thesis using Body_signal_frame by (simp add: sendable_def item_sound_def item_body_def)
  qed (simp add: sendable_def item_sound_def item_body_def)
  then show "sendable h it \<Longrightarrow> sendable h' it" "item_body h' it = item_body h it" "item_sound h' it = item_sound h it"
    by blast+
qed

section \<open>The network\<close>

text \<open>A network on which every request reaches the server and is accepted.\<close>

definition delivers :: "'w platform \<Rightarrow> bool" where
  "delivers P \<longleftrightarrow>
     (\<forall>u w. fst (esp_http_client_init P u w)) \<and>
     (\<forall>rq w. case fst (esp_http_client_perform P rq w) of
        (events, err, status) \<Rightarrow> err = ESP_OK \<and> 200 \<le> status \<and> status < 300)"

text \<open>
  The request of an upload, and its authentication: the bearer token, or the signature of the body where the
  configuration asks for one.
\<close>

definition upload_request :: "aetus_config \<Rightarrow> string \<times> byte list \<Rightarrow> byte list \<Rightarrow> http_request" where
  "upload_request cfg auth payload =
     \<lparr>rq_url = ostr (ingest_url cfg), rq_post = True,
      rq_headers = [(''Content-Type'', str ''application/x-protobuf''), (''X-Device-Id'', ostr (device_id cfg)), auth],
      rq_body = payload\<rparr>"

definition authentic :: "'m md_api \<Rightarrow> aetus_ctx \<Rightarrow> http_request \<Rightarrow> bool" where
  "authentic md ctx rq \<longleftrightarrow>
     (if auth_mode (cx_config ctx) = AETUS_AUTH_HMAC_SHA256
      then \<exists>header. hmac_signature_header md ctx (rq_body rq) (length (rq_body rq)) 96 = Inr header \<and>
        rq = upload_request (cx_config ctx) (''X-Aetus-Signature'', cstr header) (rq_body rq)
      else rq = upload_request (cx_config ctx) (''Authorization'', bearer_header ctx) (rq_body rq))"

lemma authentic_cong:
  assumes "cx_config ctx' = cx_config ctx"
  shows "authentic md ctx' = authentic md ctx"
proof -
  have "hmac_signature_header md ctx' p n k = hmac_signature_header md ctx p n k" for p n k
    unfolding hmac_signature_header_def assms ..
  then show ?thesis using assms by (simp add: fun_eq_iff authentic_def bearer_header_def)
qed

text \<open>A context whose uploads can be authenticated: by the token, or by a digest that does not fail.\<close>

definition can_sign :: "'m md_api \<Rightarrow> aetus_config \<Rightarrow> bool" where
  "can_sign md cfg \<longleftrightarrow>
     auth_mode cfg = AETUS_AUTH_BEARER \<or> md_reliable md \<and> length (ostr (device_id cfg)) \<le> 63"

text \<open>The requests \<open>rqs\<close> carry the items of a list, in order, with sequence numbers counted from \<open>n\<close>.\<close>

fun delivered :: "heap \<Rightarrow> u64 \<Rightarrow> aetus_queue_item list \<Rightarrow> http_request list \<Rightarrow> bool" where
  "delivered h n [] [] = True"
| "delivered h n (it # L) (rq # rqs) =
     ((case decode_event (rq_body rq) of None \<Rightarrow> False
       | Some ev \<Rightarrow> de_sequence ev = unat n \<and> de_body ev = item_body h it) \<and> delivered h (n + 1) L rqs)"
| "delivered h n _ _ = False"

lemma delivered_append:
  "delivered h n A ra \<Longrightarrow> delivered h (n + of_nat (length A)) B rb \<Longrightarrow> delivered h n (A @ B) (ra @ rb)"
  by (induction h n A ra rule: delivered.induct) (simp_all add: add.assoc)

text \<open>The items of a drain that were uploaded.\<close>

definition sent :: "aetus_queue_item list \<Rightarrow> fate list \<Rightarrow> aetus_queue_item list" where
  "sent L fs = map fst (filter (\<lambda>(it, f). f = Uploaded) (zip L fs))"

lemma sent_simps [simp]:
  "sent [] fs = []" "sent L [] = []" "sent (it # L) (f # fs) = (if f = Uploaded then [it] else []) @ sent L fs"
  by (simp_all add: sent_def)

lemma sent_length: "length fs = length L \<Longrightarrow> length (sent L fs) = fates_of Uploaded fs"
  by (induction fs L rule: list_induct2) simp_all

lemma sent_items: "set (sent L fs) \<subseteq> set L"
  by (auto simp: sent_def dest: set_zip_leftD)

lemma delivered_cong:
  "(\<And>it. it \<in> set L \<Longrightarrow> item_body h' it = item_body h it) \<Longrightarrow> delivered h' n L rqs = delivered h n L rqs"
  by (induction h n L rqs rule: delivered.induct) (auto split: option.split)

locale delivery = task_queue P items q depth + log: local_platform P posts
  for P :: "'w platform" and items q depth and posts :: "'w \<Rightarrow> http_request list" +
  assumes receive_log: "keeps posts (xQueueReceive P q 0)"
    and perform_log: "posts (snd (esp_http_client_perform P rq w)) = posts w @ [rq]"
begin

lemma log_call: "keeps posts f \<Longrightarrow> run_state (call f) s = (a, s') \<Longrightarrow> posts (s_world s') = posts (s_world s)"
  by (auto simp: run_steps keeps_def split: prod.splits) (metis snd_conv)

lemma post_delivered:
  assumes d: "delivers P" and h: "\<not> fake_post (s_test_runtime_hooks s)" and c: "can_sign md (cx_config (s_ctx s))"
  shows "\<exists>s' rq. run_state (post_payload P md payload) s = (ESP_OK, s') \<and> posts (s_world s') = posts (s_world s) @ [rq] \<and>
    rq_body rq = payload \<and> authentic md (s_ctx s) rq"
proof -
  let ?cfg = "cx_config (s_ctx s)"
  let ?sig = "hmac_signature_header md (s_ctx s) payload (length payload) 96"
  let ?auth = "if auth_mode ?cfg = AETUS_AUTH_HMAC_SHA256
    then (case ?sig of Inl err \<Rightarrow> Inl err | Inr header \<Rightarrow> Inr (''X-Aetus-Signature'', cstr header))
    else Inr (''Authorization'', bearer_header (s_ctx s))"
  have "\<exists>header. ?sig = Inr header" if "auth_mode ?cfg = AETUS_AUTH_HMAC_SHA256"
    using c that signature_produced [of md "s_ctx s" payload] by (auto simp: can_sign_def)
  then obtain auth where auth: "?auth = Inr auth" by fastforce
  let ?rq = "upload_request ?cfg auth payload"
  have rq: "rq_body ?rq = payload" by (simp add: upload_request_def)
  have au: "authentic md (s_ctx s) ?rq"
    using auth by (auto simp: authentic_def rq split: if_splits sum.splits)
  obtain c w1 where i': "esp_http_client_init P (ostr (ingest_url ?cfg)) (s_world s) = (c, w1)"
    by (cases "esp_http_client_init P (ostr (ingest_url ?cfg)) (s_world s)")
  have "fst (esp_http_client_init P (ostr (ingest_url ?cfg)) (s_world s))" using d unfolding delivers_def by blast
  then have i: "esp_http_client_init P (ostr (ingest_url ?cfg)) (s_world s) = (True, w1)" by (simp add: i')
  obtain ev err st w2 where p: "esp_http_client_perform P ?rq w1 = ((ev, err, st), w2)"
    by (metis prod_cases3 surj_pair)
  obtain w3 where cl: "esp_http_client_cleanup P w2 = ((), w3)" by (cases "esp_http_client_cleanup P w2") auto
  have ok: "err = ESP_OK" "200 \<le> st" "st < 300"
    using d [unfolded delivers_def, THEN conjunct2, THEN spec [of _ ?rq], THEN spec [of _ w1]] by (simp_all add: p)
  have "run_state (post_payload P md payload) s = (ESP_OK, s\<lparr>s_world := w3\<rparr>)"
    using h i p cl ok auth
    by (cases "auth_mode ?cfg = AETUS_AUTH_HMAC_SHA256")
      (auto simp: post_payload_def upload_request_def run_bind run_steps split: sum.splits)
  moreover have "posts w1 = posts (s_world s)" "posts w3 = posts w2"
    using log.calls i cl unfolding local_calls_def keeps_def by (metis snd_conv)+
  moreover have "posts w2 = posts w1 @ [?rq]" using perform_log [of ?rq w1] p by simp
  ultimately show ?thesis using rq au by (intro exI [of _ "s\<lparr>s_world := w3\<rparr>"] exI [of _ ?rq]) simp
qed

text \<open>One item: uploaded by one request, or not encodable and gone without one.\<close>

lemma drain_item_delivers:
  assumes o: "owns (x # items (s_world s)) s" and so: "item_sound (s_heap s) x" and f: "f = item_fate P md x s"
    and d: "delivers P" "\<not> fake_post (s_test_runtime_hooks s)" "can_sign md (cx_config (s_ctx s))"
  shows "\<exists>s' rqs. run_state (drain_item P md x) s = (Drain_continue (f = Uploaded), s') \<and> goes_on f \<and>
    item_done items x (f = Uploaded) s s' \<and> posts (s_world s') = posts (s_world s) @ rqs \<and>
    delivered (s_heap s) (cx_sequence (s_ctx s)) (if f = Uploaded then [x] else []) rqs \<and>
    list_all (authentic md (s_ctx s)) rqs \<and> (sendable (s_heap s) x \<longrightarrow> f = Uploaded)"
proof -
  obtain now sa where a: "run_state (call (esp_timer_get_time P)) s = (now, sa)"
    by (cases "run_state (call (esp_timer_get_time P)) s")
  have sa: "s_ctx sa = s_ctx s" "s_heap sa = s_heap s" "s_test_runtime_hooks sa = s_test_runtime_hooks s"
    using a by (auto simp: run_steps split: prod.splits)
  have pa: "posts (s_world sa) = posts (s_world s)"
    using log_call [OF _ a] log.calls by (simp add: local_calls_def)
  have ok: "item_ok (s_heap s) x" using o by (simp add: owns_def)
  show ?thesis
  proof (cases "encode_queue_item (s_ctx s) now (s_heap s) x AETUS_ENCODE_BUFFER_BYTES")
    case None
    obtain s' where "run_state (drain_item P md x) s = (Drain_continue False, s')" "item_done items x False s s'"
      "s_world s' = s_world sa"
      using drain_item_unencodable [OF o a, of md] None sa by auto
    moreover have "f = Unencodable" using None by (simp add: f item_fate_def a sa)
    moreover have "\<not> sendable (s_heap s) x" using encode_sendable [OF ok] None by blast
    ultimately show ?thesis using pa by (intro exI [of _ s'] exI [of _ "[]"]) (simp add: goes_on_def)
  next
    case (Some payload)
    obtain sb rq where b: "run_state (post_payload P md payload) sa = (ESP_OK, sb)"
      "posts (s_world sb) = posts (s_world sa) @ [rq]" "rq_body rq = payload" "authentic md (s_ctx sa) rq"
      using post_delivered [OF d(1), of sa md payload] d(2,3) sa by auto
    obtain s' where "run_state (drain_item P md x) s = (Drain_continue True, s')" "item_done items x True s s'"
      "s_world s' = s_world sb"
      using drain_item_uploaded [OF o a _ b(1)] Some sa by auto
    moreover have "f = Uploaded" using Some by (simp add: f item_fate_def a sa b(1))
    moreover have "delivered (s_heap s) (cx_sequence (s_ctx s)) [x] [rq]"
      using encode_item_decodes [OF ok so Some] b(3) by auto
    ultimately show ?thesis
      using pa b sa by (intro exI [of _ s'] exI [of _ "[rq]"]) (simp add: goes_on_def)
  qed
qed

text \<open>The items behind \<open>x\<close> say the same after its release.\<close>

lemma items_say_same:
  assumes o: "owns (x # L) s" and d: "item_done items x up s s1" "L = items (s_world s)" and y: "y \<in> set L"
  shows "sendable (s_heap s) y \<Longrightarrow> sendable (s_heap s1) y" "item_body (s_heap s1) y = item_body (s_heap s) y"
    "item_sound (s_heap s1) y = item_sound (s_heap s) y"
proof -
  have ok: "item_ok (s_heap s) y" and dj: "set (item_owned (s_heap s) x) \<inter> set (queue_owned (s_heap s) L) = {}"
    using o y by (auto simp: owns_def)
  have "set (item_owned (s_heap s) y) \<subseteq> set (queue_owned (s_heap s) L)" using y by (auto simp: queue_owned_def)
  then have "\<forall>a \<in> set (item_owned (s_heap s) y). blocks (s_heap s1) a = blocks (s_heap s) a"
    using dj d by (auto simp: item_done_def freed_def)
  moreover have "blocks (s_heap s1) 0 = blocks (s_heap s) 0" using o d by (simp add: owns_def item_done_def freed_def)
  ultimately show "sendable (s_heap s) y \<Longrightarrow> sendable (s_heap s1) y"
    "item_body (s_heap s1) y = item_body (s_heap s) y" "item_sound (s_heap s1) y = item_sound (s_heap s) y"
    using item_says_same [OF ok] by blast+
qed

lemma loop_delivers:
  assumes "owns (items (s_world s)) s" "cx_queue (s_ctx s) = q" "\<forall>it \<in> set (items (s_world s)). item_sound (s_heap s) it"
    and "delivers P" "\<not> fake_post (s_test_runtime_hooks s)" "can_sign md (cx_config (s_ctx s))"
    and "L = items (s_world s)" "fs = drain_fates P md L s"
  shows "\<exists>up' s' rqs. drain_loop P md up s = Some (up', s') \<and> posts (s_world s') = posts (s_world s) @ rqs \<and>
    (\<forall>f \<in> set fs. goes_on f) \<and> delivered (s_heap s) (cx_sequence (s_ctx s)) (sent L fs) rqs \<and>
    list_all (authentic md (s_ctx s)) rqs \<and> (\<forall>(it, f) \<in> set (zip L fs). sendable (s_heap s) it \<longrightarrow> f = Uploaded)"
  using assms(1-3,5-)
proof (induction L arbitrary: s up fs)
  case Nil
  obtain r w where rc: "xQueueReceive P q 0 (s_world s) = (r, w)" by (cases "xQueueReceive P q 0 (s_world s)")
  have "r = None" using receive_empty [OF Nil.prems(6) [symmetric] rc] by simp
  then have "run_state (drain_round P md) s = (Drain_stop, s\<lparr>s_world := w\<rparr>)"
    using Nil.prems rc by (simp add: drain_round_def run_bind run_steps)
  then have "drain_loop P md up s = Some (up, s\<lparr>s_world := w\<rparr>)" by (subst drain_loop.simps) simp
  moreover have "posts w = posts (s_world s)" using receive_log rc by (metis keeps_def snd_conv)
  ultimately show ?case using Nil.prems(7) by simp
next
  case (Cons x L)
  note iL = Cons.prems(6) [symmetric]
  obtain r w where rc: "xQueueReceive P q 0 (s_world s) = (r, w)" by (cases "xQueueReceive P q 0 (s_world s)")
  let ?s = "s\<lparr>s_world := w\<rparr>" and ?f = "item_fate P md x (received P s)"
  have rs: "received P s = ?s" using Cons.prems(2) by (simp add: received_def rc)
  have rx: "r = Some x" "items w = L" using receive [OF iL rc] by simp_all
  have pw: "posts w = posts (s_world s)" using receive_log rc by (metis keeps_def snd_conv)
  have o: "owns (x # items (s_world ?s)) ?s" using Cons.prems(1) rx iL by (simp add: owns_def)
  have so: "item_sound (s_heap ?s) x" using Cons.prems(3) iL by simp
  obtain s1 rqs where it: "run_state (drain_item P md x) ?s = (Drain_continue (?f = Uploaded), s1)" "goes_on ?f"
      "item_done items x (?f = Uploaded) ?s s1" "posts (s_world s1) = posts w @ rqs"
      "delivered (s_heap s) (cx_sequence (s_ctx s)) (if ?f = Uploaded then [x] else []) rqs"
      "list_all (authentic md (s_ctx s)) rqs" "sendable (s_heap s) x \<longrightarrow> ?f = Uploaded"
    using drain_item_delivers [OF o so arg_cong [of _ _ "item_fate P md x", OF rs] assms(4)] Cons.prems(4,5) by auto
  have i1: "owns (items (s_world s1)) s1" "cx_queue (s_ctx s1) = q" "L = items (s_world s1)"
    "cx_config (s_ctx s1) = cx_config (s_ctx s)" "\<not> fake_post (s_test_runtime_hooks s1)"
    "cx_sequence (s_ctx s1) = cx_sequence (s_ctx s) + of_nat (length (if ?f = Uploaded then [x] else []))"
    using it(3) rx Cons.prems(2,4) same_hooks_post [of ?s s1] by (auto simp: item_done_def)
  have L: "owns (x # L) ?s" "L = items (s_world ?s)" "s_heap ?s = s_heap s" using o rx by simp_all
  note ss = items_say_same [OF L(1) it(3) L(2), unfolded L(3)]
  have same: "sendable (s_heap s) y \<Longrightarrow> sendable (s_heap s1) y" "item_body (s_heap s1) y = item_body (s_heap s) y"
    "item_sound (s_heap s1) y = item_sound (s_heap s) y" if "y \<in> set L" for y
    using ss [OF that] by blast+
  let ?up = "if ?f = Uploaded then up + 1 else up" and ?fs = "drain_fates P md L s1"
  have rd: "run_state (drain_round P md) s = (Drain_continue (?f = Uploaded), s1)"
    using Cons.prems rc rx it by (simp add: drain_round_def run_bind run_steps)
  have fs: "fs = ?f # ?fs" using Cons.prems(7) it(2) by (simp add: rd Let_def)
  obtain up' s' rqs' where ih: "drain_loop P md ?up s1 = Some (up', s')" "posts (s_world s') = posts (s_world s1) @ rqs'"
      "\<forall>f \<in> set ?fs. goes_on f" "delivered (s_heap s1) (cx_sequence (s_ctx s1)) (sent L ?fs) rqs'"
      "list_all (authentic md (s_ctx s1)) rqs'" "\<forall>(it, f) \<in> set (zip L ?fs). sendable (s_heap s1) it \<longrightarrow> f = Uploaded"
    using Cons.IH [OF i1(1,2) _ i1(5) _ i1(3) refl, of ?up] same(3) Cons.prems(3,5) iL i1(3,4) by fastforce
  have "drain_loop P md up s = Some (up', s')" by (subst drain_loop.simps) (simp add: rd ih(1))
  moreover have "delivered (s_heap s) (cx_sequence (s_ctx s1)) (sent L ?fs) rqs'"
    using ih(4) delivered_cong [of "sent L ?fs" "s_heap s1" "s_heap s"] same(2) sent_items [of L ?fs] by blast
  moreover have "\<forall>(it, f) \<in> set (zip L ?fs). sendable (s_heap s) it \<longrightarrow> f = Uploaded"
    using ih(6) same(1) set_zip_leftD [of _ _ L ?fs] by fast
  ultimately show ?case
    using ih(2,3,5) it(2,4-7) pw i1(4,6) delivered_append [OF it(5)] authentic_cong [OF i1(4), of md]
    by (intro exI [of _ up'] exI [of _ s'] exI [of _ "rqs @ rqs'"]) (simp add: fs)
qed

lemma drain_delivers:
  assumes i: "runtime_inv items q depth s" and so: "\<forall>it \<in> set (items (s_world s)). item_sound (s_heap s) it"
    and d: "delivers P" "\<not> fake_post (s_test_runtime_hooks s)" "can_sign md (cx_config (s_ctx s))"
    and w: "fst (run_state (wifi_wait_connected P) s) = ESP_OK"
    and L: "L = items (s_world s)" and fs: "fs = queue_fates P md L s"
  shows "\<exists>s' rqs. drain_queue P md s = Some s' \<and> items (s_world s') = [] \<and> length fs = length L \<and>
    (\<forall>f \<in> set fs. f = Uploaded \<or> f = Unencodable) \<and> posts (s_world s') = posts (s_world s) @ rqs \<and>
    delivered (s_heap s) (cx_sequence (s_ctx s)) (sent L fs) rqs \<and> list_all (authentic md (s_ctx s)) rqs \<and>
    (\<forall>(it, f) \<in> set (zip L fs). sendable (s_heap s) it \<longrightarrow> f = Uploaded) \<and>
    cx_sequence (s_ctx s') = cx_sequence (s_ctx s) + of_nat (length (sent L fs))"
proof -
  obtain sa where a: "run_state (wifi_wait_connected P) s = (ESP_OK, sa)" using w by (metis prod.collapse)
  have qa: "quiet items s sa" using stepsD [OF quiet_wait a [unfolded wifi_wait_connected_def]] .
  have la: "posts (s_world sa) = posts (s_world s)"
    using stepsD [OF log.quiet_wait a [unfolded wifi_wait_connected_def]] by (simp add: quiet_def)
  have "same_hooks s sa" using qa by (simp add: quiet_def)
  from same_hooks_post [OF this] have sa: "owns (items (s_world sa)) sa" "cx_queue (s_ctx sa) = q"
    "\<forall>it \<in> set (items (s_world sa)). item_sound (s_heap sa) it" "\<not> fake_post (s_test_runtime_hooks sa)"
    "can_sign md (cx_config (s_ctx sa))" "L = items (s_world sa)"
    using i so d L owns_quiet [OF qa] quietD [OF qa] by (simp_all add: runtime_inv_def)
  have fsa: "fs = drain_fates P md L sa" by (simp add: fs queue_fates_def a)
  from loop_delivers [OF sa(1-3) d(1) sa(4-6) fsa, of 0] obtain up' s' rqs where
    l: "drain_loop P md 0 sa = Some (up', s')" "posts (s_world s') = posts (s_world s) @ rqs"
      "\<forall>f \<in> set fs. goes_on f" "delivered (s_heap s) (cx_sequence (s_ctx s)) (sent L fs) rqs"
      "list_all (authentic md (s_ctx sa)) rqs" "\<forall>(it, f) \<in> set (zip L fs). sendable (s_heap s) it \<longrightarrow> f = Uploaded"
    using la quietD [OF qa] by auto
  have dq: "drain_queue P md s = Some (set_done P s')" using l a by (simp add: drain_queue_def)
  have "owns (items (s_world s)) s" "cx_queue (s_ctx s) = q" using i by (simp_all add: runtime_inv_def)
  from drain_queue_drains [OF this, of md] obtain s2 where "drain_queue P md s = Some (set_done P s2)"
    "drained items fs s (set_done P s2)" using fs L by blast
  with dq have dr: "drained items fs s (set_done P s')" by simp
  have len: "length fs = length L" using queue_fates_shape(3) [OF w] l(3) by (simp add: fs)
  moreover have "posts (s_world (set_done P s')) = posts (s_world s')"
    using log.calls by (simp add: set_done_def local_calls_def keeps_def)
  ultimately show ?thesis
    using dq dr l authentic_cong [OF quietD(5) [OF qa], of md]
    by (intro exI [of _ "set_done P s'"] exI [of _ rqs])
      (simp add: drained_def L [symmetric] gone_all sent_length [OF len] goes_on_def)
qed

end

section \<open>Property\<close>

text \<open>
  C2. With Wi-Fi up and a server that accepts every request, a drain delivers. It empties the queue; every item is
  either uploaded or, when it does not encode, dropped without a request. The uploaded ones make one POST each, in
  first-in-first-out order: to the ingest URL, with the bearer token or, in HMAC mode, the signature of the body; the body is an
  event whose sequence number counts on from the context's and whose contents a protobuf reader finds to be those of
  the item. The counter advances by the number of uploads. Every status, every valid frame, and all telemetry without empty
  byte blobs of at most 3981 bytes (\<open>sendable\<close>) is uploaded. It is assumed that each object in the queue has less than 2 GiB of blobs and
  each frame arrays of its sizes, and, in HMAC mode, that no call of the digest fails and the device id has at most 63
  characters, the limit of the configuration.
\<close>

theorem drain_delivers_all:
  assumes "delivery P items q depth posts" "runtime_inv items q depth s"
    and "list_all (item_sound (s_heap s)) (items (s_world s))" "delivers P"
    and "\<not> fake_post (s_test_runtime_hooks s)" "can_sign md (cx_config (s_ctx s))"
    and "fst (run_state (wifi_wait_connected P) s) = ESP_OK"
    and "L = items (s_world s)" "fs = queue_fates P md L s"
  shows "\<exists>s' rqs. drain_queue P md s = Some s' \<and> items (s_world s') = [] \<and> length fs = length L \<and>
    (\<forall>f \<in> set fs. f = Uploaded \<or> f = Unencodable) \<and> posts (s_world s') = posts (s_world s) @ rqs \<and>
    delivered (s_heap s) (cx_sequence (s_ctx s)) (sent L fs) rqs \<and> list_all (authentic md (s_ctx s)) rqs \<and>
    (\<forall>(it, f) \<in> set (zip L fs). sendable (s_heap s) it \<longrightarrow> f = Uploaded) \<and>
    cx_sequence (s_ctx s') = cx_sequence (s_ctx s) + of_nat (length (sent L fs))"
  using delivery.drain_delivers [OF assms(1,2) _ assms(4-9)] assms(3) by (simp add: list_all_iff)

interpretation sim_net: delivery "sim_platform cells depth" sim_items q depth sim_posts for cells depth q
proof
  show "local_calls (sim_platform cells depth) sim_posts"
    by (simp add: local_calls_def sim_platform_def keeps_def nop_def sim_wait_def)
qed (auto simp: keeps_def sim_platform_def sim_receive_def sim_perform_def split: list.splits)

lemma sim_delivers: "delivers (sim_platform cells depth)"
  by (simp add: delivers_def sim_platform_def nop_def sim_perform_def)

definition sim_queued :: "sim sys" where
  "sim_queued = sim_started\<lparr>s_world := sim_world\<lparr>sim_items := [status_item zero_status]\<rparr>\<rparr>"

lemma sim_queued_ok:
  "runtime_inv sim_items 1 4 sim_queued" "sim_items (s_world sim_queued) = [status_item zero_status]"
  "sendable (s_heap sim_queued) (status_item zero_status)"
  "\<not> fake_post (s_test_runtime_hooks sim_queued)" "can_sign md (cx_config (s_ctx sim_queued))"
  "cx_sequence (s_ctx sim_queued) = 0" "sim_posts (s_world sim_queued) = []"
proof -
  show "runtime_inv sim_items 1 4 sim_queued"
    using owns_status [of "[]" sim_started sim_queued zero_status] sim_started_inv [of 4]
    by (simp add: runtime_inv_def sim_queued_def sim_started_def sim_boot_def sim_world_def)
qed (simp_all add: sendable_def can_sign_def status_item_def sim_queued_def sim_started_def sim_boot_def sim_world_def zero_hooks_def
    sim_config_def zero_ctx_def)

lemma sim_connected: "fst (run_state (wifi_wait_connected (sim_platform 9 4)) sim_queued) = ESP_OK"
  by (simp add: wifi_wait_connected_def wifi_wait_connected_for_def wifi_start_def wifi_nvs_init_def
      wifi_apply_sta_config_def wifi_configure_peap_def ok_if_already_initialized_def run_bind run_steps run_return_on
      sim_platform_def nop_def sim_wait_def bit_defs sim_queued_def sim_started_def sim_boot_def sim_world_def
      zero_hooks_def sim_config_def zero_ctx_def Let_def)

theorem drain_delivers_all_witness:
  "\<exists>s' rq. drain_queue (sim_platform 9 4) (buffering_md pad32) sim_queued = Some s' \<and> sim_items (s_world s') = [] \<and>
     sim_posts (s_world s') = [rq] \<and> delivered (s_heap sim_queued) 0 [status_item zero_status] [rq] \<and>
     authentic (buffering_md pad32) (s_ctx sim_queued) rq"
proof -
  let ?L = "[status_item zero_status]" and ?P = "sim_platform 9 4"
  let ?fs = "queue_fates ?P (buffering_md pad32) ?L sim_queued"
  have "list_all (item_sound (s_heap sim_queued)) (sim_items (s_world sim_queued))"
    using sendable_sound [OF sim_queued_ok(3)] by (simp add: sim_queued_ok(2))
  from drain_delivers_all [OF sim_net.delivery_axioms [of 9 4 1] sim_queued_ok(1) this sim_delivers sim_queued_ok(4,5)
      sim_connected sim_queued_ok(2) [symmetric] refl]
  obtain s' rqs where r: "drain_queue ?P (buffering_md pad32) sim_queued = Some s'" "sim_items (s_world s') = []"
    "sim_posts (s_world s') = rqs" "length ?fs = 1" "delivered (s_heap sim_queued) 0 (sent ?L ?fs) rqs"
    "list_all (authentic (buffering_md pad32) (s_ctx sim_queued)) rqs"
    "\<forall>(it, f) \<in> set (zip ?L ?fs). sendable (s_heap sim_queued) it \<longrightarrow> f = Uploaded"
    unfolding sim_queued_ok(6,7) by force
  then have "?fs = [Uploaded]" using sim_queued_ok(3) by (cases ?fs) auto
  with r(5) have "delivered (s_heap sim_queued) 0 ?L rqs" by simp
  then obtain rq where "rqs = [rq]" by (cases rqs) (auto elim: delivered.elims)
  with r \<open>delivered (s_heap sim_queued) 0 ?L rqs\<close> show ?thesis by (intro exI [of _ s'] exI [of _ rq]) simp
qed

end
