(* ===== verification/ConfigProps.thy ===== *)
theory ConfigProps
  imports SimPlatform
begin

text \<open>
  The configuration of a running device: what \<open>aetus_start\<close> and \<open>aetus_update_config\<close> accept, when they store it, and
  which limits the stored configuration keeps. Its strings are memory of the callers, who may rewrite them at any time.
\<close>

section \<open>Checks in a row\<close>

lemma run_checks:
  "run_state (ESP_RETURN_ON_FALSES checks rest) s =
     (case find (\<lambda>(c, e). \<not> c) checks of None \<Rightarrow> run_state rest s | Some (c, e) \<Rightarrow> (e, s))"
  by (induction checks) (auto simp: ESP_RETURN_ON_FALSES_def run_simps)

lemma no_failed_check: "find (\<lambda>(c, e). \<not> c) checks = None \<longleftrightarrow> list_all fst checks"
  by (induction checks) auto

lemma failed_check: "find (\<lambda>(c, e). \<not> c) checks = Some (c, e) \<Longrightarrow> e \<in> snd ` set checks"
  by (auto simp: find_Some_iff intro!: image_eqI dest: nth_mem)

section \<open>Functions that keep the configuration\<close>

text \<open>Every platform keeps an empty observation of the world.\<close>

interpretation any: quiet_platform P "\<lambda>_. ()" for P
  by unfold_locales (simp_all add: local_calls_def keeps_def)

definition same_config :: "'w sys \<Rightarrow> 'w sys \<Rightarrow> bool" where
  "same_config s s' \<longleftrightarrow>
     cx_config (s_ctx s') = cx_config (s_ctx s) \<and> cx_queue (s_ctx s') = cx_queue (s_ctx s) \<and>
     cx_events (s_ctx s') = cx_events (s_ctx s)"

interpretation same_config: step_relation same_config
  by unfold_locales (auto simp: same_config_def)

lemma quiet_imp_same: "quiet items s s' \<Longrightarrow> same_config s s'"
  by (auto simp: quiet_def same_config_def)

lemma quiet_same_config: "steps (quiet (\<lambda>_. ())) m \<Longrightarrow> steps same_config m"
  unfolding steps_def using quiet_imp_same by blast

lemma same_config_call: "steps same_config (call f)"
  by (rule quiet_same_config) (simp add: quiet_call keeps_def)

lemma same_config_upd: "steps same_config (upd_ctx (\<lambda>c. c\<lparr>cx_wifi_reconfiguring := b\<rparr>))"
  by (simp add: steps_def run_steps same_config_def)

lemmas same_config_rules = same_config.rules same_config_call same_config_upd
  quiet_same_config [OF any.quiet_led] quiet_same_config [OF any.quiet_apply]

lemma same_config_update_wifi: "steps same_config (update_wifi P)"
  unfolding update_wifi_def by (intro same_config_rules)

section \<open>Updates\<close>

text \<open>\<open>aetus_update_config\<close> stores the configuration, pointers included, once its checks have passed.\<close>

definition config_stored :: "aetus_ctx \<Rightarrow> aetus_config \<Rightarrow> bool" where
  "config_stored ctx config \<longleftrightarrow>
     cx_queue ctx \<noteq> 0 \<and> list_all fst (update_checks (update_config_next ctx config))"

lemma update_checks_arg: "e \<in> snd ` set (update_checks c) \<Longrightarrow> e = ESP_ERR_INVALID_ARG"
  by (auto simp: update_checks_def split: if_splits)

lemma update_config_refused:
  assumes "\<not> config_stored (s_ctx s) c"
  shows "run_state (aetus_update_config P (Some c)) s =
    (if cx_queue (s_ctx s) = 0 then ESP_ERR_INVALID_STATE else ESP_ERR_INVALID_ARG, s)"
proof (cases "cx_queue (s_ctx s) = 0")
  case True
  then show ?thesis by (simp add: aetus_update_config_def run_simps)
next
  case False
  let ?checks = "update_checks (update_config_next (s_ctx s) c)"
  obtain b e where f: "find (\<lambda>(c, e). \<not> c) ?checks = Some (b, e)"
    using assms False no_failed_check [of ?checks] by (auto simp: config_stored_def)
  with failed_check [OF f] update_checks_arg have "e = ESP_ERR_INVALID_ARG" by blast
  with f False show ?thesis by (simp add: aetus_update_config_def run_simps run_checks Let_def)
qed

lemma update_config_accepted:
  assumes "config_stored (s_ctx s) c" and r: "run_state (aetus_update_config P (Some c)) s = (err, s')"
  shows "cx_config (s_ctx s') = update_config_next (s_ctx s) c" "cx_queue (s_ctx s') = cx_queue (s_ctx s)"
    "cx_events (s_ctx s') = cx_events (s_ctx s)"
proof -
  let ?next = "update_config_next (s_ctx s) c"
  let ?m = "ESP_RETURN_ON_ERROR (configure_connected_led P) (do {
      _ \<leftarrow> whenm (cx_upload_timer (s_ctx s) \<noteq> 0) (do {
        _ \<leftarrow> call (xTimerChangePeriod P (cx_upload_timer (s_ctx s)) (pdMS_TO_TICKS P (upload_interval_ms ?next)));
        ret ()
      });
      if cx_wifi_started (s_ctx s) then update_wifi P else ret ESP_OK
    })"
  have "run_state ?m (s\<lparr>s_ctx := (s_ctx s)\<lparr>cx_config := ?next\<rparr>\<rparr>) = (err, s')"
    using assms no_failed_check [of "update_checks ?next"]
    by (simp add: config_stored_def aetus_update_config_def run_checks Let_def run_bind run_steps run_return_on(1))
  moreover have "steps same_config ?m"
    by (intro same_config_rules same_config_update_wifi)
  ultimately have "same_config (s\<lparr>s_ctx := (s_ctx s)\<lparr>cx_config := ?next\<rparr>\<rparr>) s'"
    by (rule stepsD [rotated])
  then show "cx_config (s_ctx s') = ?next" "cx_queue (s_ctx s') = cx_queue (s_ctx s)"
    "cx_events (s_ctx s') = cx_events (s_ctx s)"
    by (simp_all add: same_config_def)
qed

section \<open>The other functions\<close>

lemma same_config_checks: "steps same_config m \<Longrightarrow> steps same_config (ESP_RETURN_ON_FALSES cs m)"
  unfolding ESP_RETURN_ON_FALSES_def by (induction cs) (auto intro!: same_config.on_false)

lemma same_config_release: "steps same_config (release_queue_item item)"
  by (auto simp: release_queue_item_def steps_def same_config_def run_simps split: option.split prod.split)

lemma same_config_counters:
  "steps same_config (note_pool f)" "steps same_config (upd_ctx (\<lambda>c. c\<lparr>cx_sequence := g c\<rparr>))"
  "steps same_config (upd_sys (\<lambda>s. s\<lparr>s_heap := h s\<rparr>))" "steps same_config (upd_sys (\<lambda>s. s\<lparr>s_isr_item := k s\<rparr>))"
  by (simp_all add: note_pool_def steps_def same_config_def run_simps)

lemma same_config_post: "steps same_config (post_payload P md payload)"
  by (rule quiet_same_config) (rule any.quiet_post)

lemmas same_config_parts = same_config_rules same_config_release same_config_counters same_config_post

lemma same_config_round: "steps same_config (drain_round P md)"
proof -
  have "steps same_config (drain_item P md item)" for item
    unfolding drain_item_def by (intro same_config_parts) (auto split: option.split intro!: same_config_parts)
  then show ?thesis
    unfolding drain_round_def by (intro same_config_parts) (auto split: option.split intro!: same_config_parts)
qed

lemma same_config_enqueue:
  "steps same_config (aetus_enqueue_telemetry P telemetry timeout)"
  "steps same_config (aetus_enqueue_signal_frame P frame timeout)"
  "steps same_config (aetus_enqueue_status P status timeout)"
  "steps same_config (aetus_enqueue_telemetry_from_isr P telemetry)"
  "steps same_config (aetus_enqueue_status_from_isr P status)"
proof -
  have st: "steps same_config (State f)" if "\<And>s. same_config s (snd (f s))" for f :: "'a sys \<Rightarrow> 'b \<times> 'a sys"
    using that by (simp add: steps_def)
  have copy: "steps same_config (State (\<lambda>s. case g s of (err, item, h, st) \<Rightarrow>
      ((err, item), s\<lparr>s_heap := h, s_test_release_stats := st\<rparr>)))"
    for g :: "'a sys \<Rightarrow> esp_err \<times> aetus_queue_item option \<times> heap \<times> aetus_test_release_stats"
    by (rule st) (simp add: same_config_def split: prod.split)
  have alloc: "steps same_config (State (\<lambda>s. case g s of (samples, owner, st, h) \<Rightarrow>
      ((samples, the owner), s\<lparr>s_heap := h, s_ctx := (s_ctx s)\<lparr>cx_signal_pool_stats := the st\<rparr>\<rparr>)))"
    for g :: "'a sys \<Rightarrow> sample_ptr \<times> addr option \<times> aetus_signal_sample_pool_stats option \<times> heap"
    by (rule st) (simp add: same_config_def split: prod.split)
  note parts = same_config_parts copy alloc
  show "steps same_config (aetus_enqueue_telemetry P telemetry timeout)"
    unfolding aetus_enqueue_telemetry_def by (intro parts) (auto split: prod.split intro!: parts)
  show "steps same_config (aetus_enqueue_signal_frame P frame timeout)"
    unfolding aetus_enqueue_signal_frame_def Let_def
    by (intro parts) (auto split: prod.split option.split intro!: parts)
  show "steps same_config (aetus_enqueue_status P status timeout)"
    unfolding aetus_enqueue_status_def by (intro parts) (auto split: option.split intro!: parts)
  show "steps same_config (aetus_enqueue_telemetry_from_isr P telemetry)"
    unfolding aetus_enqueue_telemetry_from_isr_def by (intro parts) (auto split: option.split intro!: parts)
  show "steps same_config (aetus_enqueue_status_from_isr P status)"
    unfolding aetus_enqueue_status_from_isr_def by (intro parts) (auto split: option.split intro!: parts)
qed

section \<open>Valid configurations\<close>

definition valid_config :: "aetus_config \<Rightarrow> bool" where
  "valid_config c \<longleftrightarrow>
     string_required_fits (wifi_ssid c) AETUS_WIFI_SSID_MAX \<and>
     string_required_fits (wifi_password c) AETUS_WIFI_PASSWORD_MAX \<and>
     (wifi_auth c = AETUS_WIFI_AUTH_PEAP \<longrightarrow> string_required_fits (wifi_identity c) AETUS_WIFI_IDENTITY_MAX) \<and>
     string_required_fits (ingest_url c) AETUS_URL_MAX \<and> string_fits (time_url c) (AETUS_URL_MAX + 1) \<and>
     string_required_fits (device_id c) AETUS_DEVICE_ID_MAX \<and>
     string_required_fits (device_token c) AETUS_DEVICE_TOKEN_MAX \<and>
     upload_interval_ms c \<noteq> 0 \<and> queue_depth c \<noteq> 0"

text \<open>
  The part of it that no write to a string can change, and the whole when the writes are \<open>careful\<close>: the callers keep
  their strings within the limits.
\<close>

definition valid_settings :: "aetus_config \<Rightarrow> bool" where
  "valid_settings c \<longleftrightarrow>
     upload_interval_ms c \<noteq> 0 \<and> queue_depth c \<noteq> 0 \<and> wifi_ssid c \<noteq> None \<and> wifi_password c \<noteq> None \<and>
     (wifi_auth c = AETUS_WIFI_AUTH_PEAP \<longrightarrow> wifi_identity c \<noteq> None) \<and> ingest_url c \<noteq> None \<and>
     device_id c \<noteq> None \<and> device_token c \<noteq> None"

definition careful :: "(aetus_config \<Rightarrow> aetus_config \<Rightarrow> bool) \<Rightarrow> bool" where
  "careful writes \<longleftrightarrow>
     (\<forall>c c'. valid_config c \<longrightarrow> same_settings c c' \<longrightarrow> writes c c' \<longrightarrow> valid_config c')"

definition config_valid :: "bool \<Rightarrow> 'w sys \<Rightarrow> bool" where
  "config_valid W s \<longleftrightarrow> (cx_queue (s_ctx s) \<noteq> 0 \<longrightarrow>
     valid_settings (cx_config (s_ctx s)) \<and> (W \<longrightarrow> valid_config (cx_config (s_ctx s))))"

lemma required_not_null: "string_required_fits p n \<Longrightarrow> p \<noteq> None"
  by (cases p) (simp_all add: string_required_fits_def)

lemma valid_config_settings: "valid_config c \<Longrightarrow> valid_settings c"
  using required_not_null by (simp add: valid_config_def valid_settings_def) blast

lemma same_settings_valid: "same_settings c c' \<Longrightarrow> valid_settings c \<Longrightarrow> valid_settings c'"
  by (auto simp: same_settings_def valid_settings_def)

lemma stored_valid:
  "config_stored ctx c \<Longrightarrow> queue_depth (cx_config ctx) \<noteq> 0 \<Longrightarrow> valid_config (update_config_next ctx c)"
  by (auto simp: config_stored_def update_checks_def valid_config_def update_config_next_def c_defs Let_def
      AETUS_UPLOAD_DEFAULT_INTERVAL_MS_def split: if_splits)

lemma start_checks_valid:
  "list_all fst (start_checks config q) \<Longrightarrow> valid_config (cx_config (start_ctx config r))"
  by (auto simp: start_checks_def valid_config_def start_ctx_def AETUS_UPLOAD_DEFAULT_INTERVAL_MS_def Let_def
      split: if_splits)

lemma config_valid_same: "same_config s s' \<Longrightarrow> config_valid W s \<Longrightarrow> config_valid W s'"
  by (simp add: same_config_def config_valid_def)

lemma config_valid_update:
  assumes "config_valid W s" "run_state (aetus_update_config P config) s = (err, s')"
  shows "config_valid W s'"
proof (cases config)
  case None
  with assms show ?thesis by (simp add: aetus_update_config_def run_simps split: if_splits)
next
  case (Some c)
  show ?thesis
  proof (cases "config_stored (s_ctx s) c")
    case True
    then have "valid_config (update_config_next (s_ctx s) c)"
      using assms(1) by (intro stored_valid) (auto simp: config_stored_def config_valid_def valid_settings_def)
    with True assms Some show ?thesis
      using update_config_accepted [of s c P err s'] valid_config_settings by (simp add: config_valid_def)
  next
    case False
    with assms Some show ?thesis using update_config_refused [of s c P] by simp
  qed
qed

interpretation keeps_config: step_relation "\<lambda>s s'. cx_config (s_ctx s') = cx_config (s_ctx s)"
  by unfold_locales simp_all

lemma keeps_config_upd:
  "steps (\<lambda>s s'. cx_config (s_ctx s') = cx_config (s_ctx s)) (upd_ctx (\<lambda>c. c\<lparr>cx_queue := q\<rparr>))"
  "steps (\<lambda>s s'. cx_config (s_ctx s') = cx_config (s_ctx s)) (upd_ctx (\<lambda>c. c\<lparr>cx_events := e\<rparr>))"
  "steps (\<lambda>s s'. cx_config (s_ctx s') = cx_config (s_ctx s)) (upd_ctx (\<lambda>c. c\<lparr>cx_upload_timer := t\<rparr>))"
  "steps (\<lambda>s s'. cx_config (s_ctx s') = cx_config (s_ctx s)) (call f)"
  "steps (\<lambda>s s'. cx_config (s_ctx s') = cx_config (s_ctx s)) (configure_connected_led P)"
  using same_config_call [of f] quiet_same_config [OF any.quiet_led, of P]
  by (auto simp: steps_def run_steps same_config_def split: prod.split)

lemma keeps_config_objects: "steps (\<lambda>s s'. cx_config (s_ctx s') = cx_config (s_ctx s)) (start_objects P)"
  unfolding start_objects_def by (intro keeps_config.rules keeps_config_upd)

lemma config_valid_start:
  assumes "config_valid W s" "run_state (aetus_start P config) s = (err, s')"
  shows "config_valid W s'"
proof (cases config)
  case None
  with assms show ?thesis by (simp add: aetus_start_def run_simps)
next
  case (Some c)
  let ?checks = "start_checks c (cx_queue (s_ctx s))"
  show ?thesis
  proof (cases "list_all fst ?checks")
    case True
    obtain r w where r: "esp_random P (s_world s) = (r, w)" by (cases "esp_random P (s_world s)")
    let ?s = "s\<lparr>s_world := w, s_ctx := start_ctx c r\<rparr>"
    have "run_state (start_objects P) ?s = (err, s')"
      using assms(2) Some True no_failed_check [of ?checks] r
      by (simp add: aetus_start_def run_checks run_bind run_steps)
    from stepsD [OF keeps_config_objects this] show ?thesis
      using start_checks_valid [OF True] valid_config_settings by (simp add: config_valid_def)
  next
    case False
    then obtain b e where "find (\<lambda>(c, e). \<not> c) ?checks = Some (b, e)"
      using no_failed_check [of ?checks] by auto
    with assms Some show ?thesis by (auto simp: aetus_start_def run_bind run_steps run_checks)
  qed
qed

section \<open>The device over time\<close>

text \<open>A step of the device: a call of \<open>aetus_start\<close>, or any step of the running system.\<close>

inductive device_step ::
  "'w platform \<Rightarrow> 'm md_api \<Rightarrow> ('w \<Rightarrow> aetus_queue_item list) \<Rightarrow> (aetus_config \<Rightarrow> aetus_config \<Rightarrow> bool) \<Rightarrow>
     'w sys \<Rightarrow> 'w sys \<Rightarrow> bool"
  for P md items writes
where
  start: "run_state (aetus_start P config) s = (err, s') \<Longrightarrow> device_step P md items writes s s'"
| running: "runtime_step P md items writes s s' \<Longrightarrow> device_step P md items writes s s'"

lemma same_config_quiet_steps:
  "steps same_config (wifi_wait_connected_for P timeout)" "steps same_config (wifi_event_handler P base ev)"
  "steps same_config (upload_timer_callback P)" "steps same_config (aetus_sync_rtc P timeout)"
  "steps same_config (aetus_flush P timeout)"
  by (rule quiet_same_config, rule any.quiet_wait any.quiet_event_handler any.quiet_timer_callback any.quiet_sync
      any.quiet_flush)+

lemma config_valid_keep:
  "steps same_config m \<Longrightarrow> run_state m s = (a, s') \<Longrightarrow> config_valid W s \<Longrightarrow> config_valid W s'"
  by (rule config_valid_same [OF stepsD])

lemma config_valid_running:
  assumes st: "runtime_step P md items writes s s'" and v: "config_valid W s" and c: "W \<Longrightarrow> careful writes"
  shows "config_valid W s'"
  using st
proof cases
  case (update_config config err)
  show ?thesis by (rule config_valid_update [OF v update_config])
next
  case (application h)
  with v show ?thesis by (simp add: config_valid_def)
next
  case (caller_strings k)
  then have "valid_settings k" if "valid_settings (cx_config (s_ctx s))" using that same_settings_valid by blast
  moreover have "valid_config k" if "W" "valid_config (cx_config (s_ctx s))"
    using that c caller_strings unfolding careful_def by blast
  ultimately show ?thesis using v caller_strings(1) by (simp add: config_valid_def)
qed (rule config_valid_keep [OF _ _ v], rule same_config_enqueue same_config_round same_config_quiet_steps, assumption)+

lemma config_valid_step:
  assumes "device_step P md items writes s s'" "config_valid W s" "W \<Longrightarrow> careful writes"
  shows "config_valid W s'"
  using assms(1)
proof cases
  case (start config err)
  show ?thesis by (rule config_valid_start [OF assms(2) start])
next
  case running
  show ?thesis by (rule config_valid_running [OF running assms(2,3)])
qed

lemma config_valid_reachable:
  assumes "(device_step P md items writes)\<^sup>*\<^sup>* s0 s" "config_valid W s0" "W \<Longrightarrow> careful writes"
  shows "config_valid W s"
  using assms(1,2) by (induction rule: rtranclp_induct) (assumption, rule config_valid_step [OF _ _ assms(3)])

text \<open>
  C31. From a device that has not been started, whatever calls of \<open>aetus_start\<close> and \<open>aetus_update_config\<close>, with
  whatever arguments, whatever rewrites of the configuration strings by the callers that own them, and whatever other
  activity follow, a device that runs has a non-zero upload interval and queue depth and a pointer to every
  required string. The code keeps the callers' pointers, so the texts are within the limits of every buffer as long
  as the callers are careful: as long as their writes keep the strings of a valid configuration within the limits.
  Provisioning is not; there the property is lost.
\<close>

theorem running_config_valid:
  assumes "cx_queue (s_ctx s0) = 0" "(device_step P md items writes)\<^sup>*\<^sup>* s0 s" "cx_queue (s_ctx s) \<noteq> 0"
  shows "valid_settings (cx_config (s_ctx s)) \<and> (careful writes \<longrightarrow> valid_config (cx_config (s_ctx s)))"
  using config_valid_reachable [OF assms(2), of "careful writes"] assms(1,3) by (simp add: config_valid_def)

lemma sim_start:
  "run_state (aetus_start (sim_platform 9 4) (Some sim_config)) sim_boot = (err, s') \<Longrightarrow>
    err = ESP_OK \<and> cx_queue (s_ctx s') = 1"
  by (auto simp: aetus_start_def start_objects_def start_checks_def sim_boot_def sim_config_def zero_ctx_def run_checks
      run_bind run_steps run_return_on c_defs string_required_fits_def string_fits_def sim_platform_def nop_def start_ctx_def
      configure_connected_led_def Let_def)

text \<open>A caller that rewrites one byte of its network name is careful.\<close>

definition sim_write :: "aetus_config \<Rightarrow> aetus_config \<Rightarrow> bool" where
  "sim_write c c' \<longleftrightarrow> c' = c\<lparr>wifi_ssid := Some [111, 0]\<rparr>"

lemma sim_write_careful: "careful sim_write"
  by (auto simp: careful_def sim_write_def valid_config_def string_required_fits_def string_fits_def c_defs)

theorem running_config_valid_witness:
  "\<exists>s. run_state (aetus_start (sim_platform 9 4) (Some sim_config)) sim_boot = (ESP_OK, s) \<and>
     cx_queue (s_ctx s) \<noteq> 0 \<and> valid_config ((cx_config (s_ctx s))\<lparr>wifi_ssid := Some [111, 0]\<rparr>)"
proof -
  obtain err s where r: "run_state (aetus_start (sim_platform 9 4) (Some sim_config)) sim_boot = (err, s)"
    by (cases "run_state (aetus_start (sim_platform 9 4) (Some sim_config)) sim_boot")
  let ?step = "device_step (sim_platform 9 4) (buffering_md pad32) sim_items sim_write"
  let ?c = "(cx_config (s_ctx s))\<lparr>wifi_ssid := Some [111, 0]\<rparr>"
  have one: "?step\<^sup>*\<^sup>* sim_boot s" using device_step.start [OF r] by blast
  have boot: "cx_queue (s_ctx sim_boot) = 0" by (simp add: sim_boot_def zero_ctx_def)
  have q: "cx_queue (s_ctx s) \<noteq> 0" using sim_start [OF r] by simp
  have "wifi_ssid (cx_config (s_ctx s)) \<noteq> None"
    using running_config_valid [OF boot one q] by (simp add: valid_settings_def)
  then have "same_settings (cx_config (s_ctx s)) ?c" by (simp add: same_settings_def)
  then have "?step s (s\<lparr>s_ctx := (s_ctx s)\<lparr>cx_config := ?c\<rparr>\<rparr>)"
    by (intro device_step.running runtime_step.caller_strings) (simp_all add: sim_write_def)
  with one have "?step\<^sup>*\<^sup>* sim_boot (s\<lparr>s_ctx := (s_ctx s)\<lparr>cx_config := ?c\<rparr>\<rparr>)" by (rule rtranclp.rtrancl_into_rtrancl)
  from running_config_valid [OF boot this] q sim_write_careful have "valid_config ?c" by simp
  with r q sim_start [OF r] show ?thesis by (intro exI [of _ s]) simp
qed

text \<open>
  C32. \<open>aetus_update_config\<close> is all or nothing in what it stores: an update of a device that is not running, without a
  configuration or with one that fails a check is refused with the code of the reason and changes nothing at all;
  any other stores exactly the given configuration, zero fields replaced by their defaults, even when a later call fails.
\<close>

theorem update_config_outcome:
  assumes "run_state (aetus_update_config P config) s = (err, s')"
  shows "if cx_queue (s_ctx s) = 0 then err = ESP_ERR_INVALID_STATE \<and> s' = s
    else case config of
      None \<Rightarrow> err = ESP_ERR_INVALID_ARG \<and> s' = s
    | Some c \<Rightarrow>
        let next = c\<lparr>upload_interval_ms := (if upload_interval_ms c = 0 then 600000 else upload_interval_ms c),
                     queue_depth := (if queue_depth c = 0 then queue_depth (cx_config (s_ctx s)) else queue_depth c)\<rparr>
        in if list_all fst (update_checks next)
           then cx_config (s_ctx s') = next \<and> cx_queue (s_ctx s') = cx_queue (s_ctx s) \<and>
                cx_events (s_ctx s') = cx_events (s_ctx s)
           else err = ESP_ERR_INVALID_ARG \<and> s' = s"
proof (cases config)
  case None
  with assms show ?thesis by (simp add: aetus_update_config_def run_simps split: if_splits)
next
  case (Some c)
  have n: "c\<lparr>upload_interval_ms := (if upload_interval_ms c = 0 then 600000 else upload_interval_ms c),
      queue_depth := (if queue_depth c = 0 then queue_depth (cx_config (s_ctx s)) else queue_depth c)\<rparr> =
    update_config_next (s_ctx s) c"
    by (simp add: update_config_next_def Let_def AETUS_UPLOAD_DEFAULT_INTERVAL_MS_def)
  show ?thesis
    using assms Some update_config_refused [of s c P] update_config_accepted [of s c P err s']
    by (cases "config_stored (s_ctx s) c") (auto simp: config_stored_def n Let_def split: if_splits)
qed

theorem update_config_outcome_witness:
  "\<exists>err s'. run_state (aetus_update_config (sim_platform 9 4) (Some (sim_config\<lparr>firmware_version := 4\<rparr>))) sim_started =
     (err, s') \<and> cx_config (s_ctx s') = sim_config\<lparr>firmware_version := 4, upload_interval_ms := 600000\<rparr>"
proof -
  let ?r = "run_state (aetus_update_config (sim_platform 9 4) (Some (sim_config\<lparr>firmware_version := 4\<rparr>))) sim_started"
  obtain err s' where r: "?r = (err, s')" by (cases ?r)
  have "cx_config (s_ctx s') = sim_config\<lparr>firmware_version := 4, upload_interval_ms := 600000\<rparr>"
    using update_config_outcome [OF r]
    by (simp add: sim_started_def sim_config_def update_checks_def string_required_fits_def string_fits_def c_defs Let_def)
  with r show ?thesis by blast
qed

end
