(* ===== verification/SyncProps.thy ===== *)
theory SyncProps
  imports ConfigProps
begin

text \<open>
  The clock synchronisation end to end: Wi-Fi, the request for the server's time, the body of the response, its number and
  the clock.
\<close>

text \<open>What was asked of the server, and what it answered.\<close>

definition time_request :: "aetus_config \<Rightarrow> byte list \<Rightarrow> http_request" where
  "time_request c url = \<lparr>rq_url = url, rq_post = False,
     rq_headers = [(''X-Device-Id'', ostr (device_id c)),
                   (''Authorization'', take 127 (str ''Bearer '' @ ostr (device_token c)))],
     rq_body = []\<rparr>"

definition server_said :: "'w platform \<Rightarrow> aetus_ctx \<Rightarrow> u64 \<Rightarrow> bool" where
  "server_said P ctx ns \<longleftrightarrow>
     (\<exists>url w events status w'. resolve_time_url (Some ctx) 160 = Inr url \<and>
        esp_http_client_perform P (time_request (cx_config ctx) url) w = ((events, ESP_OK, status), w') \<and>
        200 \<le> status \<and> status < 300 \<and> length (http_data events) < 512 \<and>
        parse_unix_time_ns (Some (http_data events)) True = Inr ns)"

lemma parse_padded:
  "parse_unix_time_ns (Some (data @ replicate (Suc k) 0)) True = parse_unix_time_ns (Some data) True"
proof -
  have "cstr (data @ replicate (Suc k) 0) = cstr data" by (induction data) auto
  then show ?thesis by (simp add: parse_unix_time_ns_def)
qed

lemma fetch_sound:
  assumes "run_state (fetch_server_time_ns P) s = (Inr ns, s')" "\<not> fake_time (s_test_runtime_hooks s)"
  shows "server_said P (s_ctx s) ns"
proof -
  obtain url where u: "resolve_time_url (Some (s_ctx s)) 160 = Inr url"
    using assms by (cases "resolve_time_url (Some (s_ctx s)) 160") (auto simp: fetch_server_time_ns_def run_simps)
  obtain ok w where i: "esp_http_client_init P url (s_world s) = (ok, w)" by (cases "esp_http_client_init P url (s_world s)")
  obtain events err status w' where
    p: "esp_http_client_perform P (time_request (cx_config (s_ctx s)) url) w = ((events, err, status), w')"
    by (cases "esp_http_client_perform P (time_request (cx_config (s_ctx s)) url) w") auto
  let ?b = "collected 512 (http_data events)"
  have r: "err = ESP_OK" "200 \<le> status" "status < 300" "\<not> hb_overflow ?b"
    "parse_unix_time_ns (Some (hb_data ?b)) True = Inr ns"
    using assms u i p
    by (auto simp: fetch_server_time_ns_def run_simps Let_def collect_events time_request_def bearer_header_def
        split: if_splits prod.splits)
  have l: "length (http_data events) < 512" using r(4) by (simp add: collected_def)
  have "hb_data ?b = http_data events @ replicate (Suc (511 - length (http_data events))) 0"
  proof -
    have "512 - min 511 (length (http_data events)) = Suc (511 - length (http_data events))" using l by linarith
    moreover have "take 511 (http_data events) = http_data events" using l by simp
    ultimately show ?thesis by (simp add: collected_def del: replicate_Suc)
  qed
  with r(5) have "parse_unix_time_ns (Some (http_data events)) True = Inr ns" by (simp only: parse_padded)
  with u p r l show ?thesis unfolding server_said_def by blast
qed

lemma fetch_error: "run_state (fetch_server_time_ns P) s = (Inl e, s') \<Longrightarrow> e \<noteq> ESP_OK"
proof -
  have "resolve_time_url c n \<noteq> Inl ESP_OK" for c n
    by (auto simp: resolve_time_url_def Let_def split: option.split)
  moreover have "parse_unix_time_ns b o1 \<noteq> Inl ESP_OK" for b o1
    by (auto simp: parse_unix_time_ns_def Let_def split: option.split prod.split)
  ultimately show "run_state (fetch_server_time_ns P) s = (Inl e, s') \<Longrightarrow> e \<noteq> ESP_OK"
    by (auto simp: fetch_server_time_ns_def run_simps Let_def split: if_splits sum.splits prod.splits)
qed

text \<open>
  C40. \<open>aetus_sync_rtc\<close> never lies: when it returns \<open>ESP_OK\<close> on a started device, the server answered a GET request with the
  device's credentials at the configured or derived time URL with a success status and a whole body, and the clock now reads
  the time in that body, rounded down to the microsecond. Configuration, queue and heap are untouched.
\<close>

theorem sync_rtc_sound:
  assumes "clock_ok P" "\<not> fake_time (s_test_runtime_hooks s)" "run_state (aetus_sync_rtc P timeout) s = (ESP_OK, s')"
  shows "\<exists>ns. server_said P (s_ctx s') ns \<and> 1577836800 \<le> unat ns div 1000000000 \<and>
    fst (run_state (aetus_rtc_timestamp_ns P True) s') = Inr (of_nat (unat ns div 1000 * 1000)) \<and>
    cx_config (s_ctx s') = cx_config (s_ctx s) \<and> s_heap s' = s_heap s"
proof -
  have q: "cx_queue (s_ctx s) \<noteq> 0" using assms(3) by (auto simp: aetus_sync_rtc_def run_simps)
  obtain e1 s1 where w: "run_state (wifi_wait_connected_for P timeout) s = (e1, s1)"
    by (cases "run_state (wifi_wait_connected_for P timeout) s")
  obtain r s2 where f: "run_state (fetch_server_time_ns P) s1 = (r, s2)" by (cases "run_state (fetch_server_time_ns P) s1")
  obtain ns where ns: "e1 = ESP_OK" "r = Inr ns" "run_state (set_rtc_from_unix_time_ns P ns) s2 = (ESP_OK, s')"
    using assms(3) w f q fetch_error [of P s1] by (auto simp: aetus_sync_rtc_def run_simps split: if_splits sum.splits prod.splits)
  note quiet1 = stepsD [OF any.quiet_wait w] and quiet2 = stepsD [OF any.quiet_fetch f]
    and quiet3 = stepsD [OF any.quiet_set_rtc ns(3)]
  have "\<not> fake_time (s_test_runtime_hooks s1)" using quiet1 assms(2) by (auto simp: quiet_def same_hooks_def)
  from fetch_sound [OF f [unfolded ns(2)] this] have said: "server_said P (s_ctx s1) ns" .
  have same: "resolve_time_url (Some c') n = resolve_time_url (Some c) n" if "cx_config c' = cx_config c" for c c' n
    using that by (simp add: resolve_time_url_def)
  have c: "cx_config (s_ctx s') = cx_config (s_ctx s1)" "cx_config (s_ctx s1) = cx_config (s_ctx s)" "s_heap s' = s_heap s"
    using quiet1 quiet2 quiet3 by (auto simp: quiet_def)
  have "server_said P (s_ctx s') ns"
    using said unfolding server_said_def c(1) same [OF c(1)] .
  with rtc_reads_back [OF assms(1) ns(3)] c show ?thesis by (intro exI [of _ ns]) (auto split: if_splits)
qed

definition sim_time_reply :: "byte list" where
  "sim_time_reply = [123] @ time_key @ [58] @ str ''1600000000123456789'' @ [125]"

definition sim_online :: "sim sys" where
  "sim_online = sim_started\<lparr>s_world := sim_world\<lparr>sim_reply := sim_time_reply\<rparr>,
     s_test_runtime_hooks := zero_hooks\<lparr>bypass_wifi := True\<rparr>\<rparr>"

lemma sim_time_parses: "parse_unix_time_ns (Some sim_time_reply) True = Inr 1600000000123456789"
  by (simp add: parse_unix_time_ns_def sim_time_reply_def strchr_def strtoull_def time_key_def is_digit_def is_space_def
      dec_val_def Let_def)

lemma sim_time_url: "resolve_time_url (Some (s_ctx sim_online)) 160 = Inr (str ''h/v1/time'')"
  by (simp add: resolve_time_url_def sim_online_def sim_started_def sim_config_def ends_with_def AETUS_INGEST_PATH_def
      AETUS_TIME_PATH_def c_defs)

lemma sim_fetch:
  "fst (run_state (fetch_server_time_ns (sim_platform 9 4)) sim_online) = Inr 1600000000123456789"
proof -
  have "length sim_time_reply < 512" by (simp add: sim_time_reply_def time_key_def)
  then have "hb_data (collected 512 sim_time_reply) = sim_time_reply @ replicate (Suc (511 - length sim_time_reply)) 0"
    "\<not> hb_overflow (collected 512 sim_time_reply)"
    by (simp_all add: sim_time_reply_def time_key_def collected_def)
  with sim_time_url show ?thesis
    by (simp add: fetch_server_time_ns_def run_simps Let_def sim_platform_def nop_def sim_perform_def collect_events http_data_def
        sim_online_def zero_hooks_def sim_world_def parse_padded sim_time_parses del: replicate_Suc)
qed

theorem sync_rtc_sound_witness:
  "\<exists>s'. run_state (aetus_sync_rtc (sim_platform 9 4) 100) sim_online = (ESP_OK, s') \<and>
     (\<exists>ns. server_said (sim_platform 9 4) (s_ctx s') ns \<and>
        fst (run_state (aetus_rtc_timestamp_ns (sim_platform 9 4) True) s') = Inr (of_nat (unat ns div 1000 * 1000)))"
proof -
  let ?P = "sim_platform 9 4"
  obtain e s' where r: "run_state (aetus_sync_rtc ?P 100) sim_online = (e, s')"
    by (cases "run_state (aetus_sync_rtc ?P 100) sim_online")
  obtain s1 where f: "run_state (fetch_server_time_ns ?P) sim_online = (Inr 1600000000123456789, s1)"
    using sim_fetch by (cases "run_state (fetch_server_time_ns ?P) sim_online") auto
  have w: "run_state (wifi_wait_connected_for ?P 100) sim_online = (ESP_OK, sim_online)" "cx_queue (s_ctx sim_online) = 1"
    "\<not> fake_time (s_test_runtime_hooks sim_online)"
    by (simp_all add: wifi_wait_connected_for_def sim_online_def run_simps zero_hooks_def sim_started_def)
  have "settimeofday ?P tv w' = (0, w'\<lparr>sim_clock := tv\<rparr>)" for tv w' by (simp add: sim_platform_def)
  then have "e = ESP_OK"
    using r f w by (auto simp: aetus_sync_rtc_def run_simps set_rtc_from_unix_time_ns_def Let_def c_defs)
  with r sync_rtc_sound [OF sim_clock_ok w(3), of 9 4 100 s'] show ?thesis by auto
qed

end
