(* ===== verification/Provisioning.thy ===== *)
theory Provisioning
  imports ConfigProps TimeProps
begin

text \<open>
  Provisioning over Bluetooth LE (\<open>aetus_provisioning.c\<close> and its stub): a GATT service with one characteristic per
  configuration field, kept in a pending configuration that a write to the last characteristic applies to the runtime.

  NimBLE is code outside the sources: its calls are the fields of \<open>ble\<close>, on the same world as those of
  \<open>platform\<close>. The state \<open>psys\<close> is the runtime's state with the static \<open>s_prov\<close>. The string pointers of
  \<open>s_prov.config\<close> point at the buffers of \<open>s_prov\<close> once \<open>pv_bound\<close> holds, and since the runtime stores the pointers
  of a configuration it accepts, \<open>ps_shared\<close> says that the strings of its own configuration live in these buffers too:
  a write to a buffer is then a write to the running configuration. The application's callbacks act on the
  world; one that calls back into the runtime is not modelled.
\<close>

section \<open>NimBLE\<close>

text \<open>The results of an attribute access.\<close>

datatype att_result =
    ATT_OK
  | BLE_ATT_ERR_READ_NOT_PERMITTED
  | BLE_ATT_ERR_WRITE_NOT_PERMITTED
  | BLE_ATT_ERR_INVALID_ATTR_VALUE_LEN
  | BLE_ATT_ERR_UNLIKELY
  | BLE_ATT_ERR_INSUFFICIENT_RES

text \<open>A packet (\<open>struct os_mbuf\<close>) by its bytes; \<open>OS_MBUF_PKTLEN\<close> has 16 bits.\<close>

type_synonym mbuf = "byte list"

definition OS_MBUF_PKTLEN :: "mbuf \<Rightarrow> u16" where
  [c_defs]: "OS_MBUF_PKTLEN om = of_nat (length om)"

record ble_gap_conn_desc =
  conn_itvl :: u16
  conn_latency :: u16
  supervision_timeout :: u16

text \<open>The advertisement: name and service, and the interval in units of 625 microseconds.\<close>

record ble_hs_adv_fields =
  adv_name :: "byte list"
  adv_uuids128 :: "byte list list"

datatype prov_field =
    AETUS_PROV_FIELD_WIFI_SSID
  | AETUS_PROV_FIELD_WIFI_AUTH
  | AETUS_PROV_FIELD_WIFI_ID
  | AETUS_PROV_FIELD_WIFI_PASSWORD
  | AETUS_PROV_FIELD_INGEST_URL
  | AETUS_PROV_FIELD_TIME_URL
  | AETUS_PROV_FIELD_DEVICE_ID
  | AETUS_PROV_FIELD_DEVICE_TOKEN
  | AETUS_PROV_FIELD_FIRMWARE_VERSION
  | AETUS_PROV_FIELD_UPLOAD_INTERVAL_MS
  | AETUS_PROV_FIELD_QUEUE_DEPTH
  | AETUS_PROV_FIELD_LED_ENABLED
  | AETUS_PROV_FIELD_LED_GPIO
  | AETUS_PROV_FIELD_APPLY

text \<open>A characteristic of the service table; its descriptor carries the name.\<close>

record ble_gatt_chr =
  chr_uuid :: "byte list"
  chr_field :: prov_field
  chr_read :: bool
  chr_write :: bool
  chr_name :: "byte list"

record 'w ble =
  ble_hs_mbuf_to_flat :: "mbuf \<Rightarrow> nat \<Rightarrow> int \<times> byte list"
  os_mbuf_append :: "mbuf \<Rightarrow> byte list \<Rightarrow> 'w \<Rightarrow> (int \<times> mbuf) \<times> 'w"
  ble_svc_gap_device_name :: "'w \<Rightarrow> byte list \<times> 'w"
  ble_svc_gap_device_name_set :: "byte list \<Rightarrow> 'w \<Rightarrow> int \<times> 'w"
  ble_gap_adv_set_fields :: "ble_hs_adv_fields \<Rightarrow> 'w \<Rightarrow> int \<times> 'w"
  ble_gap_adv_start :: "byte \<Rightarrow> u32 \<Rightarrow> 'w \<Rightarrow> int \<times> 'w"
  ble_gap_conn_find :: "u16 \<Rightarrow> 'w \<Rightarrow> (int \<times> ble_gap_conn_desc) \<times> 'w"
  ble_gap_terminate :: "u16 \<Rightarrow> 'w \<Rightarrow> int \<times> 'w"
  ble_hs_id_infer_auto :: "'w \<Rightarrow> (int \<times> byte option) \<times> 'w"
  ble_npl_callout_init :: "'w \<Rightarrow> unit \<times> 'w"
  ble_npl_callout_stop :: "'w \<Rightarrow> unit \<times> 'w"
  ble_npl_callout_reset :: "u32 \<Rightarrow> 'w \<Rightarrow> unit \<times> 'w"
  ble_npl_time_ms_to_ticks32 :: "u32 \<Rightarrow> u32"
  nimble_port_init :: "'w \<Rightarrow> esp_err \<times> 'w"
  nimble_port_freertos_init :: "'w \<Rightarrow> unit \<times> 'w"
  nimble_port_run :: "'w \<Rightarrow> unit \<times> 'w"
  nimble_port_freertos_deinit :: "'w \<Rightarrow> unit \<times> 'w"
  ble_hs_cfg_callbacks :: "'w \<Rightarrow> unit \<times> 'w"
  ble_svc_gap_init :: "'w \<Rightarrow> unit \<times> 'w"
  ble_svc_gatt_init :: "'w \<Rightarrow> unit \<times> 'w"
  ble_gatts_count_cfg :: "ble_gatt_chr list \<Rightarrow> 'w \<Rightarrow> int \<times> 'w"
  ble_gatts_add_svcs :: "ble_gatt_chr list \<Rightarrow> 'w \<Rightarrow> int \<times> 'w"

definition AETUS_PROVISIONING_ADV_INTERVAL_MS :: u32 where
  [c_defs]: "AETUS_PROVISIONING_ADV_INTERVAL_MS = 3500"

definition AETUS_PROVISIONING_AUTO_DISCONNECT_MS :: u32 where
  [c_defs]: "AETUS_PROVISIONING_AUTO_DISCONNECT_MS = 10 * 60 * 1000"

definition AETUS_PROVISIONING_ADV_INTERVAL_UNITS :: u32 where
  [c_defs]: "AETUS_PROVISIONING_ADV_INTERVAL_UNITS = (AETUS_PROVISIONING_ADV_INTERVAL_MS * 1000) div 625"

section \<open>The service\<close>

text \<open>Every UUID of the service begins with the bytes of \<open>AETUS-PROV-\<close>.\<close>

definition prov_uuid :: "byte list \<Rightarrow> byte list" where
  "prov_uuid tail = [0x41, 0x45, 0x54, 0x55, 0x53, 0x2d, 0x50, 0x52, 0x4f, 0x56, 0x2d] @ tail"

definition s_service_uuid :: "byte list" where
  "s_service_uuid = prov_uuid [0x53, 0x56, 0x43, 0x00, 0x01]"
definition s_wifi_ssid_uuid :: "byte list" where
  "s_wifi_ssid_uuid = prov_uuid [0x53, 0x53, 0x49, 0x44, 0x01]"
definition s_wifi_auth_uuid :: "byte list" where
  "s_wifi_auth_uuid = prov_uuid [0x41, 0x55, 0x54, 0x48, 0x01]"
definition s_wifi_id_uuid :: "byte list" where
  "s_wifi_id_uuid = prov_uuid [0x57, 0x49, 0x44, 0x00, 0x01]"
definition s_wifi_password_uuid :: "byte list" where
  "s_wifi_password_uuid = prov_uuid [0x57, 0x50, 0x41, 0x53, 0x01]"
definition s_ingest_url_uuid :: "byte list" where
  "s_ingest_url_uuid = prov_uuid [0x49, 0x4e, 0x47, 0x00, 0x01]"
definition s_time_url_uuid :: "byte list" where
  "s_time_url_uuid = prov_uuid [0x54, 0x49, 0x4d, 0x45, 0x01]"
definition s_device_id_uuid :: "byte list" where
  "s_device_id_uuid = prov_uuid [0x44, 0x45, 0x56, 0x00, 0x01]"
definition s_device_token_uuid :: "byte list" where
  "s_device_token_uuid = prov_uuid [0x54, 0x4f, 0x4b, 0x00, 0x01]"
definition s_firmware_version_uuid :: "byte list" where
  "s_firmware_version_uuid = prov_uuid [0x46, 0x57, 0x56, 0x00, 0x01]"
definition s_upload_interval_uuid :: "byte list" where
  "s_upload_interval_uuid = prov_uuid [0x55, 0x50, 0x4c, 0x44, 0x01]"
definition s_queue_depth_uuid :: "byte list" where
  "s_queue_depth_uuid = prov_uuid [0x51, 0x55, 0x45, 0x55, 0x01]"
definition s_led_enabled_uuid :: "byte list" where
  "s_led_enabled_uuid = prov_uuid [0x4c, 0x45, 0x44, 0x45, 0x01]"
definition s_led_gpio_uuid :: "byte list" where
  "s_led_gpio_uuid = prov_uuid [0x4c, 0x47, 0x50, 0x49, 0x01]"
definition s_apply_uuid :: "byte list" where
  "s_apply_uuid = prov_uuid [0x41, 0x50, 0x50, 0x4c, 0x01]"

lemmas prov_uuid_defs = prov_uuid_def s_service_uuid_def s_wifi_ssid_uuid_def s_wifi_auth_uuid_def s_wifi_id_uuid_def
  s_wifi_password_uuid_def s_ingest_url_uuid_def s_time_url_uuid_def s_device_id_uuid_def s_device_token_uuid_def
  s_firmware_version_uuid_def s_upload_interval_uuid_def s_queue_depth_uuid_def s_led_enabled_uuid_def
  s_led_gpio_uuid_def s_apply_uuid_def

text \<open>\<open>PROV_CHR\<close>; every characteristic is writable, \<open>rd\<close> is its read flag.\<close>

definition PROV_CHR :: "byte list \<Rightarrow> prov_field \<Rightarrow> bool \<Rightarrow> string \<Rightarrow> ble_gatt_chr" where
  "PROV_CHR uuid field rd name =
     \<lparr>chr_uuid = uuid, chr_field = field, chr_read = rd, chr_write = True, chr_name = str name\<rparr>"

definition s_provisioning_svcs :: "ble_gatt_chr list" where
  "s_provisioning_svcs =
     [PROV_CHR s_wifi_ssid_uuid AETUS_PROV_FIELD_WIFI_SSID True ''wifi_ssid'',
      PROV_CHR s_wifi_auth_uuid AETUS_PROV_FIELD_WIFI_AUTH True ''wifi_auth'',
      PROV_CHR s_wifi_id_uuid AETUS_PROV_FIELD_WIFI_ID True ''wifi_id'',
      PROV_CHR s_wifi_password_uuid AETUS_PROV_FIELD_WIFI_PASSWORD False ''wifi_password'',
      PROV_CHR s_ingest_url_uuid AETUS_PROV_FIELD_INGEST_URL True ''ingest_url'',
      PROV_CHR s_time_url_uuid AETUS_PROV_FIELD_TIME_URL True ''time_url'',
      PROV_CHR s_device_id_uuid AETUS_PROV_FIELD_DEVICE_ID True ''device_id'',
      PROV_CHR s_device_token_uuid AETUS_PROV_FIELD_DEVICE_TOKEN False ''device_token'',
      PROV_CHR s_firmware_version_uuid AETUS_PROV_FIELD_FIRMWARE_VERSION True ''firmware_version'',
      PROV_CHR s_upload_interval_uuid AETUS_PROV_FIELD_UPLOAD_INTERVAL_MS True ''upload_interval_ms'',
      PROV_CHR s_queue_depth_uuid AETUS_PROV_FIELD_QUEUE_DEPTH True ''queue_depth'',
      PROV_CHR s_led_enabled_uuid AETUS_PROV_FIELD_LED_ENABLED True ''led_enabled'',
      PROV_CHR s_led_gpio_uuid AETUS_PROV_FIELD_LED_GPIO True ''led_gpio'',
      PROV_CHR s_apply_uuid AETUS_PROV_FIELD_APPLY False ''apply'']"

section \<open>The state\<close>

text \<open>The callbacks of the application, \<open>None\<close> for \<open>NULL\<close>.\<close>

type_synonym 'w config_changed_cb = "aetus_config \<Rightarrow> addr \<Rightarrow> 'w \<Rightarrow> unit \<times> 'w"
type_synonym 'w connection_check_cb = "u16 \<Rightarrow> int \<Rightarrow> u16 \<Rightarrow> u16 \<Rightarrow> u16 \<Rightarrow> addr \<Rightarrow> 'w \<Rightarrow> unit \<times> 'w"

record 'w provisioning_config =
  pc_device_name :: "byte list option"
  pc_config_changed_cb :: "'w config_changed_cb option"
  pc_connection_check_cb :: "'w connection_check_cb option"
  pc_user_ctx :: addr

record 'w provisioning_state =
  pv_config :: aetus_config
  pv_bound :: bool
  pv_wifi_ssid :: "byte list"
  pv_wifi_password :: "byte list"
  pv_wifi_identity :: "byte list"
  pv_ingest_url :: "byte list"
  pv_time_url :: "byte list"
  pv_device_id :: "byte list"
  pv_device_token :: "byte list"
  pv_config_changed_cb :: "'w config_changed_cb option"
  pv_connection_check_cb :: "'w connection_check_cb option"
  pv_user_ctx :: addr
  pv_conn_handle :: u16
  pv_own_addr_type :: byte
  pv_started :: bool
  pv_connected :: bool
  pv_disconnect_callout_initialized :: bool

definition zero_prov :: "'w provisioning_state" where
  "zero_prov = \<lparr>pv_config = zero_config, pv_bound = False,
     pv_wifi_ssid = replicate (AETUS_WIFI_SSID_MAX + 1) 0,
     pv_wifi_password = replicate (AETUS_WIFI_PASSWORD_MAX + 1) 0,
     pv_wifi_identity = replicate (AETUS_WIFI_IDENTITY_MAX + 1) 0,
     pv_ingest_url = replicate (AETUS_URL_MAX + 1) 0,
     pv_time_url = replicate (AETUS_URL_MAX + 1) 0,
     pv_device_id = replicate (AETUS_DEVICE_ID_MAX + 1) 0,
     pv_device_token = replicate (AETUS_DEVICE_TOKEN_MAX + 1) 0,
     pv_config_changed_cb = None, pv_connection_check_cb = None, pv_user_ctx = 0, pv_conn_handle = 0,
     pv_own_addr_type = 0, pv_started = False, pv_connected = False, pv_disconnect_callout_initialized = False\<rparr>"

record 'w psys =
  ps_sys :: "'w sys"
  ps_prov :: "'w provisioning_state"
  ps_shared :: bool

type_synonym ('w, 'a) pprog = "('w psys, 'a) state"

text \<open>A configuration whose string pointers point at the buffers.\<close>

definition with_buffers :: "'w provisioning_state \<Rightarrow> aetus_config \<Rightarrow> aetus_config" where
  "with_buffers p c = c\<lparr>wifi_ssid := Some (pv_wifi_ssid p), wifi_password := Some (pv_wifi_password p),
     wifi_identity := Some (pv_wifi_identity p), ingest_url := Some (pv_ingest_url p),
     time_url := Some (pv_time_url p), device_id := Some (pv_device_id p),
     device_token := Some (pv_device_token p)\<rparr>"

text \<open>What is read through \<open>&s_prov.config\<close>.\<close>

definition pending_config :: "'w provisioning_state \<Rightarrow> aetus_config" where
  "pending_config p = (if pv_bound p then with_buffers p (pv_config p) else pv_config p)"

text \<open>The runtime's configuration follows the buffers it shares.\<close>

definition aliased :: "'w psys \<Rightarrow> 'w psys" where
  "aliased s =
     (if ps_shared s
      then s\<lparr>ps_sys := (ps_sys s)\<lparr>s_ctx := (s_ctx (ps_sys s))
               \<lparr>cx_config := with_buffers (ps_prov s) (cx_config (s_ctx (ps_sys s)))\<rparr>\<rparr>\<rparr>
      else s)"

definition rt :: "('w, 'a) prog \<Rightarrow> ('w, 'a) pprog" where
  "rt m = State (\<lambda>s. case run_state m (ps_sys s) of (a, y) \<Rightarrow> (a, s\<lparr>ps_sys := y\<rparr>))"

definition bcall :: "('w \<Rightarrow> 'a \<times> 'w) \<Rightarrow> ('w, 'a) pprog" where
  "bcall f = rt (call f)"

definition get_prov :: "('w provisioning_state \<Rightarrow> 'a) \<Rightarrow> ('w, 'a) pprog" where
  "get_prov f = State (\<lambda>s. (f (ps_prov s), s))"

definition upd_prov :: "('w provisioning_state \<Rightarrow> 'w provisioning_state) \<Rightarrow> ('w, unit) pprog" where
  "upd_prov f = State (\<lambda>s. ((), aliased (s\<lparr>ps_prov := f (ps_prov s)\<rparr>)))"

abbreviation pret :: "'a \<Rightarrow> ('w, 'a) pprog" where
  "pret \<equiv> State_Monad.return"

text \<open>The macros \<open>ESP_RETURN_ON_FALSE\<close> and \<open>ESP_RETURN_ON_ERROR\<close> on this state.\<close>

definition P_RETURN_ON_FALSE :: "bool \<Rightarrow> esp_err \<Rightarrow> ('w, esp_err) pprog \<Rightarrow> ('w, esp_err) pprog" where
  "P_RETURN_ON_FALSE c err rest = (if c then rest else pret err)"

definition P_RETURN_ON_ERROR :: "('w, esp_err) pprog \<Rightarrow> ('w, esp_err) pprog \<Rightarrow> ('w, esp_err) pprog" where
  "P_RETURN_ON_ERROR m rest = do { err \<leftarrow> m; if err = ESP_OK then rest else pret err }"

section \<open>The pending configuration\<close>

definition bind_pending_config :: "('w, unit) pprog" where
  "bind_pending_config = upd_prov (\<lambda>p. p\<lparr>pv_bound := True\<rparr>)"

text \<open>The array after the call; \<open>target_sz\<close> is its size.\<close>

definition copy_string_value :: "byte list \<Rightarrow> nat \<Rightarrow> byte list option \<Rightarrow> byte list" where
  "copy_string_value target target_sz source =
     (if target_sz = 0 then target
      else case source of
             None \<Rightarrow> target[0 := 0]
           | Some s \<Rightarrow> (strncpy target s (target_sz - 1))[target_sz - 1 := 0])"

text \<open>The buffers and numbers of a pending configuration taken from the runtime's.\<close>

definition copy_current :: "aetus_config \<Rightarrow> 'w provisioning_state \<Rightarrow> 'w provisioning_state" where
  "copy_current current p =
     p\<lparr>pv_wifi_ssid := copy_string_value (pv_wifi_ssid p) (AETUS_WIFI_SSID_MAX + 1) (wifi_ssid current),
       pv_wifi_password := copy_string_value (pv_wifi_password p) (AETUS_WIFI_PASSWORD_MAX + 1) (wifi_password current),
       pv_wifi_identity := copy_string_value (pv_wifi_identity p) (AETUS_WIFI_IDENTITY_MAX + 1) (wifi_identity current),
       pv_ingest_url := copy_string_value (pv_ingest_url p) (AETUS_URL_MAX + 1) (ingest_url current),
       pv_time_url := copy_string_value (pv_time_url p) (AETUS_URL_MAX + 1) (time_url current),
       pv_device_id := copy_string_value (pv_device_id p) (AETUS_DEVICE_ID_MAX + 1) (device_id current),
       pv_device_token := copy_string_value (pv_device_token p) (AETUS_DEVICE_TOKEN_MAX + 1) (device_token current),
       pv_config := (pv_config p)\<lparr>wifi_auth := wifi_auth current, firmware_version := firmware_version current,
         upload_interval_ms := upload_interval_ms current, queue_depth := queue_depth current,
         connected_led_enabled := connected_led_enabled current, connected_led_gpio := connected_led_gpio current\<rparr>\<rparr>"

definition sync_pending_from_runtime :: "('w, unit) pprog" where
  "sync_pending_from_runtime = do {
     _ \<leftarrow> bind_pending_config;
     r \<leftarrow> rt (aetus_get_config True);
     (case r of Inl _ \<Rightarrow> pret () | Inr current \<Rightarrow> upd_prov (copy_current current))
   }"

section \<open>Packets\<close>

definition append_text :: "'w ble \<Rightarrow> mbuf \<Rightarrow> byte list option \<Rightarrow> ('w, att_result \<times> mbuf) pprog" where
  "append_text B om value = do {
     let text = (case value of None \<Rightarrow> [] | Some v \<Rightarrow> cstr v);
     (rc, om) \<leftarrow> bcall (os_mbuf_append B om text);
     pret (if rc = 0 then ATT_OK else BLE_ATT_ERR_INSUFFICIENT_RES, om)
   }"

text \<open>\<open>snprintf(buffer, 16, "%lu", value)\<close>: ten digits at most.\<close>

definition append_u32 :: "'w ble \<Rightarrow> mbuf \<Rightarrow> u32 \<Rightarrow> ('w, att_result \<times> mbuf) pprog" where
  "append_u32 B om value = append_text B om (Some (take 15 (dec_of (unat value)) @ [0]))"

definition append_bool :: "'w ble \<Rightarrow> mbuf \<Rightarrow> bool \<Rightarrow> ('w, att_result \<times> mbuf) pprog" where
  "append_bool B om value = append_text B om (Some (str (if value then ''1'' else ''0'')))"

text \<open>The loop that drops line ends.\<close>

fun trim_len :: "byte list \<Rightarrow> nat \<Rightarrow> nat" where
  "trim_len target 0 = 0"
| "trim_len target (Suc n) = (if target ! n = 10 \<or> target ! n = 13 then trim_len target n else Suc n)"

text \<open>The result with the array after the call.\<close>

definition write_text :: "'w ble \<Rightarrow> mbuf \<Rightarrow> byte list \<Rightarrow> nat \<Rightarrow> att_result \<times> byte list" where
  "write_text B om target target_sz =
     (let len = OS_MBUF_PKTLEN om in
      if target_sz = 0 \<or> unat len \<ge> target_sz then (BLE_ATT_ERR_INVALID_ATTR_VALUE_LEN, target)
      else
        (case ble_hs_mbuf_to_flat B om (target_sz - 1) of
           (rc, bs) \<Rightarrow>
             let target = bs @ drop (length bs) target in
             if rc \<noteq> 0 then (BLE_ATT_ERR_UNLIKELY, target)
             else (ATT_OK, target[trim_len target (length bs) := 0])))"

text \<open>
  \<open>strtoul(s, &end, 10)\<close> with 32-bit \<open>unsigned long\<close>: \<open>None\<close> where it converts nothing, and otherwise the value,
  whether it set \<open>errno\<close> to \<open>ERANGE\<close>, and the string at \<open>end\<close>.
\<close>

definition strtoul :: "byte list \<Rightarrow> (u32 \<times> bool \<times> byte list) option" where
  "strtoul s =
     (let s = dropWhile is_space s;
          negative = (s \<noteq> [] \<and> hd s = 45);
          s = (if s \<noteq> [] \<and> (hd s = 45 \<or> hd s = 43) then tl s else s);
          ds = takeWhile is_digit s;
          rest = dropWhile is_digit s;
          v = dec_val ds
      in if ds = [] then None
         else if v \<ge> 2 ^ 32 then Some (- 1, True, rest)
         else Some (if negative then - of_nat v else of_nat v, False, rest))"

text \<open>The readers return what they store through their pointer, if anything.\<close>

definition read_u32_from_mbuf :: "'w ble \<Rightarrow> mbuf \<Rightarrow> att_result \<times> u32 option" where
  "read_u32_from_mbuf B om =
     (case write_text B om (replicate 16 0) 16 of
        (rc, buffer) \<Rightarrow>
          if rc \<noteq> ATT_OK then (rc, None)
          else
            (case strtoul (cstr buffer) of
               None \<Rightarrow> (BLE_ATT_ERR_INVALID_ATTR_VALUE_LEN, None)
             | Some (parsed, erange, rest) \<Rightarrow>
                 if erange \<or> rest \<noteq> [] then (BLE_ATT_ERR_INVALID_ATTR_VALUE_LEN, None)
                 else (ATT_OK, Some parsed)))"

definition read_bool_from_mbuf :: "'w ble \<Rightarrow> mbuf \<Rightarrow> att_result \<times> bool option" where
  "read_bool_from_mbuf B om =
     (case write_text B om (replicate 8 0) 8 of
        (rc, buffer) \<Rightarrow>
          if rc \<noteq> ATT_OK then (rc, None)
          else if cstr buffer \<in> {str ''1'', str ''true'', str ''on''} then (ATT_OK, Some True)
          else if cstr buffer \<in> {str ''0'', str ''false'', str ''off''} then (ATT_OK, Some False)
          else (BLE_ATT_ERR_INVALID_ATTR_VALUE_LEN, None))"

definition read_auth_from_mbuf :: "'w ble \<Rightarrow> mbuf \<Rightarrow> att_result \<times> aetus_wifi_auth option" where
  "read_auth_from_mbuf B om =
     (case write_text B om (replicate 8 0) 8 of
        (rc, buffer) \<Rightarrow>
          if rc \<noteq> ATT_OK then (rc, None)
          else if cstr buffer \<in> {str ''psk'', str ''0''} then (ATT_OK, Some AETUS_WIFI_AUTH_PSK)
          else if cstr buffer \<in> {str ''peap'', str ''1''} then (ATT_OK, Some AETUS_WIFI_AUTH_PEAP)
          else (BLE_ATT_ERR_INVALID_ATTR_VALUE_LEN, None))"

section \<open>Reading and writing characteristics\<close>

definition provisioning_read :: "'w ble \<Rightarrow> prov_field \<Rightarrow> mbuf \<Rightarrow> ('w, att_result \<times> mbuf) pprog" where
  "provisioning_read B field om = do {
     p \<leftarrow> get_prov (\<lambda>p. p);
     (case field of
        AETUS_PROV_FIELD_WIFI_SSID \<Rightarrow> append_text B om (Some (pv_wifi_ssid p))
      | AETUS_PROV_FIELD_WIFI_AUTH \<Rightarrow>
          append_text B om (Some (str (if wifi_auth (pv_config p) = AETUS_WIFI_AUTH_PEAP then ''peap'' else ''psk'')))
      | AETUS_PROV_FIELD_WIFI_ID \<Rightarrow> append_text B om (Some (pv_wifi_identity p))
      | AETUS_PROV_FIELD_INGEST_URL \<Rightarrow> append_text B om (Some (pv_ingest_url p))
      | AETUS_PROV_FIELD_TIME_URL \<Rightarrow> append_text B om (Some (pv_time_url p))
      | AETUS_PROV_FIELD_DEVICE_ID \<Rightarrow> append_text B om (Some (pv_device_id p))
      | AETUS_PROV_FIELD_FIRMWARE_VERSION \<Rightarrow> append_u32 B om (firmware_version (pv_config p))
      | AETUS_PROV_FIELD_UPLOAD_INTERVAL_MS \<Rightarrow> append_u32 B om (upload_interval_ms (pv_config p))
      | AETUS_PROV_FIELD_QUEUE_DEPTH \<Rightarrow> append_u32 B om (queue_depth (pv_config p))
      | AETUS_PROV_FIELD_LED_ENABLED \<Rightarrow> append_bool B om (connected_led_enabled (pv_config p))
      | AETUS_PROV_FIELD_LED_GPIO \<Rightarrow> append_u32 B om (connected_led_gpio (pv_config p))
      | _ \<Rightarrow> pret (BLE_ATT_ERR_READ_NOT_PERMITTED, om))
   }"

text \<open>A text written into a buffer of \<open>s_prov\<close>, and a number that is stored whether or not it was read.\<close>

definition write_buffer ::
  "'w ble \<Rightarrow> mbuf \<Rightarrow> ('w provisioning_state \<Rightarrow> byte list) \<Rightarrow>
   (byte list \<Rightarrow> 'w provisioning_state \<Rightarrow> 'w provisioning_state) \<Rightarrow> nat \<Rightarrow> ('w, att_result) pprog" where
  "write_buffer B om buf put target_sz = do {
     target \<leftarrow> get_prov buf;
     let r = write_text B om target target_sz;
     _ \<leftarrow> upd_prov (put (snd r));
     pret (fst r)
   }"

definition write_number ::
  "'w ble \<Rightarrow> mbuf \<Rightarrow> (u32 \<Rightarrow> aetus_config \<Rightarrow> aetus_config) \<Rightarrow> ('w, att_result) pprog" where
  "write_number B om put = do {
     let r = read_u32_from_mbuf B om;
     let number = (case snd r of None \<Rightarrow> 0 | Some v \<Rightarrow> v);
     _ \<leftarrow> upd_prov (\<lambda>p. p\<lparr>pv_config := put number (pv_config p)\<rparr>);
     pret (fst r)
   }"

definition provisioning_apply :: "'w platform \<Rightarrow> ('w, att_result) pprog" where
  "provisioning_apply P = do {
     p \<leftarrow> get_prov (\<lambda>p. p);
     ctx \<leftarrow> rt (get_ctx (\<lambda>c. c));
     rc \<leftarrow> rt (aetus_update_config P (Some (pending_config p)));
     _ \<leftarrow> State (\<lambda>s. ((), s\<lparr>ps_shared := (pv_bound p \<and> config_stored ctx (pending_config p)) \<or> ps_shared s\<rparr>));
     if rc \<noteq> ESP_OK then pret BLE_ATT_ERR_UNLIKELY
     else do {
       _ \<leftarrow> (case pv_config_changed_cb p of
              None \<Rightarrow> pret ()
            | Some cb \<Rightarrow> bcall (cb (pending_config p) (pv_user_ctx p)));
       pret ATT_OK
     }
   }"

definition provisioning_write :: "'w platform \<Rightarrow> 'w ble \<Rightarrow> prov_field \<Rightarrow> mbuf \<Rightarrow> ('w, att_result) pprog" where
  "provisioning_write P B field om =
     (case field of
        AETUS_PROV_FIELD_WIFI_SSID \<Rightarrow>
          write_buffer B om pv_wifi_ssid (\<lambda>t p. p\<lparr>pv_wifi_ssid := t\<rparr>) (AETUS_WIFI_SSID_MAX + 1)
      | AETUS_PROV_FIELD_WIFI_AUTH \<Rightarrow> do {
          let r = read_auth_from_mbuf B om;
          _ \<leftarrow> (case snd r of None \<Rightarrow> pret ()
                | Some a \<Rightarrow> upd_prov (\<lambda>p. p\<lparr>pv_config := (pv_config p)\<lparr>wifi_auth := a\<rparr>\<rparr>));
          pret (fst r)
        }
      | AETUS_PROV_FIELD_WIFI_ID \<Rightarrow>
          write_buffer B om pv_wifi_identity (\<lambda>t p. p\<lparr>pv_wifi_identity := t\<rparr>) (AETUS_WIFI_IDENTITY_MAX + 1)
      | AETUS_PROV_FIELD_WIFI_PASSWORD \<Rightarrow>
          write_buffer B om pv_wifi_password (\<lambda>t p. p\<lparr>pv_wifi_password := t\<rparr>) (AETUS_WIFI_PASSWORD_MAX + 1)
      | AETUS_PROV_FIELD_INGEST_URL \<Rightarrow>
          write_buffer B om pv_ingest_url (\<lambda>t p. p\<lparr>pv_ingest_url := t\<rparr>) (AETUS_URL_MAX + 1)
      | AETUS_PROV_FIELD_TIME_URL \<Rightarrow>
          write_buffer B om pv_time_url (\<lambda>t p. p\<lparr>pv_time_url := t\<rparr>) (AETUS_URL_MAX + 1)
      | AETUS_PROV_FIELD_DEVICE_ID \<Rightarrow>
          write_buffer B om pv_device_id (\<lambda>t p. p\<lparr>pv_device_id := t\<rparr>) (AETUS_DEVICE_ID_MAX + 1)
      | AETUS_PROV_FIELD_DEVICE_TOKEN \<Rightarrow>
          write_buffer B om pv_device_token (\<lambda>t p. p\<lparr>pv_device_token := t\<rparr>) (AETUS_DEVICE_TOKEN_MAX + 1)
      | AETUS_PROV_FIELD_FIRMWARE_VERSION \<Rightarrow> write_number B om (\<lambda>n c. c\<lparr>firmware_version := n\<rparr>)
      | AETUS_PROV_FIELD_UPLOAD_INTERVAL_MS \<Rightarrow> write_number B om (\<lambda>n c. c\<lparr>upload_interval_ms := n\<rparr>)
      | AETUS_PROV_FIELD_QUEUE_DEPTH \<Rightarrow> write_number B om (\<lambda>n c. c\<lparr>queue_depth := n\<rparr>)
      | AETUS_PROV_FIELD_LED_ENABLED \<Rightarrow> do {
          let r = read_bool_from_mbuf B om;
          _ \<leftarrow> (case snd r of None \<Rightarrow> pret ()
                | Some b \<Rightarrow> upd_prov (\<lambda>p. p\<lparr>pv_config := (pv_config p)\<lparr>connected_led_enabled := b\<rparr>\<rparr>));
          pret (fst r)
        }
      | AETUS_PROV_FIELD_LED_GPIO \<Rightarrow> write_number B om (\<lambda>n c. c\<lparr>connected_led_gpio := n\<rparr>)
      | AETUS_PROV_FIELD_APPLY \<Rightarrow> provisioning_apply P)"

text \<open>
  An access as the service table makes it: \<open>arg\<close> is the field of a characteristic, or the name of its descriptor.
\<close>

datatype ble_gatt_access =
    BLE_GATT_ACCESS_OP_READ_CHR prov_field
  | BLE_GATT_ACCESS_OP_WRITE_CHR prov_field
  | BLE_GATT_ACCESS_OP_READ_DSC "byte list"
  | BLE_GATT_ACCESS_OP_WRITE_DSC

definition provisioning_access ::
  "'w platform \<Rightarrow> 'w ble \<Rightarrow> ble_gatt_access \<Rightarrow> mbuf \<Rightarrow> ('w, att_result \<times> mbuf) pprog" where
  "provisioning_access P B ctxt om =
     (case ctxt of
        BLE_GATT_ACCESS_OP_READ_CHR field \<Rightarrow> provisioning_read B field om
      | BLE_GATT_ACCESS_OP_WRITE_CHR field \<Rightarrow> do { rc \<leftarrow> provisioning_write P B field om; pret (rc, om) }
      | BLE_GATT_ACCESS_OP_READ_DSC name \<Rightarrow> append_text B om (Some name)
      | BLE_GATT_ACCESS_OP_WRITE_DSC \<Rightarrow> pret (BLE_ATT_ERR_UNLIKELY, om))"

section \<open>Connections\<close>

definition provisioning_advertise :: "'w ble \<Rightarrow> ('w, unit) pprog" where
  "provisioning_advertise B = do {
     name \<leftarrow> bcall (ble_svc_gap_device_name B);
     rc \<leftarrow> bcall (ble_gap_adv_set_fields B \<lparr>adv_name = cstr name, adv_uuids128 = [s_service_uuid]\<rparr>);
     if rc \<noteq> 0 then pret ()
     else do {
       own \<leftarrow> get_prov pv_own_addr_type;
       _ \<leftarrow> bcall (ble_gap_adv_start B own AETUS_PROVISIONING_ADV_INTERVAL_UNITS);
       pret ()
     }
   }"

definition notify_connection_check :: "'w ble \<Rightarrow> u16 \<Rightarrow> int \<Rightarrow> ('w, unit) pprog" where
  "notify_connection_check B conn status = do {
     p \<leftarrow> get_prov (\<lambda>p. p);
     (case pv_connection_check_cb p of
        None \<Rightarrow> pret ()
      | Some cb \<Rightarrow> do {
          (rc, desc) \<leftarrow> bcall (ble_gap_conn_find B conn);
          if rc \<noteq> 0 then bcall (cb conn status 0 0 0 (pv_user_ctx p))
          else bcall (cb conn status (conn_itvl desc) (conn_latency desc) (supervision_timeout desc) (pv_user_ctx p))
        })
   }"

definition provisioning_start_disconnect_timer :: "'w ble \<Rightarrow> u16 \<Rightarrow> ('w, unit) pprog" where
  "provisioning_start_disconnect_timer B conn = do {
     init \<leftarrow> get_prov pv_disconnect_callout_initialized;
     if \<not> init then pret ()
     else do {
       _ \<leftarrow> upd_prov (\<lambda>p. p\<lparr>pv_conn_handle := conn\<rparr>);
       _ \<leftarrow> bcall (ble_npl_callout_stop B);
       bcall (ble_npl_callout_reset B (ble_npl_time_ms_to_ticks32 B AETUS_PROVISIONING_AUTO_DISCONNECT_MS))
     }
   }"

definition provisioning_stop_disconnect_timer :: "'w ble \<Rightarrow> ('w, unit) pprog" where
  "provisioning_stop_disconnect_timer B = do {
     init \<leftarrow> get_prov pv_disconnect_callout_initialized;
     if \<not> init then pret () else bcall (ble_npl_callout_stop B)
   }"

definition provisioning_disconnect_timeout :: "'w ble \<Rightarrow> ('w, unit) pprog" where
  "provisioning_disconnect_timeout B = do {
     p \<leftarrow> get_prov (\<lambda>p. p);
     if \<not> pv_connected p then pret ()
     else do {
       _ \<leftarrow> bcall (ble_gap_terminate B (pv_conn_handle p));
       pret ()
     }
   }"

datatype ble_gap_event =
    BLE_GAP_EVENT_CONNECT int u16
  | BLE_GAP_EVENT_DISCONNECT int
  | BLE_GAP_EVENT_CONN_UPDATE int u16
  | BLE_GAP_EVENT_ADV_COMPLETE
  | BLE_GAP_EVENT_OTHER

definition provisioning_gap_event :: "'w ble \<Rightarrow> ble_gap_event \<Rightarrow> ('w, int) pprog" where
  "provisioning_gap_event B event = do {
     _ \<leftarrow> (case event of
            BLE_GAP_EVENT_CONNECT status conn \<Rightarrow>
              if status = 0 then do {
                _ \<leftarrow> upd_prov (\<lambda>p. p\<lparr>pv_connected := True\<rparr>);
                _ \<leftarrow> provisioning_start_disconnect_timer B conn;
                notify_connection_check B conn status
              }
              else provisioning_advertise B
          | BLE_GAP_EVENT_DISCONNECT reason \<Rightarrow> do {
              _ \<leftarrow> upd_prov (\<lambda>p. p\<lparr>pv_connected := False\<rparr>);
              _ \<leftarrow> provisioning_stop_disconnect_timer B;
              provisioning_advertise B
            }
          | BLE_GAP_EVENT_CONN_UPDATE status conn \<Rightarrow> notify_connection_check B conn status
          | BLE_GAP_EVENT_ADV_COMPLETE \<Rightarrow> provisioning_advertise B
          | BLE_GAP_EVENT_OTHER \<Rightarrow> pret ());
     pret 0
   }"

definition provisioning_on_sync :: "'w ble \<Rightarrow> ('w, unit) pprog" where
  "provisioning_on_sync B = do {
     (rc, own) \<leftarrow> bcall (ble_hs_id_infer_auto B);
     _ \<leftarrow> (case own of None \<Rightarrow> pret () | Some a \<Rightarrow> upd_prov (\<lambda>p. p\<lparr>pv_own_addr_type := a\<rparr>));
     if rc \<noteq> 0 then pret () else provisioning_advertise B
   }"

definition provisioning_host_task :: "'w ble \<Rightarrow> ('w, unit) pprog" where
  "provisioning_host_task B = do {
     _ \<leftarrow> bcall (nimble_port_run B);
     bcall (nimble_port_freertos_deinit B)
   }"

section \<open>Starting\<close>

definition ensure_nvs_initialized :: "'w platform \<Rightarrow> ('w, esp_err) pprog" where
  "ensure_nvs_initialized P = do {
     err \<leftarrow> bcall (nvs_flash_init P);
     let result = (\<lambda>err. pret (if err = ESP_ERR_INVALID_STATE then ESP_OK else err));
     if err = ESP_ERR_NVS_NO_FREE_PAGES \<or> err = ESP_ERR_NVS_NEW_VERSION_FOUND then
       P_RETURN_ON_ERROR (bcall (nvs_flash_erase P)) (do { err \<leftarrow> bcall (nvs_flash_init P); result err })
     else result err
   }"

definition provisioning_device_name :: "'w provisioning_config option \<Rightarrow> byte list" where
  "provisioning_device_name config =
     (case config of
        None \<Rightarrow> str ''AETUS Provisioning''
      | Some c \<Rightarrow> (case pc_device_name c of None \<Rightarrow> str ''AETUS Provisioning'' | Some n \<Rightarrow> cstr n))"

definition set_callbacks :: "'w provisioning_config option \<Rightarrow> 'w provisioning_state \<Rightarrow> 'w provisioning_state" where
  "set_callbacks config p =
     (case config of
        None \<Rightarrow> p\<lparr>pv_config_changed_cb := None, pv_connection_check_cb := None, pv_user_ctx := 0\<rparr>
      | Some c \<Rightarrow> p\<lparr>pv_config_changed_cb := pc_config_changed_cb c, pv_connection_check_cb := pc_connection_check_cb c,
                    pv_user_ctx := pc_user_ctx c\<rparr>)"

text \<open>The part of the start that brings up the host and its services.\<close>

definition start_host :: "'w platform \<Rightarrow> 'w ble \<Rightarrow> 'w provisioning_config option \<Rightarrow> ('w, esp_err) pprog" where
  "start_host P B config =
     P_RETURN_ON_ERROR (ensure_nvs_initialized P)
     (P_RETURN_ON_ERROR (bcall (nimble_port_init B)) (do {
       _ \<leftarrow> bcall (ble_npl_callout_init B);
       _ \<leftarrow> upd_prov (\<lambda>p. p\<lparr>pv_disconnect_callout_initialized := True\<rparr>);
       _ \<leftarrow> bcall (ble_hs_cfg_callbacks B);
       _ \<leftarrow> bcall (ble_svc_gap_init B);
       _ \<leftarrow> bcall (ble_svc_gatt_init B);
       rc \<leftarrow> bcall (ble_gatts_count_cfg B s_provisioning_svcs);
       P_RETURN_ON_FALSE (rc = 0) ESP_FAIL (do {
         rc \<leftarrow> bcall (ble_gatts_add_svcs B s_provisioning_svcs);
         P_RETURN_ON_FALSE (rc = 0) ESP_FAIL (do {
           rc \<leftarrow> bcall (ble_svc_gap_device_name_set B (provisioning_device_name config));
           P_RETURN_ON_FALSE (rc = 0) ESP_FAIL (do {
             _ \<leftarrow> bcall (nimble_port_freertos_init B);
             _ \<leftarrow> upd_prov (\<lambda>p. p\<lparr>pv_started := True\<rparr>);
             pret ESP_OK
           })
         })
       })
     }))"

definition aetus_start_provisioning ::
  "'w platform \<Rightarrow> 'w ble \<Rightarrow> 'w provisioning_config option \<Rightarrow> ('w, esp_err) pprog" where
  "aetus_start_provisioning P B config = do {
     started \<leftarrow> get_prov pv_started;
     P_RETURN_ON_FALSE (\<not> started) ESP_ERR_INVALID_STATE (do {
       _ \<leftarrow> upd_prov (\<lambda>_. zero_prov);
       _ \<leftarrow> bind_pending_config;
       _ \<leftarrow> sync_pending_from_runtime;
       _ \<leftarrow> upd_prov (set_callbacks config);
       start_host P B config
     })
   }"

text \<open>The build without NimBLE (\<open>aetus_provisioning_stub.c\<close>).\<close>

definition aetus_start_provisioning_stub :: "'w provisioning_config option \<Rightarrow> ('w, esp_err) pprog" where
  "aetus_start_provisioning_stub config = pret ESP_ERR_NOT_SUPPORTED"

end
