(* ===== verification/ProvisioningProps.thy ===== *)
theory ProvisioningProps
  imports Provisioning
begin

text \<open>
  What the provisioning service guarantees: its buffers stay terminated whatever a client sends, a write has
  exactly the meaning of its text, secrets cannot be read, and the connection timer follows the connection. What it
  does not: after an apply the running configuration shares the buffers, so a later write changes it unchecked, and an
  apply resets the authentication mode.
\<close>

section \<open>Execution\<close>

lemma prun_steps [run_simps]:
  "run_state (rt m) s = (case run_state m (ps_sys s) of (a, y) \<Rightarrow> (a, s\<lparr>ps_sys := y\<rparr>))"
  "run_state (get_prov g) s = (g (ps_prov s), s)"
  "run_state (upd_prov u) s = ((), aliased (s\<lparr>ps_prov := u (ps_prov s)\<rparr>))"
  "run_state (P_RETURN_ON_FALSE c e k) s = (if c then run_state k s else (e, s))"
  by (simp_all add: rt_def get_prov_def upd_prov_def P_RETURN_ON_FALSE_def)

lemma prun_return [run_simps]:
  "run_state (pret a) s = (a, s)"
  "run_state (P_RETURN_ON_ERROR m k) s =
     (case run_state m s of (e, s') \<Rightarrow> if e = ESP_OK then run_state k s' else (e, s'))"
  by (auto simp: P_RETURN_ON_ERROR_def run_bind split: prod.split)

lemma prun_bcall [run_simps]:
  "run_state (bcall f) s = (case f (s_world (ps_sys s)) of (a, w) \<Rightarrow> (a, s\<lparr>ps_sys := (ps_sys s)\<lparr>s_world := w\<rparr>\<rparr>))"
  by (simp add: bcall_def prun_steps run_steps Let_def split: prod.split)

text \<open>NimBLE's copy out of a packet: within the given size, and all of a packet that fits.\<close>

definition flat_ok :: "'w ble \<Rightarrow> bool" where
  "flat_ok B \<longleftrightarrow> (\<forall>om n. length (snd (ble_hs_mbuf_to_flat B om n)) \<le> n \<and>
     (length om \<le> n \<longrightarrow> ble_hs_mbuf_to_flat B om n = (0, om)))"

text \<open>An append that succeeds appends its bytes.\<close>

definition append_ok :: "'w ble \<Rightarrow> bool" where
  "append_ok B \<longleftrightarrow> (\<forall>om t w. fst (fst (os_mbuf_append B om t w)) = 0 \<longrightarrow> snd (fst (os_mbuf_append B om t w)) = om @ t)"

section \<open>Writing text\<close>

definition is_eol :: "byte \<Rightarrow> bool" where
  "is_eol b \<longleftrightarrow> b = 10 \<or> b = 13"

text \<open>A text without the line ends after it.\<close>

definition strip :: "byte list \<Rightarrow> byte list" where
  "strip bs = rev (dropWhile is_eol (rev bs))"

lemma strip_snoc: "strip (bs @ [b]) = (if is_eol b then strip bs else bs @ [b])"
  by (simp add: strip_def)

lemma trim_len_strip: "take (trim_len (bs @ rest) (length bs)) (bs @ rest) = strip bs"
proof (induction bs arbitrary: rest rule: rev_induct)
  case Nil
  then show ?case by (simp add: strip_def)
next
  case (snoc b bs)
  from snoc [of "b # rest"] show ?case by (simp add: strip_snoc is_eol_def)
qed

lemma trim_len_le: "trim_len t n \<le> n"
  by (induction n) auto

text \<open>A terminated buffer for strings of at most \<open>n\<close> bytes.\<close>

definition buffer :: "nat \<Rightarrow> byte list \<Rightarrow> bool" where
  "buffer n t \<longleftrightarrow> length t = n + 1 \<and> t ! n = 0"

lemma cstr_update_zero: "k < length t \<Longrightarrow> cstr (t[k := 0]) = cstr (take k t)"
  by (induction t arbitrary: k) (auto split: nat.split)

lemma write_text_buffer:
  assumes "flat_ok B" "buffer n t"
  shows "buffer n (snd (write_text B om t (n + 1)))"
proof -
  obtain rc bs where f: "ble_hs_mbuf_to_flat B om n = (rc, bs)" by (cases "ble_hs_mbuf_to_flat B om n")
  then have l: "length bs \<le> n" using assms(1) unfolding flat_ok_def by (metis snd_conv)
  let ?t = "bs @ drop (length bs) t"
  have t: "length ?t = n + 1" "?t ! n = 0" using assms(2) l by (auto simp: buffer_def nth_append)
  moreover have "trim_len ?t (length bs) \<le> n" using trim_len_le [of ?t "length bs"] l by simp
  ultimately show ?thesis
    using assms(2) f by (auto simp: write_text_def Let_def buffer_def nth_list_update)
qed

lemma write_text_exact:
  assumes "flat_ok B" "buffer n t" "length om < 65536" "n < 65536"
  shows "if length om \<le> n then fst (write_text B om t (n + 1)) = ATT_OK \<and>
      cstr (snd (write_text B om t (n + 1))) = cstr (strip om)
    else write_text B om t (n + 1) = (BLE_ATT_ERR_INVALID_ATTR_VALUE_LEN, t)"
proof -
  have len: "unat (OS_MBUF_PKTLEN om) = length om" using assms(3) by (simp add: c_defs unat_of_nat)
  show ?thesis
  proof (cases "length om \<le> n")
    case True
    then have f: "ble_hs_mbuf_to_flat B om n = (0, om)" using assms(1) by (simp add: flat_ok_def)
    let ?t = "om @ drop (length om) t"
    have "trim_len ?t (length om) < length ?t"
      using trim_len_le [of ?t "length om"] True assms(2) by (simp add: buffer_def)
    then have "cstr (?t[trim_len ?t (length om) := 0]) = cstr (strip om)"
      by (simp only: cstr_update_zero trim_len_strip)
    with True f len show ?thesis by (simp add: write_text_def Let_def)
  next
    case False
    with len show ?thesis by (simp add: write_text_def Let_def)
  qed
qed

section \<open>The invariant\<close>

definition prov_buffers :: "'w provisioning_state \<Rightarrow> bool" where
  "prov_buffers p \<longleftrightarrow>
     buffer AETUS_WIFI_SSID_MAX (pv_wifi_ssid p) \<and> buffer AETUS_WIFI_PASSWORD_MAX (pv_wifi_password p) \<and>
     buffer AETUS_WIFI_IDENTITY_MAX (pv_wifi_identity p) \<and> buffer AETUS_URL_MAX (pv_ingest_url p) \<and>
     buffer AETUS_URL_MAX (pv_time_url p) \<and> buffer AETUS_DEVICE_ID_MAX (pv_device_id p) \<and>
     buffer AETUS_DEVICE_TOKEN_MAX (pv_device_token p)"

text \<open>
  Every buffer is terminated, and the strings the runtime shares are those of the buffers.
\<close>

definition prov_ok :: "'w psys \<Rightarrow> bool" where
  "prov_ok s \<longleftrightarrow>
     prov_buffers (ps_prov s) \<and>
     (ps_shared s \<longrightarrow> pv_bound (ps_prov s) \<and>
        cx_config (s_ctx (ps_sys s)) = with_buffers (ps_prov s) (cx_config (s_ctx (ps_sys s))))"

text \<open>What an update of \<open>s_prov\<close> has to keep.\<close>

definition fine :: "'w provisioning_state \<Rightarrow> 'w provisioning_state \<Rightarrow> bool" where
  "fine p q \<longleftrightarrow> (prov_buffers p \<longrightarrow> prov_buffers q) \<and> pv_bound q = pv_bound p"

lemma with_buffers_idem [simp]: "with_buffers p (with_buffers p c) = with_buffers p c"
  by (simp add: with_buffers_def)

lemma with_buffers_select [simp]:
  "wifi_ssid (with_buffers p c) = Some (pv_wifi_ssid p)" "wifi_password (with_buffers p c) = Some (pv_wifi_password p)"
  "wifi_identity (with_buffers p c) = Some (pv_wifi_identity p)" "ingest_url (with_buffers p c) = Some (pv_ingest_url p)"
  "time_url (with_buffers p c) = Some (pv_time_url p)" "device_id (with_buffers p c) = Some (pv_device_id p)"
  "device_token (with_buffers p c) = Some (pv_device_token p)" "wifi_auth (with_buffers p c) = wifi_auth c"
  "auth_mode (with_buffers p c) = auth_mode c" "firmware_version (with_buffers p c) = firmware_version c"
  "upload_interval_ms (with_buffers p c) = upload_interval_ms c" "queue_depth (with_buffers p c) = queue_depth c"
  "connected_led_enabled (with_buffers p c) = connected_led_enabled c"
  "connected_led_gpio (with_buffers p c) = connected_led_gpio c"
  by (simp_all add: with_buffers_def)

lemma aliased_select [simp]:
  "ps_prov (aliased s) = ps_prov s" "ps_shared (aliased s) = ps_shared s"
  "cx_queue (s_ctx (ps_sys (aliased s))) = cx_queue (s_ctx (ps_sys s))"
  "s_world (ps_sys (aliased s)) = s_world (ps_sys s)"
  "cx_config (s_ctx (ps_sys (aliased s))) =
     (if ps_shared s then with_buffers (ps_prov s) (cx_config (s_ctx (ps_sys s))) else cx_config (s_ctx (ps_sys s)))"
  by (simp_all add: aliased_def)

lemma aliased_ok: "prov_ok s \<Longrightarrow> fine (ps_prov s) q \<Longrightarrow> prov_ok (aliased (s\<lparr>ps_prov := q\<rparr>))"
  by (auto simp: prov_ok_def fine_def)

definition pkeeps :: "('w psys \<Rightarrow> bool) \<Rightarrow> ('w, 'a) pprog \<Rightarrow> bool" where
  "pkeeps I m \<longleftrightarrow> (\<forall>s. I s \<longrightarrow> I (snd (run_state m s)))"

lemma pkeepsD: "pkeeps I m \<Longrightarrow> I s \<Longrightarrow> run_state m s = (a, s') \<Longrightarrow> I s'"
  unfolding pkeeps_def by (metis snd_conv)

lemma pkeeps_bind: "pkeeps I m \<Longrightarrow> (\<And>a. pkeeps I (f a)) \<Longrightarrow> pkeeps I (State_Monad.bind m f)"
  by (simp add: pkeeps_def run_bind split: prod.split) (metis snd_conv)

lemma pkeeps_rules:
  "pkeeps I (pret a)" "pkeeps I (get_prov g)" "pkeeps I m \<Longrightarrow> pkeeps I n \<Longrightarrow> pkeeps I (if c then m else n)"
  "pkeeps I k \<Longrightarrow> pkeeps I (P_RETURN_ON_FALSE c e k)"
  by (simp_all add: pkeeps_def run_simps)

lemma pkeeps_on_error: "pkeeps I m \<Longrightarrow> pkeeps I n \<Longrightarrow> pkeeps I (P_RETURN_ON_ERROR m n)"
  unfolding P_RETURN_ON_ERROR_def by (intro pkeeps_bind pkeeps_rules)

lemma ok_bcall: "pkeeps prov_ok (bcall f)"
  by (simp add: pkeeps_def run_simps prov_ok_def split: prod.split)

lemma ok_upd: "(\<And>p. fine p (u p)) \<Longrightarrow> pkeeps prov_ok (upd_prov u)"
  by (simp add: pkeeps_def run_simps aliased_ok)

lemma ok_set:
  "pkeeps prov_ok (upd_prov (\<lambda>p. p\<lparr>pv_config := c p\<rparr>))" "pkeeps prov_ok (upd_prov (\<lambda>p. p\<lparr>pv_conn_handle := h\<rparr>))"
  "pkeeps prov_ok (upd_prov (\<lambda>p. p\<lparr>pv_connected := b\<rparr>))" "pkeeps prov_ok (upd_prov (\<lambda>p. p\<lparr>pv_own_addr_type := a\<rparr>))"
  "pkeeps prov_ok (upd_prov (set_callbacks config))"
  "pkeeps prov_ok (upd_prov (\<lambda>p. p\<lparr>pv_disconnect_callout_initialized := True\<rparr>))"
  "pkeeps prov_ok (upd_prov (\<lambda>p. p\<lparr>pv_started := True\<rparr>))"
  by (rule ok_upd, simp add: fine_def prov_buffers_def set_callbacks_def split: option.split)+

lemmas ok_rules = pkeeps_bind pkeeps_rules pkeeps_on_error ok_bcall ok_set

lemma ok_append: "pkeeps prov_ok (append_text B om v)" "pkeeps prov_ok (append_u32 B om n)" "pkeeps prov_ok (append_bool B om b)"
  unfolding append_u32_def append_bool_def append_text_def by (auto intro!: ok_rules split: prod.split)

lemma ok_read: "pkeeps prov_ok (provisioning_read B field om)"
  unfolding provisioning_read_def by (intro ok_rules) (auto split: prov_field.split intro!: ok_rules ok_append)

lemma ok_write_buffer:
  assumes "flat_ok B" "\<And>p. prov_buffers p \<Longrightarrow> buffer n (buf p)" "\<And>p t. buffer n t \<Longrightarrow> fine p (put t p)"
  shows "pkeeps prov_ok (write_buffer B om buf put (Suc n))"
  unfolding pkeeps_def
proof (intro allI impI)
  fix s :: "'a psys"
  assume s: "prov_ok s"
  then have "buffer n (buf (ps_prov s))" by (simp add: assms(2) prov_ok_def)
  from assms(3) [OF write_text_buffer [OF assms(1) this]]
  show "prov_ok (snd (run_state (write_buffer B om buf put (Suc n)) s))"
    using aliased_ok [OF s] by (simp add: write_buffer_def run_simps Let_def)
qed

lemma ok_apply: "pkeeps prov_ok (provisioning_apply P)"
  unfolding pkeeps_def
proof (intro allI impI)
  fix s :: "'a psys"
  assume s: "prov_ok s"
  let ?p = "ps_prov s" and ?c = "pending_config (ps_prov s)"
  obtain rc y where r: "run_state (aetus_update_config P (Some ?c)) (ps_sys s) = (rc, y)"
    by (cases "run_state (aetus_update_config P (Some ?c)) (ps_sys s)")
  let ?s = "s\<lparr>ps_sys := y, ps_shared := (pv_bound ?p \<and> config_stored (s_ctx (ps_sys s)) ?c) \<or> ps_shared s\<rparr>"
  let ?k = "if rc \<noteq> ESP_OK then pret BLE_ATT_ERR_UNLIKELY
    else do {
      _ \<leftarrow> (case pv_config_changed_cb ?p of None \<Rightarrow> pret () | Some cb \<Rightarrow> bcall (cb ?c (pv_user_ctx ?p)));
      pret ATT_OK
    }"
  have "prov_ok ?s"
  proof (cases "config_stored (s_ctx (ps_sys s)) ?c")
    case True
    have "with_buffers ?p (update_config_next (s_ctx (ps_sys s)) (with_buffers ?p c)) =
        update_config_next (s_ctx (ps_sys s)) (with_buffers ?p c)" for c
      by (simp add: update_config_next_def with_buffers_def Let_def)
    with True update_config_accepted(1) [OF True r] s show ?thesis
      by (auto simp: prov_ok_def pending_config_def)
  next
    case False
    with update_config_refused [OF False] r s show ?thesis by (auto simp: prov_ok_def)
  qed
  moreover have "pkeeps prov_ok ?k" by (auto intro!: ok_rules split: option.split)
  moreover have "snd (run_state (provisioning_apply P) s) = snd (run_state ?k ?s)"
    using r by (simp add: provisioning_apply_def run_bind prun_steps run_steps)
  ultimately show "prov_ok (snd (run_state (provisioning_apply P) s))" by (simp add: pkeeps_def)
qed

lemma ok_write:
  assumes "flat_ok B"
  shows "pkeeps prov_ok (provisioning_write P B field om)"
proof -
  have num: "pkeeps prov_ok (write_number B om put)" for put
    unfolding write_number_def Let_def by (intro ok_rules)
  show ?thesis
    unfolding provisioning_write_def Let_def
    by (cases field)
      (auto intro!: ok_rules ok_apply num ok_write_buffer [OF assms] simp: prov_buffers_def fine_def split: option.split)
qed

lemma ok_access: "flat_ok B \<Longrightarrow> pkeeps prov_ok (provisioning_access P B ctxt om)"
  unfolding provisioning_access_def
  by (auto split: ble_gatt_access.split intro!: ok_rules ok_read ok_write ok_append)

lemma ok_advertise: "pkeeps prov_ok (provisioning_advertise B)"
  unfolding provisioning_advertise_def by (intro ok_rules)

lemma ok_notify: "pkeeps prov_ok (notify_connection_check B conn status)"
  unfolding notify_connection_check_def by (intro ok_rules) (auto split: option.split intro!: ok_rules)

lemma ok_timers:
  "pkeeps prov_ok (provisioning_start_disconnect_timer B conn)" "pkeeps prov_ok (provisioning_stop_disconnect_timer B)"
  "pkeeps prov_ok (provisioning_disconnect_timeout B)"
  unfolding provisioning_start_disconnect_timer_def provisioning_stop_disconnect_timer_def
    provisioning_disconnect_timeout_def
  by (intro ok_rules)+

lemma ok_gap_event: "pkeeps prov_ok (provisioning_gap_event B event)"
  unfolding provisioning_gap_event_def
  by (intro ok_rules) (auto split: ble_gap_event.split intro!: ok_rules ok_advertise ok_notify ok_timers)

lemma ok_on_sync: "pkeeps prov_ok (provisioning_on_sync B)"
  unfolding provisioning_on_sync_def
  by (intro ok_rules) (auto split: option.split intro!: ok_rules ok_advertise)

section \<open>Starting\<close>

lemma buffer_zero: "buffer n (replicate (n + 1) 0)"
  by (simp add: buffer_def nth_append del: replicate_Suc)

lemma buffer_copy: "buffer n t \<Longrightarrow> buffer n (copy_string_value t (n + 1) src)"
  by (auto simp: copy_string_value_def buffer_def length_strncpy nth_list_update split: option.split)

lemma zero_prov_buffers: "prov_buffers zero_prov"
  unfolding prov_buffers_def zero_prov_def provisioning_state.simps by (intro conjI buffer_zero)

lemma copy_current_fine: "fine p (copy_current c p)"
  unfolding fine_def prov_buffers_def copy_current_def by (simp add: buffer_copy [where n = "_ :: nat", simplified])

lemma ok_sync: "pkeeps prov_ok sync_pending_from_runtime"
proof -
  have "pkeeps prov_ok bind_pending_config"
    by (auto simp: pkeeps_def bind_pending_config_def run_simps prov_ok_def prov_buffers_def)
  moreover have "pkeeps prov_ok (rt (aetus_get_config True))"
    by (simp add: pkeeps_def run_simps aetus_get_config_def)
  ultimately show ?thesis
    unfolding sync_pending_from_runtime_def
    by (intro ok_rules) (auto split: sum.split intro!: ok_rules ok_upd copy_current_fine)
qed

lemma ok_nvs: "pkeeps prov_ok (ensure_nvs_initialized P)"
  unfolding ensure_nvs_initialized_def Let_def by (intro ok_rules)

text \<open>The reset with the binding that follows it gives a good state from any.\<close>

lemma ok_reset:
  assumes "pkeeps prov_ok m"
  shows "pkeeps prov_ok (do { _ \<leftarrow> upd_prov (\<lambda>_. zero_prov); _ \<leftarrow> bind_pending_config; m })"
  unfolding pkeeps_def
proof (intro allI impI)
  fix s :: "'a psys"
  let ?s = "aliased (aliased (s\<lparr>ps_prov := zero_prov\<rparr>)\<lparr>ps_prov := zero_prov\<lparr>pv_bound := True\<rparr>\<rparr>)"
  have "prov_ok ?s" using zero_prov_buffers by (auto simp: prov_ok_def prov_buffers_def)
  then show "prov_ok (snd (run_state (do { _ \<leftarrow> upd_prov (\<lambda>_. zero_prov); _ \<leftarrow> bind_pending_config; m }) s))"
    using assms by (simp add: pkeeps_def run_simps bind_pending_config_def)
qed

lemma ok_start: "pkeeps prov_ok (aetus_start_provisioning P B config)"
  unfolding aetus_start_provisioning_def start_host_def by (intro ok_rules ok_reset ok_sync ok_nvs)

section \<open>The service over time\<close>

text \<open>Events of the service: accesses and connection events of NimBLE's host task, its timer, and calls of the start.\<close>

inductive prov_step :: "'w platform \<Rightarrow> 'w ble \<Rightarrow> 'w psys \<Rightarrow> 'w psys \<Rightarrow> bool" for P B where
  access: "run_state (provisioning_access P B ctxt om) s = (r, s') \<Longrightarrow> prov_step P B s s'"
| gap_event: "run_state (provisioning_gap_event B event) s = (i, s') \<Longrightarrow> prov_step P B s s'"
| timeout: "run_state (provisioning_disconnect_timeout B) s = (u, s') \<Longrightarrow> prov_step P B s s'"
| on_sync: "run_state (provisioning_on_sync B) s = (u, s') \<Longrightarrow> prov_step P B s s'"
| start: "run_state (aetus_start_provisioning P B config) s = (err, s') \<Longrightarrow> prov_step P B s s'"

lemma step_ok:
  assumes "flat_ok B" "prov_ok s" "prov_step P B s s'"
  shows "prov_ok s'"
  using assms(3)
  by cases (rule pkeepsD [where I = prov_ok, OF _ assms(2)], rule ok_access [OF assms(1)] ok_gap_event ok_timers ok_on_sync ok_start, assumption)+

lemma steps_ok: "(prov_step P B)\<^sup>*\<^sup>* s s' \<Longrightarrow> flat_ok B \<Longrightarrow> prov_ok s \<Longrightarrow> prov_ok s'"
  by (induction rule: rtranclp_induct) (assumption, blast intro: step_ok)

section \<open>The meaning of a write\<close>

text \<open>The text of a field, as a reader of its characteristic would see it.\<close>

definition field_text :: "'w provisioning_state \<Rightarrow> prov_field \<Rightarrow> byte list" where
  "field_text p f =
     (case f of
        AETUS_PROV_FIELD_WIFI_SSID \<Rightarrow> cstr (pv_wifi_ssid p)
      | AETUS_PROV_FIELD_WIFI_AUTH \<Rightarrow> str (if wifi_auth (pv_config p) = AETUS_WIFI_AUTH_PEAP then ''peap'' else ''psk'')
      | AETUS_PROV_FIELD_WIFI_ID \<Rightarrow> cstr (pv_wifi_identity p)
      | AETUS_PROV_FIELD_WIFI_PASSWORD \<Rightarrow> cstr (pv_wifi_password p)
      | AETUS_PROV_FIELD_INGEST_URL \<Rightarrow> cstr (pv_ingest_url p)
      | AETUS_PROV_FIELD_TIME_URL \<Rightarrow> cstr (pv_time_url p)
      | AETUS_PROV_FIELD_DEVICE_ID \<Rightarrow> cstr (pv_device_id p)
      | AETUS_PROV_FIELD_DEVICE_TOKEN \<Rightarrow> cstr (pv_device_token p)
      | AETUS_PROV_FIELD_FIRMWARE_VERSION \<Rightarrow> dec_of (unat (firmware_version (pv_config p)))
      | AETUS_PROV_FIELD_UPLOAD_INTERVAL_MS \<Rightarrow> dec_of (unat (upload_interval_ms (pv_config p)))
      | AETUS_PROV_FIELD_QUEUE_DEPTH \<Rightarrow> dec_of (unat (queue_depth (pv_config p)))
      | AETUS_PROV_FIELD_LED_ENABLED \<Rightarrow> str (if connected_led_enabled (pv_config p) then ''1'' else ''0'')
      | AETUS_PROV_FIELD_LED_GPIO \<Rightarrow> dec_of (unat (connected_led_gpio (pv_config p)))
      | AETUS_PROV_FIELD_APPLY \<Rightarrow> [])"

definition is_number :: "prov_field \<Rightarrow> bool" where
  "is_number f \<longleftrightarrow> f \<in> {AETUS_PROV_FIELD_FIRMWARE_VERSION, AETUS_PROV_FIELD_UPLOAD_INTERVAL_MS,
     AETUS_PROV_FIELD_QUEUE_DEPTH, AETUS_PROV_FIELD_LED_GPIO}"

text \<open>The longest packet a field takes.\<close>

definition field_max :: "prov_field \<Rightarrow> nat" where
  "field_max f =
     (case f of
        AETUS_PROV_FIELD_WIFI_SSID \<Rightarrow> AETUS_WIFI_SSID_MAX
      | AETUS_PROV_FIELD_WIFI_ID \<Rightarrow> AETUS_WIFI_IDENTITY_MAX
      | AETUS_PROV_FIELD_WIFI_PASSWORD \<Rightarrow> AETUS_WIFI_PASSWORD_MAX
      | AETUS_PROV_FIELD_INGEST_URL \<Rightarrow> AETUS_URL_MAX
      | AETUS_PROV_FIELD_TIME_URL \<Rightarrow> AETUS_URL_MAX
      | AETUS_PROV_FIELD_DEVICE_ID \<Rightarrow> AETUS_DEVICE_ID_MAX
      | AETUS_PROV_FIELD_DEVICE_TOKEN \<Rightarrow> AETUS_DEVICE_TOKEN_MAX
      | AETUS_PROV_FIELD_WIFI_AUTH \<Rightarrow> 7
      | AETUS_PROV_FIELD_LED_ENABLED \<Rightarrow> 7
      | _ \<Rightarrow> 15)"

text \<open>What a text stands for in a field, in the form a reader sees it; \<open>None\<close> when it stands for nothing.\<close>

definition meaning :: "prov_field \<Rightarrow> byte list \<Rightarrow> byte list option" where
  "meaning f text =
     (if is_number f then
        (case strtoul text of
           None \<Rightarrow> None
         | Some (v, erange, rest) \<Rightarrow> if erange \<or> rest \<noteq> [] then None else Some (dec_of (unat v)))
      else if f = AETUS_PROV_FIELD_WIFI_AUTH then
        (if text \<in> {str ''psk'', str ''0''} then Some (str ''psk'')
         else if text \<in> {str ''peap'', str ''1''} then Some (str ''peap'') else None)
      else if f = AETUS_PROV_FIELD_LED_ENABLED then
        (if text \<in> {str ''1'', str ''true'', str ''on''} then Some (str ''1'')
         else if text \<in> {str ''0'', str ''false'', str ''off''} then Some (str ''0'') else None)
      else Some text)"

definition packet_meaning :: "prov_field \<Rightarrow> mbuf \<Rightarrow> byte list option" where
  "packet_meaning f om = (if length om \<le> field_max f then meaning f (cstr (strip om)) else None)"

text \<open>A write that does what the packet means, or refuses it and leaves \<open>keep\<close>.\<close>

definition writes :: "prov_field \<Rightarrow> mbuf \<Rightarrow> att_result \<Rightarrow> 'w provisioning_state \<Rightarrow> 'w provisioning_state \<Rightarrow> bool" where
  "writes f om rc p q \<longleftrightarrow>
     (rc = ATT_OK \<longleftrightarrow> packet_meaning f om \<noteq> None) \<and>
     field_text q f = (case packet_meaning f om of
        Some t \<Rightarrow> t | None \<Rightarrow> if is_number f then str ''0'' else field_text p f) \<and>
     (\<forall>g. g = f \<or> field_text q g = field_text p g)"

lemma write_scratch:
  assumes "flat_ok B" "length om < 65536" "n < 65536"
  shows "if length om \<le> n then fst (write_text B om (replicate (Suc n) 0) (Suc n)) = ATT_OK \<and>
      cstr (snd (write_text B om (replicate (Suc n) 0) (Suc n))) = cstr (strip om)
    else fst (write_text B om (replicate (Suc n) 0) (Suc n)) = BLE_ATT_ERR_INVALID_ATTR_VALUE_LEN"
  using write_text_exact [OF assms(1) buffer_zero assms(2,3)]
  by (auto simp del: replicate_Suc)

lemma read_u32_exact:
  assumes "flat_ok B" "length om < 65536" "is_number f"
  shows "fst (read_u32_from_mbuf B om) = ATT_OK \<longleftrightarrow> packet_meaning f om \<noteq> None"
    "dec_of (unat (case snd (read_u32_from_mbuf B om) of None \<Rightarrow> 0 | Some v \<Rightarrow> v)) =
      (case packet_meaning f om of None \<Rightarrow> str ''0'' | Some t \<Rightarrow> t)"
proof -
  have m: "packet_meaning f om = (if length om \<le> 15 then meaning f (cstr (strip om)) else None)"
    using assms(3) by (auto simp: packet_meaning_def is_number_def field_max_def)
  have z: "dec_of 0 = [48]" by (simp add: dec_of.simps)
  note w = write_scratch [OF assms(1,2), of 15, simplified]
  show "fst (read_u32_from_mbuf B om) = ATT_OK \<longleftrightarrow> packet_meaning f om \<noteq> None"
    "dec_of (unat (case snd (read_u32_from_mbuf B om) of None \<Rightarrow> 0 | Some v \<Rightarrow> v)) =
      (case packet_meaning f om of None \<Rightarrow> str ''0'' | Some t \<Rightarrow> t)"
    using w assms(3) z
    by (auto simp: read_u32_from_mbuf_def m meaning_def eval_nat_numeral split: prod.split option.split if_splits)
qed

lemma write_small:
  assumes "flat_ok B" "length om < 65536" and w: "write_text B om (replicate 8 0) 8 = (rc, t)"
  shows "if length om \<le> 7 then rc = ATT_OK \<and> cstr t = cstr (strip om) else rc = BLE_ATT_ERR_INVALID_ATTR_VALUE_LEN"
proof -
  have n: "Suc 7 = 8" "7 < (65536 :: nat)" by simp_all
  from write_scratch [OF assms(1,2) n(2), unfolded n(1) w] show ?thesis by (simp split: if_splits)
qed

lemma read_auth_exact:
  assumes "flat_ok B" "length om < 65536"
  shows "fst (read_auth_from_mbuf B om) = ATT_OK \<longleftrightarrow> packet_meaning AETUS_PROV_FIELD_WIFI_AUTH om \<noteq> None"
    "(case snd (read_auth_from_mbuf B om) of None \<Rightarrow> None
      | Some a \<Rightarrow> Some (str (if a = AETUS_WIFI_AUTH_PEAP then ''peap'' else ''psk''))) =
      packet_meaning AETUS_PROV_FIELD_WIFI_AUTH om"
proof -
  obtain rc t where w: "write_text B om (replicate 8 0) 8 = (rc, t)"
    by (cases "write_text B om (replicate 8 0) 8")
  from write_small [OF assms w] w
  show "fst (read_auth_from_mbuf B om) = ATT_OK \<longleftrightarrow> packet_meaning AETUS_PROV_FIELD_WIFI_AUTH om \<noteq> None"
    "(case snd (read_auth_from_mbuf B om) of None \<Rightarrow> None
      | Some a \<Rightarrow> Some (str (if a = AETUS_WIFI_AUTH_PEAP then ''peap'' else ''psk''))) =
      packet_meaning AETUS_PROV_FIELD_WIFI_AUTH om"
    by (simp_all add: read_auth_from_mbuf_def packet_meaning_def field_max_def meaning_def is_number_def
        del: str_simps split: if_splits)
qed

lemma read_bool_exact:
  assumes "flat_ok B" "length om < 65536"
  shows "fst (read_bool_from_mbuf B om) = ATT_OK \<longleftrightarrow> packet_meaning AETUS_PROV_FIELD_LED_ENABLED om \<noteq> None"
    "(case snd (read_bool_from_mbuf B om) of None \<Rightarrow> None | Some b \<Rightarrow> Some (str (if b then ''1'' else ''0''))) =
      packet_meaning AETUS_PROV_FIELD_LED_ENABLED om"
proof -
  obtain rc t where w: "write_text B om (replicate 8 0) 8 = (rc, t)"
    by (cases "write_text B om (replicate 8 0) 8")
  from write_small [OF assms w] w
  show "fst (read_bool_from_mbuf B om) = ATT_OK \<longleftrightarrow> packet_meaning AETUS_PROV_FIELD_LED_ENABLED om \<noteq> None"
    "(case snd (read_bool_from_mbuf B om) of None \<Rightarrow> None | Some b \<Rightarrow> Some (str (if b then ''1'' else ''0''))) =
      packet_meaning AETUS_PROV_FIELD_LED_ENABLED om"
    by (simp_all add: read_bool_from_mbuf_def packet_meaning_def field_max_def meaning_def is_number_def
        del: str_simps split: if_splits)
qed

lemma field_text_update:
  "field_text (p\<lparr>pv_wifi_ssid := t\<rparr>) g = (if g = AETUS_PROV_FIELD_WIFI_SSID then cstr t else field_text p g)"
  "field_text (p\<lparr>pv_wifi_password := t\<rparr>) g = (if g = AETUS_PROV_FIELD_WIFI_PASSWORD then cstr t else field_text p g)"
  "field_text (p\<lparr>pv_wifi_identity := t\<rparr>) g = (if g = AETUS_PROV_FIELD_WIFI_ID then cstr t else field_text p g)"
  "field_text (p\<lparr>pv_ingest_url := t\<rparr>) g = (if g = AETUS_PROV_FIELD_INGEST_URL then cstr t else field_text p g)"
  "field_text (p\<lparr>pv_time_url := t\<rparr>) g = (if g = AETUS_PROV_FIELD_TIME_URL then cstr t else field_text p g)"
  "field_text (p\<lparr>pv_device_id := t\<rparr>) g = (if g = AETUS_PROV_FIELD_DEVICE_ID then cstr t else field_text p g)"
  "field_text (p\<lparr>pv_device_token := t\<rparr>) g = (if g = AETUS_PROV_FIELD_DEVICE_TOKEN then cstr t else field_text p g)"
  "field_text (p\<lparr>pv_config := (pv_config p)\<lparr>firmware_version := n\<rparr>\<rparr>) g =
     (if g = AETUS_PROV_FIELD_FIRMWARE_VERSION then dec_of (unat n) else field_text p g)"
  "field_text (p\<lparr>pv_config := (pv_config p)\<lparr>upload_interval_ms := n\<rparr>\<rparr>) g =
     (if g = AETUS_PROV_FIELD_UPLOAD_INTERVAL_MS then dec_of (unat n) else field_text p g)"
  "field_text (p\<lparr>pv_config := (pv_config p)\<lparr>queue_depth := n\<rparr>\<rparr>) g =
     (if g = AETUS_PROV_FIELD_QUEUE_DEPTH then dec_of (unat n) else field_text p g)"
  "field_text (p\<lparr>pv_config := (pv_config p)\<lparr>connected_led_gpio := n\<rparr>\<rparr>) g =
     (if g = AETUS_PROV_FIELD_LED_GPIO then dec_of (unat n) else field_text p g)"
  "field_text (p\<lparr>pv_config := (pv_config p)\<lparr>wifi_auth := a\<rparr>\<rparr>) g =
     (if g = AETUS_PROV_FIELD_WIFI_AUTH then str (if a = AETUS_WIFI_AUTH_PEAP then ''peap'' else ''psk'') else field_text p g)"
  "field_text (p\<lparr>pv_config := (pv_config p)\<lparr>connected_led_enabled := b\<rparr>\<rparr>) g =
     (if g = AETUS_PROV_FIELD_LED_ENABLED then str (if b then ''1'' else ''0'') else field_text p g)"
  by (simp_all add: field_text_def split: prov_field.split)

lemma field_text_string:
  "field_text p AETUS_PROV_FIELD_WIFI_SSID = cstr (pv_wifi_ssid p)"
  "field_text p AETUS_PROV_FIELD_WIFI_PASSWORD = cstr (pv_wifi_password p)"
  "field_text p AETUS_PROV_FIELD_WIFI_ID = cstr (pv_wifi_identity p)"
  "field_text p AETUS_PROV_FIELD_INGEST_URL = cstr (pv_ingest_url p)"
  "field_text p AETUS_PROV_FIELD_TIME_URL = cstr (pv_time_url p)"
  "field_text p AETUS_PROV_FIELD_DEVICE_ID = cstr (pv_device_id p)"
  "field_text p AETUS_PROV_FIELD_DEVICE_TOKEN = cstr (pv_device_token p)"
  by (simp_all add: field_text_def)

text \<open>A write to one of the buffers: \<open>buf\<close> and \<open>put\<close> read and write the buffer of field \<open>f\<close>.\<close>

lemma write_buffer_writes:
  assumes r: "run_state (write_buffer B om buf put (n + 1)) s = (rc, s')"
    and "flat_ok B" "length om < 65536" "n = field_max f" "buffer n (buf (ps_prov s))" "\<And>t. meaning f t = Some t"
    "\<And>g t. field_text (put t (ps_prov s)) g = (if g = f then cstr t else field_text (ps_prov s) g)"
    "field_text (ps_prov s) f = cstr (buf (ps_prov s))" "\<not> is_number f"
  shows "writes f om rc (ps_prov s) (ps_prov s')"
proof -
  have "n < 65536" using assms(4) by (simp add: field_max_def c_defs split: prov_field.split)
  from write_text_exact [OF assms(2,5,3) this] r assms(4,6-9) show ?thesis
    by (auto simp: writes_def packet_meaning_def write_buffer_def run_simps Let_def split: if_splits)
qed

lemma write_number_writes:
  assumes r: "run_state (write_number B om put) s = (rc, s')"
    and "flat_ok B" "length om < 65536" "is_number f"
    "\<And>g n. field_text ((ps_prov s)\<lparr>pv_config := put n (pv_config (ps_prov s))\<rparr>) g =
       (if g = f then dec_of (unat n) else field_text (ps_prov s) g)"
  shows "writes f om rc (ps_prov s) (ps_prov s')"
proof -
  have "rc = fst (read_u32_from_mbuf B om)"
    "field_text (ps_prov s') g = (if g = f
      then dec_of (unat (case snd (read_u32_from_mbuf B om) of None \<Rightarrow> 0 | Some v \<Rightarrow> v)) else field_text (ps_prov s) g)" for g
    using r assms(5) by (auto simp: write_number_def run_simps Let_def)
  then show ?thesis
    using assms(4) read_u32_exact [OF assms(2-4)] by (simp add: writes_def cong: option.case_cong)
qed

lemma provisioning_write_writes:
  assumes B: "flat_ok B" "length om < 65536" and b: "prov_buffers (ps_prov s)" and f: "f \<noteq> AETUS_PROV_FIELD_APPLY"
    and r: "run_state (provisioning_write P B f om) s = (rc, s')"
  shows "writes f om rc (ps_prov s) (ps_prov s')"
proof -
  consider (auth) "f = AETUS_PROV_FIELD_WIFI_AUTH" | (led) "f = AETUS_PROV_FIELD_LED_ENABLED" | (number) "is_number f"
    | (string) "f \<in> {AETUS_PROV_FIELD_WIFI_SSID, AETUS_PROV_FIELD_WIFI_ID, AETUS_PROV_FIELD_WIFI_PASSWORD,
        AETUS_PROV_FIELD_INGEST_URL, AETUS_PROV_FIELD_TIME_URL, AETUS_PROV_FIELD_DEVICE_ID, AETUS_PROV_FIELD_DEVICE_TOKEN}"
    using f by (cases f) (simp_all add: is_number_def)
  then show ?thesis
  proof cases
    case auth
    with r read_auth_exact [OF B] show ?thesis
      by (cases "snd (read_auth_from_mbuf B om)")
        (auto simp: provisioning_write_def run_simps writes_def field_text_update is_number_def Let_def
          simp del: str_simps split: if_splits)
  next
    case led
    with r read_bool_exact [OF B] show ?thesis
      by (cases "snd (read_bool_from_mbuf B om)")
        (auto simp: provisioning_write_def run_simps writes_def field_text_update is_number_def Let_def
          simp del: str_simps split: if_splits)
  next
    case number
    with r show ?thesis
      unfolding provisioning_write_def is_number_def
      by (-, elim insertE emptyE, simp_all only: prov_field.case)
        (erule write_number_writes [OF _ B], simp_all only: field_text_update, simp_all add: is_number_def)+
  next
    case string
    with r b show ?thesis
      unfolding provisioning_write_def
      by (-, elim insertE emptyE, simp_all only: prov_field.case)
        (erule write_buffer_writes [OF _ B];
          simp add: field_max_def prov_buffers_def meaning_def is_number_def field_text_update field_text_string)+
  qed
qed

section \<open>Reading\<close>

lemma length_dec_of: "n < 10 ^ Suc k \<Longrightarrow> length (dec_of n) \<le> Suc k"
proof (induction k arbitrary: n)
  case 0
  then show ?case by (subst dec_of.simps) simp
next
  case (Suc k)
  then have "n div 10 < 10 ^ Suc k" by (simp add: less_mult_imp_div_less mult.commute)
  from Suc.IH [OF this] show ?case by (subst dec_of.simps) simp
qed

lemma dec_of_text: "cstr (take 15 (dec_of (unat (v :: u32))) @ [0]) = dec_of (unat v)"
proof -
  have "unat v < 10 ^ Suc 14" by (rule less_trans [OF unat_u32_lt]) simp
  from length_dec_of [OF this] have "take 15 (dec_of (unat v)) = dec_of (unat v)" by simp
  moreover have "0 \<notin> set (dec_of (unat v))"
    using dec_of_digits [of "unat v"] by (auto simp: list_all_iff is_digit_def)
  ultimately show ?thesis by (simp add: cstr_append_zero)
qed

text \<open>A packet after a read: the text appended to it, or no room for that.\<close>

definition answers :: "mbuf \<Rightarrow> byte list \<Rightarrow> att_result \<times> mbuf \<Rightarrow> bool" where
  "answers om t r \<longleftrightarrow> r = (ATT_OK, om @ t) \<or> fst r = BLE_ATT_ERR_INSUFFICIENT_RES"

lemma append_text_answers:
  assumes "append_ok B" "run_state (append_text B om (Some v)) s = (r, s')"
  shows "answers om (cstr v) r \<and> ps_prov s' = ps_prov s"
proof -
  obtain rc om' w where a: "os_mbuf_append B om (cstr v) (s_world (ps_sys s)) = ((rc, om'), w)"
    by (cases "os_mbuf_append B om (cstr v) (s_world (ps_sys s))") auto
  then have "rc = 0 \<longrightarrow> om' = om @ cstr v" using assms(1) unfolding append_ok_def by (metis fst_conv snd_conv)
  with a assms(2) show ?thesis by (auto simp: append_text_def run_simps answers_def split: if_splits)
qed

definition is_readable :: "prov_field \<Rightarrow> bool" where
  "is_readable f = list_ex (\<lambda>c. chr_field c = f \<and> chr_read c) s_provisioning_svcs"

lemma is_readable_iff:
  "is_readable f \<longleftrightarrow>
    f \<notin> {AETUS_PROV_FIELD_WIFI_PASSWORD, AETUS_PROV_FIELD_DEVICE_TOKEN, AETUS_PROV_FIELD_APPLY}"
  by (cases f) (simp_all add: is_readable_def s_provisioning_svcs_def PROV_CHR_def)

lemma cstr_words: "cstr (str ''peap'') = str ''peap''" "cstr (str ''psk'') = str ''psk''" "cstr (str ''1'') = str ''1''"
  "cstr (str ''0'') = str ''0''"
  by simp_all

lemma read_answers:
  assumes "append_ok B" "run_state (provisioning_read B f om) s = (r, s')"
  shows "(if is_readable f then answers om (field_text (ps_prov s) f) r else r = (BLE_ATT_ERR_READ_NOT_PERMITTED, om)) \<and>
    ps_prov s' = ps_prov s"
proof (cases "is_readable f")
  case True
  obtain v where "run_state (append_text B om (Some v)) s = (r, s')" "cstr v = field_text (ps_prov s) f"
    using assms(2) True
    by (cases f)
      (simp_all add: is_readable_iff provisioning_read_def run_bind prun_steps append_u32_def append_bool_def field_text_def
        dec_of_text cstr_words del: str_simps split: if_splits)
  with True append_text_answers [OF assms(1)] show ?thesis by fastforce
next
  case False
  with assms(2) show ?thesis by (auto simp: is_readable_iff provisioning_read_def run_simps)
qed

end
