(* ===== verification/ProvisioningRuns.thy ===== *)
theory ProvisioningRuns
  imports ProvisioningProps
begin

text \<open>
  The properties of the provisioning service, with runs on a simulated NimBLE: writes and reads, the buffers, the start,
  the applying of a configuration and the connection timer.
\<close>

section \<open>A simulated NimBLE\<close>

text \<open>Packets are copied whole, every call succeeds, and the two timer calls act on the world as given.\<close>

definition demo_ble :: "('w \<Rightarrow> 'w) \<Rightarrow> ('w \<Rightarrow> 'w) \<Rightarrow> 'w ble" where
  "demo_ble stop reset =
     \<lparr>ble_hs_mbuf_to_flat = (\<lambda>om n. (if length om \<le> n then 0 else 4, take n om)),
      os_mbuf_append = (\<lambda>om t. nop (0, om @ t)), ble_svc_gap_device_name = nop (str ''AETUS''),
      ble_svc_gap_device_name_set = (\<lambda>n. nop 0), ble_gap_adv_set_fields = (\<lambda>f. nop 0),
      ble_gap_adv_start = (\<lambda>a i. nop 0),
      ble_gap_conn_find = (\<lambda>h. nop (0, \<lparr>conn_itvl = 24, conn_latency = 0, supervision_timeout = 400\<rparr>)),
      ble_gap_terminate = (\<lambda>h. nop 0), ble_hs_id_infer_auto = nop (0, Some 1), ble_npl_callout_init = nop (),
      ble_npl_callout_stop = (\<lambda>w. ((), stop w)), ble_npl_callout_reset = (\<lambda>t w. ((), reset w)),
      ble_npl_time_ms_to_ticks32 = (\<lambda>ms. ms), nimble_port_init = nop ESP_OK, nimble_port_freertos_init = nop (),
      nimble_port_run = nop (), nimble_port_freertos_deinit = nop (), ble_hs_cfg_callbacks = nop (),
      ble_svc_gap_init = nop (), ble_svc_gatt_init = nop (), ble_gatts_count_cfg = (\<lambda>t. nop 0),
      ble_gatts_add_svcs = (\<lambda>t. nop 0)\<rparr>"

lemma demo_ble_ok: "flat_ok (demo_ble stop reset)" "append_ok (demo_ble stop reset)"
  by (simp_all add: flat_ok_def append_ok_def demo_ble_def nop_def)

definition sim_ble :: "sim ble" where
  "sim_ble = demo_ble id id"

text \<open>A running device before provisioning was started.\<close>

definition sim_psys :: "sim psys" where
  "sim_psys = \<lparr>ps_sys = sim_started, ps_prov = zero_prov, ps_shared = False\<rparr>"

lemma sim_psys_ok: "prov_ok sim_psys"
  by (simp add: prov_ok_def sim_psys_def zero_prov_buffers)

section \<open>Reads and writes\<close>

text \<open>
  C34. Whatever a client writes, in whatever order with connection events, timeouts and starts, every buffer of the pending
  configuration keeps its size and its terminator, so that each string stays within its limit.
\<close>

theorem provisioning_buffers_safe:
  assumes "flat_ok B" "prov_ok s" "(prov_step P B)\<^sup>*\<^sup>* s s'"
  shows "prov_buffers (ps_prov s')"
  using steps_ok [OF assms(3,1,2)] by (simp add: prov_ok_def)

theorem provisioning_buffers_safe_witness:
  "prov_buffers (ps_prov (snd (run_state
     (provisioning_access (sim_platform 9 4) sim_ble (BLE_GATT_ACCESS_OP_WRITE_CHR AETUS_PROV_FIELD_WIFI_SSID)
       (replicate 32 65)) sim_psys)))"
proof -
  let ?m = "provisioning_access (sim_platform 9 4) sim_ble (BLE_GATT_ACCESS_OP_WRITE_CHR AETUS_PROV_FIELD_WIFI_SSID)
    (replicate 32 65)"
  obtain r s' where r: "run_state ?m sim_psys = (r, s')" by (cases "run_state ?m sim_psys")
  have "(prov_step (sim_platform 9 4) sim_ble)\<^sup>*\<^sup>* sim_psys s'"
    using prov_step.access [OF r] by blast
  from provisioning_buffers_safe [OF _ sim_psys_ok this] r show ?thesis
    by (simp add: sim_ble_def demo_ble_ok)
qed

text \<open>
  C33. A write to a characteristic has exactly the meaning of its text, line ends at its end left out: it is accepted when
  the packet is within the field's limit and the text stands for a value of the field, a later read shows
  this value, and no other field changes. A refused write leaves its field as it was, except that a refused
  number sets the field to zero.
\<close>

theorem provisioning_write_refines:
  assumes "flat_ok B" "length om < 65536" "prov_ok s" "f \<noteq> AETUS_PROV_FIELD_APPLY"
    and "run_state (provisioning_write P B f om) s = (rc, s')"
  shows "(rc = ATT_OK \<longleftrightarrow> packet_meaning f om \<noteq> None) \<and>
    field_text (ps_prov s') f = (case packet_meaning f om of
      Some t \<Rightarrow> t | None \<Rightarrow> if is_number f then str ''0'' else field_text (ps_prov s) f) \<and>
    (\<forall>g. g = f \<or> field_text (ps_prov s') g = field_text (ps_prov s) g)"
  using provisioning_write_writes [OF assms(1,2) _ assms(4,5)] assms(3) by (simp add: writes_def prov_ok_def)

theorem provisioning_write_refines_witness:
  "field_text (ps_prov (snd (run_state
     (provisioning_write (sim_platform 9 4) sim_ble AETUS_PROV_FIELD_LED_ENABLED (str ''on'' @ [13, 10])) sim_psys)))
     AETUS_PROV_FIELD_LED_ENABLED = str ''1''"
proof -
  let ?m = "provisioning_write (sim_platform 9 4) sim_ble AETUS_PROV_FIELD_LED_ENABLED (str ''on'' @ [13, 10])"
  obtain rc s' where r: "run_state ?m sim_psys = (rc, s')" by (cases "run_state ?m sim_psys")
  have m: "packet_meaning AETUS_PROV_FIELD_LED_ENABLED (str ''on'' @ [13, 10]) = Some (str ''1'')"
    by (simp add: packet_meaning_def field_max_def strip_def is_eol_def meaning_def is_number_def)
  have "field_text (ps_prov s') AETUS_PROV_FIELD_LED_ENABLED = str ''1''"
    using provisioning_write_refines [OF _ _ sim_psys_ok _ r] by (simp add: sim_ble_def demo_ble_ok m del: str_simps)
  with r show ?thesis by simp
qed

text \<open>
  C35. A read of a characteristic whose read flag is set in the service table appends exactly the text of the field, or
  reports that there is no room; every other read, that of the password and of the token among them, is refused with
  the packet unchanged. Reading changes no field.
\<close>

theorem provisioning_read_exact:
  assumes "append_ok B" "run_state (provisioning_read B f om) s = (r, s')"
  shows "(if list_ex (\<lambda>c. chr_field c = f \<and> chr_read c) s_provisioning_svcs
      then r = (ATT_OK, om @ field_text (ps_prov s) f) \<or> fst r = BLE_ATT_ERR_INSUFFICIENT_RES
      else r = (BLE_ATT_ERR_READ_NOT_PERMITTED, om)) \<and> ps_prov s' = ps_prov s"
  using read_answers [OF assms] by (simp add: is_readable_def answers_def split: if_splits)

theorem provisioning_read_exact_witness:
  "fst (run_state (provisioning_read sim_ble AETUS_PROV_FIELD_DEVICE_TOKEN [1]) sim_psys) =
     (BLE_ATT_ERR_READ_NOT_PERMITTED, [1])"
proof -
  let ?m = "provisioning_read sim_ble AETUS_PROV_FIELD_DEVICE_TOKEN [1]"
  obtain r s' where r: "run_state ?m sim_psys = (r, s')" by (cases "run_state ?m sim_psys")
  from provisioning_read_exact [OF _ r] r show ?thesis
    by (simp add: sim_ble_def demo_ble_ok s_provisioning_svcs_def PROV_CHR_def)
qed

section \<open>Starting and applying\<close>

text \<open>The fields of a configuration of the runtime, as texts.\<close>

definition config_text :: "aetus_config \<Rightarrow> prov_field \<Rightarrow> byte list" where
  "config_text c f =
     (case f of
        AETUS_PROV_FIELD_WIFI_SSID \<Rightarrow> ostr (wifi_ssid c)
      | AETUS_PROV_FIELD_WIFI_AUTH \<Rightarrow> str (if wifi_auth c = AETUS_WIFI_AUTH_PEAP then ''peap'' else ''psk'')
      | AETUS_PROV_FIELD_WIFI_ID \<Rightarrow> take AETUS_WIFI_IDENTITY_MAX (ostr (wifi_identity c))
      | AETUS_PROV_FIELD_WIFI_PASSWORD \<Rightarrow> ostr (wifi_password c)
      | AETUS_PROV_FIELD_INGEST_URL \<Rightarrow> ostr (ingest_url c)
      | AETUS_PROV_FIELD_TIME_URL \<Rightarrow> ostr (time_url c)
      | AETUS_PROV_FIELD_DEVICE_ID \<Rightarrow> ostr (device_id c)
      | AETUS_PROV_FIELD_DEVICE_TOKEN \<Rightarrow> ostr (device_token c)
      | AETUS_PROV_FIELD_FIRMWARE_VERSION \<Rightarrow> dec_of (unat (firmware_version c))
      | AETUS_PROV_FIELD_UPLOAD_INTERVAL_MS \<Rightarrow> dec_of (unat (upload_interval_ms c))
      | AETUS_PROV_FIELD_QUEUE_DEPTH \<Rightarrow> dec_of (unat (queue_depth c))
      | AETUS_PROV_FIELD_LED_ENABLED \<Rightarrow> str (if connected_led_enabled c then ''1'' else ''0'')
      | AETUS_PROV_FIELD_LED_GPIO \<Rightarrow> dec_of (unat (connected_led_gpio c))
      | AETUS_PROV_FIELD_APPLY \<Rightarrow> [])"

lemma copy_string_text: "buffer n t \<Longrightarrow> cstr (copy_string_value t (Suc n) src) = take n (ostr src)"
  using cstr_copy_string [of "n + 1" t src] by (simp add: copy_string_value_def copy_string_def buffer_def)

text \<open>The state of the service after a successful start.\<close>

lemma aliased_id: "\<not> ps_shared s \<Longrightarrow> aliased s = s"
  by (simp add: aliased_def)

lemma nvs_world: "\<exists>e w. run_state (ensure_nvs_initialized P) s = (e, s\<lparr>ps_sys := (ps_sys s)\<lparr>s_world := w\<rparr>\<rparr>)"
  by (auto simp: ensure_nvs_initialized_def run_simps Let_def split: prod.split)

lemma start_host_state:
  assumes "run_state (start_host P B config) s = (ESP_OK, s')" "\<not> ps_shared s"
  shows "\<exists>w. s' = s\<lparr>ps_sys := (ps_sys s)\<lparr>s_world := w\<rparr>,
    ps_prov := (ps_prov s)\<lparr>pv_disconnect_callout_initialized := True, pv_started := True\<rparr>\<rparr>"
proof -
  obtain e w where "run_state (ensure_nvs_initialized P) s = (e, s\<lparr>ps_sys := (ps_sys s)\<lparr>s_world := w\<rparr>\<rparr>)"
    using nvs_world [of P s] by (elim exE)
  with assms show ?thesis
    by (auto simp: start_host_def run_simps aliased_id case_prod_beta split: if_splits)
qed

lemma start_state:
  assumes "run_state (aetus_start_provisioning P B config) s = (ESP_OK, s')" "\<not> ps_shared s" "cx_queue (s_ctx (ps_sys s)) \<noteq> 0"
  shows "\<exists>w. s' = s\<lparr>ps_sys := (ps_sys s)\<lparr>s_world := w\<rparr>, ps_prov :=
      (set_callbacks config (copy_current (cx_config (s_ctx (ps_sys s))) (zero_prov\<lparr>pv_bound := True\<rparr>)))
      \<lparr>pv_disconnect_callout_initialized := True, pv_started := True\<rparr>\<rparr>"
proof -
  let ?p = "set_callbacks config (copy_current (cx_config (s_ctx (ps_sys s))) (zero_prov\<lparr>pv_bound := True\<rparr>))"
  have "run_state (start_host P B config) (s\<lparr>ps_prov := ?p\<rparr>) = (ESP_OK, s')"
    using assms by (simp add: aetus_start_provisioning_def bind_pending_config_def sync_pending_from_runtime_def
      aetus_get_config_def run_simps aliased_id split: if_splits)
  from start_host_state [OF this] assms(2) show ?thesis by simp
qed

lemma fits_length:
  "string_required_fits v n \<Longrightarrow> take n (ostr v) = ostr v" "string_fits v (Suc n) \<Longrightarrow> take n (ostr v) = ostr v"
  by (auto simp: string_required_fits_def string_fits_def strnlen_less strlen_def split: option.splits)

lemma mirror_text:
  assumes "valid_config c" "prov_buffers p"
  shows "field_text (copy_current c p) f = config_text c f"
proof -
  note v = assms(1) [unfolded valid_config_def, simplified]
  show ?thesis
    using v assms(2)
    by (cases f) (simp_all add: field_text_def config_text_def copy_current_def prov_buffers_def copy_string_text fits_length)
qed

text \<open>
  C37. A successful start of the service on a running device shows the device's configuration in every field, but an
  identity beyond its limit cut; the one setting without a field, the authentication mode, is reset in the pending configuration
  to bearer tokens, whatever the device uses.
\<close>

theorem start_mirrors_runtime:
  fixes s :: "'w psys"
  assumes "run_state (aetus_start_provisioning P B config) s = (ESP_OK, s')" "\<not> ps_shared s"
    and "cx_queue (s_ctx (ps_sys s)) \<noteq> 0" "valid_config (cx_config (s_ctx (ps_sys s)))"
  shows "field_text (ps_prov s') f = config_text (cx_config (s_ctx (ps_sys s))) f \<and>
    auth_mode (pending_config (ps_prov s')) = AETUS_AUTH_BEARER \<and> pv_started (ps_prov s') \<and> prov_ok s'"
proof -
  let ?c = "cx_config (s_ctx (ps_sys s))" and ?z = "zero_prov\<lparr>pv_bound := True\<rparr> :: 'w provisioning_state"
  have z: "prov_buffers ?z" using zero_prov_buffers by (simp add: prov_buffers_def)
  have m: "field_text (copy_current ?c ?z) f = config_text ?c f" by (rule mirror_text [OF assms(4) z])
  have b: "prov_buffers (copy_current ?c ?z)" using copy_current_fine [of ?z ?c] z by (simp add: fine_def)
  have same: "field_text (p\<lparr>pv_config_changed_cb := x1, pv_connection_check_cb := x2, pv_user_ctx := x3,
      pv_disconnect_callout_initialized := x4, pv_started := x5\<rparr>) f = field_text p f" for p :: "'w provisioning_state" and x1 x2 x3 x4 x5
    by (simp add: field_text_def split: prov_field.split)
  have a: "auth_mode (pv_config (copy_current ?c ?z)) = AETUS_AUTH_BEARER" "pv_bound (copy_current ?c ?z)"
    by (simp_all add: copy_current_def zero_prov_def zero_config_def)
  obtain x1 x2 x3 where "ps_prov s' = (copy_current ?c ?z)\<lparr>pv_config_changed_cb := x1, pv_connection_check_cb := x2,
      pv_user_ctx := x3, pv_disconnect_callout_initialized := True, pv_started := True\<rparr>" "\<not> ps_shared s'"
    using start_state [OF assms(1-3)] assms(2) by (cases config) (auto simp: set_callbacks_def)
  with m a b show ?thesis
    by (simp add: same prov_ok_def pending_config_def prov_buffers_def)
qed

theorem start_mirrors_runtime_witness:
  "\<exists>s'. run_state (aetus_start_provisioning (sim_platform 9 4) sim_ble None)
       (sim_psys\<lparr>ps_sys := sim_started\<lparr>s_ctx := (s_ctx sim_started)\<lparr>cx_config := sim_config\<lparr>auth_mode := AETUS_AUTH_HMAC_SHA256,
          upload_interval_ms := 1, queue_depth := 4\<rparr>\<rparr>\<rparr>\<rparr>) = (ESP_OK, s') \<and>
     field_text (ps_prov s') AETUS_PROV_FIELD_WIFI_SSID = [110] \<and>
     auth_mode (pending_config (ps_prov s')) = AETUS_AUTH_BEARER"
proof -
  let ?c = "sim_config\<lparr>auth_mode := AETUS_AUTH_HMAC_SHA256, upload_interval_ms := 1, queue_depth := 4\<rparr>"
  let ?s = "sim_psys\<lparr>ps_sys := sim_started\<lparr>s_ctx := (s_ctx sim_started)\<lparr>cx_config := ?c\<rparr>\<rparr>\<rparr>"
  let ?m = "aetus_start_provisioning (sim_platform 9 4) sim_ble None"
  obtain e s' where r: "run_state ?m ?s = (e, s')" by (cases "run_state ?m ?s")
  have e: "e = ESP_OK"
    using r by (simp add: aetus_start_provisioning_def start_host_def bind_pending_config_def sync_pending_from_runtime_def
      ensure_nvs_initialized_def aetus_get_config_def run_simps Let_def sim_ble_def demo_ble_def sim_platform_def nop_def
      sim_psys_def zero_prov_def aliased_id split: if_splits)
  have "valid_config ?c"
    by (simp add: valid_config_def sim_config_def string_required_fits_def string_fits_def c_defs)
  moreover have "cx_queue (s_ctx (ps_sys ?s)) \<noteq> 0" "\<not> ps_shared ?s" by (simp_all add: sim_psys_def sim_started_def)
  ultimately show ?thesis
    using start_mirrors_runtime [OF r [unfolded e], of AETUS_PROV_FIELD_WIFI_SSID] r e
    by (intro exI [of _ s']) (simp add: config_text_def sim_config_def)
qed

text \<open>What an accepted apply stores, and that the strings are shared from then on.\<close>

lemma apply_accepted:
  assumes "run_state (provisioning_write P B AETUS_PROV_FIELD_APPLY om) s = (ATT_OK, s')" "pv_bound (ps_prov s)"
  shows "config_stored (s_ctx (ps_sys s)) (pending_config (ps_prov s)) \<and> ps_shared s' \<and> ps_prov s' = ps_prov s \<and>
    cx_config (s_ctx (ps_sys s')) = update_config_next (s_ctx (ps_sys s)) (pending_config (ps_prov s))"
proof -
  let ?c = "pending_config (ps_prov s)"
  obtain rc y where r: "run_state (aetus_update_config P (Some ?c)) (ps_sys s) = (rc, y)"
    by (cases "run_state (aetus_update_config P (Some ?c)) (ps_sys s)")
  with assms(1) have rc: "rc = ESP_OK"
    by (auto simp: provisioning_write_def provisioning_apply_def run_bind prun_steps run_steps split: if_splits)
  have st: "config_stored (s_ctx (ps_sys s)) ?c"
  proof (rule ccontr)
    assume "\<not> config_stored (s_ctx (ps_sys s)) ?c"
    from update_config_refused [OF this, of P] r rc show False by (simp split: if_splits)
  qed
  from update_config_accepted(1) [OF st r] assms st r rc show ?thesis
    by (auto simp: provisioning_write_def provisioning_apply_def run_bind prun_steps run_steps prun_bcall split: option.splits prod.splits)
qed

text \<open>
  C36. After an accepted apply the running configuration is validated, but it shares its strings with the pending one: a
  write to a characteristic takes effect on the running device at once, without an apply and without the checks
  of \<open>aetus_update_config\<close>. An empty network name, which every update refuses, becomes the running one.
\<close>

theorem write_after_apply_unchecked:
  assumes "flat_ok B" "prov_ok s" "pv_bound (ps_prov s)"
    and "run_state (provisioning_write P B AETUS_PROV_FIELD_APPLY om) s = (ATT_OK, s1)"
    and "run_state (provisioning_write P B AETUS_PROV_FIELD_WIFI_SSID []) s1 = (rc, s2)"
  shows "list_all fst (update_checks (cx_config (s_ctx (ps_sys s1)))) \<and> rc = ATT_OK \<and>
    \<not> list_all fst (update_checks (cx_config (s_ctx (ps_sys s2))))"
proof -
  note a = apply_accepted [OF assms(4,3)]
  have "prov_buffers (ps_prov s1)" using a assms(2) by (simp add: prov_ok_def)
  from provisioning_write_writes [OF assms(1) _ this _ assms(5)]
  have w: "rc = ATT_OK" "cstr (pv_wifi_ssid (ps_prov s2)) = []"
    by (simp_all add: writes_def packet_meaning_def meaning_def is_number_def strip_def field_text_string)
  have "wifi_ssid (cx_config (s_ctx (ps_sys s2))) = Some (pv_wifi_ssid (ps_prov s2))"
    using assms(5) a by (auto simp: provisioning_write_def write_buffer_def run_simps Let_def)
  with w a show ?thesis by (simp add: config_stored_def update_checks_def string_required_fits_def)
qed

definition sim_pending :: "sim psys" where
  "sim_pending = sim_psys\<lparr>ps_prov := copy_current (sim_config\<lparr>upload_interval_ms := 1, queue_depth := 4\<rparr>) (zero_prov\<lparr>pv_bound := True\<rparr>)\<rparr>"

lemma sim_pending_ok: "prov_ok sim_pending" "pv_bound (ps_prov sim_pending)"
proof -
  have "prov_buffers (zero_prov\<lparr>pv_bound := True\<rparr> :: sim provisioning_state)"
    using zero_prov_buffers by (simp add: prov_buffers_def)
  then show "prov_ok sim_pending" "pv_bound (ps_prov sim_pending)"
    using copy_current_fine [of "zero_prov\<lparr>pv_bound := True\<rparr> :: sim provisioning_state" "sim_config\<lparr>upload_interval_ms := 1, queue_depth := 4\<rparr>"]
    by (simp_all add: prov_ok_def sim_pending_def sim_psys_def fine_def)
qed

lemma sim_pending_stored: "config_stored (s_ctx (ps_sys sim_pending)) (pending_config (ps_prov sim_pending))"
proof -
  let ?c = "sim_config\<lparr>upload_interval_ms := 1, queue_depth := 4\<rparr>"
  have "valid_config ?c"
    by (simp add: valid_config_def sim_config_def string_required_fits_def string_fits_def c_defs)
  moreover have "prov_buffers (zero_prov\<lparr>pv_bound := True\<rparr> :: sim provisioning_state)"
    using zero_prov_buffers by (simp add: prov_buffers_def)
  ultimately have t: "field_text (ps_prov sim_pending) f = config_text ?c f" for f
    unfolding sim_pending_def by (simp add: mirror_text)
  have strings: "cstr (pv_wifi_ssid (ps_prov sim_pending)) = [110]" "cstr (pv_wifi_password (ps_prov sim_pending)) = [112]"
    "cstr (pv_ingest_url (ps_prov sim_pending)) = str ''h/v1/ingest''" "cstr (pv_time_url (ps_prov sim_pending)) = []"
    "cstr (pv_device_id (ps_prov sim_pending)) = [100]" "cstr (pv_device_token (ps_prov sim_pending)) = [116]"
    using t [unfolded field_text_def] by (simp_all add: t field_text_string [symmetric] config_text_def sim_config_def)
  moreover have "pv_bound (ps_prov sim_pending)" "wifi_auth (pv_config (ps_prov sim_pending)) = AETUS_WIFI_AUTH_PSK"
    "auth_mode (pv_config (ps_prov sim_pending)) = AETUS_AUTH_BEARER" "cx_queue (s_ctx (ps_sys sim_pending)) = 1"
    by (simp_all add: sim_pending_def copy_current_def sim_config_def sim_psys_def sim_started_def zero_prov_def zero_config_def)
  ultimately show ?thesis
    by (simp add: config_stored_def update_checks_def update_config_next_def pending_config_def string_required_fits_def
      string_fits_def cstr_take c_defs Let_def)
qed

theorem write_after_apply_unchecked_witness:
  "\<exists>s1 s2. run_state (provisioning_write (sim_platform 9 4) sim_ble AETUS_PROV_FIELD_APPLY []) sim_pending = (ATT_OK, s1) \<and>
     run_state (provisioning_write (sim_platform 9 4) sim_ble AETUS_PROV_FIELD_WIFI_SSID []) s1 = (ATT_OK, s2) \<and>
     list_all fst (update_checks (cx_config (s_ctx (ps_sys s1)))) \<and>
     \<not> list_all fst (update_checks (cx_config (s_ctx (ps_sys s2))))"
proof -
  let ?P = "sim_platform 9 4"
  obtain r1 s1 where a: "run_state (provisioning_write ?P sim_ble AETUS_PROV_FIELD_APPLY []) sim_pending = (r1, s1)"
    by (cases "run_state (provisioning_write ?P sim_ble AETUS_PROV_FIELD_APPLY []) sim_pending")
  obtain r2 s2 where w: "run_state (provisioning_write ?P sim_ble AETUS_PROV_FIELD_WIFI_SSID []) s1 = (r2, s2)"
    by (cases "run_state (provisioning_write ?P sim_ble AETUS_PROV_FIELD_WIFI_SSID []) s1")
  let ?c = "pending_config (ps_prov sim_pending)"
  have "fst (run_state (aetus_update_config ?P (Some ?c)) (ps_sys sim_pending)) = ESP_OK"
    using sim_pending_stored no_failed_check [of "update_checks (update_config_next (s_ctx (ps_sys sim_pending)) ?c)"]
    by (simp add: config_stored_def aetus_update_config_def run_simps run_checks Let_def configure_connected_led_def
      sim_platform_def nop_def sim_pending_def sim_psys_def sim_started_def zero_ctx_def)
  then have "r1 = ATT_OK"
    using a by (auto simp: provisioning_write_def provisioning_apply_def run_simps split: prod.splits if_splits option.splits)
  with a w write_after_apply_unchecked [OF _ sim_pending_ok, of sim_ble ?P "[]" s1 r2 s2] show ?thesis
    by (simp add: sim_ble_def demo_ble_ok)
qed

section \<open>The connection timer\<close>

text \<open>
  The callout as the world shows it: stopping disarms it, a reset arms it, no other call of a connection event touches it, and
  neither does the application's callback.
\<close>

definition timer_ok :: "'w ble \<Rightarrow> ('w \<Rightarrow> bool) \<Rightarrow> bool" where
  "timer_ok B armed \<longleftrightarrow>
     (\<forall>w. \<not> armed (snd (ble_npl_callout_stop B w))) \<and> (\<forall>t w. armed (snd (ble_npl_callout_reset B t w))) \<and>
     keeps armed (ble_svc_gap_device_name B) \<and> (\<forall>f. keeps armed (ble_gap_adv_set_fields B f)) \<and>
     (\<forall>a i. keeps armed (ble_gap_adv_start B a i)) \<and> (\<forall>h. keeps armed (ble_gap_conn_find B h))"

definition callback_keeps :: "('w \<Rightarrow> bool) \<Rightarrow> 'w provisioning_state \<Rightarrow> bool" where
  "callback_keeps armed p \<longleftrightarrow>
     (case pv_connection_check_cb p of None \<Rightarrow> True | Some cb \<Rightarrow> \<forall>h st i l t u. keeps armed (cb h st i l t u))"

text \<open>The connection the events leave open: the handle of the last one that was accepted, unless it was closed since.\<close>

definition link :: "u16 option \<Rightarrow> ble_gap_event \<Rightarrow> u16 option" where
  "link l e =
     (case e of
        BLE_GAP_EVENT_CONNECT status conn \<Rightarrow> if status = 0 then Some conn else l
      | BLE_GAP_EVENT_DISCONNECT reason \<Rightarrow> None
      | _ \<Rightarrow> l)"

definition tracks :: "('w \<Rightarrow> bool) \<Rightarrow> u16 option \<Rightarrow> 'w psys \<Rightarrow> bool" where
  "tracks armed l s \<longleftrightarrow>
     pv_disconnect_callout_initialized (ps_prov s) \<and> callback_keeps armed (ps_prov s) \<and>
     armed (s_world (ps_sys s)) = (l \<noteq> None) \<and> pv_connected (ps_prov s) = (l \<noteq> None) \<and>
     (\<forall>h. l = Some h \<longrightarrow> pv_conn_handle (ps_prov s) = h)"

lemma tracks_bcall: "keeps armed f \<Longrightarrow> pkeeps (tracks armed l) (bcall f)"
  by (simp add: pkeeps_def tracks_def prun_bcall keeps_def case_prod_beta)

lemma tracks_advertise: "timer_ok B armed \<Longrightarrow> pkeeps (tracks armed l) (provisioning_advertise B)"
  unfolding provisioning_advertise_def timer_ok_def by (intro pkeeps_bind pkeeps_rules tracks_bcall) simp_all

lemma tracks_notify:
  assumes t: "timer_ok B armed"
  shows "pkeeps (tracks armed l) (notify_connection_check B conn status)"
  unfolding pkeeps_def
proof (intro allI impI)
  fix s assume s: "tracks armed l s"
  show "tracks armed l (snd (run_state (notify_connection_check B conn status) s))"
  proof (cases "pv_connection_check_cb (ps_prov s)")
    case None
    with s show ?thesis by (simp add: notify_connection_check_def run_simps)
  next
    case (Some cb)
    let ?k = "do {
      (rc, desc) \<leftarrow> bcall (ble_gap_conn_find B conn);
      if rc \<noteq> 0 then bcall (cb conn status 0 0 0 (pv_user_ctx (ps_prov s)))
      else bcall (cb conn status (conn_itvl desc) (conn_latency desc) (supervision_timeout desc) (pv_user_ctx (ps_prov s)))
    }"
    have "keeps armed (cb h st i l t u)" for h st i l t u
      using s Some by (simp add: tracks_def callback_keeps_def)
    then have "pkeeps (tracks armed l) ?k"
      using t by (auto intro!: pkeeps_bind pkeeps_rules tracks_bcall simp: timer_ok_def split: prod.split)
    moreover have "run_state (notify_connection_check B conn status) s = run_state ?k s"
      using Some by (simp add: notify_connection_check_def run_bind prun_steps)
    ultimately show ?thesis using s by (simp add: pkeeps_def)
  qed
qed

lemma tracks_event:
  assumes t: "timer_ok B armed" and s: "tracks armed l s" and r: "run_state (provisioning_gap_event B e) s = (i, s')"
  shows "tracks armed (link l e) s'"
proof (cases e)
  case (BLE_GAP_EVENT_CONNECT status conn)
  show ?thesis
  proof (cases "status = 0")
    case True
    obtain w1 w2 where w: "ble_npl_callout_stop B (s_world (ps_sys s)) = ((), w1)"
      "ble_npl_callout_reset B (ble_npl_time_ms_to_ticks32 B AETUS_PROVISIONING_AUTO_DISCONNECT_MS) w1 = ((), w2)"
      by (metis (full_types) old.unit.exhaust surj_pair)
    then have arm: "armed w2" using t unfolding timer_ok_def by (metis snd_conv)
    let ?s = "aliased (aliased (s\<lparr>ps_prov := (ps_prov s)\<lparr>pv_connected := True\<rparr>\<rparr>)
      \<lparr>ps_prov := (ps_prov s)\<lparr>pv_connected := True, pv_conn_handle := conn\<rparr>\<rparr>)"
    let ?s1 = "?s\<lparr>ps_sys := (ps_sys ?s)\<lparr>s_world := w2\<rparr>\<rparr>"
    have "tracks armed (Some conn) ?s1" using s arm by (simp add: tracks_def callback_keeps_def)
    moreover have "snd (run_state (notify_connection_check B conn status) ?s1) = s'"
      using r True BLE_GAP_EVENT_CONNECT s w
      by (simp add: provisioning_gap_event_def provisioning_start_disconnect_timer_def run_simps tracks_def split: prod.splits)
    ultimately show ?thesis
      using tracks_notify [OF t, of "Some conn" conn status] True BLE_GAP_EVENT_CONNECT by (auto simp: pkeeps_def link_def)
  next
    case False
    with r BLE_GAP_EVENT_CONNECT have "snd (run_state (provisioning_advertise B) s) = s'"
      by (simp add: provisioning_gap_event_def run_simps split: prod.splits)
    with tracks_advertise [OF t, of l] s False BLE_GAP_EVENT_CONNECT show ?thesis
      by (auto simp: pkeeps_def link_def)
  qed
next
  case (BLE_GAP_EVENT_DISCONNECT reason)
  obtain w1 where w: "ble_npl_callout_stop B (s_world (ps_sys s)) = ((), w1)"
    by (metis (full_types) old.unit.exhaust surj_pair)
  then have arm: "\<not> armed w1" using t unfolding timer_ok_def by (metis snd_conv)
  let ?s = "aliased (s\<lparr>ps_prov := (ps_prov s)\<lparr>pv_connected := False\<rparr>\<rparr>)"
  let ?s1 = "?s\<lparr>ps_sys := (ps_sys ?s)\<lparr>s_world := w1\<rparr>\<rparr>"
  have "tracks armed None ?s1" using s arm by (simp add: tracks_def callback_keeps_def)
  moreover have "snd (run_state (provisioning_advertise B) ?s1) = s'"
    using r BLE_GAP_EVENT_DISCONNECT s w
    by (simp add: provisioning_gap_event_def provisioning_stop_disconnect_timer_def run_simps tracks_def split: prod.splits)
  ultimately show ?thesis
    using tracks_advertise [OF t, of None] BLE_GAP_EVENT_DISCONNECT by (auto simp: pkeeps_def link_def)
next
  case (BLE_GAP_EVENT_CONN_UPDATE status conn)
  then have "snd (run_state (notify_connection_check B conn status) s) = s'"
    using r by (simp add: provisioning_gap_event_def run_simps split: prod.splits)
  with tracks_notify [OF t, of l conn status] s BLE_GAP_EVENT_CONN_UPDATE show ?thesis by (auto simp: pkeeps_def link_def)
next
  case BLE_GAP_EVENT_ADV_COMPLETE
  then have "snd (run_state (provisioning_advertise B) s) = s'"
    using r by (simp add: provisioning_gap_event_def run_simps split: prod.splits)
  with tracks_advertise [OF t, of l] s BLE_GAP_EVENT_ADV_COMPLETE show ?thesis by (auto simp: pkeeps_def link_def)
next
  case BLE_GAP_EVENT_OTHER
  with r s show ?thesis by (simp add: provisioning_gap_event_def run_simps link_def)
qed

lemma tracks_events:
  "timer_ok B armed \<Longrightarrow> tracks armed l s \<Longrightarrow>
    tracks armed (foldl link l es) (foldl (\<lambda>s e. snd (run_state (provisioning_gap_event B e) s)) s es)"
proof (induction es arbitrary: l s)
  case (Cons e es)
  have "tracks armed (link l e) (snd (run_state (provisioning_gap_event B e) s))"
    by (rule tracks_event [OF Cons.prems prod.collapse [symmetric]])
  from Cons.IH [OF Cons.prems(1) this] show ?case by simp
qed simp

text \<open>
  C38. The timer that ends forgotten connections follows the connection: after any sequence of connection events on an
  initialised service it is armed exactly while a client is connected, and when it fires it terminates that client's
  connection; while none is, it terminates nothing.
\<close>

theorem disconnect_timer_follows:
  assumes "timer_ok B armed" "pv_disconnect_callout_initialized (ps_prov s)" "callback_keeps armed (ps_prov s)"
    and "\<not> pv_connected (ps_prov s)" "\<not> armed (s_world (ps_sys s))"
    and "s' = foldl (\<lambda>s e. snd (run_state (provisioning_gap_event B e) s)) s es"
  shows "armed (s_world (ps_sys s')) = (foldl link None es \<noteq> None) \<and>
    run_state (provisioning_disconnect_timeout B) s' =
      (case foldl link None es of
         None \<Rightarrow> ((), s')
       | Some h \<Rightarrow> ((), s'\<lparr>ps_sys := (ps_sys s')\<lparr>s_world := snd (ble_gap_terminate B h (s_world (ps_sys s')))\<rparr>\<rparr>))"
proof -
  have "tracks armed None s" using assms by (simp add: tracks_def)
  from tracks_events [OF assms(1) this, of es] show ?thesis
    unfolding assms(6) [symmetric]
    by (auto simp: tracks_def provisioning_disconnect_timeout_def run_simps case_prod_beta split: option.split)
qed

theorem disconnect_timer_follows_witness:
  "s_world (ps_sys (foldl (\<lambda>s e. snd (run_state (provisioning_gap_event (demo_ble (\<lambda>_. False) (\<lambda>_. True)) e) s))
     \<lparr>ps_sys = \<lparr>s_ctx = zero_ctx, s_heap = s_heap sim_boot, s_test_runtime_hooks = zero_hooks,
        s_test_release_stats = s_test_release_stats sim_boot, s_isr_item = stack_item, s_world = False\<rparr>,
      ps_prov = zero_prov\<lparr>pv_disconnect_callout_initialized := True\<rparr>, ps_shared = False\<rparr>
     [BLE_GAP_EVENT_CONNECT 0 1, BLE_GAP_EVENT_DISCONNECT 19, BLE_GAP_EVENT_CONNECT 13 0, BLE_GAP_EVENT_CONNECT 0 2]))"
proof -
  let ?B = "demo_ble (\<lambda>_. False) (\<lambda>_. True)"
  let ?s = "\<lparr>ps_sys = \<lparr>s_ctx = zero_ctx, s_heap = s_heap sim_boot, s_test_runtime_hooks = zero_hooks,
        s_test_release_stats = s_test_release_stats sim_boot, s_isr_item = stack_item, s_world = False\<rparr>,
      ps_prov = zero_prov\<lparr>pv_disconnect_callout_initialized := True\<rparr>, ps_shared = False\<rparr>"
  have "timer_ok ?B id" by (simp add: timer_ok_def demo_ble_def keeps_def nop_def)
  from disconnect_timer_follows [OF this _ _ _ _ refl, of ?s
      "[BLE_GAP_EVENT_CONNECT 0 1, BLE_GAP_EVENT_DISCONNECT 19, BLE_GAP_EVENT_CONNECT 13 0, BLE_GAP_EVENT_CONNECT 0 2]"]
  show ?thesis by (simp add: zero_prov_def callback_keeps_def link_def)
qed

end
