(* ===== verification/CppWrapper.thy ===== *)
theory CppWrapper
  imports Api TelemetryProps
begin

text \<open>
  The C++ interface of the firmware (\<open>include/aetus.hpp\<close>): classes that hold a struct of the C interface and the first
  error of a chain of calls, and call the C functions. A \<open>std::string_view\<close> or \<open>std::span\<close> is the list of its
  bytes; a method that changes the object returns the new one, the heap where it allocates. A string literal is an array with
  its terminator; an overload for literals that a \<open>static_assert\<close> rejects does not compile and is \<open>None\<close>.
\<close>

section \<open>Details\<close>

text \<open>\<open>detail::copy_string\<close>: whether the view fits, and the array after the call.\<close>

definition cpp_copy_string :: "byte list \<Rightarrow> byte list \<Rightarrow> bool \<times> byte list" where
  "cpp_copy_string target source =
     (if length source \<ge> length target then (False, target[0 := 0])
      else (True, source @ [0] @ drop (Suc (length source)) target))"

definition static_check_metric_key_literal :: "byte list \<Rightarrow> bool" where
  "static_check_metric_key_literal key \<longleftrightarrow> length key \<le> AETUS_METRIC_KEY_MAX"

definition static_check_metric_unit_literal :: "byte list \<Rightarrow> bool" where
  "static_check_metric_unit_literal unit \<longleftrightarrow> length unit \<le> AETUS_METRIC_UNIT_MAX"

text \<open>\<open>std::string_view(literal, N - 1)\<close>.\<close>

definition literal_view :: "byte list \<Rightarrow> byte list" where
  "literal_view lit = take (length lit - 1) lit"

text \<open>The buffers of a key and a unit, \<open>None\<close> where one does not fit.\<close>

definition key_unit :: "byte list \<Rightarrow> byte list \<Rightarrow> (byte list \<times> byte list) option" where
  "key_unit key unit =
     (case cpp_copy_string (replicate AETUS_METRIC_KEY_MAX 0) key of
        (False, _) \<Rightarrow> None
      | (True, key_buffer) \<Rightarrow>
          (case cpp_copy_string (replicate AETUS_METRIC_UNIT_MAX 0) unit of
             (False, _) \<Rightarrow> None
           | (True, unit_buffer) \<Rightarrow> Some (key_buffer, unit_buffer)))"

section \<open>Config\<close>

definition cpp_Config :: aetus_config where
  "cpp_Config = zero_config"

definition cpp_Config_wifi :: "byte list option \<Rightarrow> byte list option \<Rightarrow> aetus_config \<Rightarrow> aetus_config" where
  "cpp_Config_wifi ssid password c = c\<lparr>wifi_ssid := ssid, wifi_password := password, wifi_auth := AETUS_WIFI_AUTH_PSK,
     wifi_identity := None\<rparr>"

definition cpp_Config_wifi_peap ::
  "byte list option \<Rightarrow> byte list option \<Rightarrow> byte list option \<Rightarrow> aetus_config \<Rightarrow> aetus_config" where
  "cpp_Config_wifi_peap ssid identity password c = c\<lparr>wifi_ssid := ssid, wifi_password := password,
     wifi_auth := AETUS_WIFI_AUTH_PEAP, wifi_identity := identity\<rparr>"

definition cpp_Config_ingest_url :: "byte list option \<Rightarrow> aetus_config \<Rightarrow> aetus_config" where
  "cpp_Config_ingest_url url c = c\<lparr>ingest_url := url\<rparr>"

definition cpp_Config_time_url :: "byte list option \<Rightarrow> aetus_config \<Rightarrow> aetus_config" where
  "cpp_Config_time_url url c = c\<lparr>time_url := url\<rparr>"

definition cpp_Config_device :: "byte list option \<Rightarrow> byte list option \<Rightarrow> aetus_config \<Rightarrow> aetus_config" where
  "cpp_Config_device i token c = c\<lparr>device_id := i, device_token := token\<rparr>"

definition cpp_Config_bearer_auth :: "aetus_config \<Rightarrow> aetus_config" where
  "cpp_Config_bearer_auth c = c\<lparr>auth_mode := AETUS_AUTH_BEARER\<rparr>"

definition cpp_Config_hmac_sha256_auth :: "aetus_config \<Rightarrow> aetus_config" where
  "cpp_Config_hmac_sha256_auth c = c\<lparr>auth_mode := AETUS_AUTH_HMAC_SHA256\<rparr>"

definition cpp_Config_firmware_version :: "u32 \<Rightarrow> aetus_config \<Rightarrow> aetus_config" where
  "cpp_Config_firmware_version version c = c\<lparr>firmware_version := version\<rparr>"

definition cpp_Config_upload_interval_ms :: "u32 \<Rightarrow> aetus_config \<Rightarrow> aetus_config" where
  "cpp_Config_upload_interval_ms interval_ms c = c\<lparr>upload_interval_ms := interval_ms\<rparr>"

definition cpp_Config_queue_depth :: "u32 \<Rightarrow> aetus_config \<Rightarrow> aetus_config" where
  "cpp_Config_queue_depth depth c = c\<lparr>queue_depth := depth\<rparr>"

definition cpp_Config_connected_led :: "u32 \<Rightarrow> aetus_config \<Rightarrow> aetus_config" where
  "cpp_Config_connected_led gpio c = c\<lparr>connected_led_enabled := True, connected_led_gpio := gpio\<rparr>"

definition cpp_Config_disable_connected_led :: "aetus_config \<Rightarrow> aetus_config" where
  "cpp_Config_disable_connected_led c = c\<lparr>connected_led_enabled := False, connected_led_gpio := 0\<rparr>"

definition cpp_Config_start :: "'w platform \<Rightarrow> aetus_config \<Rightarrow> ('w, esp_err) prog" where
  "cpp_Config_start P c = aetus_start P (Some c)"

definition cpp_Config_apply :: "'w platform \<Rightarrow> aetus_config \<Rightarrow> ('w, esp_err) prog" where
  "cpp_Config_apply P c = aetus_update_config P (Some c)"

definition cpp_sync_rtc :: "'w platform \<Rightarrow> u32 \<Rightarrow> ('w, esp_err) prog" where
  "cpp_sync_rtc P timeout = aetus_sync_rtc P timeout"

section \<open>Telemetry\<close>

record cpp_telemetry =
  ct_value :: aetus_telemetry
  ct_error :: esp_err

text \<open>The first error is kept.\<close>

definition cpp_Telemetry_remember :: "esp_err \<Rightarrow> cpp_telemetry \<Rightarrow> cpp_telemetry" where
  "cpp_Telemetry_remember err o1 = (if ct_error o1 = ESP_OK \<and> err \<noteq> ESP_OK then o1\<lparr>ct_error := err\<rparr> else o1)"

definition cpp_Telemetry :: cpp_telemetry where
  "cpp_Telemetry = \<lparr>ct_value = the (aetus_telemetry_init (Some zero_telemetry)), ct_error = ESP_OK\<rparr>"

definition cpp_Telemetry_destroy :: "cpp_telemetry \<Rightarrow> heap \<Rightarrow> heap" where
  "cpp_Telemetry_destroy o1 h = snd (aetus_telemetry_deinit (Some (ct_value o1)) h)"

definition cpp_Telemetry_timestamp :: "u64 \<Rightarrow> cpp_telemetry \<Rightarrow> cpp_telemetry" where
  "cpp_Telemetry_timestamp ts o1 = o1\<lparr>ct_value := (ct_value o1)\<lparr>t_timestamp_ns := ts\<rparr>\<rparr>"

definition cpp_Telemetry_try_timestamp_from_rtc ::
  "'w platform \<Rightarrow> cpp_telemetry \<Rightarrow> ('w, esp_err \<times> cpp_telemetry) prog" where
  "cpp_Telemetry_try_timestamp_from_rtc P o1 = do {
     (err, t) \<leftarrow> aetus_telemetry_set_timestamp_rtc P (Some (ct_value o1));
     ret (err, o1\<lparr>ct_value := the t\<rparr>)
   }"

definition cpp_Telemetry_timestamp_from_rtc :: "'w platform \<Rightarrow> cpp_telemetry \<Rightarrow> ('w, cpp_telemetry) prog" where
  "cpp_Telemetry_timestamp_from_rtc P o1 = do {
     (err, o2) \<leftarrow> cpp_Telemetry_try_timestamp_from_rtc P o1;
     ret (cpp_Telemetry_remember err o2)
   }"

text \<open>The frame of the five adds: both buffers filled, the call of the C function, its result remembered.\<close>

definition cpp_Telemetry_add ::
  "byte list \<Rightarrow> byte list \<Rightarrow>
   (aetus_telemetry option \<Rightarrow> byte list option \<Rightarrow> byte list option \<Rightarrow> heap \<Rightarrow> esp_err \<times> aetus_telemetry option \<times> heap) \<Rightarrow>
   cpp_telemetry \<Rightarrow> heap \<Rightarrow> cpp_telemetry \<times> heap" where
  "cpp_Telemetry_add key unit f o1 h =
     (case key_unit key unit of
        None \<Rightarrow> (cpp_Telemetry_remember ESP_ERR_INVALID_ARG o1, h)
      | Some (key_buffer, unit_buffer) \<Rightarrow>
          (case f (Some (ct_value o1)) (Some key_buffer) (Some unit_buffer) h of
             (err, t, h) \<Rightarrow> (cpp_Telemetry_remember err (o1\<lparr>ct_value := the t\<rparr>), h)))"

definition cpp_Telemetry_add_int64 ::
  "malloc \<Rightarrow> bool \<Rightarrow> byte list \<Rightarrow> u64 \<Rightarrow> byte list \<Rightarrow> cpp_telemetry \<Rightarrow> heap \<Rightarrow> cpp_telemetry \<times> heap" where
  "cpp_Telemetry_add_int64 M isr key v unit =
     cpp_Telemetry_add key unit (\<lambda>t k u. aetus_telemetry_add_int64 M isr t k v u)"

definition cpp_Telemetry_add_double ::
  "malloc \<Rightarrow> bool \<Rightarrow> byte list \<Rightarrow> u64 \<Rightarrow> byte list \<Rightarrow> cpp_telemetry \<Rightarrow> heap \<Rightarrow> cpp_telemetry \<times> heap" where
  "cpp_Telemetry_add_double M isr key v unit =
     cpp_Telemetry_add key unit (\<lambda>t k u. aetus_telemetry_add_double M isr t k v u)"

definition cpp_Telemetry_add_bool ::
  "malloc \<Rightarrow> bool \<Rightarrow> byte list \<Rightarrow> bool \<Rightarrow> byte list \<Rightarrow> cpp_telemetry \<Rightarrow> heap \<Rightarrow> cpp_telemetry \<times> heap" where
  "cpp_Telemetry_add_bool M isr key v unit =
     cpp_Telemetry_add key unit (\<lambda>t k u. aetus_telemetry_add_bool M isr t k v u)"

definition cpp_Telemetry_add_string ::
  "malloc \<Rightarrow> bool \<Rightarrow> byte list \<Rightarrow> byte list \<Rightarrow> byte list \<Rightarrow> cpp_telemetry \<Rightarrow> heap \<Rightarrow> cpp_telemetry \<times> heap" where
  "cpp_Telemetry_add_string M isr key v unit =
     cpp_Telemetry_add key unit (\<lambda>t k u. aetus_telemetry_add_string_n M isr t k (Some v) (of_nat (length v)) u)"

definition cpp_Telemetry_add_bytes ::
  "malloc \<Rightarrow> bool \<Rightarrow> byte list \<Rightarrow> byte list \<Rightarrow> byte list \<Rightarrow> cpp_telemetry \<Rightarrow> heap \<Rightarrow> cpp_telemetry \<times> heap" where
  "cpp_Telemetry_add_bytes M isr key v unit =
     cpp_Telemetry_add key unit (\<lambda>t k u. aetus_telemetry_add_bytes M isr t k (Some v) (of_nat (length v)) u)"

text \<open>The overloads for literals, without and with a unit.\<close>

definition literal_key :: "(byte list \<Rightarrow> byte list \<Rightarrow> 'a) \<Rightarrow> byte list \<Rightarrow> 'a option" where
  "literal_key add key = (if static_check_metric_key_literal key then Some (add (literal_view key) []) else None)"

definition literal_key_unit :: "(byte list \<Rightarrow> byte list \<Rightarrow> 'a) \<Rightarrow> byte list \<Rightarrow> byte list \<Rightarrow> 'a option" where
  "literal_key_unit add key unit =
     (if static_check_metric_key_literal key \<and> static_check_metric_unit_literal unit
      then Some (add (literal_view key) (literal_view unit)) else None)"

definition cpp_Telemetry_add_int64_key ::
  "malloc \<Rightarrow> bool \<Rightarrow> byte list \<Rightarrow> u64 \<Rightarrow> (cpp_telemetry \<Rightarrow> heap \<Rightarrow> cpp_telemetry \<times> heap) option" where
  "cpp_Telemetry_add_int64_key M isr key v = literal_key (\<lambda>k u. cpp_Telemetry_add_int64 M isr k v u) key"

definition cpp_Telemetry_add_int64_key_unit ::
  "malloc \<Rightarrow> bool \<Rightarrow> byte list \<Rightarrow> u64 \<Rightarrow> byte list \<Rightarrow>
   (cpp_telemetry \<Rightarrow> heap \<Rightarrow> cpp_telemetry \<times> heap) option" where
  "cpp_Telemetry_add_int64_key_unit M isr key v unit = literal_key_unit (\<lambda>k u. cpp_Telemetry_add_int64 M isr k v u) key unit"

definition cpp_Telemetry_add_double_key ::
  "malloc \<Rightarrow> bool \<Rightarrow> byte list \<Rightarrow> u64 \<Rightarrow> (cpp_telemetry \<Rightarrow> heap \<Rightarrow> cpp_telemetry \<times> heap) option" where
  "cpp_Telemetry_add_double_key M isr key v = literal_key (\<lambda>k u. cpp_Telemetry_add_double M isr k v u) key"

definition cpp_Telemetry_add_double_key_unit ::
  "malloc \<Rightarrow> bool \<Rightarrow> byte list \<Rightarrow> u64 \<Rightarrow> byte list \<Rightarrow>
   (cpp_telemetry \<Rightarrow> heap \<Rightarrow> cpp_telemetry \<times> heap) option" where
  "cpp_Telemetry_add_double_key_unit M isr key v unit = literal_key_unit (\<lambda>k u. cpp_Telemetry_add_double M isr k v u) key unit"

definition cpp_Telemetry_add_bool_key ::
  "malloc \<Rightarrow> bool \<Rightarrow> byte list \<Rightarrow> bool \<Rightarrow> (cpp_telemetry \<Rightarrow> heap \<Rightarrow> cpp_telemetry \<times> heap) option" where
  "cpp_Telemetry_add_bool_key M isr key v = literal_key (\<lambda>k u. cpp_Telemetry_add_bool M isr k v u) key"

definition cpp_Telemetry_add_bool_key_unit ::
  "malloc \<Rightarrow> bool \<Rightarrow> byte list \<Rightarrow> bool \<Rightarrow> byte list \<Rightarrow>
   (cpp_telemetry \<Rightarrow> heap \<Rightarrow> cpp_telemetry \<times> heap) option" where
  "cpp_Telemetry_add_bool_key_unit M isr key v unit = literal_key_unit (\<lambda>k u. cpp_Telemetry_add_bool M isr k v u) key unit"

definition cpp_Telemetry_add_string_key ::
  "malloc \<Rightarrow> bool \<Rightarrow> byte list \<Rightarrow> byte list \<Rightarrow> (cpp_telemetry \<Rightarrow> heap \<Rightarrow> cpp_telemetry \<times> heap) option" where
  "cpp_Telemetry_add_string_key M isr key v = literal_key (\<lambda>k u. cpp_Telemetry_add_string M isr k v u) key"

definition cpp_Telemetry_add_string_key_unit ::
  "malloc \<Rightarrow> bool \<Rightarrow> byte list \<Rightarrow> byte list \<Rightarrow> byte list \<Rightarrow>
   (cpp_telemetry \<Rightarrow> heap \<Rightarrow> cpp_telemetry \<times> heap) option" where
  "cpp_Telemetry_add_string_key_unit M isr key v unit = literal_key_unit (\<lambda>k u. cpp_Telemetry_add_string M isr k v u) key unit"

definition cpp_Telemetry_add_bytes_key ::
  "malloc \<Rightarrow> bool \<Rightarrow> byte list \<Rightarrow> byte list \<Rightarrow> (cpp_telemetry \<Rightarrow> heap \<Rightarrow> cpp_telemetry \<times> heap) option" where
  "cpp_Telemetry_add_bytes_key M isr key v = literal_key (\<lambda>k u. cpp_Telemetry_add_bytes M isr k v u) key"

definition cpp_Telemetry_add_bytes_key_unit ::
  "malloc \<Rightarrow> bool \<Rightarrow> byte list \<Rightarrow> byte list \<Rightarrow> byte list \<Rightarrow>
   (cpp_telemetry \<Rightarrow> heap \<Rightarrow> cpp_telemetry \<times> heap) option" where
  "cpp_Telemetry_add_bytes_key_unit M isr key v unit = literal_key_unit (\<lambda>k u. cpp_Telemetry_add_bytes M isr k v u) key unit"

definition cpp_Telemetry_enqueue :: "'w platform \<Rightarrow> cpp_telemetry \<Rightarrow> u32 \<Rightarrow> ('w, esp_err) prog" where
  "cpp_Telemetry_enqueue P o1 timeout =
     (if ct_error o1 \<noteq> ESP_OK then ret (ct_error o1) else aetus_enqueue_telemetry P (Some (ct_value o1)) timeout)"

definition cpp_Telemetry_enqueue_from_isr :: "'w platform \<Rightarrow> cpp_telemetry \<Rightarrow> ('w, esp_err) prog" where
  "cpp_Telemetry_enqueue_from_isr P o1 =
     (if ct_error o1 \<noteq> ESP_OK then ret (ct_error o1) else aetus_enqueue_telemetry_from_isr P (Some (ct_value o1)))"

section \<open>SignalFrame\<close>

record cpp_signal_frame =
  cs_value :: aetus_signal_frame
  cs_error :: esp_err

definition cpp_SignalFrame_remember :: "esp_err \<Rightarrow> cpp_signal_frame \<Rightarrow> cpp_signal_frame" where
  "cpp_SignalFrame_remember err o1 = (if cs_error o1 = ESP_OK \<and> err \<noteq> ESP_OK then o1\<lparr>cs_error := err\<rparr> else o1)"

text \<open>A C call on the struct, its result remembered.\<close>

definition cpp_SignalFrame_call ::
  "(aetus_signal_frame option \<Rightarrow> esp_err \<times> aetus_signal_frame option) \<Rightarrow> cpp_signal_frame \<Rightarrow> cpp_signal_frame" where
  "cpp_SignalFrame_call f o1 =
     (case f (Some (cs_value o1)) of (err, v) \<Rightarrow> cpp_SignalFrame_remember err (o1\<lparr>cs_value := the v\<rparr>))"

definition cpp_SignalFrame :: cpp_signal_frame where
  "cpp_SignalFrame = \<lparr>cs_value = the (aetus_signal_frame_init (Some zero_frame)), cs_error = ESP_OK\<rparr>"

definition cpp_SignalFrame_timestamp :: "u64 \<Rightarrow> cpp_signal_frame \<Rightarrow> cpp_signal_frame" where
  "cpp_SignalFrame_timestamp ts o1 = o1\<lparr>cs_value := (cs_value o1)\<lparr>fr_timestamp_ns := ts\<rparr>\<rparr>"

definition cpp_SignalFrame_try_timestamp_from_rtc ::
  "'w platform \<Rightarrow> cpp_signal_frame \<Rightarrow> ('w, esp_err \<times> cpp_signal_frame) prog" where
  "cpp_SignalFrame_try_timestamp_from_rtc P o1 = do {
     (err, f) \<leftarrow> aetus_signal_frame_set_timestamp_rtc P (Some (cs_value o1));
     ret (err, o1\<lparr>cs_value := the f\<rparr>)
   }"

definition cpp_SignalFrame_timestamp_from_rtc :: "'w platform \<Rightarrow> cpp_signal_frame \<Rightarrow> ('w, cpp_signal_frame) prog" where
  "cpp_SignalFrame_timestamp_from_rtc P o1 = do {
     (err, o2) \<leftarrow> cpp_SignalFrame_try_timestamp_from_rtc P o1;
     ret (cpp_SignalFrame_remember err o2)
   }"

definition cpp_SignalFrame_stream_key :: "byte list \<Rightarrow> cpp_signal_frame \<Rightarrow> cpp_signal_frame" where
  "cpp_SignalFrame_stream_key stream_key o1 =
     (case cpp_copy_string (replicate AETUS_SIGNAL_STREAM_KEY_MAX 0) stream_key of
        (False, _) \<Rightarrow> cpp_SignalFrame_remember ESP_ERR_INVALID_ARG o1
      | (True, buffer) \<Rightarrow> cpp_SignalFrame_call (\<lambda>f. aetus_signal_frame_set_stream_key f (Some buffer)) o1)"

definition cpp_SignalFrame_sample_interval_ns :: "u64 \<Rightarrow> cpp_signal_frame \<Rightarrow> cpp_signal_frame" where
  "cpp_SignalFrame_sample_interval_ns v o1 = o1\<lparr>cs_value := (cs_value o1)\<lparr>fr_sample_interval_ns := v\<rparr>\<rparr>"

definition cpp_SignalFrame_sample_count :: "u32 \<Rightarrow> cpp_signal_frame \<Rightarrow> cpp_signal_frame" where
  "cpp_SignalFrame_sample_count v o1 = o1\<lparr>cs_value := (cs_value o1)\<lparr>fr_sample_count := v\<rparr>\<rparr>"

text \<open>The four methods that set the encoding, and the two that set the layout.\<close>

definition cpp_SignalFrame_encoding :: "aetus_signal_encoding \<Rightarrow> cpp_signal_frame \<Rightarrow> cpp_signal_frame" where
  "cpp_SignalFrame_encoding e o1 = o1\<lparr>cs_value := (cs_value o1)\<lparr>fr_encoding := e\<rparr>\<rparr>"

definition cpp_SignalFrame_layout :: "aetus_signal_layout \<Rightarrow> cpp_signal_frame \<Rightarrow> cpp_signal_frame" where
  "cpp_SignalFrame_layout l o1 = o1\<lparr>cs_value := (cs_value o1)\<lparr>fr_layout := l\<rparr>\<rparr>"

definition cpp_SignalFrame_add_channel_internal ::
  "byte list \<Rightarrow> byte list \<Rightarrow> u32 option \<Rightarrow> u32 option \<Rightarrow> cpp_signal_frame \<Rightarrow> cpp_signal_frame" where
  "cpp_SignalFrame_add_channel_internal key unit scale offset o1 =
     (case key_unit key unit of
        None \<Rightarrow> cpp_SignalFrame_remember ESP_ERR_INVALID_ARG o1
      | Some (key_buffer, unit_buffer) \<Rightarrow>
          cpp_SignalFrame_call (\<lambda>f. aetus_signal_frame_add_channel f (Some key_buffer) (Some unit_buffer) scale offset) o1)"

definition cpp_SignalFrame_add_channel :: "byte list \<Rightarrow> byte list \<Rightarrow> cpp_signal_frame \<Rightarrow> cpp_signal_frame" where
  "cpp_SignalFrame_add_channel key unit = cpp_SignalFrame_add_channel_internal key unit None None"

definition cpp_SignalFrame_add_channel_key :: "byte list \<Rightarrow> (cpp_signal_frame \<Rightarrow> cpp_signal_frame) option" where
  "cpp_SignalFrame_add_channel_key key = literal_key cpp_SignalFrame_add_channel key"

definition cpp_SignalFrame_add_channel_key_unit ::
  "byte list \<Rightarrow> byte list \<Rightarrow> (cpp_signal_frame \<Rightarrow> cpp_signal_frame) option" where
  "cpp_SignalFrame_add_channel_key_unit key unit = literal_key_unit cpp_SignalFrame_add_channel key unit"

definition cpp_SignalFrame_add_channel_with_scale ::
  "byte list \<Rightarrow> byte list \<Rightarrow> u32 \<Rightarrow> cpp_signal_frame \<Rightarrow> cpp_signal_frame" where
  "cpp_SignalFrame_add_channel_with_scale key unit scale = cpp_SignalFrame_add_channel_internal key unit (Some scale) None"

definition cpp_SignalFrame_add_channel_with_scale_literal ::
  "byte list \<Rightarrow> byte list \<Rightarrow> u32 \<Rightarrow> (cpp_signal_frame \<Rightarrow> cpp_signal_frame) option" where
  "cpp_SignalFrame_add_channel_with_scale_literal key unit scale =
     literal_key_unit (\<lambda>k u. cpp_SignalFrame_add_channel_with_scale k u scale) key unit"

definition cpp_SignalFrame_add_channel_with_affine ::
  "byte list \<Rightarrow> byte list \<Rightarrow> u32 \<Rightarrow> u32 \<Rightarrow> cpp_signal_frame \<Rightarrow> cpp_signal_frame" where
  "cpp_SignalFrame_add_channel_with_affine key unit scale offset =
     cpp_SignalFrame_add_channel_internal key unit (Some scale) (Some offset)"

definition cpp_SignalFrame_add_channel_with_affine_literal ::
  "byte list \<Rightarrow> byte list \<Rightarrow> u32 \<Rightarrow> u32 \<Rightarrow> (cpp_signal_frame \<Rightarrow> cpp_signal_frame) option" where
  "cpp_SignalFrame_add_channel_with_affine_literal key unit scale offset =
     literal_key_unit (\<lambda>k u. cpp_SignalFrame_add_channel_with_affine k u scale offset) key unit"

definition cpp_SignalFrame_set_sample_bytes :: "byte list \<Rightarrow> cpp_signal_frame \<Rightarrow> cpp_signal_frame" where
  "cpp_SignalFrame_set_sample_bytes bytes =
     cpp_SignalFrame_call (\<lambda>f. aetus_signal_frame_set_samples f (Some bytes) (of_nat (length bytes)))"

text \<open>\<open>set_samples<T>\<close>: the samples by their bytes in memory.\<close>

definition cpp_SignalFrame_set_samples :: "byte list list \<Rightarrow> cpp_signal_frame \<Rightarrow> cpp_signal_frame" where
  "cpp_SignalFrame_set_samples samples =
     cpp_SignalFrame_call (\<lambda>f. aetus_signal_frame_set_samples f (Some (concat samples)) (of_nat (length (concat samples))))"

definition cpp_SignalFrame_enqueue :: "'w platform \<Rightarrow> cpp_signal_frame \<Rightarrow> u32 \<Rightarrow> ('w, esp_err) prog" where
  "cpp_SignalFrame_enqueue P o1 timeout =
     (if cs_error o1 \<noteq> ESP_OK then ret (cs_error o1) else aetus_enqueue_signal_frame P (Some (cs_value o1)) timeout)"

section \<open>Status\<close>

record cpp_status =
  cu_value :: aetus_status
  cu_error :: esp_err

definition cpp_Status_remember :: "esp_err \<Rightarrow> cpp_status \<Rightarrow> cpp_status" where
  "cpp_Status_remember err o1 = (if cu_error o1 = ESP_OK \<and> err \<noteq> ESP_OK then o1\<lparr>cu_error := err\<rparr> else o1)"

definition cpp_Status :: "aetus_device_status \<Rightarrow> cpp_status" where
  "cpp_Status status = \<lparr>cu_value = the (aetus_status_init (Some zero_status) status), cu_error = ESP_OK\<rparr>"

definition cpp_Status_online :: cpp_status where
  "cpp_Status_online = cpp_Status AETUS_DEVICE_STATUS_ONLINE"

definition cpp_Status_degraded :: cpp_status where
  "cpp_Status_degraded = cpp_Status AETUS_DEVICE_STATUS_DEGRADED"

definition cpp_Status_offline :: cpp_status where
  "cpp_Status_offline = cpp_Status AETUS_DEVICE_STATUS_OFFLINE"

definition cpp_Status_rssi :: "u32 \<Rightarrow> cpp_status \<Rightarrow> cpp_status" where
  "cpp_Status_rssi v o1 = o1\<lparr>cu_value := (cu_value o1)\<lparr>st_rssi := v\<rparr>\<rparr>"

definition cpp_Status_free_heap :: "u32 \<Rightarrow> cpp_status \<Rightarrow> cpp_status" where
  "cpp_Status_free_heap v o1 = o1\<lparr>cu_value := (cu_value o1)\<lparr>st_free_heap := v\<rparr>\<rparr>"

definition cpp_Status_reboot_reason :: "byte list \<Rightarrow> cpp_status \<Rightarrow> cpp_status" where
  "cpp_Status_reboot_reason reason o1 =
     (case cpp_copy_string (replicate 24 0) reason of
        (False, _) \<Rightarrow> cpp_Status_remember ESP_ERR_INVALID_ARG o1
      | (True, buffer) \<Rightarrow>
          (case aetus_status_set_reboot_reason (Some (cu_value o1)) (Some buffer) of
             (err, v) \<Rightarrow> cpp_Status_remember err (o1\<lparr>cu_value := the v\<rparr>)))"

definition cpp_Status_timestamp :: "u64 \<Rightarrow> cpp_status \<Rightarrow> cpp_status" where
  "cpp_Status_timestamp ts o1 = o1\<lparr>cu_value := (cu_value o1)\<lparr>st_timestamp_ns := ts\<rparr>\<rparr>"

definition cpp_Status_try_timestamp_from_rtc :: "'w platform \<Rightarrow> cpp_status \<Rightarrow> ('w, esp_err \<times> cpp_status) prog" where
  "cpp_Status_try_timestamp_from_rtc P o1 = do {
     (err, v) \<leftarrow> aetus_status_set_timestamp_rtc P (Some (cu_value o1));
     ret (err, o1\<lparr>cu_value := the v\<rparr>)
   }"

definition cpp_Status_timestamp_from_rtc :: "'w platform \<Rightarrow> cpp_status \<Rightarrow> ('w, cpp_status) prog" where
  "cpp_Status_timestamp_from_rtc P o1 = do {
     (err, o2) \<leftarrow> cpp_Status_try_timestamp_from_rtc P o1;
     ret (cpp_Status_remember err o2)
   }"

definition cpp_Status_enqueue :: "'w platform \<Rightarrow> cpp_status \<Rightarrow> u32 \<Rightarrow> ('w, esp_err) prog" where
  "cpp_Status_enqueue P o1 timeout =
     (if cu_error o1 \<noteq> ESP_OK then ret (cu_error o1) else aetus_enqueue_status P (Some (cu_value o1)) timeout)"

definition cpp_Status_enqueue_from_isr :: "'w platform \<Rightarrow> cpp_status \<Rightarrow> ('w, esp_err) prog" where
  "cpp_Status_enqueue_from_isr P o1 =
     (if cu_error o1 \<noteq> ESP_OK then ret (cu_error o1) else aetus_enqueue_status_from_isr P (Some (cu_value o1)))"

end
