(* ===== verification/CppProps.thy ===== *)
theory CppProps
  imports CppWrapper
begin

text \<open>
  What the C++ \<open>Telemetry\<close> builder promises: a chain of adds either collects every metric as given, or remembers the first
  error and refuses to be enqueued; its destructor gives back every block.
\<close>

section \<open>The adds as values\<close>

datatype cpp_call =
    Cpp_int64 "byte list" u64 "byte list"
  | Cpp_double "byte list" u64 "byte list"
  | Cpp_bool "byte list" bool "byte list"
  | Cpp_string "byte list" "byte list" "byte list"
  | Cpp_bytes "byte list" "byte list" "byte list"

fun run_cpp :: "malloc \<Rightarrow> bool \<Rightarrow> cpp_call \<Rightarrow> cpp_telemetry \<Rightarrow> heap \<Rightarrow> cpp_telemetry \<times> heap" where
  "run_cpp M isr (Cpp_int64 k v u) = cpp_Telemetry_add_int64 M isr k v u"
| "run_cpp M isr (Cpp_double k v u) = cpp_Telemetry_add_double M isr k v u"
| "run_cpp M isr (Cpp_bool k v u) = cpp_Telemetry_add_bool M isr k v u"
| "run_cpp M isr (Cpp_string k v u) = cpp_Telemetry_add_string M isr k v u"
| "run_cpp M isr (Cpp_bytes k v u) = cpp_Telemetry_add_bytes M isr k v u"

fun cpp_key_unit :: "cpp_call \<Rightarrow> (byte list \<times> byte list) option" where
  "cpp_key_unit (Cpp_int64 k v u) = key_unit k u"
| "cpp_key_unit (Cpp_double k v u) = key_unit k u"
| "cpp_key_unit (Cpp_bool k v u) = key_unit k u"
| "cpp_key_unit (Cpp_string k v u) = key_unit k u"
| "cpp_key_unit (Cpp_bytes k v u) = key_unit k u"

text \<open>The call of the C interface that a method makes with its buffers.\<close>

fun c_call :: "cpp_call \<Rightarrow> byte list \<Rightarrow> byte list \<Rightarrow> telemetry_call" where
  "c_call (Cpp_int64 k v u) kb ub = Add_int64 (Some kb) v (Some ub)"
| "c_call (Cpp_double k v u) kb ub = Add_double (Some kb) v (Some ub)"
| "c_call (Cpp_bool k v u) kb ub = Add_bool (Some kb) v (Some ub)"
| "c_call (Cpp_string k v u) kb ub = Add_string_n (Some kb) (Some v) (of_nat (length v)) (Some ub)"
| "c_call (Cpp_bytes k v u) kb ub = Add_bytes (Some kb) (Some v) (of_nat (length v)) (Some ub)"

text \<open>The metric a call stands for: key and unit up to a zero byte, the value whole.\<close>

fun cpp_meant :: "cpp_call \<Rightarrow> byte list \<times> byte list \<times> metric_value" where
  "cpp_meant (Cpp_int64 k v u) = (cstr k, cstr u, Int_value v)"
| "cpp_meant (Cpp_double k v u) = (cstr k, cstr u, Double_value v)"
| "cpp_meant (Cpp_bool k v u) = (cstr k, cstr u, Bool_value v)"
| "cpp_meant (Cpp_string k v u) = (cstr k, cstr u, String_value v)"
| "cpp_meant (Cpp_bytes k v u) = (cstr k, cstr u, Bytes_value v)"

text \<open>Values fit the address space.\<close>

fun cpp_ok :: "cpp_call \<Rightarrow> bool" where
  "cpp_ok (Cpp_string k v u) \<longleftrightarrow> length v < 4294967295"
| "cpp_ok (Cpp_bytes k v u) \<longleftrightarrow> length v < 4294967295"
| "cpp_ok _ \<longleftrightarrow> True"

lemma run_cpp_call:
  "run_cpp M isr c o1 h =
     (case cpp_key_unit c of
        None \<Rightarrow> (cpp_Telemetry_remember ESP_ERR_INVALID_ARG o1, h)
      | Some (kb, ub) \<Rightarrow>
          (case run_call M isr (c_call c kb ub) (Some (ct_value o1)) h of
             (err, t, h) \<Rightarrow> (cpp_Telemetry_remember err (o1\<lparr>ct_value := the t\<rparr>), h)))"
  by (cases c)
    (auto simp: cpp_Telemetry_add_int64_def cpp_Telemetry_add_double_def cpp_Telemetry_add_bool_def
      cpp_Telemetry_add_string_def cpp_Telemetry_add_bytes_def cpp_Telemetry_add_def split: option.split)

lemma cstr_terminated: "cstr (s @ 0 # t) = cstr s"
  by (induction s) auto

lemma key_unit_text: "key_unit k u = Some (kb, ub) \<Longrightarrow> cstr kb = cstr k \<and> cstr ub = cstr u"
  by (auto simp: key_unit_def cpp_copy_string_def cstr_terminated split: if_splits)

lemma c_call_meant:
  assumes "cpp_key_unit c = Some (kb, ub)" "cpp_ok c"
  shows "call_ok (c_call c kb ub)" "meant (c_call c kb ub) = cpp_meant c"
proof -
  have "(of_nat n :: size_t) + 1 \<noteq> 0" if "n < 4294967295" for n
  proof -
    have "unat (of_nat n + 1 :: size_t) = n + 1"
      using that by (simp add: unat_add_small32 unat_of_nat_small32)
    then show ?thesis by (metis unat_0 add_is_0 one_neq_zero)
  qed
  then show "call_ok (c_call c kb ub)" "meant (c_call c kb ub) = cpp_meant c"
    using assms key_unit_text by (cases c; fastforce simp: points_to_def unat_of_nat_small32)+
qed

section \<open>Chains\<close>

text \<open>An object built by the calls so far.\<close>

definition chained :: "heap \<Rightarrow> cpp_call list \<Rightarrow> cpp_telemetry \<times> heap \<Rightarrow> bool" where
  "chained h0 cs r \<longleftrightarrow> (case r of (o1, h) \<Rightarrow>
     built h0 h (ct_value o1) \<and> subseq (contents h (ct_value o1)) (map cpp_meant cs) \<and>
     (ct_error o1 = ESP_OK \<longleftrightarrow> length (contents h (ct_value o1)) = length cs))"

lemma chained_step:
  assumes M: "malloc_ok M" and c: "cpp_ok c" and r: "chained h0 cs (o1, h)"
  shows "chained h0 (cs @ [c]) (run_cpp M isr c o1 h)"
proof -
  have b: "built h0 h (ct_value o1)" and sub: "subseq (contents h (ct_value o1)) (map cpp_meant cs)"
    and e: "ct_error o1 = ESP_OK \<longleftrightarrow> length (contents h (ct_value o1)) = length cs"
    using r by (simp_all add: chained_def)
  have le: "length (contents h (ct_value o1)) \<le> length cs" using list_emb_length [OF sub] by simp
  have sub': "subseq (contents h (ct_value o1)) (map cpp_meant cs @ [cpp_meant c])" using sub by (rule list_emb_prefix)
  show ?thesis
  proof (cases "cpp_key_unit c")
    case None
    with b sub' le e show ?thesis
      by (auto simp: chained_def run_cpp_call cpp_Telemetry_remember_def)
  next
    case (Some p)
    obtain kb ub where p: "cpp_key_unit c = Some (kb, ub)" using Some by (cases p) auto
    obtain err t h' where run: "run_call M isr (c_call c kb ub) (Some (ct_value o1)) h = (err, t, h')"
      by (cases "run_call M isr (c_call c kb ub) (Some (ct_value o1)) h")
    from call_refines [OF M b c_call_meant(1) [OF p c] run] c_call_meant(2) [OF p c]
    obtain t2 where t2: "t = Some t2" "built h0 h' t2"
      "contents h' t2 = contents h (ct_value o1) @ (if err = ESP_OK then [cpp_meant c] else [])" by auto
    have "run_cpp M isr c o1 h = (cpp_Telemetry_remember err (o1\<lparr>ct_value := t2\<rparr>), h')"
      using p run t2(1) by (simp add: run_cpp_call)
    moreover have "subseq (contents h' t2) (map cpp_meant cs @ [cpp_meant c])"
      using t2(3) sub sub' by (auto intro: list_emb_append_mono)
    ultimately show ?thesis
      using t2 le e by (auto simp: chained_def cpp_Telemetry_remember_def)
  qed
qed

lemma chained_all:
  assumes "malloc_ok M" "blocks h 0 = None" "list_all cpp_ok cs"
  shows "chained h cs (foldl (\<lambda>(o1, h) c. run_cpp M isr c o1 h) (cpp_Telemetry, h) cs)"
  using assms(3)
proof (induction cs rule: rev_induct)
  case Nil
  have "ct_value cpp_Telemetry = init_telemetry"
    by (simp add: cpp_Telemetry_def aetus_telemetry_init_def init_telemetry_def)
  with init_telemetry_built [of h] assms(2) show ?case by (simp add: chained_def cpp_Telemetry_def)
next
  case (snoc c cs)
  obtain o1 h1 where "foldl (\<lambda>(o1, h) c. run_cpp M isr c o1 h) (cpp_Telemetry, h) cs = (o1, h1)"
    by (cases "foldl (\<lambda>(o1, h) c. run_cpp M isr c o1 h) (cpp_Telemetry, h) cs")
  with snoc chained_step [OF assms(1), of c h cs o1 h1 isr] show ?case by simp
qed

text \<open>
  C39. A C++ \<open>Telemetry\<close> object filled by any chain of adds is all or nothing: without an error it holds exactly the
  metrics of the chain in order, and \<open>enqueue\<close> is \<open>aetus_enqueue_telemetry\<close> of it; with one, it holds some of them but
  not all, and \<open>enqueue\<close> returns the remembered error and does nothing. Either way its destructor restores the heap.
\<close>

theorem cpp_telemetry_all_or_error:
  assumes "malloc_ok M" "blocks h 0 = None" "list_all cpp_ok cs"
    and "foldl (\<lambda>(o1, h) c. run_cpp M isr c o1 h) (cpp_Telemetry, h) cs = (o1, h')"
  shows "(if ct_error o1 = ESP_OK
      then contents h' (ct_value o1) = map cpp_meant cs \<and>
        cpp_Telemetry_enqueue P o1 timeout = aetus_enqueue_telemetry P (Some (ct_value o1)) timeout
      else subseq (contents h' (ct_value o1)) (map cpp_meant cs) \<and> length (contents h' (ct_value o1)) < length cs \<and>
        cpp_Telemetry_enqueue P o1 timeout = ret (ct_error o1)) \<and>
    cpp_Telemetry_destroy o1 h' = h"
proof -
  have ch: "built h h' (ct_value o1)" "subseq (contents h' (ct_value o1)) (map cpp_meant cs)"
    "ct_error o1 = ESP_OK \<longleftrightarrow> length (contents h' (ct_value o1)) = length cs"
    using chained_all [OF assms(1-3), of isr] unfolding assms(4) by (simp_all add: chained_def)
  have "cpp_Telemetry_destroy o1 h' = h"
    using deinit_free_owned built_free_owned [OF ch(1)] ch(1) by (simp add: cpp_Telemetry_destroy_def built_def)
  moreover have "length (contents h' (ct_value o1)) \<le> length cs" using list_emb_length [OF ch(2)] by simp
  moreover have "contents h' (ct_value o1) = map cpp_meant cs" if "ct_error o1 = ESP_OK"
    using subseq_same_length [OF ch(2)] ch(3) that by simp
  ultimately show ?thesis using ch by (auto simp: cpp_Telemetry_enqueue_def)
qed

theorem cpp_telemetry_all_or_error_witness:
  "\<exists>o1 h'. foldl (\<lambda>(o1, h) c. run_cpp (arena 9) False c o1 h) (cpp_Telemetry, empty_heap)
       [Cpp_int64 (str ''temp'') 21 (str ''C''), Cpp_string (str ''state'') (str ''ok'') []] = (o1, h') \<and>
     cpp_Telemetry_destroy o1 h' = empty_heap"
proof -
  let ?cs = "[Cpp_int64 (str ''temp'') 21 (str ''C''), Cpp_string (str ''state'') (str ''ok'') []]"
  let ?r = "foldl (\<lambda>(o1, h) c. run_cpp (arena 9) False c o1 h) (cpp_Telemetry, empty_heap) ?cs"
  obtain o1 h' where r: "?r = (o1, h')" by (cases ?r)
  have "list_all cpp_ok ?cs" "blocks empty_heap 0 = None" by (simp_all add: empty_heap_def)
  from cpp_telemetry_all_or_error [OF arena_ok this(2,1) r] have "cpp_Telemetry_destroy o1 h' = empty_heap" by blast
  with r show ?thesis by blast
qed

end
