(* ===== verification/PbDesc.thy ===== *)
theory PbDesc
  imports PbEncode
begin

text \<open>
  How nanopb lays a message out in constants (the macros of \<open>pb.h\<close>): each entry of a \<open>FIELDLIST\<close> becomes a
  field info of 1, 2, 4 or 8 words, from the type of the field and the place of its member in the C struct, and \<open>PB_BIND\<close>
  collects them in a message descriptor. \<open>pb_size_t\<close> has 16 bits (\<open>PB_FIELD_32BIT\<close> is not set).
\<close>

section \<open>Field types\<close>

text \<open>The words a \<open>FIELDLIST\<close> entry may hold: allocation, repetition rule and protobuf type.\<close>

datatype pb_atype = AT_STATIC | AT_POINTER | AT_CALLBACK

datatype pb_htype = HT_REQUIRED | HT_SINGULAR | HT_OPTIONAL | HT_ONEOF | HT_REPEATED | HT_FIXARRAY

datatype pb_ptype =
    PT_BOOL | PT_BYTES | PT_DOUBLE | PT_ENUM | PT_UENUM | PT_FIXED32 | PT_FIXED64 | PT_FLOAT | PT_INT32 | PT_INT64
  | PT_MESSAGE | PT_MSG_W_CB | PT_SFIXED32 | PT_SFIXED64 | PT_SINT32 | PT_SINT64 | PT_STRING | PT_UINT32 | PT_UINT64
  | PT_EXTENSION | PT_FIXED_LENGTH_BYTES

fun atype_bits :: "pb_atype \<Rightarrow> byte" where
  "atype_bits AT_STATIC = PB_ATYPE_STATIC"
| "atype_bits AT_POINTER = PB_ATYPE_POINTER"
| "atype_bits AT_CALLBACK = PB_ATYPE_CALLBACK"

fun htype_bits :: "pb_htype \<Rightarrow> byte" where
  "htype_bits HT_REQUIRED = PB_HTYPE_REQUIRED"
| "htype_bits HT_SINGULAR = PB_HTYPE_OPTIONAL"
| "htype_bits HT_OPTIONAL = PB_HTYPE_OPTIONAL"
| "htype_bits HT_ONEOF = PB_HTYPE_ONEOF"
| "htype_bits HT_REPEATED = PB_HTYPE_REPEATED"
| "htype_bits HT_FIXARRAY = PB_HTYPE_REPEATED"

fun PB_LTYPE_MAP :: "pb_ptype \<Rightarrow> byte" where
  "PB_LTYPE_MAP PT_BOOL = PB_LTYPE_BOOL"
| "PB_LTYPE_MAP PT_BYTES = PB_LTYPE_BYTES"
| "PB_LTYPE_MAP PT_DOUBLE = PB_LTYPE_FIXED64"
| "PB_LTYPE_MAP PT_ENUM = PB_LTYPE_VARINT"
| "PB_LTYPE_MAP PT_UENUM = PB_LTYPE_UVARINT"
| "PB_LTYPE_MAP PT_FIXED32 = PB_LTYPE_FIXED32"
| "PB_LTYPE_MAP PT_FIXED64 = PB_LTYPE_FIXED64"
| "PB_LTYPE_MAP PT_FLOAT = PB_LTYPE_FIXED32"
| "PB_LTYPE_MAP PT_INT32 = PB_LTYPE_VARINT"
| "PB_LTYPE_MAP PT_INT64 = PB_LTYPE_VARINT"
| "PB_LTYPE_MAP PT_MESSAGE = PB_LTYPE_SUBMESSAGE"
| "PB_LTYPE_MAP PT_MSG_W_CB = PB_LTYPE_SUBMSG_W_CB"
| "PB_LTYPE_MAP PT_SFIXED32 = PB_LTYPE_FIXED32"
| "PB_LTYPE_MAP PT_SFIXED64 = PB_LTYPE_FIXED64"
| "PB_LTYPE_MAP PT_SINT32 = PB_LTYPE_SVARINT"
| "PB_LTYPE_MAP PT_SINT64 = PB_LTYPE_SVARINT"
| "PB_LTYPE_MAP PT_STRING = PB_LTYPE_STRING"
| "PB_LTYPE_MAP PT_UINT32 = PB_LTYPE_UVARINT"
| "PB_LTYPE_MAP PT_UINT64 = PB_LTYPE_UVARINT"
| "PB_LTYPE_MAP PT_EXTENSION = PB_LTYPE_EXTENSION"
| "PB_LTYPE_MAP PT_FIXED_LENGTH_BYTES = PB_LTYPE_FIXED_LENGTH_BYTES"

section \<open>Packed field infos\<close>

text \<open>The width of a field info in words, and the arguments of a \<open>PB_FIELDINFO\<close> macro.\<close>

datatype pb_width = W1 | W2 | W4 | W8

record fieldinfo =
  fi_tag :: u32
  fi_type :: byte
  fi_data_offset :: u32
  fi_data_size :: u32
  fi_size_offset :: u32
  fi_array_size :: u32

definition PB_FIELDINFO_1 :: "fieldinfo \<Rightarrow> u32 list" where
  "PB_FIELDINFO_1 f =
     [0 OR (push_bit 2 (fi_tag f) AND 0xFF) OR push_bit 8 (ucast (fi_type f)) OR
      push_bit 16 (fi_data_offset f AND 0xFF) OR push_bit 24 (fi_size_offset f AND 0x0F) OR
      push_bit 28 (fi_data_size f AND 0x0F)]"

definition PB_FIELDINFO_2 :: "fieldinfo \<Rightarrow> u32 list" where
  "PB_FIELDINFO_2 f =
     [1 OR (push_bit 2 (fi_tag f) AND 0xFF) OR push_bit 8 (ucast (fi_type f)) OR
      push_bit 16 (fi_array_size f AND 0xFFF) OR push_bit 28 (fi_size_offset f AND 0x0F),
      (fi_data_offset f AND 0xFFFF) OR push_bit 16 (fi_data_size f AND 0xFFF) OR push_bit 22 (fi_tag f AND 0x3c0)]"

text \<open>\<open>(uint32_t)(int_least8_t)\<close> of a value.\<close>

definition int8_u32 :: "u32 \<Rightarrow> u32" where
  "int8_u32 v = scast (ucast v :: byte)"

definition PB_FIELDINFO_4 :: "fieldinfo \<Rightarrow> u32 list" where
  "PB_FIELDINFO_4 f =
     [2 OR (push_bit 2 (fi_tag f) AND 0xFF) OR push_bit 8 (ucast (fi_type f)) OR push_bit 16 (fi_array_size f AND 0xFFFF),
      int8_u32 (fi_size_offset f) OR (push_bit 2 (fi_tag f) AND 0xFFFFFF00),
      fi_data_offset f, fi_data_size f]"

definition PB_FIELDINFO_8 :: "fieldinfo \<Rightarrow> u32 list" where
  "PB_FIELDINFO_8 f =
     [3 OR (push_bit 2 (fi_tag f) AND 0xFF) OR push_bit 8 (ucast (fi_type f)),
      int8_u32 (fi_size_offset f) OR (push_bit 2 (fi_tag f) AND 0xFFFFFF00),
      fi_data_offset f, fi_data_size f, fi_array_size f, 0, 0, 0]"

definition PB_FITS :: "u32 \<Rightarrow> nat \<Rightarrow> bool" where
  "PB_FITS v n \<longleftrightarrow> v < push_bit n 1"

definition PB_FIELDINFO_ASSERT_1 :: "fieldinfo \<Rightarrow> bool" where
  "PB_FIELDINFO_ASSERT_1 f \<longleftrightarrow> PB_FITS (fi_tag f) 6 \<and> PB_FITS (fi_data_offset f) 8 \<and> PB_FITS (fi_size_offset f) 4 \<and>
     PB_FITS (fi_data_size f) 4 \<and> PB_FITS (fi_array_size f) 1"

definition PB_FIELDINFO_ASSERT_2 :: "fieldinfo \<Rightarrow> bool" where
  "PB_FIELDINFO_ASSERT_2 f \<longleftrightarrow> PB_FITS (fi_tag f) 10 \<and> PB_FITS (fi_data_offset f) 16 \<and> PB_FITS (fi_size_offset f) 4 \<and>
     PB_FITS (fi_data_size f) 12 \<and> PB_FITS (fi_array_size f) 12"

text \<open>Widths 4 and 8 have the same assertion while \<open>PB_FIELD_32BIT\<close> is not set.\<close>

definition PB_FIELDINFO_ASSERT_4 :: "fieldinfo \<Rightarrow> bool" where
  "PB_FIELDINFO_ASSERT_4 f \<longleftrightarrow> PB_FITS (fi_tag f) 16 \<and> PB_FITS (fi_data_offset f) 16 \<and>
     PB_FITS (int8_u32 (fi_size_offset f)) 8 \<and> PB_FITS (fi_data_size f) 16 \<and> PB_FITS (fi_array_size f) 16"

definition PB_FIELDINFO_ASSERT_8 :: "fieldinfo \<Rightarrow> bool" where
  "PB_FIELDINFO_ASSERT_8 f \<longleftrightarrow> PB_FITS (fi_tag f) 16 \<and> PB_FITS (fi_data_offset f) 16 \<and>
     PB_FITS (int8_u32 (fi_size_offset f)) 8 \<and> PB_FITS (fi_data_size f) 16 \<and> PB_FITS (fi_array_size f) 16"

text \<open>\<open>PB_FIELDINFO_AUTO3\<close> and \<open>PB_FIELDINFO_ASSERT_AUTO3\<close>: the macro of the width.\<close>

fun PB_FIELDINFO :: "pb_width \<Rightarrow> fieldinfo \<Rightarrow> u32 list" where
  "PB_FIELDINFO W1 f = PB_FIELDINFO_1 f"
| "PB_FIELDINFO W2 f = PB_FIELDINFO_2 f"
| "PB_FIELDINFO W4 f = PB_FIELDINFO_4 f"
| "PB_FIELDINFO W8 f = PB_FIELDINFO_8 f"

fun PB_FIELDINFO_ASSERT :: "pb_width \<Rightarrow> fieldinfo \<Rightarrow> bool" where
  "PB_FIELDINFO_ASSERT W1 f = PB_FIELDINFO_ASSERT_1 f"
| "PB_FIELDINFO_ASSERT W2 f = PB_FIELDINFO_ASSERT_2 f"
| "PB_FIELDINFO_ASSERT W4 f = PB_FIELDINFO_ASSERT_4 f"
| "PB_FIELDINFO_ASSERT W8 f = PB_FIELDINFO_ASSERT_8 f"

section \<open>From the C struct to the field info\<close>

text \<open>
  What the compiler knows of the member of a field: \<open>offsetof\<close> and \<open>sizeof\<close> of the member, \<open>sizeof\<close> of its
  element (\<open>m[0]\<close>) and of that one's element (\<open>m[0][0]\<close>), and \<open>offsetof\<close> of the member that holds its count, its
  has-flag or the number of its oneof.
\<close>

record pb_member =
  mb_offset :: nat
  mb_size :: nat
  mb_elem_size :: nat
  mb_elem2_size :: nat
  mb_aux_offset :: nat

definition pb_delta :: "nat \<Rightarrow> nat \<Rightarrow> int" where
  "pb_delta m1 m2 = int m1 - int m2"

fun PB_SIZE_OFFSET :: "pb_atype \<Rightarrow> pb_htype \<Rightarrow> pb_member \<Rightarrow> int" where
  "PB_SIZE_OFFSET a HT_ONEOF m = pb_delta (mb_offset m) (mb_aux_offset m)"
| "PB_SIZE_OFFSET AT_STATIC HT_OPTIONAL m = pb_delta (mb_offset m) (mb_aux_offset m)"
| "PB_SIZE_OFFSET AT_STATIC HT_REPEATED m = pb_delta (mb_offset m) (mb_aux_offset m)"
| "PB_SIZE_OFFSET AT_POINTER HT_REPEATED m = pb_delta (mb_offset m) (mb_aux_offset m)"
| "PB_SIZE_OFFSET a h m = 0"

fun PB_ARRAY_SIZE :: "pb_atype \<Rightarrow> pb_htype \<Rightarrow> pb_member \<Rightarrow> nat" where
  "PB_ARRAY_SIZE AT_STATIC HT_REPEATED m = mb_size m div mb_elem_size m"
| "PB_ARRAY_SIZE AT_STATIC HT_FIXARRAY m = mb_size m div mb_elem_size m"
| "PB_ARRAY_SIZE AT_POINTER HT_FIXARRAY m = mb_elem_size m div mb_elem2_size m"
| "PB_ARRAY_SIZE a h m = 1"

fun PB_DATA_SIZE :: "pb_atype \<Rightarrow> pb_htype \<Rightarrow> pb_member \<Rightarrow> nat" where
  "PB_DATA_SIZE AT_STATIC HT_REPEATED m = mb_elem_size m"
| "PB_DATA_SIZE AT_STATIC HT_FIXARRAY m = mb_elem_size m"
| "PB_DATA_SIZE AT_POINTER HT_FIXARRAY m = mb_elem2_size m"
| "PB_DATA_SIZE AT_POINTER h m = mb_elem_size m"
| "PB_DATA_SIZE a h m = mb_size m"

text \<open>An entry of a \<open>FIELDLIST\<close>; for a submessage with the address of its descriptor.\<close>

record pb_entry =
  en_atype :: pb_atype
  en_htype :: pb_htype
  en_ltype :: pb_ptype
  en_tag :: u32
  en_member :: pb_member
  en_submsg :: u32

definition PB_GEN_FIELD_INFO :: "pb_entry \<Rightarrow> fieldinfo" where
  "PB_GEN_FIELD_INFO e =
     \<lparr>fi_tag = en_tag e, fi_type = atype_bits (en_atype e) OR htype_bits (en_htype e) OR PB_LTYPE_MAP (en_ltype e),
      fi_data_offset = of_nat (mb_offset (en_member e)),
      fi_data_size = of_nat (PB_DATA_SIZE (en_atype e) (en_htype e) (en_member e)),
      fi_size_offset = of_int (PB_SIZE_OFFSET (en_atype e) (en_htype e) (en_member e)),
      fi_array_size = of_nat (PB_ARRAY_SIZE (en_atype e) (en_htype e) (en_member e))\<rparr>"

text \<open>The width argument of \<open>PB_BIND\<close>: a number of words, or \<open>AUTO\<close> (\<open>None\<close>), which looks at the type.\<close>

definition PB_FI_WIDTH_LTYPE :: "pb_ptype \<Rightarrow> pb_width" where
  "PB_FI_WIDTH_LTYPE t =
     (if t \<in> {PT_BYTES, PT_MESSAGE, PT_MSG_W_CB, PT_STRING, PT_FIXED_LENGTH_BYTES} then W2 else W1)"

fun PB_FIELDINFO_WIDTH_AUTO :: "pb_atype \<Rightarrow> pb_htype \<Rightarrow> pb_ptype \<Rightarrow> pb_width" where
  "PB_FIELDINFO_WIDTH_AUTO AT_CALLBACK h l = W2"
| "PB_FIELDINFO_WIDTH_AUTO a HT_REPEATED l = W2"
| "PB_FIELDINFO_WIDTH_AUTO a HT_FIXARRAY l = W2"
| "PB_FIELDINFO_WIDTH_AUTO a h l = PB_FI_WIDTH_LTYPE l"

definition entry_width :: "pb_width option \<Rightarrow> pb_entry \<Rightarrow> pb_width" where
  "entry_width w e =
     (case w of Some w \<Rightarrow> w | None \<Rightarrow> PB_FIELDINFO_WIDTH_AUTO (en_atype e) (en_htype e) (en_ltype e))"

section \<open>Message descriptors\<close>

text \<open>\<open>pb_msgdesc_t\<close> without the default values and the callback, which the iterator does not read.\<close>

record pb_msgdesc =
  md_field_info :: "u32 list"
  md_submsg_info :: "u32 list"
  md_field_count :: u16
  md_required_field_count :: u16
  md_largest_tag :: u16

text \<open>The entries that give a submessage descriptor (\<open>PB_SI_PB_LTYPE_MESSAGE\<close> and \<open>PB_SI_PB_LTYPE_MSG_W_CB\<close>).\<close>

definition PB_GEN_SUBMSG_INFO :: "pb_entry \<Rightarrow> u32 list" where
  "PB_GEN_SUBMSG_INFO e = (if en_ltype e = PT_MESSAGE \<or> en_ltype e = PT_MSG_W_CB then [en_submsg e] else [])"

definition PB_GEN_REQ_FIELD_COUNT :: "pb_entry \<Rightarrow> nat" where
  "PB_GEN_REQ_FIELD_COUNT e = (if htype_bits (en_htype e) = PB_HTYPE_REQUIRED then 1 else 0)"

text \<open>\<open>PB_GEN_LARGEST_TAG\<close> expands to \<open>0 * 0 + t1 * 0 + t2 ...\<close>, the tag of the last field.\<close>

definition PB_GEN_LARGEST_TAG :: "pb_entry list \<Rightarrow> u32" where
  "PB_GEN_LARGEST_TAG es = fold (\<lambda>e acc. acc * 0 + en_tag e) es 0"

definition PB_BIND :: "pb_width option \<Rightarrow> pb_entry list \<Rightarrow> pb_msgdesc" where
  "PB_BIND w es =
     \<lparr>md_field_info = concat (map (\<lambda>e. PB_FIELDINFO (entry_width w e) (PB_GEN_FIELD_INFO e)) es) @ [0],
      md_submsg_info = concat (map PB_GEN_SUBMSG_INFO es) @ [0],
      md_field_count = of_nat (length es),
      md_required_field_count = of_nat (sum_list (map PB_GEN_REQ_FIELD_COUNT es)),
      md_largest_tag = ucast (PB_GEN_LARGEST_TAG es)\<rparr>"

text \<open>The static assertions of \<open>PB_BIND\<close>.\<close>

definition PB_BIND_ASSERT :: "pb_width option \<Rightarrow> pb_entry list \<Rightarrow> bool" where
  "PB_BIND_ASSERT w es \<longleftrightarrow> list_all (\<lambda>e. PB_FIELDINFO_ASSERT (entry_width w e) (PB_GEN_FIELD_INFO e)) es"

end
