(* ===== verification/PbIter.thy ===== *)
theory PbIter
  imports PbDesc
begin

text \<open>
  The field iterator of nanopb (\<open>pb_common.c\<close>): it unpacks one field info of a message descriptor at a time and computes
  the addresses of the data and the size of the field. Pointers have 32 bits, null is 0; the memory a pointer field
  refers to is the argument \<open>deref\<close>. A read past the end of a table is undefined in C and gives 0 here; the
  theorems show that the iterator does not do one.
\<close>

section \<open>Reading the tables\<close>

text \<open>\<open>PB_PROGMEM_READU32\<close> of an entry of \<open>field_info\<close>, and an entry of \<open>submsg_info\<close>.\<close>

definition read_info :: "pb_msgdesc \<Rightarrow> nat \<Rightarrow> u32" where
  "read_info d i = (if i < length (md_field_info d) then md_field_info d ! i else 0)"

definition read_submsg :: "pb_msgdesc \<Rightarrow> nat \<Rightarrow> u32" where
  "read_submsg d i = (if i < length (md_submsg_info d) then md_submsg_info d ! i else 0)"

section \<open>The iterator\<close>

text \<open>\<open>pSize\<close>: null, an address in the message, the iterator's own \<open>array_size\<close>, or the flag of an extension.\<close>

datatype psize_ptr = Size_null | Size_at u32 | Size_array | Size_found

record pb_field_iter =
  it_descriptor :: pb_msgdesc
  it_message :: u32
  it_index :: u16
  it_field_info_index :: u16
  it_required_field_index :: u16
  it_submessage_index :: u16
  it_tag :: u16
  it_data_size :: u16
  it_array_size :: u16
  it_type :: byte
  it_pField :: u32
  it_pData :: u32
  it_pSize :: psize_ptr
  it_submsg_desc :: "u32 option"

text \<open>The switch over the descriptor formats: array size, tag, size offset, data offset and data size.\<close>

definition unpack_words :: "(nat \<Rightarrow> u32) \<Rightarrow> u16 \<times> u16 \<times> byte \<times> u32 \<times> u16" where
  "unpack_words w =
     (let word0 = w 0 in
      if word0 AND 3 = 0 then
        (1, ucast (drop_bit 2 word0 AND 0x3F), ucast (drop_bit 24 word0 AND 0x0F), drop_bit 16 word0 AND 0xFF,
         ucast (drop_bit 28 word0 AND 0x0F))
      else if word0 AND 3 = 1 then
        (let word1 = w 1 in
         (ucast (drop_bit 16 word0 AND 0x0FFF),
          ucast ((drop_bit 2 word0 AND 0x3F) OR push_bit 6 (drop_bit 28 word1)),
          ucast (drop_bit 28 word0 AND 0x0F), word1 AND 0xFFFF, ucast (drop_bit 16 word1 AND 0x0FFF)))
      else if word0 AND 3 = 2 then
        (let word1 = w 1; word2 = w 2; word3 = w 3 in
         (ucast (drop_bit 16 word0), ucast ((drop_bit 2 word0 AND 0x3F) OR push_bit 6 (drop_bit 8 word1)),
          ucast (word1 AND 0xFF), word2, ucast word3))
      else
        (let word1 = w 1; word2 = w 2; word3 = w 3; word4 = w 4 in
         (ucast word4, ucast ((drop_bit 2 word0 AND 0x3F) OR push_bit 6 (drop_bit 8 word1)),
          ucast (word1 AND 0xFF), word2, ucast word3)))"

definition load_descriptor_values :: "(u32 \<Rightarrow> u32) \<Rightarrow> pb_field_iter \<Rightarrow> bool \<times> pb_field_iter" where
  "load_descriptor_values deref it =
     (if it_index it \<ge> md_field_count (it_descriptor it) then (False, it)
      else
        let w = (\<lambda>k. read_info (it_descriptor it) (unat (it_field_info_index it) + k)) in
        (case unpack_words w of (array_size, tag, size_offset, data_offset, data_size) \<Rightarrow>
           let ty = ucast (drop_bit 8 (w 0) AND 0xFF);
               it = it\<lparr>it_type := ty, it_array_size := array_size, it_tag := tag, it_data_size := data_size\<rparr>;
               it =
                 (if it_message it = 0 then it\<lparr>it_pField := 0, it_pSize := Size_null\<rparr>
                  else
                    let pField = it_message it + data_offset;
                        pSize =
                          (if size_offset \<noteq> 0 then Size_at (pField - scast size_offset)
                           else if PB_HTYPE ty = PB_HTYPE_REPEATED \<and>
                                   (PB_ATYPE ty = PB_ATYPE_STATIC \<or> PB_ATYPE ty = PB_ATYPE_POINTER)
                           then Size_array else Size_null);
                        pData = (if PB_ATYPE ty = PB_ATYPE_POINTER \<and> pField \<noteq> 0 then deref pField else pField)
                    in it\<lparr>it_pField := pField, it_pSize := pSize, it_pData := pData\<rparr>)
           in (True, it\<lparr>it_submsg_desc :=
                 (if PB_LTYPE_IS_SUBMSG ty
                  then Some (read_submsg (it_descriptor it) (unat (it_submessage_index it))) else None)\<rparr>)))"

definition advance_iterator :: "pb_field_iter \<Rightarrow> pb_field_iter" where
  "advance_iterator it =
     (let it = it\<lparr>it_index := it_index it + 1\<rparr> in
      if it_index it \<ge> md_field_count (it_descriptor it)
      then it\<lparr>it_index := 0, it_field_info_index := 0, it_submessage_index := 0, it_required_field_index := 0\<rparr>
      else
        let prev_descriptor = read_info (it_descriptor it) (unat (it_field_info_index it));
            prev_type = ucast (drop_bit 8 prev_descriptor AND 0xFF) :: byte;
            descriptor_len = push_bit (unat (prev_descriptor AND 3)) 1 :: u16
        in it\<lparr>it_field_info_index := it_field_info_index it + descriptor_len,
              it_required_field_index := it_required_field_index it + of_bool (PB_HTYPE prev_type = PB_HTYPE_REQUIRED),
              it_submessage_index := it_submessage_index it + of_bool (PB_LTYPE_IS_SUBMSG prev_type)\<rparr>)"

definition zero_iter :: "pb_msgdesc \<Rightarrow> u32 \<Rightarrow> pb_field_iter" where
  "zero_iter desc message =
     \<lparr>it_descriptor = desc, it_message = message, it_index = 0, it_field_info_index = 0, it_required_field_index = 0,
      it_submessage_index = 0, it_tag = 0, it_data_size = 0, it_array_size = 0, it_type = 0, it_pField = 0, it_pData = 0,
      it_pSize = Size_null, it_submsg_desc = None\<rparr>"

definition pb_field_iter_begin :: "(u32 \<Rightarrow> u32) \<Rightarrow> pb_msgdesc \<Rightarrow> u32 \<Rightarrow> bool \<times> pb_field_iter" where
  "pb_field_iter_begin deref desc message = load_descriptor_values deref (zero_iter desc message)"

text \<open>\<open>pb_extension_t\<close>: the descriptor of its type, the \<open>dest\<close> pointer, and the address of that pointer.\<close>

record pb_extension =
  ex_desc :: pb_msgdesc
  ex_dest :: u32
  ex_dest_addr :: u32

definition pb_field_iter_begin_extension :: "(u32 \<Rightarrow> u32) \<Rightarrow> pb_extension \<Rightarrow> bool \<times> pb_field_iter" where
  "pb_field_iter_begin_extension deref extension =
     (let msg = ex_desc extension;
          word0 = read_info msg 0;
          r = (if PB_ATYPE (ucast (drop_bit 8 word0)) = PB_ATYPE_POINTER
               then pb_field_iter_begin deref msg (ex_dest_addr extension)
               else pb_field_iter_begin deref msg (ex_dest extension))
      in (fst r, (snd r)\<lparr>it_pSize := Size_found\<rparr>))"

definition pb_field_iter_next :: "(u32 \<Rightarrow> u32) \<Rightarrow> pb_field_iter \<Rightarrow> bool \<times> pb_field_iter" where
  "pb_field_iter_next deref it =
     (let it = snd (load_descriptor_values deref (advance_iterator it)) in (it_index it \<noteq> 0, it))"

text \<open>The loops of the two searches: advance, look at the packed entry, load it where it may be the one.\<close>

partial_function (option) find_loop :: "(u32 \<Rightarrow> u32) \<Rightarrow> u32 \<Rightarrow> u16 \<Rightarrow> pb_field_iter \<Rightarrow> (bool \<times> pb_field_iter) option" where
  "find_loop deref tag start it =
     (let it = advance_iterator it;
          fieldinfo = read_info (it_descriptor it) (unat (it_field_info_index it));
          candidate = (drop_bit 2 fieldinfo AND 0x3F = tag AND 0x3F);
          it = (if candidate then snd (load_descriptor_values deref it) else it)
      in if candidate \<and> ucast (it_tag it) = tag \<and> PB_LTYPE (it_type it) \<noteq> PB_LTYPE_EXTENSION then Some (True, it)
         else if it_index it \<noteq> start then find_loop deref tag start it
         else Some (False, snd (load_descriptor_values deref it)))"

definition pb_field_iter_find :: "(u32 \<Rightarrow> u32) \<Rightarrow> pb_field_iter \<Rightarrow> u32 \<Rightarrow> (bool \<times> pb_field_iter) option" where
  "pb_field_iter_find deref it tag =
     (if ucast (it_tag it) = tag then Some (True, it)
      else if tag > ucast (md_largest_tag (it_descriptor it)) then Some (False, it)
      else
        let start = it_index it;
            it = (if tag < ucast (it_tag it) then it\<lparr>it_index := md_field_count (it_descriptor it)\<rparr> else it)
        in find_loop deref tag start it)"

partial_function (option) find_extension_loop ::
  "(u32 \<Rightarrow> u32) \<Rightarrow> u16 \<Rightarrow> pb_field_iter \<Rightarrow> (bool \<times> pb_field_iter) option" where
  "find_extension_loop deref start it =
     (let it = advance_iterator it;
          fieldinfo = read_info (it_descriptor it) (unat (it_field_info_index it))
      in if PB_LTYPE (ucast (drop_bit 8 fieldinfo AND 0xFF)) = PB_LTYPE_EXTENSION
         then Some (load_descriptor_values deref it)
         else if it_index it \<noteq> start then find_extension_loop deref start it
         else Some (False, snd (load_descriptor_values deref it)))"

definition pb_field_iter_find_extension :: "(u32 \<Rightarrow> u32) \<Rightarrow> pb_field_iter \<Rightarrow> (bool \<times> pb_field_iter) option" where
  "pb_field_iter_find_extension deref it =
     (if PB_LTYPE (it_type it) = PB_LTYPE_EXTENSION then Some (True, it)
      else find_extension_loop deref (it_index it) it)"

text \<open>\<open>pb_const_cast\<close> only changes the type of a pointer.\<close>

definition pb_const_cast :: "u32 \<Rightarrow> u32" where
  "pb_const_cast p = p"

definition pb_field_iter_begin_const :: "(u32 \<Rightarrow> u32) \<Rightarrow> pb_msgdesc \<Rightarrow> u32 \<Rightarrow> bool \<times> pb_field_iter" where
  "pb_field_iter_begin_const deref desc message = pb_field_iter_begin deref desc (pb_const_cast message)"

definition pb_field_iter_begin_extension_const :: "(u32 \<Rightarrow> u32) \<Rightarrow> pb_extension \<Rightarrow> bool \<times> pb_field_iter" where
  "pb_field_iter_begin_extension_const deref extension = pb_field_iter_begin_extension deref extension"

text \<open>The loop of \<open>pb_encode\<close> over the fields: the iterators its body sees, in order.\<close>

partial_function (option) walk_loop :: "(u32 \<Rightarrow> u32) \<Rightarrow> pb_field_iter \<Rightarrow> pb_field_iter list option" where
  "walk_loop deref it =
     (case pb_field_iter_next deref it of (again, it') \<Rightarrow>
        if again then Option.bind (walk_loop deref it') (\<lambda>its. Some (it # its)) else Some [it])"

definition pb_encode_walk :: "(u32 \<Rightarrow> u32) \<Rightarrow> pb_msgdesc \<Rightarrow> u32 \<Rightarrow> pb_field_iter list option" where
  "pb_encode_walk deref desc src_struct =
     (case pb_field_iter_begin_const deref desc src_struct of (ok, it) \<Rightarrow>
        if ok then walk_loop deref it else Some [])"

end
