(* ===== verification/PbIterProps.thy ===== *)
theory PbIterProps
  imports PbIter
begin

text \<open>
  The packed field infos survive unpacking, and the iterator visits the fields of a bound message in order and finds
  fields by tag.
\<close>

section \<open>Packing and unpacking\<close>

lemma fits_take:
  assumes "PB_FITS v n" and "n < 32"
  shows "take_bit n v = v"
proof -
  have "v < 2 ^ n" using assms(1) by (simp add: PB_FITS_def)
  then have "uint v < 2 ^ n" using assms(2) by (subst (asm) word_2p_lem) (auto simp: word_size)
  then show ?thesis by (simp add: take_bit_eq_mask mask_eq_iff)
qed

lemma fits_obtain:
  assumes "PB_FITS v n" and "n < 32"
  obtains u where "v = take_bit n u"
  using fits_take [OF assms] by metis

text \<open>Words are equal when their 32 bits are; on packed words each bit is decided by simplification.\<close>

lemma u32_eqI: "list_all (\<lambda>n. bit a n = bit b n) [0..<32] \<Longrightarrow> a = (b :: u32)"
  by (rule bit_word_eqI) (simp add: list_all_iff)

lemma u16_eqI: "list_all (\<lambda>n. bit a n = bit b n) [0..<16] \<Longrightarrow> a = (b :: u16)"
  by (rule bit_word_eqI) (simp add: list_all_iff)

lemma u8_eqI: "list_all (\<lambda>n. bit a n = bit b n) [0..<8] \<Longrightarrow> a = (b :: byte)"
  by (rule bit_word_eqI) (simp add: list_all_iff)

lemma upt_bits:
  "[0..<32] = [0,1,2,3,4,5,6,7,8,9,10,11,12,13,14,15,16,17,18,19,20,21,22,23,24,25,26,27,28,29,30,31]"
  "[0..<16] = [0,1,2,3,4,5,6,7,8,9,10,11,12,13,14,15]" "[0..<8] = [0,1,2,3,4,5,6,7]"
  by code_simp+

lemmas bits_eqI = u32_eqI u16_eqI u8_eqI
lemmas bits_simps = upt_bits bit_simps

lemma type_obtain:
  obtains y where "(ucast (t :: byte) :: u32) = take_bit 8 y"
proof -
  have "(ucast t :: u32) = take_bit 8 (ucast t)"
    by (rule bit_word_eqI) (auto simp: bit_simps dest: bit_imp_le_length)
  then show ?thesis by (rule that)
qed

lemma byte_u32_byte: "ucast (ucast (t :: byte) :: u32) = t"
  by (rule bits_eqI) (simp add: bits_simps)

lemma nth_small:
  "(x0 # xs) ! 0 = x0" "(x0 # x1 # xs) ! 1 = x1" "(x0 # x1 # x2 # xs) ! 2 = x2" "(x0 # x1 # x2 # x3 # xs) ! 3 = x3"
  "(x0 # x1 # x2 # x3 # x4 # xs) ! 4 = x4"
  by (simp_all add: numeral_nat)

lemma unpack_1:
  assumes "PB_FIELDINFO_ASSERT_1 f" and "w 0 = PB_FIELDINFO_1 f ! 0"
  shows "unpack_words w =
    (1, ucast (fi_tag f), ucast (fi_size_offset f), fi_data_offset f, ucast (fi_data_size f))"
proof -
  obtain t d s z where f: "fi_tag f = take_bit 6 t" "fi_data_offset f = take_bit 8 d" "fi_size_offset f = take_bit 4 s"
      "fi_data_size f = take_bit 4 z"
    using assms(1) by (auto simp: PB_FIELDINFO_ASSERT_1_def elim!: fits_obtain)
  obtain y where y: "(ucast (fi_type f) :: u32) = take_bit 8 y" by (rule type_obtain)
  have "w 0 AND 3 = 0" "drop_bit 2 (w 0) AND 0x3F = take_bit 6 t" "drop_bit 24 (w 0) AND 0x0F = take_bit 4 s"
      "drop_bit 16 (w 0) AND 0xFF = take_bit 8 d" "drop_bit 28 (w 0) AND 0x0F = take_bit 4 z"
    unfolding assms(2) PB_FIELDINFO_1_def nth_small f y
    by (rule bits_eqI, simp add: bits_simps)+
  then show ?thesis by (simp add: unpack_words_def f)
qed

lemma unpack_2:
  assumes "PB_FIELDINFO_ASSERT_2 f" and "w 0 = PB_FIELDINFO_2 f ! 0" and "w 1 = PB_FIELDINFO_2 f ! 1"
  shows "unpack_words w =
    (ucast (fi_array_size f), ucast (fi_tag f), ucast (fi_size_offset f), fi_data_offset f, ucast (fi_data_size f))"
proof -
  obtain t d s z a where f: "fi_tag f = take_bit 10 t" "fi_data_offset f = take_bit 16 d"
      "fi_size_offset f = take_bit 4 s" "fi_data_size f = take_bit 12 z" "fi_array_size f = take_bit 12 a"
    using assms(1) by (auto simp: PB_FIELDINFO_ASSERT_2_def elim!: fits_obtain)
  obtain y where y: "(ucast (fi_type f) :: u32) = take_bit 8 y" by (rule type_obtain)
  have "w 0 AND 3 = 1" "drop_bit 16 (w 0) AND 0x0FFF = take_bit 12 a"
      "(drop_bit 2 (w 0) AND 0x3F) OR push_bit 6 (drop_bit 28 (w 1)) = take_bit 10 t"
      "drop_bit 28 (w 0) AND 0x0F = take_bit 4 s" "w 1 AND 0xFFFF = take_bit 16 d"
      "drop_bit 16 (w 1) AND 0x0FFF = take_bit 12 z"
    unfolding assms(2,3) PB_FIELDINFO_2_def nth_small f y
    by (rule bits_eqI, simp add: bits_simps)+
  then show ?thesis by (simp add: unpack_words_def Let_def f)
qed

lemma int8_low: "(ucast (int8_u32 v) :: byte) = ucast v"
  unfolding int8_u32_def by (rule bits_eqI) (simp add: bits_simps)

lemma unpack_4:
  assumes "PB_FIELDINFO_ASSERT_4 f" and "w 0 = PB_FIELDINFO_4 f ! 0" and "w 1 = PB_FIELDINFO_4 f ! 1"
    and "w 2 = PB_FIELDINFO_4 f ! 2" and "w 3 = PB_FIELDINFO_4 f ! 3"
  shows "unpack_words w =
    (ucast (fi_array_size f), ucast (fi_tag f), ucast (fi_size_offset f), fi_data_offset f, ucast (fi_data_size f))"
proof -
  obtain t a where f: "fi_tag f = take_bit 16 t" "fi_array_size f = take_bit 16 a"
    using assms(1) by (auto simp: PB_FIELDINFO_ASSERT_4_def elim!: fits_obtain)
  obtain y where y: "(ucast (fi_type f) :: u32) = take_bit 8 y" by (rule type_obtain)
  obtain s where s: "int8_u32 (fi_size_offset f) = take_bit 8 s"
    using assms(1) by (auto simp: PB_FIELDINFO_ASSERT_4_def elim!: fits_obtain)
  have "w 0 AND 3 = 2" "drop_bit 16 (w 0) = take_bit 16 a"
      "(drop_bit 2 (w 0) AND 0x3F) OR push_bit 6 (drop_bit 8 (w 1)) = take_bit 16 t" "w 1 AND 0xFF = take_bit 8 s"
    unfolding assms(2,3) PB_FIELDINFO_4_def nth_small f y s
    by (rule bits_eqI, simp add: bits_simps)+
  moreover have "ucast (take_bit 8 s) = (ucast (fi_size_offset f) :: byte)"
    using int8_low [of "fi_size_offset f"] s by simp
  moreover have "w 2 = fi_data_offset f" "w 3 = fi_data_size f"
    by (simp_all only: assms PB_FIELDINFO_4_def nth_small)
  ultimately show ?thesis by (simp add: unpack_words_def Let_def f)
qed

lemma unpack_8:
  assumes "PB_FIELDINFO_ASSERT_8 f" and "w 0 = PB_FIELDINFO_8 f ! 0" and "w 1 = PB_FIELDINFO_8 f ! 1"
    and "w 2 = PB_FIELDINFO_8 f ! 2" and "w 3 = PB_FIELDINFO_8 f ! 3" and "w 4 = PB_FIELDINFO_8 f ! 4"
  shows "unpack_words w =
    (ucast (fi_array_size f), ucast (fi_tag f), ucast (fi_size_offset f), fi_data_offset f, ucast (fi_data_size f))"
proof -
  obtain t where f: "fi_tag f = take_bit 16 t"
    using assms(1) by (auto simp: PB_FIELDINFO_ASSERT_8_def elim!: fits_obtain)
  obtain y where y: "(ucast (fi_type f) :: u32) = take_bit 8 y" by (rule type_obtain)
  obtain s where s: "int8_u32 (fi_size_offset f) = take_bit 8 s"
    using assms(1) by (auto simp: PB_FIELDINFO_ASSERT_8_def elim!: fits_obtain)
  have "w 0 AND 3 = 3" "(drop_bit 2 (w 0) AND 0x3F) OR push_bit 6 (drop_bit 8 (w 1)) = take_bit 16 t"
      "w 1 AND 0xFF = take_bit 8 s"
    unfolding assms(2,3) PB_FIELDINFO_8_def nth_small f y s
    by (rule bits_eqI, simp add: bits_simps)+
  moreover have "ucast (take_bit 8 s) = (ucast (fi_size_offset f) :: byte)"
    using int8_low [of "fi_size_offset f"] s by simp
  moreover have "w 2 = fi_data_offset f" "w 3 = fi_data_size f" "w 4 = fi_array_size f"
    by (simp_all only: assms PB_FIELDINFO_8_def nth_small)
  ultimately show ?thesis by (simp add: unpack_words_def Let_def f)
qed

text \<open>The number of words of each width, and what all formats have in the low half of the first word.\<close>

fun width_words :: "pb_width \<Rightarrow> nat" where
  "width_words W1 = 1" | "width_words W2 = 2" | "width_words W4 = 4" | "width_words W8 = 8"

lemmas PB_FIELDINFO_defs = PB_FIELDINFO_1_def PB_FIELDINFO_2_def PB_FIELDINFO_4_def PB_FIELDINFO_8_def

lemma fieldinfo_length [simp]: "length (PB_FIELDINFO w f) = width_words w"
  by (cases w) (simp_all add: PB_FIELDINFO_defs)

lemma fieldinfo_low_tag: "drop_bit 2 (PB_FIELDINFO w f ! 0) AND 0x3F = fi_tag f AND 0x3F"
proof -
  obtain y where y: "(ucast (fi_type f) :: u32) = take_bit 8 y" by (rule type_obtain)
  show ?thesis
    by (cases w; simp only: PB_FIELDINFO.simps PB_FIELDINFO_defs nth_small y; rule bits_eqI; simp add: bits_simps)
qed

lemma fieldinfo_type: "ucast (drop_bit 8 (PB_FIELDINFO w f ! 0) AND 0xFF) = fi_type f"
proof -
  obtain y where y: "(ucast (fi_type f) :: u32) = take_bit 8 y" by (rule type_obtain)
  have "drop_bit 8 (PB_FIELDINFO w f ! 0) AND 0xFF = take_bit 8 y"
    by (cases w; simp only: PB_FIELDINFO.simps PB_FIELDINFO_defs nth_small y; rule bits_eqI; simp add: bits_simps)
  then show ?thesis by (simp add: byte_u32_byte flip: y)
qed

lemma fieldinfo_width: "unat (PB_FIELDINFO w f ! 0 AND 3) = (case w of W1 \<Rightarrow> 0 | W2 \<Rightarrow> 1 | W4 \<Rightarrow> 2 | W8 \<Rightarrow> 3)"
proof -
  obtain y where y: "(ucast (fi_type f) :: u32) = take_bit 8 y" by (rule type_obtain)
  have "PB_FIELDINFO w f ! 0 AND 3 = (case w of W1 \<Rightarrow> 0 | W2 \<Rightarrow> 1 | W4 \<Rightarrow> 2 | W8 \<Rightarrow> 3)"
    by (cases w; simp only: PB_FIELDINFO.simps PB_FIELDINFO_defs nth_small y pb_width.case; rule bits_eqI;
        simp add: bits_simps)
  then show ?thesis by (simp split: pb_width.split)
qed

lemma fieldinfo_words: "2 ^ unat (PB_FIELDINFO w f ! 0 AND 3) = (of_nat (width_words w) :: u16)"
  by (cases w) (simp_all only: fieldinfo_width, simp_all)

lemma unpack_fieldinfo:
  assumes "PB_FIELDINFO_ASSERT w f" and "w = W1 \<longrightarrow> fi_array_size f = 1"
    and "\<And>k. k < width_words w \<Longrightarrow> g k = PB_FIELDINFO w f ! k"
  shows "unpack_words g =
    (ucast (fi_array_size f), ucast (fi_tag f), ucast (fi_size_offset f), fi_data_offset f, ucast (fi_data_size f))"
  using assms by (cases w) (simp_all add: unpack_1 unpack_2 unpack_4 unpack_8)

text \<open>All assertions bound tag, data size and array size by 16 bits.\<close>

lemma fits_16:
  assumes "PB_FITS v n" and "n \<le> 16"
  shows "(ucast (ucast v :: u16) :: u32) = v"
proof -
  have "take_bit n v = v" using assms by (simp add: fits_take)
  then have "take_bit 16 v = v" using assms(2) take_bit_take_bit [of 16 n v] by (simp add: min_absorb2)
  moreover have "(ucast (ucast v :: u16) :: u32) = take_bit 16 v"
    by (rule bit_word_eqI) (auto simp: bit_simps)
  ultimately show ?thesis by simp
qed

lemma fieldinfo_16:
  assumes "PB_FIELDINFO_ASSERT w f"
  shows "(ucast (ucast (fi_tag f) :: u16) :: u32) = fi_tag f"
    and "(ucast (ucast (fi_data_size f) :: u16) :: u32) = fi_data_size f"
    and "(ucast (ucast (fi_array_size f) :: u16) :: u32) = fi_array_size f"
  using assms
  by (cases w; force simp: PB_FIELDINFO_ASSERT_1_def PB_FIELDINFO_ASSERT_2_def PB_FIELDINFO_ASSERT_4_def
      PB_FIELDINFO_ASSERT_8_def intro: fits_16)+

lemma begin_unpacks:
  assumes "PB_FIELDINFO_ASSERT w f" and "w = W1 \<longrightarrow> fi_array_size f = 1"
    and "md_field_info d = PB_FIELDINFO w f @ rest" and "md_field_count d \<noteq> 0"
  obtains it where "pb_field_iter_begin deref d msg = (True, it)" and "it_tag it = ucast (fi_tag f)"
    and "it_type it = fi_type f" and "it_data_size it = ucast (fi_data_size f)"
    and "it_array_size it = ucast (fi_array_size f)" and "msg \<noteq> 0 \<longrightarrow> it_pField it = msg + fi_data_offset f"
proof -
  have rd: "read_info d k = PB_FIELDINFO w f ! k" if "k < width_words w" for k
    using that assms(3) by (simp add: read_info_def nth_append)
  have "unpack_words (read_info d) =
    (ucast (fi_array_size f), ucast (fi_tag f), ucast (fi_size_offset f), fi_data_offset f, ucast (fi_data_size f))"
    using unpack_fieldinfo [OF assms(1,2) rd] by simp
  moreover have "ucast (drop_bit 8 (read_info d 0) AND 0xFF) = fi_type f"
    using rd [of 0] fieldinfo_type [of w f] by (cases w) simp_all
  ultimately show ?thesis
    using that assms(4)
    by (simp add: pb_field_iter_begin_def load_descriptor_values_def zero_iter_def Let_def word_le_0_iff)
qed

text \<open>
  C15. Packing loses nothing: for every width, a field info whose static assertions hold is read back by the iterator
  with the tag, type, data size and array size it was packed from, at the address of its data offset (one word holds
  no array size, it stands for 1).
\<close>

theorem fieldinfo_roundtrip:
  assumes "PB_FIELDINFO_ASSERT w f" and "w = W1 \<longrightarrow> fi_array_size f = 1"
    and "md_field_info d = PB_FIELDINFO w f @ rest" and "md_field_count d \<noteq> 0"
  shows "\<exists>it. pb_field_iter_begin deref d msg = (True, it) \<and> ucast (it_tag it) = fi_tag f \<and> it_type it = fi_type f \<and>
    ucast (it_data_size it) = fi_data_size f \<and> ucast (it_array_size it) = fi_array_size f \<and>
    (msg \<noteq> 0 \<longrightarrow> it_pField it = msg + fi_data_offset f)"
  using begin_unpacks [OF assms, of deref msg] fieldinfo_16 [OF assms(1)] by metis

definition sample_fieldinfo :: fieldinfo where
  "sample_fieldinfo = \<lparr>fi_tag = 700, fi_type = 0x38, fi_data_offset = 40000, fi_data_size = 1296, fi_size_offset = 8,
     fi_array_size = 3\<rparr>"

theorem fieldinfo_roundtrip_witness:
  "\<exists>it. pb_field_iter_begin (\<lambda>_. 0)
      \<lparr>md_field_info = PB_FIELDINFO W2 sample_fieldinfo @ [0], md_submsg_info = [0], md_field_count = 1,
       md_required_field_count = 0, md_largest_tag = 700\<rparr> 4096 = (True, it) \<and>
    ucast (it_tag it) = (700 :: u32) \<and> it_type it = 0x38 \<and> ucast (it_data_size it) = (1296 :: u32) \<and>
    ucast (it_array_size it) = (3 :: u32) \<and> it_pField it = 44096"
  using fieldinfo_roundtrip [of W2 sample_fieldinfo "\<lparr>md_field_info = PB_FIELDINFO W2 sample_fieldinfo @ [0],
      md_submsg_info = [0], md_field_count = 1, md_required_field_count = 0, md_largest_tag = 700\<rparr>" "[0]" "\<lambda>_. 0" 4096]
  by (simp add: PB_FIELDINFO_ASSERT_2_def PB_FITS_def sample_fieldinfo_def)

text \<open>
  The assertions of the widths 4 and 8 convert the size offset to 8 bits before they test it: they accept 261,
  which unpacks to 5.
\<close>

lemma assert_4_accepts_261:
  "PB_FIELDINFO_ASSERT W4 (sample_fieldinfo\<lparr>fi_size_offset := 261\<rparr>)"
  "PB_FIELDINFO W4 (sample_fieldinfo\<lparr>fi_size_offset := 261\<rparr>) = PB_FIELDINFO W4 (sample_fieldinfo\<lparr>fi_size_offset := 5\<rparr>)"
  by (simp_all add: PB_FIELDINFO_ASSERT_4_def PB_FITS_def sample_fieldinfo_def int8_u32_def PB_FIELDINFO_4_def)

section \<open>The iterator at a field\<close>

text \<open>
  A bound message as the generator makes it: the assertions hold, a field info of one word has array size 1 (it has no
  room for another), the member a size refers to is at most 127 bytes before the field (the assertions of 4 and 8 words do
  not say so), and the counts fit \<open>pb_size_t\<close>.
\<close>

definition entry_fits :: "pb_width option \<Rightarrow> pb_entry \<Rightarrow> bool" where
  "entry_fits w e \<longleftrightarrow>
     PB_FIELDINFO_ASSERT (entry_width w e) (PB_GEN_FIELD_INFO e) \<and>
     (entry_width w e = W1 \<longrightarrow> fi_array_size (PB_GEN_FIELD_INFO e) = 1) \<and>
     0 \<le> PB_SIZE_OFFSET (en_atype e) (en_htype e) (en_member e) \<and>
     PB_SIZE_OFFSET (en_atype e) (en_htype e) (en_member e) < 128"

definition info_index :: "pb_width option \<Rightarrow> pb_entry list \<Rightarrow> nat \<Rightarrow> nat" where
  "info_index w es i = sum_list (map (\<lambda>e. width_words (entry_width w e)) (take i es))"

definition submsg_index :: "pb_entry list \<Rightarrow> nat \<Rightarrow> nat" where
  "submsg_index es i = length (concat (map PB_GEN_SUBMSG_INFO (take i es)))"

definition required_index :: "pb_entry list \<Rightarrow> nat \<Rightarrow> nat" where
  "required_index es i = sum_list (map PB_GEN_REQ_FIELD_COUNT (take i es))"

definition bind_fits :: "pb_width option \<Rightarrow> pb_entry list \<Rightarrow> bool" where
  "bind_fits w es \<longleftrightarrow> list_all (entry_fits w) es \<and> length es < 65535 \<and> info_index w es (length es) < 65536"

text \<open>What the iterator holds at a field, told from the entry and the place of the struct.\<close>

definition field_pData :: "(u32 \<Rightarrow> u32) \<Rightarrow> pb_entry \<Rightarrow> u32 \<Rightarrow> u32" where
  "field_pData deref e msg =
     (let pField = msg + of_nat (mb_offset (en_member e)) in
      if msg = 0 then 0 else if en_atype e = AT_POINTER \<and> pField \<noteq> 0 then deref pField else pField)"

definition field_pSize :: "pb_entry \<Rightarrow> u32 \<Rightarrow> psize_ptr" where
  "field_pSize e msg =
     (if msg = 0 then Size_null
      else if PB_SIZE_OFFSET (en_atype e) (en_htype e) (en_member e) \<noteq> 0
      then Size_at (msg + of_nat (mb_aux_offset (en_member e)))
      else if en_htype e \<in> {HT_REPEATED, HT_FIXARRAY} \<and> en_atype e \<noteq> AT_CALLBACK then Size_array else Size_null)"

definition iter_at :: "(u32 \<Rightarrow> u32) \<Rightarrow> pb_width option \<Rightarrow> pb_entry list \<Rightarrow> u32 \<Rightarrow> nat \<Rightarrow> pb_field_iter" where
  "iter_at deref w es msg i =
     (let e = es ! i; f = PB_GEN_FIELD_INFO e in
      \<lparr>it_descriptor = PB_BIND w es, it_message = msg, it_index = of_nat i,
       it_field_info_index = of_nat (info_index w es i), it_required_field_index = of_nat (required_index es i),
       it_submessage_index = of_nat (submsg_index es i), it_tag = ucast (en_tag e),
       it_data_size = of_nat (PB_DATA_SIZE (en_atype e) (en_htype e) (en_member e)),
       it_array_size = of_nat (PB_ARRAY_SIZE (en_atype e) (en_htype e) (en_member e)), it_type = fi_type f,
       it_pField = (if msg = 0 then 0 else msg + of_nat (mb_offset (en_member e))),
       it_pData = field_pData deref e msg, it_pSize = field_pSize e msg,
       it_submsg_desc = (if en_ltype e \<in> {PT_MESSAGE, PT_MSG_W_CB} then Some (en_submsg e) else None)\<rparr>)"

text \<open>The iterator stands at field \<open>i\<close>, its values perhaps not loaded.\<close>

definition stands_at :: "pb_width option \<Rightarrow> pb_entry list \<Rightarrow> u32 \<Rightarrow> nat \<Rightarrow> pb_field_iter \<Rightarrow> bool" where
  "stands_at w es msg i it \<longleftrightarrow>
     it_descriptor it = PB_BIND w es \<and> it_message it = msg \<and> it_index it = of_nat i \<and>
     it_field_info_index it = of_nat (info_index w es i) \<and> it_required_field_index it = of_nat (required_index es i) \<and>
     it_submessage_index it = of_nat (submsg_index es i) \<and> (msg = 0 \<longrightarrow> it_pData it = 0)"

lemma stands_at_iter_at [simp]: "stands_at w es msg i (iter_at deref w es msg i)"
  by (simp add: stands_at_def iter_at_def Let_def field_pData_def)

subsection \<open>The tables\<close>

lemma nth_concat_at:
  assumes "i < length xss" and "k < length (xss ! i)"
  shows "sum_list (map length (take i xss)) + k < length (concat xss)"
    and "concat xss ! (sum_list (map length (take i xss)) + k) = xss ! i ! k"
  using assms by (induction xss arbitrary: i) (auto simp: nth_append take_Cons' nth_Cons' add.assoc split: if_splits)

lemma sum_take_mono:
  assumes "i < length xs"
  shows "sum_list (map f (take i xs)) + f (xs ! i) \<le> (sum_list (map f xs) :: nat)"
  using assms by (induction xs arbitrary: i) (auto simp: take_Cons' nth_Cons' split: if_splits)

lemma info_index_Suc:
  "i < length es \<Longrightarrow> info_index w es (Suc i) = info_index w es i + width_words (entry_width w (es ! i))"
  by (simp add: info_index_def take_Suc_conv_app_nth)

lemma info_index_bound:
  assumes "bind_fits w es" and "i < length es"
  shows "info_index w es i < 65536"
  using assms sum_take_mono [of i es "\<lambda>e. width_words (entry_width w e)"]
  by (simp add: bind_fits_def info_index_def)

lemma read_info_at:
  assumes "i < length es" and "k < width_words (entry_width w (es ! i))"
  shows "read_info (PB_BIND w es) (info_index w es i + k) =
    PB_FIELDINFO (entry_width w (es ! i)) (PB_GEN_FIELD_INFO (es ! i)) ! k"
  using assms nth_concat_at [of i "map (\<lambda>e. PB_FIELDINFO (entry_width w e) (PB_GEN_FIELD_INFO e)) es" k]
  by (simp add: read_info_def PB_BIND_def info_index_def nth_append take_map comp_def)

lemma read_submsg_at:
  assumes "i < length es" and "en_ltype (es ! i) \<in> {PT_MESSAGE, PT_MSG_W_CB}"
  shows "read_submsg (PB_BIND w es) (submsg_index es i) = en_submsg (es ! i)"
  using assms nth_concat_at [of i "map PB_GEN_SUBMSG_INFO es" 0]
  by (auto simp: read_submsg_def PB_BIND_def submsg_index_def nth_append take_map comp_def PB_GEN_SUBMSG_INFO_def
      length_concat)

subsection \<open>Types\<close>

lemma type_masks:
  "atype_bits a AND PB_ATYPE_MASK = atype_bits a" "atype_bits a AND PB_HTYPE_MASK = 0" "atype_bits a AND PB_LTYPE_MASK = 0"
  "htype_bits h AND PB_ATYPE_MASK = 0" "htype_bits h AND PB_HTYPE_MASK = htype_bits h" "htype_bits h AND PB_LTYPE_MASK = 0"
  "PB_LTYPE_MAP l AND PB_ATYPE_MASK = 0" "PB_LTYPE_MAP l AND PB_HTYPE_MASK = 0"
  "PB_LTYPE_MAP l AND PB_LTYPE_MASK = PB_LTYPE_MAP l"
  by (cases a; simp add: pb_type_defs; fail | cases h; simp add: pb_type_defs; fail | cases l; simp add: pb_type_defs)+

lemma gen_type [simp]:
  "PB_ATYPE (fi_type (PB_GEN_FIELD_INFO e)) = atype_bits (en_atype e)"
  "PB_HTYPE (fi_type (PB_GEN_FIELD_INFO e)) = htype_bits (en_htype e)"
  "PB_LTYPE (fi_type (PB_GEN_FIELD_INFO e)) = PB_LTYPE_MAP (en_ltype e)"
  by (simp_all add: PB_GEN_FIELD_INFO_def PB_ATYPE_def PB_HTYPE_def PB_LTYPE_def bit.conj_disj_distrib2 type_masks)

lemma type_bits_iff [simp]:
  "atype_bits a = PB_ATYPE_POINTER \<longleftrightarrow> a = AT_POINTER" "atype_bits a = PB_ATYPE_STATIC \<longleftrightarrow> a = AT_STATIC"
  "htype_bits h = PB_HTYPE_REPEATED \<longleftrightarrow> h \<in> {HT_REPEATED, HT_FIXARRAY}"
  "htype_bits h = PB_HTYPE_REQUIRED \<longleftrightarrow> h = HT_REQUIRED"
  "PB_LTYPE_MAP l = PB_LTYPE_EXTENSION \<longleftrightarrow> l = PT_EXTENSION"
  by (cases a; simp add: pb_type_defs; fail | cases h; simp add: pb_type_defs; fail | cases l; simp add: pb_type_defs)+

lemma gen_is_submsg [simp]:
  "PB_LTYPE_IS_SUBMSG (fi_type (PB_GEN_FIELD_INFO e)) \<longleftrightarrow> en_ltype e \<in> {PT_MESSAGE, PT_MSG_W_CB}"
  by (cases "en_ltype e") (simp_all add: PB_LTYPE_IS_SUBMSG_def pb_type_defs)

subsection \<open>Loading and advancing\<close>

lemma unat_u16 [simp]: "n < 65536 \<Longrightarrow> unat (of_nat n :: u16) = n"
  by (simp add: unat_of_nat take_bit_nat_eq_self)

lemma size_offset_byte:
  assumes "0 \<le> d" and "d < 128"
  shows "(ucast (word_of_int d :: u32) :: byte) = 0 \<longleftrightarrow> d = 0"
    and "scast (ucast (word_of_int d :: u32) :: byte) = (word_of_int d :: u32)"
proof -
  have b: "(ucast (word_of_int d :: u32) :: byte) = word_of_int d"
    using assms by (simp add: unsigned_of_int take_bit_int_eq_self)
  have "sint (word_of_int d :: byte) = d"
    using assms by (simp add: signed_of_int signed_take_bit_int_eq_self)
  then show "scast (ucast (word_of_int d :: u32) :: byte) = (word_of_int d :: u32)"
    unfolding b by (simp add: scast_eq)
  show "(ucast (word_of_int d :: u32) :: byte) = 0 \<longleftrightarrow> d = 0"
  proof
    assume "(ucast (word_of_int d :: u32) :: byte) = 0"
    then have "uint (word_of_int d :: byte) = 0" by (simp add: b)
    then show "d = 0" using assms by (simp add: unsigned_of_int take_bit_int_eq_self)
  qed simp
qed

lemma submsg_index_bound: "submsg_index es i \<le> length es"
proof -
  have "length (concat (map PB_GEN_SUBMSG_INFO xs)) \<le> length xs" for xs
    by (induction xs) (auto simp: PB_GEN_SUBMSG_INFO_def)
  from this [of "take i es"] show ?thesis by (simp add: submsg_index_def)
qed

lemma u32_u16_of_nat: "(ucast (of_nat n :: u32) :: u16) = of_nat n"
  by (simp add: unsigned_of_nat of_nat_take_bit take_bit_word_eq_self)

lemma not_callback: "a = AT_STATIC \<or> a = AT_POINTER \<longleftrightarrow> a \<noteq> AT_CALLBACK"
  by (cases a) simp_all

lemma width_words_pos [simp]: "0 < width_words w"
  by (cases w) simp_all

lemma read_info_first:
  "i < length es \<Longrightarrow>
   read_info (PB_BIND w es) (info_index w es i) = PB_FIELDINFO (entry_width w (es ! i)) (PB_GEN_FIELD_INFO (es ! i)) ! 0"
  using read_info_at [of i es 0 w] by simp

lemma bind_sel:
  "md_field_count (PB_BIND w es) = of_nat (length es)" "md_largest_tag (PB_BIND w es) = ucast (PB_GEN_LARGEST_TAG es)"
  by (simp_all add: PB_BIND_def)

lemma gen_sel:
  "fi_tag (PB_GEN_FIELD_INFO e) = en_tag e" "fi_data_offset (PB_GEN_FIELD_INFO e) = of_nat (mb_offset (en_member e))"
  "fi_data_size (PB_GEN_FIELD_INFO e) = of_nat (PB_DATA_SIZE (en_atype e) (en_htype e) (en_member e))"
  "fi_size_offset (PB_GEN_FIELD_INFO e) = of_int (PB_SIZE_OFFSET (en_atype e) (en_htype e) (en_member e))"
  "fi_array_size (PB_GEN_FIELD_INFO e) = of_nat (PB_ARRAY_SIZE (en_atype e) (en_htype e) (en_member e))"
  by (simp_all add: PB_GEN_FIELD_INFO_def)

text \<open>The address the size offset leads to is the member that holds the count, the flag or the choice.\<close>

lemma size_address:
  assumes "PB_SIZE_OFFSET a h m \<noteq> 0"
  shows "p + of_nat (mb_offset m) - of_int (PB_SIZE_OFFSET a h m) = (p + of_nat (mb_aux_offset m) :: u32)"
  using assms by (cases "(a, h, m)" rule: PB_SIZE_OFFSET.cases) (simp_all add: pb_delta_def)

lemma entry_unpack:
  assumes "bind_fits w es" and "i < length es"
  shows "unpack_words (\<lambda>k. read_info (PB_BIND w es) (info_index w es i + k)) =
    (of_nat (PB_ARRAY_SIZE (en_atype (es ! i)) (en_htype (es ! i)) (en_member (es ! i))), ucast (en_tag (es ! i)),
     ucast (of_int (PB_SIZE_OFFSET (en_atype (es ! i)) (en_htype (es ! i)) (en_member (es ! i))) :: u32),
     of_nat (mb_offset (en_member (es ! i))),
     of_nat (PB_DATA_SIZE (en_atype (es ! i)) (en_htype (es ! i)) (en_member (es ! i))))"
proof -
  have "entry_fits w (es ! i)" using assms by (simp add: bind_fits_def list_all_length)
  then show ?thesis
    using unpack_fieldinfo [of "entry_width w (es ! i)" "PB_GEN_FIELD_INFO (es ! i)",
        OF _ _ read_info_at [OF assms(2)]]
    by (simp add: entry_fits_def gen_sel u32_u16_of_nat)
qed

lemma load_at:
  assumes "bind_fits w es" and "i < length es" and "stands_at w es msg i it"
  shows "load_descriptor_values deref it = (True, iter_at deref w es msg i)"
proof -
  let ?e = "es ! i" and ?m = "en_member (es ! i)"
  let ?so = "PB_SIZE_OFFSET (en_atype ?e) (en_htype ?e) ?m"
  have fits: "0 \<le> ?so" "?so < 128"
    using assms(1,2) by (simp_all add: bind_fits_def list_all_length entry_fits_def)
  have len: "length es < 65535" using assms(1) by (simp add: bind_fits_def)
  have sub: "submsg_index es i < 65536" using submsg_index_bound [of es i] len by simp
  have "\<not> (of_nat i :: u16) \<ge> of_nat (length es)"
    using assms(2) len by (simp add: word_le_nat_alt)
  with assms info_index_bound [OF assms(1,2)] sub show ?thesis
    by (cases it)
      (auto simp: load_descriptor_values_def stands_at_def entry_unpack read_info_first fieldinfo_type read_submsg_at
        size_offset_byte [OF fits] size_address iter_at_def Let_def field_pData_def field_pSize_def not_callback bind_sel)
qed

lemma advance_at:
  assumes "bind_fits w es" and "i < length es" and "stands_at w es msg i it"
  shows "stands_at w es msg (Suc i mod length es) (advance_iterator it)"
proof -
  have len: "length es < 65535" using assms(1) by (simp add: bind_fits_def)
  have le: "(of_nat (length es) :: u16) \<le> of_nat i + 1 \<longleftrightarrow> length es \<le> Suc i"
  proof -
    have "unat (of_nat (Suc i) :: u16) = Suc i" using assms(2) len by (intro unat_u16) simp
    moreover have "of_nat i + 1 = (of_nat (Suc i) :: u16)" by simp
    ultimately show ?thesis using len by (simp only: word_le_nat_alt) simp
  qed
  have idx: "info_index w es i < 65536" by (rule info_index_bound [OF assms(1,2)])
  show ?thesis
  proof (cases "Suc i < length es")
    case True
    with assms(2,3) idx show ?thesis
      by (auto simp: stands_at_def advance_iterator_def Let_def bind_sel le read_info_first fieldinfo_type fieldinfo_words
          info_index_Suc required_index_def submsg_index_def take_Suc_conv_app_nth PB_GEN_REQ_FIELD_COUNT_def
          PB_GEN_SUBMSG_INFO_def)
  next
    case False
    then have "Suc i = length es" using assms(2) by simp
    with assms(2,3) show ?thesis
      by (auto simp: stands_at_def advance_iterator_def Let_def bind_sel le info_index_def required_index_def submsg_index_def)
  qed
qed

text \<open>The searches restart by setting the index past the end; this is why the count must stay below the largest 16-bit number.\<close>

lemma advance_restarts:
  assumes "bind_fits w es" and "stands_at w es msg i it"
  shows "stands_at w es msg 0 (advance_iterator (it\<lparr>it_index := md_field_count (it_descriptor it)\<rparr>))"
proof -
  have "unat (of_nat (Suc (length es)) :: u16) = Suc (length es)"
    using assms(1) by (intro unat_u16) (simp add: bind_fits_def)
  moreover have "of_nat (length es) + 1 = (of_nat (Suc (length es)) :: u16)" by simp
  moreover have "unat (of_nat (length es) :: u16) = length es"
    using assms(1) by (intro unat_u16) (simp add: bind_fits_def)
  ultimately have "(of_nat (length es) :: u16) \<le> of_nat (length es) + 1"
    by (simp only: word_le_nat_alt)
  then show ?thesis
    using assms(2)
    by (auto simp: stands_at_def advance_iterator_def Let_def bind_sel info_index_def required_index_def submsg_index_def)
qed

lemma stands_zero: "stands_at w es msg 0 (zero_iter (PB_BIND w es) msg)"
  by (simp add: stands_at_def zero_iter_def info_index_def required_index_def submsg_index_def)

lemma begin_at:
  assumes "bind_fits w es" and "es \<noteq> []"
  shows "pb_field_iter_begin deref (PB_BIND w es) msg = (True, iter_at deref w es msg 0)"
  using load_at [OF assms(1) _ stands_zero] assms(2) by (simp add: pb_field_iter_begin_def)

lemma begin_empty: "fst (pb_field_iter_begin deref (PB_BIND w []) msg) = False"
  by (simp add: pb_field_iter_begin_def load_descriptor_values_def zero_iter_def bind_sel)

lemma next_at:
  assumes "bind_fits w es" and "i < length es"
  shows "pb_field_iter_next deref (iter_at deref w es msg i) =
    (Suc i < length es, iter_at deref w es msg (Suc i mod length es))"
proof -
  have "0 < length es" using assms(2) by linarith
  then have j: "Suc i mod length es < length es" by simp
  have "it_index (iter_at deref w es msg (Suc i mod length es)) \<noteq> 0 \<longleftrightarrow> Suc i < length es"
  proof -
    have "unat (of_nat (Suc i mod length es) :: u16) = Suc i mod length es"
      using j assms(1) by (intro unat_u16) (simp add: bind_fits_def)
    moreover have "unat (of_nat (Suc i mod length es) :: u16) = 0 \<longleftrightarrow> (of_nat (Suc i mod length es) :: u16) = 0"
      by (rule unsigned_eq_0_iff)
    ultimately have "(of_nat (Suc i mod length es) :: u16) = 0 \<longleftrightarrow> Suc i mod length es = 0" by simp
    also have "\<dots> \<longleftrightarrow> \<not> Suc i < length es" using assms(2) by (cases "Suc i = length es") auto
    finally show ?thesis by (simp add: iter_at_def Let_def)
  qed
  then show ?thesis
    using load_at [OF assms(1) j advance_at [OF assms stands_at_iter_at]] by (simp add: pb_field_iter_next_def Let_def)
qed

end
