(* ===== verification/PbWalk.thy ===== *)
theory PbWalk
  imports PbIterProps
begin

text \<open>
  The loops over the field iterator: the walk of the encoder visits the fields of a message in the order of its
  \<open>FIELDLIST\<close> and ends; the two searches go once around the message and end at a hit or where they started. What they share is
  the locale \<open>cyclic_search\<close>.
\<close>

section \<open>Searching once around\<close>

text \<open>
  A search over positions below \<open>n\<close>: from an iterator \<open>before\<close> position \<open>j\<close> one round looks at \<open>j\<close>, and
  ends there on a hit, ends in failure at \<open>start\<close>, and goes on to the next position, cyclically, otherwise.
\<close>

locale cyclic_search =
  fixes search :: "'it \<Rightarrow> (bool \<times> 'it) option"
    and at :: "nat \<Rightarrow> 'it"
    and before :: "nat \<Rightarrow> 'it \<Rightarrow> bool"
    and hit :: "nat \<Rightarrow> bool"
    and n start :: nat
  assumes round_hit: "before j it \<Longrightarrow> j < n \<Longrightarrow> hit j \<Longrightarrow> search it = Some (True, at j)"
    and round_end: "before start it \<Longrightarrow> start < n \<Longrightarrow> \<not> hit start \<Longrightarrow> search it = Some (False, at start)"
    and round_miss: "before j it \<Longrightarrow> j < n \<Longrightarrow> \<not> hit j \<Longrightarrow> j \<noteq> start \<Longrightarrow>
      \<exists>it'. before (Suc j mod n) it' \<and> search it = search it'"
begin

definition outcome :: "nat option \<Rightarrow> bool \<times> 'it" where
  "outcome r = (case r of Some j \<Rightarrow> (True, at j) | None \<Rightarrow> (False, at start))"

lemma search_up:
  assumes "before j it" and "j \<le> start" and "start < n"
  shows "search it = Some (outcome (find hit [j..<Suc start]))"
  using assms
proof (induction "start - j" arbitrary: j it)
  case 0
  then have "j = start" by simp
  with 0 show ?case
    using round_hit [of j it] round_end [of it] by (cases "hit j") (simp_all add: outcome_def)
next
  case (Suc d)
  then have j: "j < start" "j < n" by simp_all
  then have upt: "[j..<Suc start] = j # [Suc j..<Suc start]" by (simp add: upt_conv_Cons del: upt_Suc)
  show ?case
  proof (cases "hit j")
    case True
    then show ?thesis using round_hit [OF Suc.prems(1) j(2)] by (simp add: upt outcome_def del: upt_Suc)
  next
    case False
    then obtain it' where it': "before (Suc j mod n) it'" "search it = search it'"
      using round_miss [OF Suc.prems(1) j(2)] j by auto
    then have "before (Suc j) it'" using j Suc.prems(3) by simp
    then have "search it' = Some (outcome (find hit [Suc j..<Suc start]))"
      using Suc.hyps j Suc.prems(3) by (intro Suc.hyps(1)) simp_all
    with False it' show ?thesis by (simp add: upt del: upt_Suc)
  qed
qed

lemma search_around:
  assumes "before j it" and "start < j" and "j < n"
  shows "search it = Some (outcome (find hit ([j..<n] @ [0..<Suc start])))"
  using assms
proof (induction "n - j" arbitrary: j it)
  case 0
  then show ?case by simp
next
  case (Suc d)
  have upt: "[j..<n] = j # [Suc j..<n]" using Suc.prems(3) by (rule upt_conv_Cons)
  show ?case
  proof (cases "hit j")
    case True
    then show ?thesis using round_hit [OF Suc.prems(1,3)] by (simp add: upt outcome_def del: upt_Suc)
  next
    case False
    then obtain it' where it': "before (Suc j mod n) it'" "search it = search it'"
      using round_miss [OF Suc.prems(1,3)] Suc.prems(2) by auto
    show ?thesis
    proof (cases "Suc j = n")
      case True
      then have "search it' = Some (outcome (find hit [0..<Suc start]))"
        using it'(1) Suc.prems by (intro search_up) simp_all
      with False it' True show ?thesis by (simp add: upt del: upt_Suc)
    next
      case neq: False
      then have "search it' = Some (outcome (find hit ([Suc j..<n] @ [0..<Suc start])))"
        using it'(1) Suc.prems Suc.hyps(2) by (intro Suc.hyps(1)) simp_all
      with False it' show ?thesis by (simp add: upt del: upt_Suc)
    qed
  qed
qed

lemma search_turn:
  assumes "before (Suc start mod n) it" and "start < n"
  shows "search it = Some (outcome (find hit ([Suc start..<n] @ [0..<Suc start])))"
proof (cases "Suc start < n")
  case True
  then show ?thesis using assms by (intro search_around) simp_all
next
  case False
  then have "n = Suc start" using assms(2) by simp
  then show ?thesis using assms search_up [of 0 it] by simp
qed

end

section \<open>Walking\<close>

lemma walk_loop_at:
  assumes "bind_fits w es" and "i < length es"
  shows "walk_loop deref (iter_at deref w es msg i) = Some (map (iter_at deref w es msg) [i..<length es])"
  using assms(2)
proof (induction "length es - i" arbitrary: i)
  case 0
  then show ?case by simp
next
  case (Suc d)
  show ?case
  proof (cases "Suc i < length es")
    case True
    then show ?thesis
      using Suc next_at [OF assms(1) Suc.prems, of deref msg]
      by (subst walk_loop.simps) (simp add: upt_conv_Cons [of i])
  next
    case False
    then have "Suc i = length es" using Suc.prems by simp
    then show ?thesis
      using next_at [OF assms(1) Suc.prems, of deref msg]
      by (subst walk_loop.simps) (simp add: upt_conv_Cons [of i])
  qed
qed

lemma walk_visits:
  assumes "bind_fits w es"
  shows "pb_encode_walk deref (PB_BIND w es) msg = Some (map (iter_at deref w es msg) [0..<length es])"
proof (cases "es = []")
  case True
  then show ?thesis
    using begin_empty [of deref w msg]
    by (simp add: pb_encode_walk_def pb_field_iter_begin_const_def pb_const_cast_def case_prod_unfold)
next
  case False
  then show ?thesis
    using walk_loop_at [OF assms, of 0] begin_at [OF assms False]
    by (simp add: pb_encode_walk_def pb_field_iter_begin_const_def pb_const_cast_def)
qed

section \<open>Finding\<close>

lemma tag_16:
  assumes "bind_fits w es" and "i < length es"
  shows "(ucast (ucast (en_tag (es ! i)) :: u16) :: u32) = en_tag (es ! i)"
  using assms fieldinfo_16(1) [of "entry_width w (es ! i)" "PB_GEN_FIELD_INFO (es ! i)"]
  by (simp add: bind_fits_def list_all_length entry_fits_def gen_sel)

lemma index_eq:
  assumes "bind_fits w es" and "i < length es" and "j < length es"
  shows "(of_nat i :: u16) = of_nat j \<longleftrightarrow> i = j"
proof -
  have "unat (of_nat i :: u16) = i" "unat (of_nat j :: u16) = j"
    using assms by (simp_all add: bind_fits_def)
  then show ?thesis by metis
qed

lemma find_loop_round:
  assumes "bind_fits w es" and "stands_at w es msg j (advance_iterator it)" and "j < length es" and "start < length es"
  shows "find_loop deref tag (of_nat start) it =
    (if en_tag (es ! j) = tag \<and> en_ltype (es ! j) \<noteq> PT_EXTENSION then Some (True, iter_at deref w es msg j)
     else if j = start then Some (False, iter_at deref w es msg j)
     else find_loop deref tag (of_nat start)
       (if en_tag (es ! j) AND 0x3F = tag AND 0x3F then iter_at deref w es msg j else advance_iterator it))"
proof -
  note load = load_at [OF assms(1,3,2), of deref] load_at [OF assms(1,3) stands_at_iter_at]
  have sel: "it_descriptor (advance_iterator it) = PB_BIND w es" "it_index (advance_iterator it) = of_nat j"
    "unat (it_field_info_index (advance_iterator it)) = info_index w es j"
    using assms(2) info_index_bound [OF assms(1,3)] by (simp_all add: stands_at_def)
  have at: "ucast (it_tag (iter_at deref w es msg j)) = en_tag (es ! j)" "it_index (iter_at deref w es msg j) = of_nat j"
    "PB_LTYPE (it_type (iter_at deref w es msg j)) = PB_LTYPE_MAP (en_ltype (es ! j))"
    using tag_16 [OF assms(1,3)] by (simp_all add: iter_at_def Let_def)
  note simps = Let_def sel read_info_first [OF assms(3)] fieldinfo_low_tag gen_sel(1) load snd_conv at type_bits_iff
    index_eq [OF assms(1,3,4)]
  show ?thesis
  proof (cases "en_tag (es ! j) AND 0x3F = tag AND 0x3F")
    case True
    then show ?thesis by (subst find_loop.simps) (simp only: simps if_True simp_thms, simp)
  next
    case False
    then have "en_tag (es ! j) \<noteq> tag" by blast
    with False show ?thesis by (subst find_loop.simps) (simp only: simps if_False simp_thms, simp)
  qed
qed

lemma find_extension_round:
  assumes "bind_fits w es" and "stands_at w es msg j (advance_iterator it)" and "j < length es" and "start < length es"
  shows "find_extension_loop deref (of_nat start) it =
    (if en_ltype (es ! j) = PT_EXTENSION then Some (True, iter_at deref w es msg j)
     else if j = start then Some (False, iter_at deref w es msg j)
     else find_extension_loop deref (of_nat start) (advance_iterator it))"
proof -
  note load = load_at [OF assms(1,3,2), of deref]
  have sel: "it_descriptor (advance_iterator it) = PB_BIND w es" "it_index (advance_iterator it) = of_nat j"
    "unat (it_field_info_index (advance_iterator it)) = info_index w es j"
    using assms(2) info_index_bound [OF assms(1,3)] by (simp_all add: stands_at_def)
  show ?thesis
    by (subst find_extension_loop.simps)
      (simp only: Let_def sel read_info_first [OF assms(3)] fieldinfo_type gen_type type_bits_iff load snd_conv
        index_eq [OF assms(1,3,4)], simp)
qed

interpretation find: cyclic_search "find_loop deref tag (of_nat start)" "iter_at deref w es msg"
  "\<lambda>j it. bind_fits w es \<and> start < length es \<and> stands_at w es msg j (advance_iterator it)"
  "\<lambda>j. en_tag (es ! j) = tag \<and> en_ltype (es ! j) \<noteq> PT_EXTENSION" "length es" start
  for deref tag start w es msg
proof (unfold_locales, goal_cases)
  case (1 j it)
  then show ?case using find_loop_round [of w es msg j it start] by simp
next
  case (2 it)
  then show ?case using find_loop_round [of w es msg start it start] by simp
next
  case (3 j it)
  let ?it = "if en_tag (es ! j) AND 0x3F = tag AND 0x3F then iter_at deref w es msg j else advance_iterator it"
  have "stands_at w es msg (Suc j mod length es) (advance_iterator ?it)"
    using 3 by (intro advance_at) auto
  with 3 show ?case using find_loop_round [of w es msg j it start deref tag] by (intro exI [of _ ?it]) auto
qed

interpretation find_ext: cyclic_search "find_extension_loop deref (of_nat start)" "iter_at deref w es msg"
  "\<lambda>j it. bind_fits w es \<and> start < length es \<and> stands_at w es msg j (advance_iterator it)"
  "\<lambda>j. en_ltype (es ! j) = PT_EXTENSION" "length es" start
  for deref start w es msg
proof (unfold_locales, goal_cases)
  case (1 j it)
  then show ?case using find_extension_round [of w es msg j it start] by simp
next
  case (2 it)
  then show ?case using find_extension_round [of w es msg start it start] by simp
next
  case (3 j it)
  then have "stands_at w es msg (Suc j mod length es) (advance_iterator (advance_iterator it))"
    by (intro advance_at) auto
  with 3 show ?case
    using find_extension_round [of w es msg j it start deref] by (intro exI [of _ "advance_iterator it"]) auto
qed

subsection \<open>Fields by tag\<close>

lemma find_unique:
  assumes "\<And>x y. x \<in> set ys \<Longrightarrow> y \<in> set ys \<Longrightarrow> P x \<Longrightarrow> P y \<Longrightarrow> x = y"
    and "set xs \<subseteq> set ys" and "\<And>x. x \<in> set ys \<Longrightarrow> P x \<Longrightarrow> x \<in> set xs"
  shows "find P xs = find P ys"
proof (cases "find P ys")
  case None
  then have "find P xs = None" using assms(2) by (auto simp: find_None_iff)
  with None show ?thesis by simp
next
  case (Some y)
  then have y: "y \<in> set ys" "P y" by (auto simp: find_Some_iff)
  then have "find P xs \<noteq> None" using assms(3) by (auto simp: find_None_iff)
  then obtain x where x: "find P xs = Some x" by auto
  then have "x \<in> set xs" "P x" by (auto simp: find_Some_iff)
  then show ?thesis using assms(1) [of x y] assms(2) y x Some by auto
qed

definition by_tag :: "pb_entry list \<Rightarrow> u32 \<Rightarrow> nat option" where
  "by_tag es tag = find (\<lambda>j. en_tag (es ! j) = tag \<and> en_ltype (es ! j) \<noteq> PT_EXTENSION) [0..<length es]"

definition tags_ascend :: "pb_entry list \<Rightarrow> bool" where
  "tags_ascend es \<longleftrightarrow> sorted_wrt (<) (map en_tag es)"

lemma tags_ascend_less:
  "tags_ascend es \<Longrightarrow> i < j \<Longrightarrow> j < length es \<Longrightarrow> en_tag (es ! i) < en_tag (es ! j)"
  using sorted_wrt_nth_less [of "(<)" "map en_tag es" i j] by (simp add: tags_ascend_def)

lemma tags_ascend_iff:
  assumes "tags_ascend es" and "i < length es" and "j < length es"
  shows "en_tag (es ! i) < en_tag (es ! j) \<longleftrightarrow> i < j" and "en_tag (es ! i) = en_tag (es ! j) \<longleftrightarrow> i = j"
  using tags_ascend_less [OF assms(1)] assms(2,3) by (metis less_asym linorder_less_linear order.irrefl)+

lemma largest_tag: "es \<noteq> [] \<Longrightarrow> PB_GEN_LARGEST_TAG es = en_tag (last es)"
  by (cases es rule: rev_cases) (simp_all add: PB_GEN_LARGEST_TAG_def)

lemma tags_le_last:
  assumes "tags_ascend es" and "j < length es"
  shows "en_tag (es ! j) \<le> en_tag (es ! (length es - 1))"
proof (cases "j = length es - 1")
  case False
  then have "j < length es - 1" "length es - 1 < length es" using assms(2) by linarith+
  then show ?thesis using tags_ascend_less [OF assms(1), of j "length es - 1"] by (simp add: less_imp_le)
qed simp

lemma by_tag_unique:
  assumes "tags_ascend es" and "set xs \<subseteq> {..<length es}" and "\<And>j. j < length es \<Longrightarrow> en_tag (es ! j) = tag \<Longrightarrow> j \<in> set xs"
  shows "find (\<lambda>j. en_tag (es ! j) = tag \<and> en_ltype (es ! j) \<noteq> PT_EXTENSION) xs = by_tag es tag"
  unfolding by_tag_def using assms tags_ascend_iff(2) [OF assms(1)] by (intro find_unique) auto

lemma largest_tag_read:
  assumes "bind_fits w es" and "es \<noteq> []"
  shows "ucast (md_largest_tag (PB_BIND w es)) = en_tag (es ! (length es - 1))"
  using tag_16 [OF assms(1), of "length es - 1"] largest_tag [OF assms(2)] assms(2) by (simp add: bind_sel last_conv_nth)

lemma find_loop_at:
  assumes "bind_fits w es" and "tags_ascend es" and "i < length es" and "en_tag (es ! i) \<noteq> tag"
  shows "find_loop deref tag (of_nat i)
      (if tag < en_tag (es ! i) then (iter_at deref w es msg i)\<lparr>it_index := of_nat (length es)\<rparr> else iter_at deref w es msg i) =
    Some (find.outcome deref w es msg i (by_tag es tag))"
proof (cases "tag < en_tag (es ! i)")
  case True
  have "advance_iterator ((iter_at deref w es msg i)\<lparr>it_index := of_nat (length es)\<rparr>) =
      advance_iterator ((iter_at deref w es msg i)\<lparr>it_index := md_field_count (it_descriptor (iter_at deref w es msg i))\<rparr>)"
    by (simp add: iter_at_def Let_def bind_sel)
  then have "stands_at w es msg 0 (advance_iterator ((iter_at deref w es msg i)\<lparr>it_index := of_nat (length es)\<rparr>))"
    using advance_restarts [OF assms(1) stands_at_iter_at] by simp
  then have "find_loop deref tag (of_nat i) ((iter_at deref w es msg i)\<lparr>it_index := of_nat (length es)\<rparr>) =
      Some (find.outcome deref w es msg i (find (\<lambda>j. en_tag (es ! j) = tag \<and> en_ltype (es ! j) \<noteq> PT_EXTENSION) [0..<Suc i]))"
    using assms by (intro find.search_up) simp_all
  moreover have "find (\<lambda>j. en_tag (es ! j) = tag \<and> en_ltype (es ! j) \<noteq> PT_EXTENSION) [0..<Suc i] = by_tag es tag"
    using assms(3) True tags_ascend_iff(1) [OF assms(2) _ assms(3)] by (intro by_tag_unique [OF assms(2)]) auto
  ultimately show ?thesis using True by simp
next
  case False
  have "find_loop deref tag (of_nat i) (iter_at deref w es msg i) =
      Some (find.outcome deref w es msg i
        (find (\<lambda>j. en_tag (es ! j) = tag \<and> en_ltype (es ! j) \<noteq> PT_EXTENSION) ([Suc i..<length es] @ [0..<Suc i])))"
    using assms advance_at [OF assms(1,3) stands_at_iter_at, of msg deref] by (intro find.search_turn) simp_all
  moreover have "find (\<lambda>j. en_tag (es ! j) = tag \<and> en_ltype (es ! j) \<noteq> PT_EXTENSION) ([Suc i..<length es] @ [0..<Suc i]) =
      by_tag es tag"
    using assms(3) by (intro by_tag_unique [OF assms(2)]) auto
  ultimately show ?thesis using False by simp
qed

lemma find_at:
  assumes "bind_fits w es" and "tags_ascend es" and "i < length es"
  shows "pb_field_iter_find deref (iter_at deref w es msg i) tag =
    Some (if en_tag (es ! i) = tag then (True, iter_at deref w es msg i)
          else case by_tag es tag of Some j \<Rightarrow> (True, iter_at deref w es msg j)
               | None \<Rightarrow> (False, iter_at deref w es msg i))"
proof -
  have sel: "ucast (it_tag (iter_at deref w es msg i)) = en_tag (es ! i)" "it_index (iter_at deref w es msg i) = of_nat i"
    "it_descriptor (iter_at deref w es msg i) = PB_BIND w es" "md_field_count (PB_BIND w es) = of_nat (length es)"
    using tag_16 [OF assms(1,3)] by (simp_all add: iter_at_def Let_def bind_sel)
  have largest: "ucast (md_largest_tag (PB_BIND w es)) = en_tag (es ! (length es - 1))"
    using assms(1,3) by (intro largest_tag_read) auto
  have none: "by_tag es tag = None" if "tag > en_tag (es ! (length es - 1))"
    using tags_le_last [OF assms(2)] that by (fastforce simp: by_tag_def find_None_iff)
  show ?thesis
  proof (cases "en_tag (es ! i) = tag \<or> tag > en_tag (es ! (length es - 1))")
    case True
    then show ?thesis using none by (auto simp: pb_field_iter_find_def sel largest)
  next
    case False
    then show ?thesis
      using find_loop_at [OF assms, of tag deref msg]
      by (simp add: pb_field_iter_find_def sel largest Let_def find.outcome_def split: if_splits)
  qed
qed

lemma find_extension_at:
  assumes "bind_fits w es" and "i < length es"
  shows "pb_field_iter_find_extension deref (iter_at deref w es msg i) =
    Some (if en_ltype (es ! i) = PT_EXTENSION then (True, iter_at deref w es msg i)
          else case find (\<lambda>j. en_ltype (es ! j) = PT_EXTENSION) ([Suc i..<length es] @ [0..<Suc i]) of
                 Some j \<Rightarrow> (True, iter_at deref w es msg j)
               | None \<Rightarrow> (False, iter_at deref w es msg i))"
proof -
  have "PB_LTYPE (it_type (iter_at deref w es msg i)) = PB_LTYPE_MAP (en_ltype (es ! i))"
    "it_index (iter_at deref w es msg i) = of_nat i"
    by (simp_all add: iter_at_def Let_def)
  then show ?thesis
    using find_ext.search_turn [of w es i msg "iter_at deref w es msg i" deref] assms
      advance_at [OF assms stands_at_iter_at, of msg deref]
    by (simp add: pb_field_iter_find_extension_def find_ext.outcome_def del: upt_Suc)
qed

text \<open>
  C16. Finding a field by its tag: from any field of a message whose entries ascend in tag order,
  \<open>pb_field_iter_find\<close> ends, with the iterator loaded at the field of that tag if the message has one (extensions are
  skipped, unless the iterator is at one with the tag already), and otherwise with failure and the iterator where it was.
\<close>

theorem iter_find_correct:
  assumes "bind_fits w es" and "tags_ascend es" and "i < length es"
  shows "pb_field_iter_find deref (iter_at deref w es msg i) tag =
    Some (if en_tag (es ! i) = tag then (True, iter_at deref w es msg i)
          else case find (\<lambda>j. en_tag (es ! j) = tag \<and> en_ltype (es ! j) \<noteq> PT_EXTENSION) [0..<length es] of
                 Some j \<Rightarrow> (True, iter_at deref w es msg j)
               | None \<Rightarrow> (False, iter_at deref w es msg i))"
  using find_at [OF assms] by (simp only: by_tag_def)

definition sample_entries :: "pb_entry list" where
  "sample_entries =
     (let m = (\<lambda>p. \<lparr>mb_offset = p, mb_size = 4, mb_elem_size = 1, mb_elem2_size = 1, mb_aux_offset = 0\<rparr>);
          e = (\<lambda>t k. \<lparr>en_atype = AT_STATIC, en_htype = HT_SINGULAR, en_ltype = t, en_tag = k, en_member = m (unat (4 * k)),
                 en_submsg = 0\<rparr>)
      in [e PT_UINT32 1, e PT_EXTENSION 2, e PT_FIXED32 5, e PT_SINT32 9])"

lemma sample_entries_fit: "bind_fits None sample_entries" "tags_ascend sample_entries" "length sample_entries = 4"
  by (simp_all add: sample_entries_def bind_fits_def entry_fits_def entry_width_def PB_FI_WIDTH_LTYPE_def gen_sel
      PB_FIELDINFO_ASSERT_1_def PB_FITS_def info_index_def tags_ascend_def)

lemma sample_entries_find:
  "find (\<lambda>j. en_tag (sample_entries ! j) = 5 \<and> en_ltype (sample_entries ! j) \<noteq> PT_EXTENSION) [0..<length sample_entries] = Some 2"
  "find (\<lambda>j. en_tag (sample_entries ! j) = 2 \<and> en_ltype (sample_entries ! j) \<noteq> PT_EXTENSION) [0..<length sample_entries] = None"
  "(en_tag (sample_entries ! 3) = 5) = False" "(en_tag (sample_entries ! 0) = 2) = False"
  "(3 < length sample_entries) = True" "(0 < length sample_entries) = True"
  by code_simp+

theorem iter_find_correct_witness:
  "pb_field_iter_find (\<lambda>_. 0) (iter_at (\<lambda>_. 0) None sample_entries 4096 3) 5 =
     Some (True, iter_at (\<lambda>_. 0) None sample_entries 4096 2) \<and>
   pb_field_iter_find (\<lambda>_. 0) (iter_at (\<lambda>_. 0) None sample_entries 4096 0) 2 =
     Some (False, iter_at (\<lambda>_. 0) None sample_entries 4096 0)"
  using iter_find_correct [OF sample_entries_fit(1,2), of 3 "\<lambda>_. 0" 4096 5]
    iter_find_correct [OF sample_entries_fit(1,2), of 0 "\<lambda>_. 0" 4096 2]
  by (simp only: sample_entries_find if_False option.case simp_thms)

end
