(* ===== verification/IngestDesc.thy ===== *)
theory IngestDesc
  imports PbWalk IngestPb
begin

text \<open>
  The descriptor tables of the ingest protocol (\<open>ingest.pb.c\<close>): the \<open>FIELDLIST\<close>s of \<open>ingest.pb.h\<close> bound to the structs of that
  header. Members lie as the C ABI of the ESP32 targets places them: in order, each at the next multiple of its
  alignment, 64-bit members at multiples of 8; pointers have 4 bytes. The descriptors of submessages are told apart by their
  addresses, the argument \<open>addr\<close>.
\<close>

section \<open>Struct layout\<close>

definition align_up :: "nat \<Rightarrow> nat \<Rightarrow> nat" where
  "align_up a p = (p + (a - 1)) div a * a"

text \<open>The offsets of members given by size and alignment, from a position on; and the size of the struct.\<close>

fun offsets_from :: "nat \<Rightarrow> (nat \<times> nat) list \<Rightarrow> nat list" where
  "offsets_from p [] = []"
| "offsets_from p ((s, a) # ms) = align_up a p # offsets_from (align_up a p + s) ms"

fun end_from :: "nat \<Rightarrow> (nat \<times> nat) list \<Rightarrow> nat" where
  "end_from p [] = p"
| "end_from p ((s, a) # ms) = end_from (align_up a p + s) ms"

definition struct_size :: "(nat \<times> nat) list \<Rightarrow> nat" where
  "struct_size ms = align_up (fold max (map snd ms) 1) (end_from 0 ms)"

text \<open>The structs, member by member: key, which_value, value, unit of a metric, and so on.\<close>

definition Metric_struct :: "(nat \<times> nat) list" where
  "Metric_struct = [(20, 1), (2, 2), (8, 8), (8, 1)]"

definition MetricSet_struct :: "(nat \<times> nat) list" where
  "MetricSet_struct = [(2, 2), (32 * struct_size Metric_struct, 8)]"

definition StatusPayload_struct :: "(nat \<times> nat) list" where
  "StatusPayload_struct = [(4, 4), (4, 4), (4, 4), (24, 1)]"

definition AlertPayload_struct :: "(nat \<times> nat) list" where
  "AlertPayload_struct = [(24, 1), (4, 4), (80, 1)]"

definition SignalFrame_struct :: "(nat \<times> nat) list" where
  "SignalFrame_struct = [(32, 1), (8, 8), (4, 4), (4, 4), (4, 4), (8, 4), (8, 4)]"

definition TelemetryPayload_struct :: "(nat \<times> nat) list" where
  "TelemetryPayload_struct = [(2, 2), (max (struct_size MetricSet_struct) (struct_size SignalFrame_struct), 8)]"

definition IngestEvent_struct :: "(nat \<times> nat) list" where
  "IngestEvent_struct =
     [(4, 4), (32, 1), (8, 8), (4, 4), (32, 1), (4, 4), (8, 8), (8, 8), (2, 2),
      (max (struct_size TelemetryPayload_struct)
         (max (struct_size StatusPayload_struct) (struct_size AlertPayload_struct)), 8)]"

definition SignalChannel_struct :: "(nat \<times> nat) list" where
  "SignalChannel_struct = [(20, 1), (8, 1), (1, 1), (4, 4), (1, 1), (4, 4)]"

section \<open>Field lists\<close>

datatype ingest_msg =
    M_IngestEvent | M_TelemetryPayload | M_MetricSet | M_Metric | M_StatusPayload | M_AlertPayload | M_SignalFrame
  | M_SignalChannel

text \<open>A singular member; a member of a oneof with the member that holds the choice; neither is an array of fields.\<close>

definition singular :: "pb_atype \<Rightarrow> pb_ptype \<Rightarrow> u32 \<Rightarrow> (nat \<times> nat) list \<Rightarrow> nat \<Rightarrow> pb_entry" where
  "singular a t tag ms i =
     \<lparr>en_atype = a, en_htype = HT_SINGULAR, en_ltype = t, en_tag = tag,
      en_member = \<lparr>mb_offset = offsets_from 0 ms ! i, mb_size = fst (ms ! i), mb_elem_size = 1, mb_elem2_size = 1,
        mb_aux_offset = 0\<rparr>, en_submsg = 0\<rparr>"

definition oneof :: "pb_atype \<Rightarrow> pb_ptype \<Rightarrow> u32 \<Rightarrow> (nat \<times> nat) list \<Rightarrow> nat \<Rightarrow> nat \<Rightarrow> nat \<Rightarrow> u32 \<Rightarrow> pb_entry" where
  "oneof a t tag ms i sz which sub =
     \<lparr>en_atype = a, en_htype = HT_ONEOF, en_ltype = t, en_tag = tag,
      en_member = \<lparr>mb_offset = offsets_from 0 ms ! i, mb_size = sz, mb_elem_size = 1, mb_elem2_size = 1,
        mb_aux_offset = offsets_from 0 ms ! which\<rparr>, en_submsg = sub\<rparr>"

definition IngestEvent_FIELDLIST :: "(ingest_msg \<Rightarrow> u32) \<Rightarrow> pb_entry list" where
  "IngestEvent_FIELDLIST addr =
     [singular AT_STATIC PT_UINT32 1 IngestEvent_struct 0,
      singular AT_STATIC PT_STRING 2 IngestEvent_struct 1,
      singular AT_STATIC PT_UINT64 3 IngestEvent_struct 2,
      singular AT_STATIC PT_UENUM 4 IngestEvent_struct 3,
      singular AT_STATIC PT_STRING 5 IngestEvent_struct 4,
      singular AT_STATIC PT_UINT32 6 IngestEvent_struct 5,
      singular AT_STATIC PT_UINT64 7 IngestEvent_struct 6,
      singular AT_STATIC PT_UINT64 8 IngestEvent_struct 7,
      oneof AT_STATIC PT_MESSAGE 10 IngestEvent_struct 9 (struct_size TelemetryPayload_struct) 8 (addr M_TelemetryPayload),
      oneof AT_STATIC PT_MESSAGE 11 IngestEvent_struct 9 (struct_size StatusPayload_struct) 8 (addr M_StatusPayload),
      oneof AT_STATIC PT_MESSAGE 12 IngestEvent_struct 9 (struct_size AlertPayload_struct) 8 (addr M_AlertPayload)]"

definition TelemetryPayload_FIELDLIST :: "(ingest_msg \<Rightarrow> u32) \<Rightarrow> pb_entry list" where
  "TelemetryPayload_FIELDLIST addr =
     [oneof AT_STATIC PT_MESSAGE 1 TelemetryPayload_struct 1 (struct_size MetricSet_struct) 0 (addr M_MetricSet),
      oneof AT_STATIC PT_MESSAGE 2 TelemetryPayload_struct 1 (struct_size SignalFrame_struct) 0 (addr M_SignalFrame)]"

definition MetricSet_FIELDLIST :: "(ingest_msg \<Rightarrow> u32) \<Rightarrow> pb_entry list" where
  "MetricSet_FIELDLIST addr =
     [\<lparr>en_atype = AT_STATIC, en_htype = HT_REPEATED, en_ltype = PT_MESSAGE, en_tag = 1,
       en_member = \<lparr>mb_offset = offsets_from 0 MetricSet_struct ! 1, mb_size = fst (MetricSet_struct ! 1),
         mb_elem_size = struct_size Metric_struct, mb_elem2_size = 1, mb_aux_offset = offsets_from 0 MetricSet_struct ! 0\<rparr>,
       en_submsg = addr M_Metric\<rparr>]"

definition Metric_FIELDLIST :: "pb_entry list" where
  "Metric_FIELDLIST =
     [singular AT_STATIC PT_STRING 1 Metric_struct 0,
      oneof AT_STATIC PT_SINT64 2 Metric_struct 2 8 1 0,
      oneof AT_STATIC PT_DOUBLE 3 Metric_struct 2 8 1 0,
      oneof AT_STATIC PT_BOOL 4 Metric_struct 2 1 1 0,
      oneof AT_CALLBACK PT_STRING 5 Metric_struct 2 8 1 0,
      oneof AT_CALLBACK PT_BYTES 6 Metric_struct 2 8 1 0,
      singular AT_STATIC PT_STRING 7 Metric_struct 3]"

definition StatusPayload_FIELDLIST :: "pb_entry list" where
  "StatusPayload_FIELDLIST =
     [singular AT_STATIC PT_UENUM 1 StatusPayload_struct 0,
      singular AT_STATIC PT_SINT32 2 StatusPayload_struct 1,
      singular AT_STATIC PT_UINT32 3 StatusPayload_struct 2,
      singular AT_STATIC PT_STRING 4 StatusPayload_struct 3]"

definition AlertPayload_FIELDLIST :: "pb_entry list" where
  "AlertPayload_FIELDLIST =
     [singular AT_STATIC PT_STRING 1 AlertPayload_struct 0,
      singular AT_STATIC PT_UENUM 2 AlertPayload_struct 1,
      singular AT_STATIC PT_STRING 3 AlertPayload_struct 2]"

definition SignalFrame_FIELDLIST :: "(ingest_msg \<Rightarrow> u32) \<Rightarrow> pb_entry list" where
  "SignalFrame_FIELDLIST addr =
     [singular AT_STATIC PT_STRING 1 SignalFrame_struct 0,
      singular AT_STATIC PT_UINT64 2 SignalFrame_struct 1,
      singular AT_STATIC PT_UINT32 3 SignalFrame_struct 2,
      singular AT_STATIC PT_UENUM 4 SignalFrame_struct 3,
      singular AT_STATIC PT_UENUM 5 SignalFrame_struct 4,
      (singular AT_CALLBACK PT_MESSAGE 6 SignalFrame_struct 5)\<lparr>en_htype := HT_REPEATED, en_submsg := addr M_SignalChannel\<rparr>,
      singular AT_CALLBACK PT_BYTES 7 SignalFrame_struct 6]"

text \<open>The \<open>OPTIONAL\<close> floats have their has-flags in the member before them.\<close>

definition optional :: "pb_ptype \<Rightarrow> u32 \<Rightarrow> (nat \<times> nat) list \<Rightarrow> nat \<Rightarrow> nat \<Rightarrow> pb_entry" where
  "optional t tag ms i has =
     \<lparr>en_atype = AT_STATIC, en_htype = HT_OPTIONAL, en_ltype = t, en_tag = tag,
      en_member = \<lparr>mb_offset = offsets_from 0 ms ! i, mb_size = fst (ms ! i), mb_elem_size = 1, mb_elem2_size = 1,
        mb_aux_offset = offsets_from 0 ms ! has\<rparr>, en_submsg = 0\<rparr>"

definition SignalChannel_FIELDLIST :: "pb_entry list" where
  "SignalChannel_FIELDLIST =
     [singular AT_STATIC PT_STRING 1 SignalChannel_struct 0,
      singular AT_STATIC PT_STRING 2 SignalChannel_struct 1,
      optional PT_FLOAT 3 SignalChannel_struct 3 2,
      optional PT_FLOAT 4 SignalChannel_struct 5 4]"

section \<open>The bound descriptors\<close>

fun FIELDLIST :: "(ingest_msg \<Rightarrow> u32) \<Rightarrow> ingest_msg \<Rightarrow> pb_entry list" where
  "FIELDLIST addr M_IngestEvent = IngestEvent_FIELDLIST addr"
| "FIELDLIST addr M_TelemetryPayload = TelemetryPayload_FIELDLIST addr"
| "FIELDLIST addr M_MetricSet = MetricSet_FIELDLIST addr"
| "FIELDLIST addr M_Metric = Metric_FIELDLIST"
| "FIELDLIST addr M_StatusPayload = StatusPayload_FIELDLIST"
| "FIELDLIST addr M_AlertPayload = AlertPayload_FIELDLIST"
| "FIELDLIST addr M_SignalFrame = SignalFrame_FIELDLIST addr"
| "FIELDLIST addr M_SignalChannel = SignalChannel_FIELDLIST"

text \<open>The third argument of each \<open>PB_BIND\<close>; \<open>None\<close> is \<open>AUTO\<close>.\<close>

fun bind_width :: "ingest_msg \<Rightarrow> pb_width option" where
  "bind_width M_IngestEvent = Some W2"
| "bind_width M_TelemetryPayload = Some W2"
| "bind_width M_MetricSet = Some W2"
| "bind_width M_Metric = None"
| "bind_width M_StatusPayload = None"
| "bind_width M_AlertPayload = None"
| "bind_width M_SignalFrame = None"
| "bind_width M_SignalChannel = None"

text \<open>The \<open>CALLBACK\<close> macro of each message: \<open>pb_default_field_callback\<close> or \<open>NULL\<close>.\<close>

definition field_callback :: "ingest_msg \<Rightarrow> bool" where
  "field_callback m \<longleftrightarrow> m = M_Metric \<or> m = M_SignalFrame"

definition ingest_msgdesc :: "(ingest_msg \<Rightarrow> u32) \<Rightarrow> ingest_msg \<Rightarrow> pb_msgdesc" where
  "ingest_msgdesc addr m = PB_BIND (bind_width m) (FIELDLIST addr m)"

section \<open>The tables are well-formed\<close>

lemma struct_offsets:
  "offsets_from 0 Metric_struct = [0, 20, 24, 32]"
  "offsets_from 0 MetricSet_struct = [0, 8]"
  "offsets_from 0 StatusPayload_struct = [0, 4, 8, 12]"
  "offsets_from 0 AlertPayload_struct = [0, 24, 28]"
  "offsets_from 0 SignalFrame_struct = [0, 32, 40, 44, 48, 52, 60]"
  "offsets_from 0 TelemetryPayload_struct = [0, 8]"
  "offsets_from 0 IngestEvent_struct = [0, 4, 40, 48, 52, 84, 88, 96, 104, 112]"
  "offsets_from 0 SignalChannel_struct = [0, 20, 28, 32, 36, 40]"
  by code_simp+

lemma struct_sizes:
  "struct_size Metric_struct = 40" "struct_size MetricSet_struct = 1288" "struct_size StatusPayload_struct = 36"
  "struct_size AlertPayload_struct = 108" "struct_size SignalFrame_struct = 72" "struct_size TelemetryPayload_struct = 1296"
  by code_simp+

lemmas FIELDLIST_defs = IngestEvent_FIELDLIST_def TelemetryPayload_FIELDLIST_def MetricSet_FIELDLIST_def
  Metric_FIELDLIST_def StatusPayload_FIELDLIST_def AlertPayload_FIELDLIST_def SignalFrame_FIELDLIST_def
  SignalChannel_FIELDLIST_def

lemmas entry_defs = singular_def oneof_def optional_def

lemma struct_members:
  "MetricSet_struct = [(2, 2), (1280, 8)]" "TelemetryPayload_struct = [(2, 2), (1288, 8)]"
  "IngestEvent_struct = [(4, 4), (32, 1), (8, 8), (4, 4), (32, 1), (4, 4), (8, 8), (8, 8), (2, 2), (1296, 8)]"
  by code_simp+

lemmas struct_defs = Metric_struct_def StatusPayload_struct_def AlertPayload_struct_def SignalFrame_struct_def
  SignalChannel_struct_def struct_members

lemmas assert_defs = PB_FIELDINFO_ASSERT_1_def PB_FIELDINFO_ASSERT_2_def PB_FITS_def

lemma ingest_bind_fits: "bind_fits (bind_width m) (FIELDLIST addr m)"
  by (cases m)
    (simp_all add: bind_fits_def FIELDLIST_defs entry_fits_def entry_width_def PB_FI_WIDTH_LTYPE_def entry_defs
      struct_offsets struct_sizes gen_sel pb_delta_def assert_defs info_index_def, simp_all add: struct_defs)

lemma ingest_tags_ascend: "tags_ascend (FIELDLIST addr m)"
  by (cases m) (simp_all add: tags_ascend_def FIELDLIST_defs entry_defs)

section \<open>The encoder sees the generated fields\<close>

text \<open>The part of a loaded iterator the encoder reads, as the header of a field.\<close>

definition iter_hdr :: "bool \<Rightarrow> pb_field_iter \<Rightarrow> pb_hdr" where
  "iter_hdr cb it =
     \<lparr>h_tag = it_tag it, h_type = it_type it, h_data_size = it_data_size it, h_array_size = it_array_size it,
      h_field_callback = cb, h_default_value = False\<rparr>"

definition ingest_walk :: "(u32 \<Rightarrow> u32) \<Rightarrow> (ingest_msg \<Rightarrow> u32) \<Rightarrow> ingest_msg \<Rightarrow> u32 \<Rightarrow> (pb_hdr \<times> bool) list option" where
  "ingest_walk deref addr m msg =
     map_option (map (\<lambda>it. (iter_hdr (field_callback m) it, it_pSize it \<noteq> Size_null)))
       (pb_encode_walk deref (ingest_msgdesc addr m) msg)"

definition fields_seen :: "pb_field list \<Rightarrow> (pb_hdr \<times> bool) list" where
  "fields_seen fs = map (\<lambda>f. (fld_hdr f, fld_size f \<noteq> SNull)) fs"

lemma ingest_walk_eq:
  assumes "msg \<noteq> 0"
  shows "ingest_walk deref addr m msg = Some (map (\<lambda>e.
    (\<lparr>h_tag = ucast (en_tag e), h_type = atype_bits (en_atype e) OR htype_bits (en_htype e) OR PB_LTYPE_MAP (en_ltype e),
      h_data_size = of_nat (PB_DATA_SIZE (en_atype e) (en_htype e) (en_member e)),
      h_array_size = of_nat (PB_ARRAY_SIZE (en_atype e) (en_htype e) (en_member e)),
      h_field_callback = field_callback m, h_default_value = False\<rparr>,
     PB_SIZE_OFFSET (en_atype e) (en_htype e) (en_member e) \<noteq> 0 \<or>
     en_htype e \<in> {HT_REPEATED, HT_FIXARRAY} \<and> en_atype e \<noteq> AT_CALLBACK)) (FIELDLIST addr m))"
  unfolding ingest_walk_def ingest_msgdesc_def walk_visits [OF ingest_bind_fits] using assms
  by (simp, intro nth_equalityI)
    (simp_all add: iter_hdr_def iter_at_def Let_def field_pSize_def PB_GEN_FIELD_INFO_def)

lemma ingest_walk_fields:
  assumes "msg \<noteq> 0"
  shows "ingest_walk deref addr M_Metric msg = Some (fields_seen (Metric_fields m))"
    and "ingest_walk deref addr M_MetricSet msg = Some (fields_seen (MetricSet_fields s))"
    and "ingest_walk deref addr M_StatusPayload msg = Some (fields_seen (StatusPayload_fields st))"
    and "ingest_walk deref addr M_AlertPayload msg = Some (fields_seen (AlertPayload_fields al))"
    and "ingest_walk deref addr M_SignalFrame msg = Some (fields_seen (SignalFrame_fields sf))"
    and "ingest_walk deref addr M_SignalChannel msg = Some (fields_seen (SignalChannel_fields sc))"
    and "ingest_walk deref addr M_TelemetryPayload msg = Some (fields_seen (TelemetryPayload_fields t))"
    and "ingest_walk deref addr M_IngestEvent msg = Some (fields_seen (IngestEvent_fields e))"
  unfolding ingest_walk_eq [OF assms]
  by (simp_all add: fields_seen_def FIELDLIST_defs entry_defs struct_offsets struct_sizes field_callback_def
      Metric_fields_def MetricSet_fields_def StatusPayload_fields_def AlertPayload_fields_def SignalFrame_fields_def
      SignalChannel_fields_def TelemetryPayload_fields_def IngestEvent_fields_def string_field_def uint_field_def
      sint_field_def opt_float_field_def oneof_field_def mk_hdr_def pb_delta_def, simp_all add: struct_defs)

text \<open>
  C14. The message encoder is modelled on the fields the generated tables describe: for each of the eight messages,
  the encoder's loop over the iterator, run on the packed descriptor of \<open>ingest.pb.c\<close>, ends and sees the fields of
  the message's model in order, each with its tag, type, data size and array size, and with a size pointer where the
  model has a count, a flag or a choice.
\<close>

theorem ingest_tables_match_encoder:
  assumes "msg \<noteq> 0"
  shows "(\<forall>m. ingest_walk deref addr M_Metric msg = Some (fields_seen (Metric_fields m))) \<and>
    (\<forall>s. ingest_walk deref addr M_MetricSet msg = Some (fields_seen (MetricSet_fields s))) \<and>
    (\<forall>s. ingest_walk deref addr M_StatusPayload msg = Some (fields_seen (StatusPayload_fields s))) \<and>
    (\<forall>a. ingest_walk deref addr M_AlertPayload msg = Some (fields_seen (AlertPayload_fields a))) \<and>
    (\<forall>f. ingest_walk deref addr M_SignalFrame msg = Some (fields_seen (SignalFrame_fields f))) \<and>
    (\<forall>c. ingest_walk deref addr M_SignalChannel msg = Some (fields_seen (SignalChannel_fields c))) \<and>
    (\<forall>t. ingest_walk deref addr M_TelemetryPayload msg = Some (fields_seen (TelemetryPayload_fields t))) \<and>
    (\<forall>e. ingest_walk deref addr M_IngestEvent msg = Some (fields_seen (IngestEvent_fields e)))"
  by (intro conjI allI ingest_walk_fields [OF assms])

theorem ingest_tables_match_encoder_witness:
  "ingest_walk (\<lambda>_. 0) (\<lambda>_. 0) M_Metric 0x3FFB0000 = Some (fields_seen (Metric_fields pb_metric_init_zero))"
  using ingest_tables_match_encoder [of "0x3FFB0000" "\<lambda>_. 0" "\<lambda>_. 0"] by simp

end
