(* ===== verification/PbUtf8.thy ===== *)
theory PbUtf8
  imports Prelude
begin

text \<open>
  \<open>pb_validate_utf8\<close> of \<open>pb_common.c\<close>, which nanopb calls on strings when it is built with \<open>PB_VALIDATE_UTF8\<close>; the build of
  the firmware does not set this option, so the check is part of the library only. It accepts
  exactly the UTF-8 texts of Unicode, without the two noncharacters at the end of the basic plane.
\<close>

section \<open>The code\<close>

text \<open>\<open>s[k]\<close> of a C string: its terminator is the byte after its end. The code reads no further.\<close>

definition char_at :: "byte list \<Rightarrow> nat \<Rightarrow> byte" where
  "char_at s k = (if k < length s then s ! k else 0)"

function pb_validate_utf8 :: "byte list \<Rightarrow> bool" where
  "pb_validate_utf8 s =
     (let c = char_at s in
      if c 0 = 0 then True
      else if c 0 < 0x80 then pb_validate_utf8 (drop 1 s)
      else if c 0 AND 0xe0 = 0xc0 then
        if c 1 AND 0xc0 \<noteq> 0x80 \<or> c 0 AND 0xfe = 0xc0 then False
        else pb_validate_utf8 (drop 2 s)
      else if c 0 AND 0xf0 = 0xe0 then
        if c 1 AND 0xc0 \<noteq> 0x80 \<or> c 2 AND 0xc0 \<noteq> 0x80 \<or> (c 0 = 0xe0 \<and> c 1 AND 0xe0 = 0x80) \<or>
           (c 0 = 0xed \<and> c 1 AND 0xe0 = 0xa0) \<or> (c 0 = 0xef \<and> c 1 = 0xbf \<and> c 2 AND 0xfe = 0xbe) then False
        else pb_validate_utf8 (drop 3 s)
      else if c 0 AND 0xf8 = 0xf0 then
        if c 1 AND 0xc0 \<noteq> 0x80 \<or> c 2 AND 0xc0 \<noteq> 0x80 \<or> c 3 AND 0xc0 \<noteq> 0x80 \<or>
           (c 0 = 0xf0 \<and> c 1 AND 0xf0 = 0x80) \<or> (c 0 = 0xf4 \<and> c 1 > 0x8f) \<or> c 0 > 0xf4 then False
        else pb_validate_utf8 (drop 4 s)
      else False)"
  by auto

termination
  by (relation "measure length") (auto simp: char_at_def split: if_splits)

declare pb_validate_utf8.simps [simp del]

section \<open>Unicode\<close>

text \<open>The characters a string may hold, and their UTF-8 encoding.\<close>

definition text_char :: "nat \<Rightarrow> bool" where
  "text_char c \<longleftrightarrow> 0 < c \<and> c < 0x110000 \<and> \<not> (0xD800 \<le> c \<and> c < 0xE000) \<and> c \<noteq> 0xFFFE \<and> c \<noteq> 0xFFFF"

definition utf8_units :: "nat \<Rightarrow> nat list" where
  "utf8_units c =
     (if c < 0x80 then [c]
      else if c < 0x800 then [0xC0 + c div 64, 0x80 + c mod 64]
      else if c < 0x10000 then [0xE0 + c div 4096, 0x80 + c div 64 mod 64, 0x80 + c mod 64]
      else [0xF0 + c div 262144, 0x80 + c div 4096 mod 64, 0x80 + c div 64 mod 64, 0x80 + c mod 64])"

definition utf8_encode :: "nat \<Rightarrow> byte list" where
  "utf8_encode c = map of_nat (utf8_units c)"

section \<open>The bit tests as ranges\<close>

lemma unat_byte_less: "unat (b :: byte) < 256"
  using unsigned_less [of b] by simp

lemma high_bits:
  assumes "b AND m = push_bit k (drop_bit k (b :: byte))"
  shows "unat (b AND m) = unat b div 2 ^ k * 2 ^ k"
proof -
  have "unat b div 2 ^ k * 2 ^ k \<le> unat b" by simp
  then have "unat b div 2 ^ k * 2 ^ k < 256" using unat_byte_less [of b] by linarith
  moreover have "unat (b AND m) = take_bit 8 (push_bit k (drop_bit k (unat b)))"
    unfolding assms by (simp only: unsigned_push_bit_eq unsigned_drop_bit_eq)
      (simp add: take_bit_nat_eq_self unat_byte_less)
  ultimately show ?thesis by (simp add: push_bit_eq_mult drop_bit_eq_div take_bit_nat_eq_self)
qed

lemma byte_eqI: "list_all (\<lambda>n. bit a n = bit b n) [0..<8] \<Longrightarrow> a = (b :: byte)"
  by (rule bit_word_eqI) (simp add: list_all_iff)

lemma upt_8: "[0..<8] = [0, 1, 2, 3, 4, 5, 6, 7]"
  by code_simp

lemma high_masks:
  "unat ((b :: byte) AND 0xe0) = unat b div 2 ^ 5 * 2 ^ 5" "unat (b AND 0xf0) = unat b div 2 ^ 4 * 2 ^ 4"
  "unat (b AND 0xf8) = unat b div 2 ^ 3 * 2 ^ 3" "unat (b AND 0xc0) = unat b div 2 ^ 6 * 2 ^ 6"
  "unat (b AND 0xfe) = unat b div 2 ^ 1 * 2 ^ 1"
  by (rule high_bits, rule byte_eqI, simp only: upt_8 list.pred_inject bit_simps, simp add: numeral_nat)+

lemma byte_eq_iff: "a = b \<longleftrightarrow> unat a = unat (b :: byte)"
  by (rule word_unat_eq_iff)

lemma mask_ranges:
  "(b :: byte) AND 0xe0 = 0xc0 \<longleftrightarrow> 192 \<le> unat b \<and> unat b < 224"
  "b AND 0xf0 = 0xe0 \<longleftrightarrow> 224 \<le> unat b \<and> unat b < 240"
  "b AND 0xf8 = 0xf0 \<longleftrightarrow> 240 \<le> unat b \<and> unat b < 248"
  "b AND 0xc0 = 0x80 \<longleftrightarrow> 128 \<le> unat b \<and> unat b < 192"
  "b AND 0xfe = 0xc0 \<longleftrightarrow> 192 \<le> unat b \<and> unat b < 194"
  "b AND 0xe0 = 0x80 \<longleftrightarrow> 128 \<le> unat b \<and> unat b < 160"
  "b AND 0xe0 = 0xa0 \<longleftrightarrow> 160 \<le> unat b \<and> unat b < 192"
  "b AND 0xf0 = 0x80 \<longleftrightarrow> 128 \<le> unat b \<and> unat b < 144"
  "b AND 0xfe = 0xbe \<longleftrightarrow> 190 \<le> unat b \<and> unat b < 192"
  by (subst byte_eq_iff, simp only: high_masks, simp, arith)+

lemma byte_orders:
  "(b :: byte) < 0x80 \<longleftrightarrow> unat b < 128" "b > 0x8f \<longleftrightarrow> 143 < unat b" "b > 0xf4 \<longleftrightarrow> 244 < unat b"
  "b = 0 \<longleftrightarrow> unat b = 0" "b = 0xe0 \<longleftrightarrow> unat b = 224" "b = 0xed \<longleftrightarrow> unat b = 237" "b = 0xef \<longleftrightarrow> unat b = 239"
  "b = 0xbf \<longleftrightarrow> unat b = 191" "b = 0xf0 \<longleftrightarrow> unat b = 240" "b = 0xf4 \<longleftrightarrow> unat b = 244"
  by (simp_all add: word_less_nat_alt word_unat_eq_iff)

lemmas utf8_tests = mask_ranges byte_orders

section \<open>The code accepts exactly the encodings\<close>

text \<open>A group the code accepts, as numbers.\<close>

definition group :: "nat list \<Rightarrow> bool" where
  "group ns =
     (case ns of
        [a] \<Rightarrow> 0 < a \<and> a < 128
      | [a, b] \<Rightarrow> 194 \<le> a \<and> a < 224 \<and> 128 \<le> b \<and> b < 192
      | [a, b, c] \<Rightarrow> 224 \<le> a \<and> a < 240 \<and> 128 \<le> b \<and> b < 192 \<and> 128 \<le> c \<and> c < 192 \<and> \<not> (a = 224 \<and> b < 160) \<and>
          \<not> (a = 237 \<and> 160 \<le> b) \<and> \<not> (a = 239 \<and> b = 191 \<and> 190 \<le> c)
      | [a, b, c, d] \<Rightarrow> 240 \<le> a \<and> a < 245 \<and> 128 \<le> b \<and> b < 192 \<and> 128 \<le> c \<and> c < 192 \<and> 128 \<le> d \<and> d < 192 \<and>
          \<not> (a = 240 \<and> b < 144) \<and> \<not> (a = 244 \<and> 143 < b)
      | _ \<Rightarrow> False)"

text \<open>Characters by their digits to base 64.\<close>

lemma div_64s: "(c :: nat) div 4096 = c div 64 div 64" "c div 262144 = c div 64 div 64 div 64"
  by (simp_all flip: div_mult2_eq)

lemma digit_64: "z < 64 \<Longrightarrow> (p * 64 + z) div 64 = p" "z < 64 \<Longrightarrow> (p * 64 + z) mod 64 = (z :: nat)"
  by simp_all

lemma flat_64: "((x * 64 + y) * 64 + z) * 64 + w = x * 262144 + y * 4096 + z * 64 + (w :: nat)"
  by simp

lemma digits_64:
  obtains x y z w :: nat where "y < 64" "z < 64" "w < 64" "c = x * 262144 + y * 4096 + z * 64 + w"
proof (rule that)
  have "c = ((c div 64 div 64 div 64 * 64 + c div 64 div 64 mod 64) * 64 + c div 64 mod 64) * 64 + c mod 64"
    by (simp add: div_mult_mod_eq)
  also have "\<dots> = c div 64 div 64 div 64 * 262144 + c div 64 div 64 mod 64 * 4096 + c div 64 mod 64 * 64 + c mod 64"
    by (rule flat_64)
  finally show "c = c div 64 div 64 div 64 * 262144 + c div 64 div 64 mod 64 * 4096 + c div 64 mod 64 * 64 + c mod 64" .
qed simp_all

lemma digits_of:
  assumes "c = x * 262144 + y * 4096 + z * 64 + w" and "y < 64" and "z < 64" and "w < (64 :: nat)"
  shows "c div 64 div 64 div 64 = x" "c div 64 div 64 mod 64 = y" "c div 64 mod 64 = z" "c mod 64 = w"
    "c div 64 div 64 = x * 64 + y" "c div 64 = (x * 64 + y) * 64 + z"
proof -
  have c: "c = ((x * 64 + y) * 64 + z) * 64 + w" using assms(1) by simp
  show "c div 64 div 64 div 64 = x" "c div 64 div 64 mod 64 = y" "c div 64 mod 64 = z" "c mod 64 = w"
    "c div 64 div 64 = x * 64 + y" "c div 64 = (x * 64 + y) * 64 + z"
    unfolding c using assms(2-4) by (simp_all only: digit_64)
qed

lemma units_of_digits:
  assumes "c = x * 262144 + y * 4096 + z * 64 + w" and "y < 64" and "z < 64" and "w < (64 :: nat)"
  shows "x = 0 \<Longrightarrow> y = 0 \<Longrightarrow> 2 \<le> z \<Longrightarrow> z < 32 \<Longrightarrow> utf8_units c = [0xC0 + z, 0x80 + w]"
    and "x = 0 \<Longrightarrow> 32 \<le> y * 64 + z \<Longrightarrow> y < 16 \<Longrightarrow> utf8_units c = [0xE0 + y, 0x80 + z, 0x80 + w]"
    and "16 \<le> x * 64 + y \<Longrightarrow> utf8_units c = [0xF0 + x, 0x80 + y, 0x80 + z, 0x80 + w]"
  unfolding utf8_units_def div_64s
  unfolding digits_of(1-4) [OF assms]
  unfolding digits_of(5) [OF assms]
  unfolding digits_of(6) [OF assms]
  using assms by auto

lemma group_units:
  assumes "text_char c"
  shows "group (utf8_units c)"
proof -
  obtain x y z w where d: "y < 64" "z < 64" "w < 64" "c = x * 262144 + y * 4096 + z * 64 + w"
    by (rule digits_64)
  note units = units_of_digits [OF d(4,1,2,3)]
  consider "c < 0x80" | "0x80 \<le> c" "c < 0x800" | "0x800 \<le> c" "c < 0x10000" | "0x10000 \<le> c" by linarith
  then show ?thesis
  proof cases
    case 1
    then show ?thesis using assms by (simp add: utf8_units_def group_def text_char_def)
  next
    case 2
    then have xy: "x < 1" "y < 1" using d by - linarith+
    then have "2 \<le> z" "z < 32" using 2 d by - linarith+
    with xy show ?thesis using units(1) d by (simp add: group_def)
  next
    case 3
    then have xy: "x < 1" "y < 16" using d by - linarith+
    then have "32 \<le> y * 64 + z" using 3 d by - linarith+
    with xy show ?thesis using units(2) assms d by (simp add: group_def text_char_def) linarith?
  next
    case 4
    then have "16 \<le> x * 64 + y" using d by linarith
    then show ?thesis using units(3) assms d by (simp add: group_def text_char_def) linarith?
  qed
qed

text \<open>The tests of three bytes leave out the surrogates and the two noncharacters.\<close>

lemma text_char_3:
  assumes "y < 16" and "z < 64" and "w < 64" and "32 \<le> y * 64 + z" and "\<not> (y = 13 \<and> 32 \<le> z)"
    and "\<not> (y = 15 \<and> z = 63 \<and> 62 \<le> w)"
  shows "text_char (y * 4096 + z * 64 + w)"
proof -
  have range: "2048 \<le> y * 4096 + z * 64 + w" "y * 4096 + z * 64 + w < 65536" using assms by - linarith+
  consider "y \<le> 12" | "y = 13" "z < 32" | "y = 14" | "y = 15" "z \<le> 62" | "y = 15" "z = 63" "w < 62"
    using assms by linarith
  then have "(y * 4096 + z * 64 + w < 55296 \<or> 57344 \<le> y * 4096 + z * 64 + w) \<and> y * 4096 + z * 64 + w < 65534"
    using assms(2,3) by cases auto
  with range show ?thesis unfolding text_char_def by linarith
qed

lemma group_is_units:
  assumes "group ns"
  obtains c where "text_char c" and "utf8_units c = ns"
proof -
  consider a where "ns = [a]" | a b where "ns = [a, b]" | a b c where "ns = [a, b, c]"
    | a b c d where "ns = [a, b, c, d]"
    using assms by (auto simp: group_def split: list.splits)
  then show ?thesis
  proof cases
    case 1
    then show ?thesis using assms by (intro that [of a]) (simp_all add: group_def text_char_def utf8_units_def)
  next
    case 2
    define z w c where "z = a - 192" and "w = b - 128" and "c = z * 64 + w"
    then have n: "a = 192 + z" "b = 128 + w" "2 \<le> z" "z < 32" "w < 64" using assms 2 by (auto simp: group_def)
    then have "utf8_units c = ns" using 2 units_of_digits(1) [of c 0 0 z w] by (simp add: c_def)
    moreover have "text_char c" using n unfolding text_char_def c_def by linarith
    ultimately show ?thesis using that by blast
  next
    case 3
    define y z w where "y = a - 224" and "z = b - 128" and "w = c - 128"
    then have n: "a = 224 + y" "b = 128 + z" "c = 128 + w" "y < 16" "z < 64" "w < 64" "32 \<le> y * 64 + z"
        "\<not> (y = 13 \<and> 32 \<le> z)" "\<not> (y = 15 \<and> z = 63 \<and> 62 \<le> w)"
      using assms 3 by (auto simp: group_def)
    then have "utf8_units (y * 4096 + z * 64 + w) = ns" using 3 units_of_digits(2) [of _ 0 y z w] by simp
    moreover have "text_char (y * 4096 + z * 64 + w)" using n(4-9) by (rule text_char_3)
    ultimately show ?thesis using that by blast
  next
    case 4
    define x y z w where "x = a - 240" and "y = b - 128" and "z = c - 128" and "w = d - 128"
    then have n: "a = 240 + x" "b = 128 + y" "c = 128 + z" "d = 128 + w" "y < 64" "z < 64" "w < 64" "16 \<le> x * 64 + y"
        "x * 64 + y < 272"
      using assms 4 by (auto simp: group_def)
    then have "utf8_units (x * 262144 + y * 4096 + z * 64 + w) = ns" using 4 units_of_digits(3) [of _ x y z w] by simp
    moreover have "65536 \<le> x * 262144 + y * 4096 + z * 64 + w" "x * 262144 + y * 4096 + z * 64 + w < 1114112"
      using n(6-9) by - linarith+
    then have "text_char (x * 262144 + y * 4096 + z * 64 + w)" unfolding text_char_def by linarith
    ultimately show ?thesis using that by blast
  qed
qed

subsection \<open>One step of the loop\<close>

lemma char_at_append: "k < length g \<Longrightarrow> char_at (g @ t) k = g ! k"
  by (simp add: char_at_def nth_append)

lemma unat_of_small: "n < 256 \<Longrightarrow> unat (of_nat n :: byte) = n"
  by (simp add: unat_of_nat take_bit_nat_eq_self)

lemma group_iff:
  "group [a] \<longleftrightarrow> 0 < a \<and> a < 128"
  "group [a, b] \<longleftrightarrow> 194 \<le> a \<and> a < 224 \<and> 128 \<le> b \<and> b < 192"
  "group [a, b, c] \<longleftrightarrow> 224 \<le> a \<and> a < 240 \<and> 128 \<le> b \<and> b < 192 \<and> 128 \<le> c \<and> c < 192 \<and> \<not> (a = 224 \<and> b < 160) \<and>
     \<not> (a = 237 \<and> 160 \<le> b) \<and> \<not> (a = 239 \<and> b = 191 \<and> 190 \<le> c)"
  "group [a, b, c, d] \<longleftrightarrow> 240 \<le> a \<and> a < 245 \<and> 128 \<le> b \<and> b < 192 \<and> 128 \<le> c \<and> c < 192 \<and> 128 \<le> d \<and> d < 192 \<and>
     \<not> (a = 240 \<and> b < 144) \<and> \<not> (a = 244 \<and> 143 < b)"
  by (simp_all add: group_def)

text \<open>The tests on the bytes ask for a group at the front.\<close>

lemma validate_step:
  fixes s :: "byte list"
  defines "n k \<equiv> unat (char_at s k)"
  shows "pb_validate_utf8 s =
     (if n 0 = 0 then True
      else if group [n 0] then pb_validate_utf8 (drop 1 s)
      else if group [n 0, n 1] then pb_validate_utf8 (drop 2 s)
      else if group [n 0, n 1, n 2] then pb_validate_utf8 (drop 3 s)
      else group [n 0, n 1, n 2, n 3] \<and> pb_validate_utf8 (drop 4 s))"
proof -
  have v: "pb_validate_utf8 s =
     (if n 0 = 0 then True
      else if n 0 < 128 then pb_validate_utf8 (drop 1 s)
      else if 192 \<le> n 0 \<and> n 0 < 224 then
        if \<not> (128 \<le> n 1 \<and> n 1 < 192) \<or> 192 \<le> n 0 \<and> n 0 < 194 then False else pb_validate_utf8 (drop 2 s)
      else if 224 \<le> n 0 \<and> n 0 < 240 then
        if \<not> (128 \<le> n 1 \<and> n 1 < 192) \<or> \<not> (128 \<le> n 2 \<and> n 2 < 192) \<or> (n 0 = 224 \<and> 128 \<le> n 1 \<and> n 1 < 160) \<or>
           (n 0 = 237 \<and> 160 \<le> n 1 \<and> n 1 < 192) \<or> (n 0 = 239 \<and> n 1 = 191 \<and> 190 \<le> n 2 \<and> n 2 < 192) then False
        else pb_validate_utf8 (drop 3 s)
      else if 240 \<le> n 0 \<and> n 0 < 248 then
        if \<not> (128 \<le> n 1 \<and> n 1 < 192) \<or> \<not> (128 \<le> n 2 \<and> n 2 < 192) \<or> \<not> (128 \<le> n 3 \<and> n 3 < 192) \<or>
           (n 0 = 240 \<and> 128 \<le> n 1 \<and> n 1 < 144) \<or> (n 0 = 244 \<and> 143 < n 1) \<or> 244 < n 0 then False
        else pb_validate_utf8 (drop 4 s)
      else False)"
    by (subst pb_validate_utf8.simps) (simp only: Let_def mask_ranges, simp only: byte_orders n_def)
  consider "n 0 = 0" | "0 < n 0" "n 0 < 128" | "128 \<le> n 0" "n 0 < 192" | "192 \<le> n 0" "n 0 < 194" | "194 \<le> n 0" "n 0 < 224"
    | "224 \<le> n 0" "n 0 < 240" | "240 \<le> n 0" "n 0 < 245" | "245 \<le> n 0" "n 0 < 248" | "248 \<le> n 0" by linarith
  then show ?thesis
    by cases (simp_all add: v group_iff, (argo | blast)+)
qed

text \<open>An accepted group is passed over, and what is accepted is at its end or starts with a group.\<close>

lemma validate_group:
  assumes "group ns"
  shows "pb_validate_utf8 (map of_nat ns @ t) = pb_validate_utf8 t"
proof -
  consider a where "ns = [a]" | a b where "ns = [a, b]" | a b c where "ns = [a, b, c]"
    | a b c d where "ns = [a, b, c, d]"
    using assms by (auto simp: group_def split: list.splits)
  then show ?thesis
    by cases (use assms in \<open>simp_all add: validate_step [of "_ # _"] char_at_def unat_of_small group_iff\<close>)
qed

lemma front_bytes:
  assumes "\<forall>k < m. char_at s k \<noteq> 0"
  shows "s = map of_nat (map (\<lambda>k. unat (char_at s k)) [0..<m]) @ drop m s"
proof -
  have "m \<le> length s"
  proof (rule ccontr)
    assume "\<not> m \<le> length s"
    then have "char_at s (length s) \<noteq> 0" using assms by simp
    then show False by (simp add: char_at_def)
  qed
  then have "map of_nat (map (\<lambda>k. unat (char_at s k)) [0..<m]) = take m s"
    by (intro nth_equalityI) (simp_all add: char_at_def)
  then show ?thesis by (metis append_take_drop_id)
qed

lemma group_nonzero: "group ns \<Longrightarrow> n \<in> set ns \<Longrightarrow> 0 < n \<and> n < 256"
  by (auto simp: group_def split: list.splits)

lemma validate_split:
  assumes "pb_validate_utf8 s" and "char_at s 0 \<noteq> 0"
  obtains ns t where "group ns" and "s = map of_nat ns @ t" and "pb_validate_utf8 t"
proof -
  obtain m where m: "group (map (\<lambda>k. unat (char_at s k)) [0..<m])" "pb_validate_utf8 (drop m s)"
  proof -
    have n0: "unat (char_at s 0) \<noteq> 0" using assms(2) by (simp add: unsigned_eq_0_iff)
    have upts: "[0..<1] = [0]" "[0..<2] = [0, 1]" "[0..<3] = [0, 1, 2]" "[0..<4] = [0, 1, 2, 3]" by code_simp+
    show ?thesis
      using assms(1) n0 that [of 1] that [of 2] that [of 3] that [of 4] unfolding validate_step [of s] upts
      by (simp split: if_splits)
  qed
  have "char_at s k \<noteq> 0" if "k < m" for k
    using group_nonzero [OF m(1), of "unat (char_at s k)"] that by auto
  then show ?thesis using that [OF m(1) front_bytes m(2)] by blast
qed

lemma validate_end: "char_at s 0 = 0 \<Longrightarrow> pb_validate_utf8 s"
  by (simp add: validate_step [of s])

section \<open>Equivalence\<close>

lemma validate_encoded:
  assumes "list_all text_char cs" and "char_at t 0 = 0"
  shows "pb_validate_utf8 (concat (map utf8_encode cs) @ t)"
  using assms(1)
  by (induction cs) (simp_all add: validate_end [OF assms(2)] utf8_encode_def validate_group group_units)

lemma cstr_append:
  assumes "\<forall>b \<in> set g. b \<noteq> 0"
  shows "cstr (g @ t) = g @ cstr t"
  using assms by (simp add: cstr_def takeWhile_append2)

lemma encode_nonzero: "text_char c \<Longrightarrow> b \<in> set (utf8_encode c) \<Longrightarrow> b \<noteq> 0"
  using group_nonzero [OF group_units, of c]
  by (auto simp: utf8_encode_def) (metis less_numeral_extra(3) unat_of_small unsigned_0)

lemma validate_decodes:
  assumes "pb_validate_utf8 s"
  shows "\<exists>cs. list_all text_char cs \<and> cstr s = concat (map utf8_encode cs)"
  using assms
proof (induction "length s" arbitrary: s rule: less_induct)
  case less
  show ?case
  proof (cases "char_at s 0 = 0")
    case True
    then have "cstr s = []" by (cases s) (simp_all add: char_at_def cstr_def)
    then show ?thesis by (intro exI [of _ "[]"]) simp
  next
    case False
    then obtain ns t where s: "group ns" "s = map of_nat ns @ t" "pb_validate_utf8 t"
      using validate_split [OF less.prems] by blast
    then obtain c where c: "text_char c" "utf8_units c = ns" using group_is_units by blast
    have "ns \<noteq> []" using s(1) by (auto simp: group_def)
    then obtain cs where cs: "list_all text_char cs" "cstr t = concat (map utf8_encode cs)"
      using less.hyps [of t] s by auto
    have "cstr s = utf8_encode c @ cstr t"
      using encode_nonzero [OF c(1)] by (simp add: s(2) cstr_append utf8_encode_def c(2))
    with c cs show ?thesis by (intro exI [of _ "c # cs"]) simp
  qed
qed

text \<open>
  C21. \<open>pb_validate_utf8\<close> accepts exactly the C strings that are the UTF-8 encoding of a sequence of Unicode
  characters: code points up to 10FFFF in their shortest form, without surrogates and without FFFE and FFFF.
\<close>

theorem validate_utf8_iff:
  "pb_validate_utf8 s \<longleftrightarrow> (\<exists>cs. list_all text_char cs \<and> cstr s = concat (map utf8_encode cs))"
proof
  assume "\<exists>cs. list_all text_char cs \<and> cstr s = concat (map utf8_encode cs)"
  then obtain cs where cs: "list_all text_char cs" "cstr s = concat (map utf8_encode cs)" by blast
  have s: "s = cstr s @ dropWhile (\<lambda>b. b \<noteq> 0) s" by (simp add: cstr_def)
  have "char_at (dropWhile (\<lambda>b. b \<noteq> 0) s) 0 = 0"
    using hd_dropWhile [of "\<lambda>b. b \<noteq> 0" s] by (auto simp: char_at_def hd_conv_nth)
  then show "pb_validate_utf8 s" using validate_encoded [OF cs(1)] cs(2) s by metis
qed (rule validate_decodes)

end
