(* ===== verification/StartProps.thy ===== *)
theory StartProps
  imports ConfigProps
begin

text \<open>
  What a call of \<open>aetus_start\<close> leaves behind, on every path: a refused start changes nothing, one that passes the checks
  replaces the context, and as soon as the queue exists no later start can succeed, whether this one did or not.
\<close>

section \<open>The objects\<close>

lemma led_keeps_ctx: "run_state (configure_connected_led P) s = (e, s') \<Longrightarrow> s_ctx s' = s_ctx s"
  by (auto simp: configure_connected_led_def run_simps Let_def split: if_splits prod.splits)

lemma start_objects_ok:
  assumes "run_state (start_objects P) s = (ESP_OK, s')"
  shows "cx_queue (s_ctx s') \<noteq> 0 \<and> cx_events (s_ctx s') \<noteq> 0 \<and> cx_upload_timer (s_ctx s') \<noteq> 0"
  using assms led_keeps_ctx
  by (fastforce simp: start_objects_def run_simps Let_def split: if_splits prod.splits)

text \<open>A start that gets as far as the objects, with the number it drew.\<close>

lemma start_passes:
  assumes "run_state (aetus_start P (Some c)) s = (err, s')" and "list_all fst (start_checks c (cx_queue (s_ctx s)))"
  obtains r w where "run_state (start_objects P) (s\<lparr>s_world := w, s_ctx := start_ctx c r\<rparr>) = (err, s')"
  using assms no_failed_check [of "start_checks c (cx_queue (s_ctx s))"]
  by (cases "esp_random P (s_world s)") (auto simp: aetus_start_def run_checks run_bind run_steps)

lemma start_stored:
  "cx_config (start_ctx c r) =
     c\<lparr>upload_interval_ms := (if upload_interval_ms c = 0 then 600000 else upload_interval_ms c),
       queue_depth := (if queue_depth c = 0 then 16 else queue_depth c)\<rparr>"
  by (simp add: start_ctx_def Let_def AETUS_UPLOAD_DEFAULT_INTERVAL_MS_def)

lemma start_refused:
  assumes "\<not> list_all fst (start_checks c (cx_queue (s_ctx s)))"
  obtains e where "e \<in> {ESP_ERR_INVALID_ARG, ESP_ERR_INVALID_STATE}" and "run_state (aetus_start P (Some c)) s = (e, s)"
proof -
  obtain b e where f: "find (\<lambda>(c, e). \<not> c) (start_checks c (cx_queue (s_ctx s))) = Some (b, e)"
    using assms no_failed_check [of "start_checks c (cx_queue (s_ctx s))"] by auto
  then have "e \<in> {ESP_ERR_INVALID_ARG, ESP_ERR_INVALID_STATE}"
    using failed_check [OF f] by (auto simp: start_checks_def split: if_splits)
  then show ?thesis using f by (intro that) (simp_all add: aetus_start_def run_checks run_bind run_steps)
qed

lemma start_again:
  assumes "cx_queue (s_ctx s) \<noteq> 0"
  shows "fst (run_state (aetus_start P config) s) \<in> {ESP_ERR_INVALID_ARG, ESP_ERR_INVALID_STATE} \<and>
    snd (run_state (aetus_start P config) s) = s"
proof (cases config)
  case None
  then show ?thesis by (simp add: aetus_start_def run_simps)
next
  case (Some c)
  have "\<not> list_all fst (start_checks c (cx_queue (s_ctx s)))" using assms by (simp add: start_checks_def)
  then show ?thesis using Some start_refused by (metis fst_conv snd_conv)
qed

text \<open>
  C30. \<open>aetus_start\<close> on every path. A call without a configuration or with one that fails a check, the check that the
  device is not running included, is refused with the code of the reason and changes nothing. Any other call stores
  the configuration with its defaults, and returns \<open>ESP_OK\<close> only with queue, event group and timer in place.
  Once a call has left a queue behind, whether it returned \<open>ESP_OK\<close> or not, every later start is refused.
\<close>

theorem start_outcome:
  assumes "run_state (aetus_start P config) s = (err, s')"
  shows "(case config of
      None \<Rightarrow> err = ESP_ERR_INVALID_ARG \<and> s' = s
    | Some c \<Rightarrow>
        if list_all fst (start_checks c (cx_queue (s_ctx s))) then
          cx_config (s_ctx s') =
            c\<lparr>upload_interval_ms := (if upload_interval_ms c = 0 then 600000 else upload_interval_ms c),
              queue_depth := (if queue_depth c = 0 then 16 else queue_depth c)\<rparr> \<and>
          (err = ESP_OK \<longrightarrow> cx_queue (s_ctx s') \<noteq> 0 \<and> cx_events (s_ctx s') \<noteq> 0 \<and> cx_upload_timer (s_ctx s') \<noteq> 0)
        else err \<in> {ESP_ERR_INVALID_ARG, ESP_ERR_INVALID_STATE} \<and> s' = s) \<and>
    (cx_queue (s_ctx s') \<noteq> 0 \<longrightarrow>
      (\<forall>Q c. fst (run_state (aetus_start Q c) s') \<in> {ESP_ERR_INVALID_ARG, ESP_ERR_INVALID_STATE} \<and>
             snd (run_state (aetus_start Q c) s') = s'))"
proof (intro conjI impI allI)
  show "case config of
      None \<Rightarrow> err = ESP_ERR_INVALID_ARG \<and> s' = s
    | Some c \<Rightarrow>
        if list_all fst (start_checks c (cx_queue (s_ctx s))) then
          cx_config (s_ctx s') =
            c\<lparr>upload_interval_ms := (if upload_interval_ms c = 0 then 600000 else upload_interval_ms c),
              queue_depth := (if queue_depth c = 0 then 16 else queue_depth c)\<rparr> \<and>
          (err = ESP_OK \<longrightarrow> cx_queue (s_ctx s') \<noteq> 0 \<and> cx_events (s_ctx s') \<noteq> 0 \<and> cx_upload_timer (s_ctx s') \<noteq> 0)
        else err \<in> {ESP_ERR_INVALID_ARG, ESP_ERR_INVALID_STATE} \<and> s' = s"
  proof (cases config)
    case None
    with assms show ?thesis by (simp add: aetus_start_def run_simps)
  next
    case (Some c)
    show ?thesis
    proof (cases "list_all fst (start_checks c (cx_queue (s_ctx s)))")
      case True
      obtain r w where o: "run_state (start_objects P) (s\<lparr>s_world := w, s_ctx := start_ctx c r\<rparr>) = (err, s')"
        using start_passes [OF assms [unfolded Some] True] by blast
      from stepsD [OF keeps_config_objects o] start_objects_ok o True Some show ?thesis by (auto simp: start_stored)
    next
      case False
      with assms Some show ?thesis using start_refused [of c s P] by fastforce
    qed
  qed
qed (use start_again in blast)+

text \<open>A device whose task cannot be created: the start fails and leaves a queue, and no start succeeds from then on.\<close>

definition taskless :: "sim platform" where
  "taskless = (sim_platform 9 4)\<lparr>xTaskCreate := nop False\<rparr>"

lemma taskless_start:
  "run_state (aetus_start taskless (Some sim_config)) sim_boot = (err, s') \<Longrightarrow>
    err = ESP_ERR_NO_MEM \<and> cx_queue (s_ctx s') = 1"
  by (auto simp: aetus_start_def start_objects_def start_checks_def sim_boot_def sim_config_def zero_ctx_def run_checks
      run_bind run_steps run_return_on c_defs string_required_fits_def string_fits_def taskless_def sim_platform_def nop_def
      start_ctx_def configure_connected_led_def Let_def)

theorem start_outcome_witness:
  "\<exists>s'. run_state (aetus_start taskless (Some sim_config)) sim_boot = (ESP_ERR_NO_MEM, s') \<and> cx_queue (s_ctx s') = 1 \<and>
     (\<forall>c. fst (run_state (aetus_start (sim_platform 9 4) c) s') \<noteq> ESP_OK)"
proof -
  obtain err s' where r: "run_state (aetus_start taskless (Some sim_config)) sim_boot = (err, s')"
    by (cases "run_state (aetus_start taskless (Some sim_config)) sim_boot")
  have "fst (run_state (aetus_start (sim_platform 9 4) c) s') \<noteq> ESP_OK" for c
  proof -
    have "fst (run_state (aetus_start (sim_platform 9 4) c) s') \<in> {ESP_ERR_INVALID_ARG, ESP_ERR_INVALID_STATE}"
      using start_outcome [OF r] taskless_start [OF r] by simp
    then show ?thesis by auto
  qed
  with r taskless_start [OF r] show ?thesis by (intro exI [of _ s']) simp
qed

end
