(* ===== verification/Spec2Isabelle.thy ===== *)
theory Spec2Isabelle
  imports PbProps TelemetryProps QueueItemProps SamplePool SignalFrame IngestPb SignalEncodeProps Auth TimeProps
    RuntimeProps Deliver SyncProps ProvisioningRuns CppProps IngestDesc PbUtf8 StartProps
begin

text \<open>
  A verification library for the Aetus firmware component: the ESP32 library under \<open>src/firmware/esp32-aetus/components\<close>
  that collects telemetry, signal frames and device status, queues them, encodes them as protobuf and uploads them over
  HTTP.

  \<^bold>\<open>The program.\<close> Producer tasks and interrupts fill telemetry objects, signal frames or a status
  (\<open>aetus.c\<close>, with a C++ face in \<open>include/aetus.hpp\<close>) and enqueue them: telemetry is deep-copied into a queue item
  (\<open>aetus_queue_item.c\<close>), samples of a frame into a block of the sample pool (\<open>aetus_signal_sample_pool.c\<close>). The uploader
  task waits for its timer or a flush, brings up Wi-Fi, takes items off the FreeRTOS queue, encodes each with nanopb
  (\<open>nanopb/pb_encode.c\<close>, messages of \<open>include/ingest.pb.h\<close>), signs the request and posts it; a failed upload
  goes back to the front, or is dropped when there is no room. The clock can be set from the server's time. The configuration is given at the start, updated by a
  call, or edited over Bluetooth LE (\<open>aetus_provisioning.c\<close>).

  \<^bold>\<open>The model.\<close> Machine integers are words of their C width, memory is bytes, C strings are byte lists up to a
  zero; a possibly null pointer is an option. Heap blocks live in an explicit store (\<open>heap\<close> of \<open>AetusTypes\<close>) that
  records double frees and uses after release, and every allocation may fail. The runtime is written in the state
  monad over \<open>sys\<close> of \<open>Platform\<close>: the static context, the heap, the test hooks and a world. FreeRTOS, drivers, HTTP client, mbedTLS
  and NimBLE are code outside the repository: their calls are fields of \<open>platform\<close>, \<open>md_api\<close> and \<open>ble\<close>, and what the theorems
  need of them is a named hypothesis or a locale, met by the simulated platform of \<open>SimPlatform\<close>, on which the
  witnesses run. Interleaving is at the granularity of one API call, one upload round or one event; that other tasks may fill the
  queue while an upload runs shows as a put-back that is refused.

  \<^bold>\<open>The theories\<close>, from the bottom:
  \<^item> \<open>Prelude\<close>, \<open>AetusTypes\<close>, \<open>AetusStrings\<close>: words, C strings, the structs and enums of \<open>aetus.h\<close> and
    \<open>aetus_internal.h\<close>, the heap, the string helpers of \<open>aetus.c\<close>.
  \<^item> \<open>Telemetry\<close> and \<open>TelemetryProps\<close>: the telemetry builder. Every add refines the list of metrics the caller means, the
    result codes are characterised, and init, adds and deinit restore the heap.
  \<^item> \<open>QueueItem\<close> and \<open>QueueItemProps\<close>: copy and release of queue items. A copy is deep and its release restores the heap;
    a failed copy frees blobs of its caller, which is a bug of the code.
  \<^item> \<open>SamplePool\<close>, \<open>SignalFrame\<close>: the pool counts exactly its live blocks and leaks nothing; frames are validated against an
    exact specification without wrap-around.
  \<^item> \<open>PbStream\<close>, \<open>PbVarint\<close>, \<open>PbEncode\<close>: nanopb's streams, scalar encoders and message encoder; \<open>PbWire\<close> and
    \<open>PbProps\<close>: the encoder implements the wire format within its buffer, the size pass predicts it, varints round-trip.
  \<^item> \<open>PbDesc\<close>, \<open>PbIter\<close>: the packed field infos of \<open>pb.h\<close> and the field iterator of \<open>pb_common.c\<close>; \<open>PbIterProps\<close>,
    \<open>PbWalk\<close>: packing loses nothing, a walk visits the fields in order, the searches end and find what there is (locale
    \<open>cyclic_search\<close>). \<open>IngestDesc\<close>: the descriptor tables of \<open>ingest.pb.c\<close>, whose walk sees exactly the fields
    \<open>IngestPb\<close> gives the encoder. \<open>PbUtf8\<close>: the UTF-8 check accepts exactly the encodings of Unicode texts.
  \<^item> \<open>IngestPb\<close>, \<open>IngestWire\<close>, \<open>EncodeEvent\<close>, \<open>EncodeWire\<close>, \<open>EventDecode\<close>, \<open>EncodeProps\<close>, \<open>SignalEncodeProps\<close>: the
    ingest messages, the filling of an event from a queue item, and that an independent protobuf reader finds in the encoded
    bytes what was enqueued.
  \<^item> \<open>Auth\<close>: the signature header is the HMAC of the documented text. \<open>TimeSync\<close>, \<open>TimeProps\<close>, \<open>SyncProps\<close>: the body buffer,
    URL, parser and clock, and the synchronisation end to end.
  \<^item> \<open>Platform\<close>, \<open>Wifi\<close>, \<open>Uploader\<close>, \<open>Api\<close>: the runtime of \<open>aetus.c\<close>, one definition per function.
  \<^item> \<open>RuntimeFrame\<close>, \<open>RuntimeInv\<close>, \<open>Drain\<close>, \<open>Enqueue\<close>, \<open>Runtime\<close>, \<open>SimPlatform\<close>, \<open>RuntimeProps\<close>, \<open>Deliver\<close>: frame rules for
    programs, the ownership invariant of the queue, the contract \<open>task_queue\<close> of the FreeRTOS queue, under which any send
    may be refused, the runtime as a step relation whose reachable states are memory-safe as long as no object passed to the
    enqueue functions shares a block with the queue, termination of a drain with the fate of every item it takes (uploaded, not
    encodable, put back, dropped), and delivery of everything encodable over a working network.
  \<^item> \<open>ConfigProps\<close>, \<open>StartProps\<close>: start and update validate what they store, and a running device keeps that as long as the
    callers, whose string pointers are stored, keep their strings valid; what every path of
    a start leaves behind, with the bug that a start which fails late cannot be repeated.
  \<^item> \<open>Provisioning\<close>, \<open>ProvisioningProps\<close>, \<open>ProvisioningRuns\<close>: the GATT service. Writes mean exactly their text, buffers stay
    terminated, secrets are unreadable, the disconnect timer follows the connection; the string pointers that pending and
    running configuration share are modelled, and with them that writes after an apply bypass validation.
  \<^item> \<open>CppWrapper\<close>, \<open>CppProps\<close>: the C++ classes; a chain of adds is all or an error, and the destructor restores the heap.

  \<^bold>\<open>Bounds.\<close> Structural recursion and \<open>fun\<close> with measures throughout. The drain loop, which ends because the
  queue runs empty or an upload fails, and the loops over the field iterator, which end after one turn around the message,
  are \<open>partial_function\<close>s in \<open>option\<close>; that they return are theorems. A message has fewer than 65535 fields, so
  that the 16-bit index of the iterator does not wrap. The queue depth
  times the largest frame stays below the width of the pool's counters (\<open>depth * 2400 + 2400 < 2^32\<close>), a hypothesis of the theorems on
  signal frames.

  \<^bold>\<open>Not modelled.\<close> The memory of a message: the encoder is modelled on a list of fields with their contents, and
  \<open>IngestDesc\<close> ties its headers, not its bytes, to the iterator. Code that other options of nanopb
  would compile (\<open>PB_WITHOUT_64BIT\<close>, \<open>PB_CONVERT_DOUBLE_FLOAT\<close>, \<open>PB_FIELD_32BIT\<close>). Log output; the variants under
  \<open>CONFIG_AETUS_TEST_NO_NETWORK\<close>; preemption inside an API call and data races of the unlocked context; the contents of floating-point
  numbers, which are their bits. The test applications, examples, services, clients and frontends are other programs.
\<close>

end
